(* ===== verification/Prelude.thy ===== *)
theory Prelude
  imports Main "HOL-Library.Finite_Map" "HOL-Library.Word"
begin

text \<open>
  Shared vocabulary of the development: the outcomes of Rust code (a value, an error, a panic),
  state-passing actions with their sequencing operator, the string functions of the standard
  library the sources call, the iteration order of hash containers, and 64-bit arithmetic.
\<close>

section \<open>Collections of facts\<close>

named_theorems action_simps \<open>unfolding rules of actions and outcomes\<close>
named_theorems model_defs \<open>definitions of small model operations, for unfolding\<close>

section \<open>Outcomes\<close>

text \<open>
  A fallible Rust function returns \<open>Ok\<close> or \<open>Err\<close>; \<open>Panic\<close> stands for a failed
  \<open>unwrap\<close>, \<open>expect\<close>, \<open>assert!\<close> or an arithmetic overflow check.
\<close>

datatype ('a, 'e) outcome = Ok 'a | Err 'e | Panic

fun bind_oc :: "('a, 'e) outcome \<Rightarrow> ('a \<Rightarrow> ('b, 'e) outcome) \<Rightarrow> ('b, 'e) outcome" where
  "bind_oc (Ok x) f = f x"
| "bind_oc (Err e) f = Err e"
| "bind_oc Panic f = Panic"

fun map_err :: "('e \<Rightarrow> 'f) \<Rightarrow> ('a, 'e) outcome \<Rightarrow> ('a, 'f) outcome" where
  "map_err f (Ok x) = Ok x"
| "map_err f (Err e) = Err (f e)"
| "map_err f Panic = Panic"

fun map_ok :: "('a \<Rightarrow> 'b) \<Rightarrow> ('a, 'e) outcome \<Rightarrow> ('b, 'e) outcome" where
  "map_ok f (Ok x) = Ok (f x)"
| "map_ok f (Err e) = Err e"
| "map_ok f Panic = Panic"

text \<open>\<open>Option::ok_or\<close>, and \<open>unwrap\<close>/\<open>expect\<close> on an option.\<close>

fun ok_or :: "'e \<Rightarrow> 'a option \<Rightarrow> ('a, 'e) outcome" where
  "ok_or e None = Err e"
| "ok_or e (Some x) = Ok x"

fun expect :: "'a option \<Rightarrow> ('a, 'e) outcome" where
  "expect None = Panic"
| "expect (Some x) = Ok x"

lemma bind_oc_Ok_iff [simp]: "bind_oc m f = Ok y \<longleftrightarrow> (\<exists>x. m = Ok x \<and> f x = Ok y)"
  by (cases m) auto

lemma bind_oc_Panic_iff [simp]:
  "bind_oc m f = Panic \<longleftrightarrow> m = Panic \<or> (\<exists>x. m = Ok x \<and> f x = Panic)"
  by (cases m) auto

lemma bind_oc_Err_iff:
  "bind_oc m f = Err e \<longleftrightarrow> m = Err e \<or> (\<exists>x. m = Ok x \<and> f x = Err e)"
  by (cases m) auto

lemma map_err_Ok_iff [simp]: "map_err f m = Ok x \<longleftrightarrow> m = Ok x"
  by (cases m) auto

lemma map_err_Panic_iff [simp]: "map_err f m = Panic \<longleftrightarrow> m = Panic"
  by (cases m) auto

lemma map_err_Err_iff: "map_err f m = Err e \<longleftrightarrow> (\<exists>d. m = Err d \<and> e = f d)"
  by (cases m) auto

lemma map_ok_Ok_iff [simp]: "map_ok f m = Ok y \<longleftrightarrow> (\<exists>x. m = Ok x \<and> y = f x)"
  by (cases m) auto

lemma map_ok_Panic_iff [simp]: "map_ok f m = Panic \<longleftrightarrow> m = Panic"
  by (cases m) auto

lemma map_ok_Err_iff: "map_ok f m = Err e \<longleftrightarrow> m = Err e"
  by (cases m) auto

lemma ok_or_Ok_iff [simp]: "ok_or e x = Ok y \<longleftrightarrow> x = Some y"
  by (cases x) auto

lemma ok_or_not_Panic [simp]: "ok_or e x \<noteq> Panic"
  by (cases x) auto

lemma expect_Ok_iff [simp]: "expect x = Ok y \<longleftrightarrow> x = Some y"
  by (cases x) auto

lemma expect_Panic_iff [simp]: "expect x = Panic \<longleftrightarrow> x = None"
  by (cases x) auto

lemma expect_not_Err [simp]: "expect x \<noteq> Err e"
  by (cases x) auto

section \<open>Actions: code that threads a state\<close>

type_synonym ('s, 'a, 'e) action = "'s \<Rightarrow> ('a, 'e) outcome \<times> 's"

definition ret :: "'a \<Rightarrow> ('s, 'a, 'e) action" where
  [action_simps]: "ret x = (\<lambda>s. (Ok x, s))"

definition fail :: "'e \<Rightarrow> ('s, 'a, 'e) action" where
  [action_simps]: "fail e = (\<lambda>s. (Err e, s))"

definition lift_oc :: "('a, 'e) outcome \<Rightarrow> ('s, 'a, 'e) action" where
  [action_simps]: "lift_oc x = (\<lambda>s. (x, s))"

definition bind_ac :: "('s, 'a, 'e) action \<Rightarrow> ('a \<Rightarrow> ('s, 'b, 'e) action) \<Rightarrow> ('s, 'b, 'e) action" where
  "bind_ac m f = (\<lambda>s. case m s of
      (Ok x, s') \<Rightarrow> f x s'
    | (Err e, s') \<Rightarrow> (Err e, s')
    | (Panic, s') \<Rightarrow> (Panic, s'))"

definition err_ac :: "('e \<Rightarrow> 'f) \<Rightarrow> ('s, 'a, 'e) action \<Rightarrow> ('s, 'a, 'f) action" where
  "err_ac f m = (\<lambda>s. case m s of (x, s') \<Rightarrow> (map_err f x, s'))"

lemma ret_apply [simp]: "ret x s = (Ok x, s)"
  by (simp add: ret_def)

lemma fail_apply [simp]: "fail e s = (Err e, s)"
  by (simp add: fail_def)

lemma lift_oc_apply [simp]: "lift_oc x s = (x, s)"
  by (simp add: lift_oc_def)

lemma bind_ac_Ok_iff:
  "bind_ac m f s = (Ok y, s'') \<longleftrightarrow> (\<exists>x s'. m s = (Ok x, s') \<and> f x s' = (Ok y, s''))"
  by (auto simp: bind_ac_def split: prod.splits outcome.splits)

lemma bind_ac_OkE:
  assumes "bind_ac act f s = (Ok y, s'')"
  obtains x m r where "act s = (Ok x, (m, r))" "f x (m, r) = (Ok y, s'')"
  using assms by (auto simp: bind_ac_Ok_iff)

lemma bind_ac_Err_iff:
  "bind_ac m f s = (Err e, s'') \<longleftrightarrow>
     m s = (Err e, s'') \<or> (\<exists>x s'. m s = (Ok x, s') \<and> f x s' = (Err e, s''))"
  by (auto simp: bind_ac_def split: prod.splits outcome.splits)

lemma bind_ac_Panic_iff:
  "bind_ac m f s = (Panic, s'') \<longleftrightarrow>
     m s = (Panic, s'') \<or> (\<exists>x s'. m s = (Ok x, s') \<and> f x s' = (Panic, s''))"
  by (auto simp: bind_ac_def split: prod.splits outcome.splits)

lemma bind_ac_PanicE:
  assumes "bind_ac act f s = (Panic, s'')"
  obtains "act s = (Panic, s'')"
  | x m r where "act s = (Ok x, (m, r))" "f x (m, r) = (Panic, s'')"
  using assms by (auto simp: bind_ac_Panic_iff)

lemma bind_ac_step:
  "m s = (Ok x, s') \<Longrightarrow> bind_ac m f s = f x s'"
  "m s = (Err e, s') \<Longrightarrow> bind_ac m f s = (Err e, s')"
  "m s = (Panic, s') \<Longrightarrow> bind_ac m f s = (Panic, s')"
  by (simp_all add: bind_ac_def)

lemma err_ac_step:
  "m s = (x, s') \<Longrightarrow> err_ac f m s = (map_err f x, s')"
  by (simp add: err_ac_def)

lemma err_ac_Ok_iff [simp]: "err_ac f m s = (Ok x, s') \<longleftrightarrow> m s = (Ok x, s')"
  by (auto simp: err_ac_def split: prod.splits)

text \<open>
  An action keeps a predicate of the state when it holds in the final state whatever the outcome.
  The rules compose along the sequencing operator; they carry the invariant proofs.
\<close>

definition keeps :: "('s \<Rightarrow> bool) \<Rightarrow> ('s, 'a, 'e) action \<Rightarrow> bool" where
  "keeps I m \<longleftrightarrow> (\<forall>s. I s \<longrightarrow> I (snd (m s)))"

lemma keepsI [intro?]: "(\<And>s x s'. I s \<Longrightarrow> m s = (x, s') \<Longrightarrow> I s') \<Longrightarrow> keeps I m"
  by (metis keeps_def prod.collapse)

lemma keeps_pairI:
  "(\<And>m r x m' r'. I (m, r) \<Longrightarrow> act (m, r) = (x, (m', r')) \<Longrightarrow> I (m', r')) \<Longrightarrow> keeps I act"
  by (rule keepsI) (metis prod.collapse)

lemma keepsD: "keeps I m \<Longrightarrow> I s \<Longrightarrow> m s = (x, s') \<Longrightarrow> I s'"
  by (metis keeps_def snd_conv)

lemma keeps_ret [simp]: "keeps I (ret x)"
  and keeps_fail [simp]: "keeps I (fail e)"
  and keeps_lift [simp]: "keeps I (lift_oc z)"
  by (simp_all add: keeps_def)

lemma keeps_bind:
  assumes "keeps I m" and "\<And>x. keeps I (f x)"
  shows "keeps I (bind_ac m f)"
  using assms by (auto simp: keeps_def bind_ac_def split: prod.splits outcome.splits)

lemma keeps_bind_lift:
  assumes "\<And>x. z = Ok x \<Longrightarrow> keeps I (f x)"
  shows "keeps I (bind_ac (lift_oc z) f)"
  using assms by (cases z) (auto simp: keeps_def bind_ac_def)

text \<open>An action that also says something of its result.\<close>

definition ensures :: "('s \<Rightarrow> bool) \<Rightarrow> ('s, 'a, 'e) action \<Rightarrow> ('a \<Rightarrow> bool) \<Rightarrow> bool" where
  "ensures I m P \<longleftrightarrow> (\<forall>s x s'. I s \<longrightarrow> m s = (x, s') \<longrightarrow> I s' \<and> (\<forall>v. x = Ok v \<longrightarrow> P v))"

lemma ensuresI [intro?]:
  "(\<And>s x s'. I s \<Longrightarrow> m s = (x, s') \<Longrightarrow> I s' \<and> (\<forall>v. x = Ok v \<longrightarrow> P v)) \<Longrightarrow> ensures I m P"
  by (simp add: ensures_def)

lemma ensuresD: "ensures I m P \<Longrightarrow> I s \<Longrightarrow> m s = (x, s') \<Longrightarrow> I s' \<and> (\<forall>v. x = Ok v \<longrightarrow> P v)"
  by (simp add: ensures_def)

lemma ensures_keeps: "ensures I m P \<Longrightarrow> keeps I m"
  by (rule keepsI) (blast dest: ensuresD)

lemma ensures_True: "ensures I m (\<lambda>_. True) \<longleftrightarrow> keeps I m"
proof
  show "keeps I m \<Longrightarrow> ensures I m (\<lambda>_. True)"
    by (rule ensuresI) (blast dest: keepsD)
qed (rule ensures_keeps)

lemma ensures_weaken: "ensures I m P \<Longrightarrow> (\<And>x. P x \<Longrightarrow> R x) \<Longrightarrow> ensures I m R"
  by (rule ensuresI) (blast dest: ensuresD)

lemma ensures_bind:
  assumes "ensures I m P" and "\<And>x. P x \<Longrightarrow> ensures I (f x) R"
  shows "ensures I (bind_ac m f) R"
proof (rule ensuresI)
  fix s x s'
  assume I: "I s" and run: "bind_ac m f s = (x, s')"
  obtain y t where m: "m s = (y, t)"
    by (cases "m s")
  note kept = ensuresD [OF assms(1) I m]
  show "I s' \<and> (\<forall>v. x = Ok v \<longrightarrow> R v)"
  proof (cases y)
    case (Ok a)
    then have "f a t = (x, s')"
      using run m by (simp add: bind_ac_def)
    with kept Ok show ?thesis
      using ensuresD [OF assms(2)] by blast
  qed (use run m kept in \<open>auto simp: bind_ac_def\<close>)
qed

lemma ensures_ret: "P x \<Longrightarrow> ensures I (ret x) P"
  by (simp add: ensures_def ret_def)

lemma ensures_fail: "ensures I (fail e) P"
  by (simp add: ensures_def fail_def)

lemma ensures_lift: "(\<And>x. z = Ok x \<Longrightarrow> P x) \<Longrightarrow> ensures I (lift_oc z) P"
  by (simp add: ensures_def)

lemma ensures_read: "(\<And>s x. I s \<Longrightarrow> f s = Ok x \<Longrightarrow> P x) \<Longrightarrow> ensures I (\<lambda>s. (f s, s)) P"
  by (auto simp: ensures_def)

lemma ensures_err: "ensures I m P \<Longrightarrow> ensures I (err_ac g m) P"
  by (rule ensuresI) (auto simp: err_ac_def split: prod.splits dest!: ensuresD)

lemma ensures_bind_any:
  "keeps I m \<Longrightarrow> (\<And>x. ensures I (f x) R) \<Longrightarrow> ensures I (bind_ac m f) R"
  by (rule ensures_bind [where P = "\<lambda>_. True"]) (simp_all add: ensures_True)

lemma keeps_bind_ensures: "ensures I m P \<Longrightarrow> (\<And>x. P x \<Longrightarrow> keeps I (f x)) \<Longrightarrow> keeps I (bind_ac m f)"
  by (metis ensures_True ensures_bind)

lemma ensures_bind_lift:
  "(\<And>x. z = Ok x \<Longrightarrow> ensures I (f x) R) \<Longrightarrow> ensures I (bind_ac (lift_oc z) f) R"
  by (rule ensures_bind [where P = "\<lambda>x. z = Ok x"]) (simp_all add: ensures_lift)

lemma keeps_read: "keeps I (\<lambda>s. (f s, s))"
  by (simp add: keeps_def)

lemma keeps_err: "keeps I m \<Longrightarrow> keeps I (err_ac g m)"
  by (rule keepsI) (auto simp: err_ac_def split: prod.splits dest: keepsD)

section \<open>Strings\<close>

text \<open>
  A Rust string is its sequence of UTF-8 bytes. \<open>split_char\<close> is \<open>str::split\<close> with a
  character pattern, \<open>join_with\<close> is \<open>[S]::join\<close>.
\<close>

type_synonym bytes = "8 word list"

fun split_char :: "char \<Rightarrow> string \<Rightarrow> string list" where
  "split_char c [] = [[]]"
| "split_char c (x # xs) =
     (if x = c then [] # split_char c xs
      else (case split_char c xs of [] \<Rightarrow> [[x]] | y # ys \<Rightarrow> (x # y) # ys))"

fun join_with :: "string \<Rightarrow> string list \<Rightarrow> string" where
  "join_with sep [] = []"
| "join_with sep [x] = x"
| "join_with sep (x # y # ys) = x @ sep @ join_with sep (y # ys)"

fun starts_with :: "string \<Rightarrow> string \<Rightarrow> bool" where
  "starts_with s [] = True"
| "starts_with [] (p # ps) = False"
| "starts_with (c # cs) (p # ps) = (c = p \<and> starts_with cs ps)"

definition as_bytes :: "string \<Rightarrow> bytes" where
  "as_bytes s = map (\<lambda>c. word_of_nat (of_char c)) s"

text \<open>\<open>String::from_utf8\<close>: the bytes themselves when they are well-formed UTF-8 (shortest form, no
  surrogates, at most U+10FFFF).\<close>

definition utf8_cont :: "8 word \<Rightarrow> bool" where
  "utf8_cont b \<longleftrightarrow> 0x80 \<le> b \<and> b \<le> 0xBF"

fun utf8_valid :: "bytes \<Rightarrow> bool" where
  "utf8_valid [] = True"
| "utf8_valid (a # rest) =
     (if a \<le> 0x7F then utf8_valid rest
      else (case rest of [] \<Rightarrow> False | b # rest2 \<Rightarrow>
        if 0xC2 \<le> a \<and> a \<le> 0xDF then utf8_cont b \<and> utf8_valid rest2
        else (case rest2 of [] \<Rightarrow> False | c # rest3 \<Rightarrow>
          if 0xE0 \<le> a \<and> a \<le> 0xEF then
            (if a = 0xE0 then 0xA0 \<le> b \<and> b \<le> 0xBF
             else if a = 0xED then 0x80 \<le> b \<and> b \<le> 0x9F else utf8_cont b)
            \<and> utf8_cont c \<and> utf8_valid rest3
          else (case rest3 of [] \<Rightarrow> False | d # rest4 \<Rightarrow>
            0xF0 \<le> a \<and> a \<le> 0xF4 \<and>
            (if a = 0xF0 then 0x90 \<le> b \<and> b \<le> 0xBF
             else if a = 0xF4 then 0x80 \<le> b \<and> b \<le> 0x8F else utf8_cont b)
            \<and> utf8_cont c \<and> utf8_cont d \<and> utf8_valid rest4))))"

declare utf8_valid.simps(2) [simp del]

definition from_utf8 :: "bytes \<Rightarrow> string option" where
  "from_utf8 bs = (if utf8_valid bs then Some (map (\<lambda>b. char_of (unat b)) bs) else None)"

lemma unat_byte_of_char: "unat (word_of_nat (of_char c) :: 8 word) = of_char c"
  using nat_of_char_less_256 [of c] by (simp add: unat_of_nat)

lemma byte_of_char_of: "word_of_nat (unat b mod 256) = (b :: 8 word)"
proof -
  have "unat b < 256" using unsigned_less [of b] by simp
  then show ?thesis by simp
qed

lemma as_bytes_from_utf8: "from_utf8 bs = Some s \<Longrightarrow> as_bytes s = bs"
  by (auto simp: from_utf8_def as_bytes_def comp_def byte_of_char_of split: if_splits)

lemma from_utf8_as_bytes: "from_utf8 (as_bytes s) = (if utf8_valid (as_bytes s) then Some s else None)"
  by (simp add: from_utf8_def as_bytes_def comp_def unat_byte_of_char)

lemma split_char_not_Nil [simp]: "split_char c xs \<noteq> []"
  by (induction xs) (auto split: list.splits)

lemma split_char_none: "c \<notin> set xs \<Longrightarrow> split_char c xs = [xs]"
  by (induction xs) auto

lemma split_char_append:
  "c \<notin> set xs \<Longrightarrow> split_char c (xs @ c # ys) = xs # split_char c ys"
  by (induction xs) auto

lemma split_join:
  assumes "xs \<noteq> []" and "\<And>x. x \<in> set xs \<Longrightarrow> c \<notin> set x"
  shows "split_char c (join_with [c] xs) = xs"
  using assms
proof (induction "[c]" xs rule: join_with.induct)
  case (3 x y ys)
  have "c \<notin> set x" using 3 by auto
  moreover have "split_char c (join_with [c] (y # ys)) = y # ys" using 3 by auto
  ultimately show ?case by (simp add: split_char_append)
qed (auto simp: split_char_none)

lemma concat_split_char: "concat (split_char c xs) = filter (\<lambda>x. x \<noteq> c) xs"
  by (induction xs) (auto split: list.splits)

lemma set_split_char: "set (concat (split_char c xs)) = set xs - {c}"
  unfolding concat_split_char by auto

lemma split_char_no_sep: "x \<in> set (split_char c xs) \<Longrightarrow> c \<notin> set x"
  using set_split_char [of c xs] by auto

lemma split_char_sub: "x \<in> set (split_char c xs) \<Longrightarrow> set x \<subseteq> set xs"
  using set_split_char [of c xs] by auto

lemma set_join_with: "set (join_with sep xs) \<subseteq> \<Union> (set ` set xs) \<union> set sep"
  by (induction sep xs rule: join_with.induct) auto

lemma starts_with_iff: "starts_with s p \<longleftrightarrow> (\<exists>r. s = p @ r)"
  by (induction s p rule: starts_with.induct) auto

section \<open>URLs\<close>

text \<open>
  The \<open>url\<close> crate is a parameter: the parser, the serialisation, and appending pairs to the query
  (\<open>query_pairs_mut().extend_pairs(..)\<close>).
\<close>

record 'u url_lib =
  url_parse :: "string \<Rightarrow> 'u option"
  url_as_str :: "'u \<Rightarrow> string"
  url_extend_pairs :: "'u \<Rightarrow> (string \<times> string) list \<Rightarrow> 'u"

section \<open>Hash containers\<close>

text \<open>
  The iteration order of \<open>HashSet\<close> and \<open>HashMap\<close> is unspecified: it is a parameter of the
  definitions that iterate, and all that is known of it is that it enumerates the keys once each.
\<close>

definition iter_order :: "(string fset \<Rightarrow> string list) \<Rightarrow> bool" where
  "iter_order it \<longleftrightarrow> (\<forall>A. distinct (it A) \<and> fset_of_list (it A) = A)"

lemma iter_order_set: "iter_order it \<Longrightarrow> set (it A) = fset A"
  by (metis fset_of_list.rep_eq iter_order_def)

lemma iter_order_Nil: "iter_order it \<Longrightarrow> it A = [] \<longleftrightarrow> A = {||}"
  by (metis bot_fset.rep_eq fset_inverse iter_order_set set_empty)

lemma in_map_filter: "y \<in> set (List.map_filter f xs) \<longleftrightarrow> (\<exists>x\<in>set xs. f x = Some y)"
  by (induction xs) (auto split: option.splits)

lemma length_map_filter:
  "(\<And>x. x \<in> set xs \<Longrightarrow> f x \<noteq> None) \<Longrightarrow> length (List.map_filter f xs) = length xs"
  by (induction xs) (auto split: option.splits)

section \<open>Time and 64-bit counters\<close>

text \<open>
  A point in time (\<open>DateTime<Utc>\<close>) is its number of nanoseconds since the epoch; durations are
  nanoseconds too. Counters are 64-bit words: \<open>wrapping_add\<close> is word addition, and \<open>-\<close> panics
  on underflow exactly when the build has overflow checks.
\<close>

type_synonym time = int
type_synonym u64 = "64 word"

definition seconds :: "int \<Rightarrow> int" where
  "seconds n = n * 1000000000"

definition days :: "int \<Rightarrow> int" where
  "days n = seconds (n * 86400)"

definition u64_sub :: "bool \<Rightarrow> u64 \<Rightarrow> u64 \<Rightarrow> (u64, 'e) outcome" where
  "u64_sub checks a b = (if checks \<and> a < b then Panic else Ok (a - b))"

end
