(* ===== verification/Errors.thy ===== *)
theory Errors
  imports Prelude
begin

text \<open>
  The error objects of the two protocol endpoints (\<open>oxide-auth/src/code_grant/error.rs\<close>): their
  kinds, the names used on the wire and the key-value pairs sent to the client.
\<close>

section \<open>Authorization errors\<close>

datatype authorization_error_type =
    AeInvalidRequest
  | AeUnauthorizedClient
  | AeAccessDenied
  | AeUnsupportedResponseType
  | AeInvalidScope
  | AeServerError
  | AeTemporarilyUnavailable

primrec ae_type_description :: "authorization_error_type \<Rightarrow> string" where
  "ae_type_description AeInvalidRequest = ''invalid_request''"
| "ae_type_description AeUnauthorizedClient = ''unauthorized_client''"
| "ae_type_description AeAccessDenied = ''access_denied''"
| "ae_type_description AeUnsupportedResponseType = ''unsupported_response_type''"
| "ae_type_description AeInvalidScope = ''invalid_scope''"
| "ae_type_description AeServerError = ''server_error''"
| "ae_type_description AeTemporarilyUnavailable = ''temporarily_unavailable''"

record authorization_error =
  ae_error :: authorization_error_type
  ae_description :: "string option"
  ae_uri :: "string option"

definition ae_new :: "authorization_error_type \<Rightarrow> authorization_error" where
  "ae_new error = \<lparr> ae_error = error, ae_description = None, ae_uri = None \<rparr>"

definition ae_set_type :: "authorization_error \<Rightarrow> authorization_error_type \<Rightarrow> authorization_error" where
  "ae_set_type e new_type = e\<lparr> ae_error := new_type \<rparr>"

definition ae_kind :: "authorization_error \<Rightarrow> authorization_error_type" where
  "ae_kind e = ae_error e"

definition ae_explain :: "authorization_error \<Rightarrow> string \<Rightarrow> authorization_error" where
  "ae_explain e description = e\<lparr> ae_description := Some description \<rparr>"

definition ae_explain_uri :: "'u url_lib \<Rightarrow> authorization_error \<Rightarrow> 'u \<Rightarrow> authorization_error" where
  "ae_explain_uri U e uri = e\<lparr> ae_uri := Some (url_as_str U uri) \<rparr>"

definition ae_default :: authorization_error where
  "ae_default = \<lparr> ae_error = AeInvalidRequest, ae_description = None, ae_uri = None \<rparr>"

definition ae_into_iter :: "authorization_error \<Rightarrow> (string \<times> string) list" where
  "ae_into_iter e =
     [(''error'', ae_type_description (ae_error e))]
     @ (case ae_description e of Some d \<Rightarrow> [(''description'', d)] | None \<Rightarrow> [])
     @ (case ae_uri e of Some u \<Rightarrow> [(''uri'', u)] | None \<Rightarrow> [])"

section \<open>Access token errors\<close>

datatype access_token_error_type =
    TeInvalidRequest
  | TeInvalidClient
  | TeInvalidGrant
  | TeUnauthorizedClient
  | TeUnsupportedGrantType
  | TeInvalidScope
  | TeUnsupportedResponseType
  | TeServerError

primrec te_type_description :: "access_token_error_type \<Rightarrow> string" where
  "te_type_description TeInvalidRequest = ''invalid_request''"
| "te_type_description TeInvalidClient = ''invalid_client''"
| "te_type_description TeInvalidGrant = ''invalid_grant''"
| "te_type_description TeUnauthorizedClient = ''unauthorized_client''"
| "te_type_description TeUnsupportedGrantType = ''unsupported_grant_type''"
| "te_type_description TeInvalidScope = ''invalid_scope''"
| "te_type_description TeUnsupportedResponseType = ''unsupported_response_type''"
| "te_type_description TeServerError = ''server_error''"

record access_token_error =
  te_error :: access_token_error_type
  te_description :: "string option"
  te_uri :: "string option"

definition te_new :: "access_token_error_type \<Rightarrow> access_token_error" where
  "te_new error = \<lparr> te_error = error, te_description = None, te_uri = None \<rparr>"

definition te_set_type :: "access_token_error \<Rightarrow> access_token_error_type \<Rightarrow> access_token_error" where
  "te_set_type e new_type = e\<lparr> te_error := new_type \<rparr>"

definition te_kind :: "access_token_error \<Rightarrow> access_token_error_type" where
  "te_kind e = te_error e"

definition te_explain :: "access_token_error \<Rightarrow> string \<Rightarrow> access_token_error" where
  "te_explain e description = e\<lparr> te_description := Some description \<rparr>"

definition te_explain_uri :: "'u url_lib \<Rightarrow> access_token_error \<Rightarrow> 'u \<Rightarrow> access_token_error" where
  "te_explain_uri U e uri = e\<lparr> te_uri := Some (url_as_str U uri) \<rparr>"

definition te_default :: access_token_error where
  "te_default = \<lparr> te_error = TeInvalidRequest, te_description = None, te_uri = None \<rparr>"

definition te_into_iter :: "access_token_error \<Rightarrow> (string \<times> string) list" where
  "te_into_iter e =
     [(''error'', te_type_description (te_error e))]
     @ (case te_description e of Some d \<Rightarrow> [(''description'', d)] | None \<Rightarrow> [])
     @ (case te_uri e of Some u \<Rightarrow> [(''uri'', u)] | None \<Rightarrow> [])"

section \<open>Properties\<close>

lemma ae_type_description_inj: "ae_type_description a = ae_type_description b \<longleftrightarrow> a = b"
  by (cases a; cases b) simp_all

lemma te_type_description_inj: "te_type_description a = te_type_description b \<longleftrightarrow> a = b"
  by (cases a; cases b) simp_all

lemma distinct_keys_ae: "distinct (map fst (ae_into_iter e))"
  by (simp add: ae_into_iter_def split: option.splits)

lemma distinct_keys_te: "distinct (map fst (te_into_iter e))"
  by (simp add: te_into_iter_def split: option.splits)

text \<open>The key-value pairs sent for an access token error determine the error: two errors
  produce the same pairs only when they are equal, and no key occurs twice.\<close>

lemma access_token_error_pairs_faithful:
  "(te_into_iter a = te_into_iter b) = (a = b) \<and> distinct (map fst (te_into_iter a))"
  by (cases a; cases b)
    (auto simp: te_into_iter_def te_type_description_inj split: option.splits)

end
