(* ===== verification/Redis.thy ===== *)
theory Redis
  imports Prelude
begin

text \<open>
  The key-value store behind authorization codes and tokens. The \<open>redis\<close> crate and the server are
  parameters: one function per command the sources issue, threading the state \<open>'r\<close> of the store.
  What is relied on is the locale \<open>redis_store\<close>: a command that reports success has had its
  documented effect, a command that reports an error may or may not have had it, and a healthy store
  reports no errors. The idioms the sources repeat (open a connection, store a fresh field, delete
  exactly one field, write a counter) are the actions defined here.
\<close>

section \<open>Commands\<close>

text \<open>\<open>None\<close> is the error of the crate; for \<open>hget\<close> and \<open>get\<close> it includes a missing value, which
  cannot be converted to the requested type.\<close>

record 'r redis_ops =
  r_connect :: "'r \<Rightarrow> bool \<times> 'r"
  r_get :: "string \<Rightarrow> 'r \<Rightarrow> u64 option \<times> 'r"
  r_set :: "string \<Rightarrow> u64 \<Rightarrow> 'r \<Rightarrow> string option \<times> 'r"
  r_hget :: "string \<Rightarrow> string \<Rightarrow> 'r \<Rightarrow> string option \<times> 'r"
  r_hset :: "string \<Rightarrow> string \<Rightarrow> string \<Rightarrow> 'r \<Rightarrow> nat option \<times> 'r"
  r_hdel :: "string \<Rightarrow> string \<Rightarrow> 'r \<Rightarrow> nat option \<times> 'r"

text \<open>Serialisation with \<open>serde_json\<close>, and what is relied on of it.\<close>

record 'a codec =
  enc :: "'a \<Rightarrow> string option"
  dec :: "string \<Rightarrow> 'a option"

definition codec_ok :: "'a codec \<Rightarrow> bool" where
  "codec_ok C \<longleftrightarrow> (\<forall>x. \<exists>s. enc C x = Some s \<and> dec C s = Some x)"

lemma codec_dec: "codec_ok C \<Longrightarrow> enc C x = Some s \<Longrightarrow> dec C s = Some x"
  by (metis codec_ok_def option.inject)

lemma codec_enc: "codec_ok C \<Longrightarrow> \<exists>s. enc C x = Some s \<and> dec C s = Some x"
  by (simp add: codec_ok_def)

section \<open>Idioms of the sources\<close>

text \<open>The state pairs the memory of the component with the store.\<close>

definition redis_do :: "('r \<Rightarrow> 'a \<times> 'r) \<Rightarrow> ('m \<times> 'r, 'a, unit) action" where
  "redis_do f = (\<lambda>(m, r). let (x, r') = f r in (Ok x, (m, r')))"

definition get_connection :: "'r redis_ops \<Rightarrow> ('m \<times> 'r, unit, unit) action" where
  "get_connection R = bind_ac (redis_do (r_connect R)) (\<lambda>b. if b then ret () else fail ())"

definition hset_new :: "'r redis_ops \<Rightarrow> string \<Rightarrow> string \<Rightarrow> string \<Rightarrow> ('m \<times> 'r, unit, unit) action" where
  "hset_new R k f v = bind_ac (redis_do (r_hset R k f v))
     (\<lambda>n. case n of Some c \<Rightarrow> if c = 1 then ret () else fail () | None \<Rightarrow> fail ())"

definition hdel_one :: "'r redis_ops \<Rightarrow> string \<Rightarrow> string \<Rightarrow> ('m \<times> 'r, unit, unit) action" where
  "hdel_one R k f = bind_ac (redis_do (r_hdel R k f))
     (\<lambda>n. case n of Some c \<Rightarrow> if c = 1 then ret () else fail () | None \<Rightarrow> fail ())"

definition set_usage :: "'r redis_ops \<Rightarrow> string \<Rightarrow> u64 \<Rightarrow> ('m \<times> 'r, unit, unit) action" where
  "set_usage R k n = bind_ac (redis_do (r_set R k n))
     (\<lambda>x. case x of Some s \<Rightarrow> if s = ''OK'' then ret () else fail () | None \<Rightarrow> fail ())"

lemma redis_do_apply: "redis_do f (m, r) = (Ok (fst (f r)), (m, snd (f r)))"
  by (simp add: redis_do_def split: prod.splits)

lemma redis_do_iff:
  "redis_do f (m, r) = (x, (m', r')) \<longleftrightarrow> (\<exists>y. x = Ok y \<and> m' = m \<and> f r = (y, r'))"
  by (cases "f r") (auto simp: redis_do_apply)

section \<open>What is relied on of the store\<close>

definition hash_upd :: "('k \<Rightarrow> 'f \<Rightarrow> 'v option) \<Rightarrow> 'k \<Rightarrow> 'f \<Rightarrow> 'v option \<Rightarrow> ('k \<Rightarrow> 'f \<Rightarrow> 'v option)" where
  "hash_upd h k f v = h(k := (h k)(f := v))"

lemma hash_upd_apply [simp]: "hash_upd h k f v k' f' = (if k' = k \<and> f' = f then v else h k' f')"
  by (simp add: hash_upd_def)

lemma hash_upd_row: "hash_upd h k f v k' = (if k' = k then (h k)(f := v) else h k')"
  by (simp add: hash_upd_def)

locale redis_store =
  fixes R :: "'r redis_ops"
    and hash :: "'r \<Rightarrow> string \<Rightarrow> string \<Rightarrow> string option"
    and num :: "'r \<Rightarrow> string \<Rightarrow> u64 option"
    and healthy :: "'r \<Rightarrow> bool"
  assumes connect:
      "r_connect R r = (b, r') \<Longrightarrow> hash r' = hash r \<and> num r' = num r \<and> (healthy r \<longrightarrow> b \<and> healthy r')"
    and get:
      "r_get R k r = (v, r') \<Longrightarrow> hash r' = hash r \<and> num r' = num r \<and>
         (\<forall>n. v = Some n \<longrightarrow> num r k = Some n) \<and> (healthy r \<longrightarrow> v = num r k \<and> healthy r')"
    and set:
      "r_set R k n r = (x, r') \<Longrightarrow> hash r' = hash r \<and>
         (num r' = num r \<or> num r' = (num r)(k \<mapsto> n)) \<and>
         (x \<noteq> None \<longrightarrow> x = Some ''OK'' \<and> num r' = (num r)(k \<mapsto> n)) \<and>
         (healthy r \<longrightarrow> x \<noteq> None \<and> healthy r')"
    and hget:
      "r_hget R k f r = (s, r') \<Longrightarrow> hash r' = hash r \<and> num r' = num r \<and>
         (\<forall>w. s = Some w \<longrightarrow> hash r k f = Some w) \<and> (healthy r \<longrightarrow> s = hash r k f \<and> healthy r')"
    and hset:
      "r_hset R k f w r = (c, r') \<Longrightarrow> num r' = num r \<and>
         (hash r' = hash r \<or> hash r' = hash_upd (hash r) k f (Some w)) \<and>
         (c \<noteq> None \<longrightarrow> hash r' = hash_upd (hash r) k f (Some w) \<and>
            c = Some (if hash r k f = None then 1 else 0)) \<and>
         (healthy r \<longrightarrow> c \<noteq> None \<and> healthy r')"
    and hdel:
      "r_hdel R k f r = (c, r') \<Longrightarrow> num r' = num r \<and>
         (hash r' = hash r \<or> hash r' = hash_upd (hash r) k f None) \<and>
         (c \<noteq> None \<longrightarrow> hash r' = hash_upd (hash r) k f None \<and>
            c = Some (if hash r k f = None then 0 else 1)) \<and>
         (healthy r \<longrightarrow> c \<noteq> None \<and> healthy r')"
begin

lemma get_connection_frame:
  "get_connection R (m, r) = (x, (m', r')) \<Longrightarrow>
     m' = m \<and> hash r' = hash r \<and> num r' = num r \<and> x \<noteq> Panic \<and>
     (healthy r \<longrightarrow> x = Ok () \<and> healthy r')"
  by (cases "r_connect R r") (auto simp: get_connection_def bind_ac_def redis_do_def dest!: connect
      split: if_splits option.splits)

lemma hset_new_Ok:
  "hset_new R k f v (m, r) = (Ok u, (m', r')) \<Longrightarrow>
     m' = m \<and> hash r k f = None \<and> hash r' = hash_upd (hash r) k f (Some v) \<and> num r' = num r"
  by (cases "r_hset R k f v r") (auto simp: hset_new_def bind_ac_def redis_do_def dest!: hset
      split: if_splits option.splits)

lemma hset_new_frame:
  "hset_new R k f v (m, r) = (x, (m', r')) \<Longrightarrow>
     m' = m \<and> num r' = num r \<and> x \<noteq> Panic \<and>
     (hash r' = hash r \<or> hash r' = hash_upd (hash r) k f (Some v))"
  by (cases "r_hset R k f v r") (auto simp: hset_new_def bind_ac_def redis_do_def dest!: hset
      split: if_splits option.splits)

lemma hset_new_healthy:
  "hset_new R k f v (m, r) = (x, (m', r')) \<Longrightarrow> healthy r \<Longrightarrow>
     healthy r' \<and> (hash r k f = None \<longrightarrow> x = Ok ())"
  by (cases "r_hset R k f v r") (auto simp: hset_new_def bind_ac_def redis_do_def dest!: hset
      split: if_splits option.splits)

lemma hdel_one_Ok:
  "hdel_one R k f (m, r) = (Ok u, (m', r')) \<Longrightarrow>
     m' = m \<and> hash r k f \<noteq> None \<and> hash r' = hash_upd (hash r) k f None \<and> num r' = num r"
  by (cases "r_hdel R k f r") (auto simp: hdel_one_def bind_ac_def redis_do_def dest!: hdel
      split: if_splits option.splits)

lemma hdel_one_frame:
  "hdel_one R k f (m, r) = (x, (m', r')) \<Longrightarrow>
     m' = m \<and> num r' = num r \<and> x \<noteq> Panic \<and>
     (hash r' = hash r \<or> hash r' = hash_upd (hash r) k f None)"
  by (cases "r_hdel R k f r") (auto simp: hdel_one_def bind_ac_def redis_do_def dest!: hdel
      split: if_splits option.splits)

lemma hdel_one_healthy:
  "hdel_one R k f (m, r) = (x, (m', r')) \<Longrightarrow> healthy r \<Longrightarrow>
     healthy r' \<and> (hash r k f \<noteq> None \<longrightarrow> x = Ok ())"
  by (cases "r_hdel R k f r") (auto simp: hdel_one_def bind_ac_def redis_do_def dest!: hdel
      split: if_splits option.splits)

lemma set_usage_frame:
  "set_usage R k n (m, r) = (x, (m', r')) \<Longrightarrow>
     m' = m \<and> hash r' = hash r \<and> x \<noteq> Panic \<and>
     (num r' = num r \<or> num r' = (num r)(k \<mapsto> n)) \<and>
     (x = Ok () \<longrightarrow> num r' = (num r)(k \<mapsto> n)) \<and>
     (healthy r \<longrightarrow> x = Ok () \<and> healthy r')"
  by (cases "r_set R k n r") (auto simp: set_usage_def bind_ac_def redis_do_def dest!: set
      split: if_splits option.splits)

text \<open>Predicates of the stored hashes that the idioms keep.\<close>

lemma keeps_store:
  assumes "\<And>m r m' r'. I (m, r) \<Longrightarrow> hash r' = hash r \<Longrightarrow> I (m', r')"
  shows "keeps I (get_connection R)" "keeps I (redis_do (r_get R k))" "keeps I (redis_do (r_hget R k f))"
    "keeps I (set_usage R k n)"
proof -
  show "keeps I (get_connection R)"
    by (rule keeps_pairI) (blast intro: assms dest: get_connection_frame)
  show "keeps I (redis_do (r_get R k))"
    by (rule keeps_pairI) (auto simp: redis_do_iff intro: assms dest: get)
  show "keeps I (redis_do (r_hget R k f))"
    by (rule keeps_pairI) (auto simp: redis_do_iff intro: assms dest: hget)
  show "keeps I (set_usage R k n)"
    by (rule keeps_pairI) (blast intro: assms dest: set_usage_frame)
qed

lemma keeps_hset_new:
  assumes "\<And>m r m' r'. I (m, r) \<Longrightarrow> hash r' = hash r \<Longrightarrow> I (m', r')"
    and "\<And>m r r'. I (m, r) \<Longrightarrow> hash r' = hash_upd (hash r) k f (Some v) \<Longrightarrow> I (m, r')"
  shows "keeps I (hset_new R k f v)"
  by (rule keeps_pairI) (blast intro: assms dest: hset_new_frame)

lemma keeps_hdel_one:
  assumes "\<And>m r m' r'. I (m, r) \<Longrightarrow> hash r' = hash r \<Longrightarrow> I (m', r')"
    and "\<And>m r r'. I (m, r) \<Longrightarrow> hash r' = hash_upd (hash r) k f None \<Longrightarrow> I (m, r')"
  shows "keeps I (hdel_one R k f)"
  by (rule keeps_pairI) (blast intro: assms dest: hdel_one_frame)

text \<open>What the idioms do on a healthy store.\<close>

lemma get_connection_up:
  assumes "healthy r"
  obtains r' where "get_connection R (m, r) = (Ok (), (m, r'))" "healthy r'"
    "hash r' = hash r" "num r' = num r"
  using assms get_connection_frame [of m r] by (metis prod.collapse)

lemma get_up:
  assumes "healthy r"
  obtains r' where "redis_do (r_get R k) (m, r) = (Ok (num r k), (m, r'))" "healthy r'"
    "hash r' = hash r" "num r' = num r"
  using assms get [of k r] by (metis prod.collapse redis_do_apply)

lemma hget_up:
  assumes "healthy r"
  obtains r' where "redis_do (r_hget R k f) (m, r) = (Ok (hash r k f), (m, r'))" "healthy r'"
    "hash r' = hash r" "num r' = num r"
  using assms hget [of k f r] by (metis prod.collapse redis_do_apply)

lemma hset_new_up:
  assumes "healthy r" and "hash r k f = None"
  obtains r' where "hset_new R k f v (m, r) = (Ok (), (m, r'))" "healthy r'"
    "hash r' = hash_upd (hash r) k f (Some v)" "num r' = num r"
  using assms hset_new_healthy [of k f v m r] hset_new_Ok [of k f v m r] by (metis prod.collapse)

lemma hdel_one_up:
  assumes "healthy r" and "hash r k f \<noteq> None"
  obtains r' where "hdel_one R k f (m, r) = (Ok (), (m, r'))" "healthy r'"
    "hash r' = hash_upd (hash r) k f None" "num r' = num r"
  using assms hdel_one_healthy [of k f m r] hdel_one_Ok [of k f m r] by (metis prod.collapse)

lemma set_usage_up:
  assumes "healthy r"
  obtains r' where "set_usage R k n (m, r) = (Ok (), (m, r'))" "healthy r'"
    "hash r' = hash r" "num r' = (num r)(k \<mapsto> n)"
  using assms set_usage_frame [of k n m r] by (metis prod.collapse)

end

section \<open>An executable store\<close>

text \<open>
  A store in memory: string keys and hashes, and a list that says which of the next commands fail
  (a failing command has no effect). It is the instance of the interface that concrete runs use.
\<close>

record mem_redis =
  mr_hash :: "string \<Rightarrow> string \<Rightarrow> string option"
  mr_num :: "string \<Rightarrow> u64 option"
  mr_faults :: "bool list"

definition mem_cmd :: "'a \<Rightarrow> (mem_redis \<Rightarrow> 'a \<times> mem_redis) \<Rightarrow> mem_redis \<Rightarrow> 'a \<times> mem_redis" where
  "mem_cmd err f r = (let r' = r\<lparr> mr_faults := drop 1 (mr_faults r) \<rparr> in
     if mr_faults r \<noteq> [] \<and> hd (mr_faults r) then (err, r') else f r')"

definition mem_ops :: "mem_redis redis_ops" where
  "mem_ops = \<lparr>
     r_connect = mem_cmd False (Pair True),
     r_get = (\<lambda>k. mem_cmd None (\<lambda>r. (mr_num r k, r))),
     r_set = (\<lambda>k n. mem_cmd None (\<lambda>r. (Some ''OK'', r\<lparr> mr_num := (mr_num r)(k \<mapsto> n) \<rparr>))),
     r_hget = (\<lambda>k f. mem_cmd None (\<lambda>r. (mr_hash r k f, r))),
     r_hset = (\<lambda>k f v. mem_cmd None (\<lambda>r.
       (Some (if mr_hash r k f = None then 1 else 0),
        r\<lparr> mr_hash := hash_upd (mr_hash r) k f (Some v) \<rparr>))),
     r_hdel = (\<lambda>k f. mem_cmd None (\<lambda>r.
       (Some (if mr_hash r k f = None then 0 else 1),
        r\<lparr> mr_hash := hash_upd (mr_hash r) k f None \<rparr>))) \<rparr>"

definition mem_healthy :: "mem_redis \<Rightarrow> bool" where
  "mem_healthy r \<longleftrightarrow> True \<notin> set (mr_faults r)"

definition mem_empty :: mem_redis where
  "mem_empty = \<lparr> mr_hash = (\<lambda>k f. None), mr_num = (\<lambda>k. None), mr_faults = [] \<rparr>"

lemma mem_healthy_step:
  "mem_healthy r \<Longrightarrow> True \<notin> set (drop (Suc 0) (mr_faults r))"
  by (metis in_set_dropD mem_healthy_def)

lemma mem_healthy_hd: "mem_healthy r \<Longrightarrow> mr_faults r \<noteq> [] \<Longrightarrow> hd (mr_faults r) \<Longrightarrow> False"
  by (metis hd_in_set mem_healthy_def)

lemma mem_healthy_empty [simp]: "mem_healthy mem_empty"
  by (simp add: mem_healthy_def mem_empty_def)

lemmas mem_defs = mem_ops_def mem_cmd_def mem_empty_def

lemma mem_redis_store: "redis_store mem_ops mr_hash mr_num mem_healthy"
  by unfold_locales
    (auto simp: mem_ops_def mem_cmd_def Let_def mem_healthy_def split: if_splits
      dest: mem_healthy_hd mem_healthy_step in_set_dropD hd_in_set)

interpretation mem: redis_store mem_ops mr_hash mr_num mem_healthy
  by (rule mem_redis_store)

end
