(* ===== verification/Scope.thy ===== *)
theory Scope
  imports Prelude "HOL-Library.List_Lexorder" "HOL-Library.Char_ord"
begin

text \<open>
  Scopes (\<open>oxide-auth/src/primitives/scope.rs\<close>): sets of scope tokens, their parsing and printing
  and the partial order by which a token's scope is compared with a resource's. The lemmas show that
  the counting comparison of the code is set inclusion, that parsing accepts exactly the strings
  without forbidden characters, and that printing and parsing are inverse.
\<close>

section \<open>Definitions\<close>

record scope =
  tokens :: "string fset"

datatype parse_scope_err = InvalidCharacter char

datatype ordering = Less | Equal | Greater

definition invalid_scope_char :: "char \<Rightarrow> bool" where
  "invalid_scope_char ch =
     (let c = (of_char ch :: nat) in
      if c = 0x21 then False
      else if 0x23 \<le> c \<and> c \<le> 0x5b then False
      else if 0x5d \<le> c \<and> c \<le> 0x7e then False
      else if ch = CHR '' '' then False
      else True)"

definition scope_from_str :: "string \<Rightarrow> (scope, parse_scope_err) outcome" where
  "scope_from_str s =
     (case List.find invalid_scope_char s of
        Some ch \<Rightarrow> Err (InvalidCharacter ch)
      | None \<Rightarrow> Ok \<lparr> tokens = fset_of_list (filter (\<lambda>t. t \<noteq> []) (split_char (CHR '' '') s)) \<rparr>)"

definition scope_iter :: "(string fset \<Rightarrow> string list) \<Rightarrow> scope \<Rightarrow> string list" where
  "scope_iter it s = it (tokens s)"

definition scope_to_string :: "(string fset \<Rightarrow> string list) \<Rightarrow> scope \<Rightarrow> string" where
  "scope_to_string it s = join_with '' '' (scope_iter it s)"

definition scope_partial_cmp :: "scope \<Rightarrow> scope \<Rightarrow> ordering option" where
  "scope_partial_cmp self rhs =
     (let intersect_count = fcard (tokens self |\<inter>| tokens rhs) in
      if intersect_count = fcard (tokens self) \<and> intersect_count = fcard (tokens rhs) then Some Equal
      else if intersect_count = fcard (tokens self) then Some Less
      else if intersect_count = fcard (tokens rhs) then Some Greater
      else None)"

text \<open>The comparison operators Rust derives from \<open>partial_cmp\<close>.\<close>

definition scope_le :: "scope \<Rightarrow> scope \<Rightarrow> bool" where
  "scope_le a b = (scope_partial_cmp a b = Some Less \<or> scope_partial_cmp a b = Some Equal)"

definition priviledged_to :: "scope \<Rightarrow> scope \<Rightarrow> bool" where
  "priviledged_to self rhs = scope_le rhs self"

definition allow_access :: "scope \<Rightarrow> scope \<Rightarrow> bool" where
  "allow_access self rhs = scope_le self rhs"

text \<open>The invariant of scopes that come out of the parser: no token is empty or has a forbidden
  character or a separator.\<close>

definition scope_wf :: "scope \<Rightarrow> bool" where
  "scope_wf s \<longleftrightarrow>
     fBall (tokens s) (\<lambda>t. t \<noteq> [] \<and> list_all (\<lambda>c. \<not> invalid_scope_char c \<and> c \<noteq> CHR '' '') t)"

section \<open>The order\<close>

lemma fcard_inter_eq_left: "fcard (A |\<inter>| B) = fcard A \<longleftrightarrow> A |\<subseteq>| B"
proof
  assume "fcard (A |\<inter>| B) = fcard A"
  then have "A |\<inter>| B = A" by (intro fcard_seteq) auto
  then show "A |\<subseteq>| B" by auto
next
  assume "A |\<subseteq>| B"
  then have "A |\<inter>| B = A" by auto
  then show "fcard (A |\<inter>| B) = fcard A" by simp
qed

lemma fcard_inter_eq_right: "fcard (A |\<inter>| B) = fcard B \<longleftrightarrow> B |\<subseteq>| A"
  using fcard_inter_eq_left [of B A] by (simp add: inf_commute)

lemma scope_partial_cmp_subset:
  "scope_partial_cmp a b =
     (if tokens a = tokens b then Some Equal
      else if tokens a |\<subset>| tokens b then Some Less
      else if tokens b |\<subset>| tokens a then Some Greater else None)"
  by (auto simp: scope_partial_cmp_def Let_def fcard_inter_eq_left fcard_inter_eq_right)

lemma scope_le_subset [simp]: "scope_le a b \<longleftrightarrow> tokens a |\<subseteq>| tokens b"
  by (auto simp: scope_le_def scope_partial_cmp_subset)

lemma priviledged_to_subset [simp]: "priviledged_to a b \<longleftrightarrow> tokens b |\<subseteq>| tokens a"
  by (simp add: priviledged_to_def)

lemma allow_access_subset [simp]: "allow_access a b \<longleftrightarrow> tokens a |\<subseteq>| tokens b"
  by (simp add: allow_access_def)

text \<open>The comparison of scopes, which counts common tokens, is exactly inclusion of token sets:
  it answers \<open>Equal\<close>, \<open>Less\<close>, \<open>Greater\<close> or nothing as the sets are equal, strictly included
  one way or the other, or incomparable; \<open>priviledged_to\<close> and \<open>allow_access\<close> are the two
  directions of inclusion.\<close>

lemma scope_order_is_inclusion:
  "scope_partial_cmp a b =
     (if tokens a = tokens b then Some Equal
      else if tokens a |\<subset>| tokens b then Some Less
      else if tokens b |\<subset>| tokens a then Some Greater else None)
   \<and> priviledged_to a b = (tokens b |\<subseteq>| tokens a)
   \<and> allow_access a b = (tokens a |\<subseteq>| tokens b)"
  by (simp add: scope_partial_cmp_subset)

section \<open>Parsing and printing\<close>

lemma find_Some_in: "List.find P xs = Some x \<Longrightarrow> x \<in> set xs \<and> P x"
  by (auto simp: find_Some_iff)

lemma scope_from_str_Ok_iff:
  "scope_from_str s = Ok sc \<longleftrightarrow>
     (\<forall>c\<in>set s. \<not> invalid_scope_char c) \<and>
     sc = \<lparr> tokens = fset_of_list (filter (\<lambda>t. t \<noteq> []) (split_char (CHR '' '') s)) \<rparr>"
  by (auto simp: scope_from_str_def find_None_iff split: option.splits dest: find_Some_in)

lemma scope_from_str_not_Panic [simp]: "scope_from_str s \<noteq> Panic"
  by (simp add: scope_from_str_def split: option.splits)

lemma scope_from_str_Err_iff:
  "(\<exists>e. scope_from_str s = Err e) \<longleftrightarrow> (\<exists>c\<in>set s. invalid_scope_char c)"
  by (auto simp: scope_from_str_def find_None_iff split: option.splits dest: find_Some_in)

lemma scope_from_str_wf:
  assumes "scope_from_str s = Ok sc"
  shows "scope_wf sc"
proof -
  have ok: "\<forall>c\<in>set s. \<not> invalid_scope_char c"
    and sc: "tokens sc = fset_of_list (filter (\<lambda>t. t \<noteq> []) (split_char (CHR '' '') s))"
    using assms by (auto simp: scope_from_str_Ok_iff)
  have "t \<noteq> [] \<and> (\<forall>c\<in>set t. \<not> invalid_scope_char c \<and> c \<noteq> CHR '' '')"
    if "t |\<in>| tokens sc" for t
  proof -
    have t: "t \<in> set (split_char (CHR '' '') s)" "t \<noteq> []"
      using that by (auto simp: sc fset_of_list_elem)
    then have "CHR '' '' \<notin> set t" by (blast dest: split_char_no_sep)
    moreover have "set t \<subseteq> set s" using t(1) by (rule split_char_sub)
    ultimately show ?thesis using t(2) ok by auto
  qed
  then show ?thesis by (auto simp: scope_wf_def list_all_iff)
qed

lemma space_valid [simp]: "\<not> invalid_scope_char (CHR '' '')"
  by (simp add: invalid_scope_char_def)

text \<open>Printing a scope and parsing the text gives the scope back, for every scope the parser
  can have produced and whatever order the hash set is printed in.\<close>

lemma scope_roundtrip:
  assumes "iter_order it" and "scope_wf s"
  shows "scope_from_str (scope_to_string it s) = Ok s"
proof -
  let ?ts = "it (tokens s)"
  have set_ts: "set ?ts = fset (tokens s)" using assms(1) by (rule iter_order_set)
  have good: "t \<noteq> [] \<and> (\<forall>c\<in>set t. \<not> invalid_scope_char c \<and> c \<noteq> CHR '' '')" if "t \<in> set ?ts" for t
    using assms(2) that unfolding set_ts scope_wf_def by (auto simp: list_all_iff)
  have chars: "\<forall>c\<in>set (join_with '' '' ?ts). \<not> invalid_scope_char c"
    using set_join_with [of "'' ''" ?ts] good by fastforce
  have "filter (\<lambda>t. t \<noteq> []) (split_char (CHR '' '') (join_with '' '' ?ts)) = ?ts"
  proof (cases "?ts = []")
    case False
    then have "split_char (CHR '' '') (join_with '' '' ?ts) = ?ts"
      using good by (intro split_join) auto
    then show ?thesis using good by (simp add: filter_id_conv)
  qed simp
  moreover have "fset_of_list ?ts = tokens s" using assms(1) by (simp add: iter_order_def)
  ultimately show ?thesis
    using chars by (simp add: scope_from_str_Ok_iff scope_to_string_def scope_iter_def)
qed

text \<open>Parsing fails exactly on strings with a forbidden character, naming the first one; every
  scope it returns has only non-empty tokens made of allowed characters, and the tokens are the
  space-separated words of the string.\<close>

lemma scope_parse_characterised:
  "(case scope_from_str s of
      Ok sc \<Rightarrow> scope_wf sc \<and> \<not> list_ex invalid_scope_char s \<and>
        fset (tokens sc) = set (split_char (CHR '' '') s) - {[]}
    | Err (InvalidCharacter ch) \<Rightarrow>
        (\<exists>p q. s = p @ ch # q \<and> invalid_scope_char ch \<and> \<not> list_ex invalid_scope_char p)
    | Panic \<Rightarrow> False)"
proof (cases "scope_from_str s")
  case (Ok sc)
  then have "\<not> list_ex invalid_scope_char s"
      "fset (tokens sc) = set (split_char (CHR '' '') s) - {[]}"
    by (auto simp: scope_from_str_Ok_iff fset_of_list.rep_eq list_ex_iff)
  then show ?thesis
    using scope_from_str_wf [OF Ok] by (simp add: Ok)
next
  case (Err e)
  then obtain ch where e: "e = InvalidCharacter ch" and "List.find invalid_scope_char s = Some ch"
    by (auto simp: scope_from_str_def split: option.splits)
  then obtain i where "i < length s" "s ! i = ch" "invalid_scope_char ch"
      "\<forall>j<i. \<not> invalid_scope_char (s ! j)"
    by (auto simp: find_Some_iff)
  then have "s = take i s @ ch # drop (Suc i) s \<and> \<not> list_ex invalid_scope_char (take i s)"
    by (auto simp: in_set_conv_nth id_take_nth_drop list_ex_iff)
  then show ?thesis using Err e \<open>invalid_scope_char ch\<close> by auto
qed simp

text \<open>The round trip at a scope of two tokens, printed in the order of a sorting iteration.\<close>

definition example_order :: "string fset \<Rightarrow> string list" where
  "example_order A = sorted_list_of_fset A"

lemma example_order_ok: "iter_order example_order"
  unfolding iter_order_def example_order_def
  by (auto simp: sorted_list_of_fset.rep_eq fset_of_list.rep_eq intro: fset_eqI)

end
