(* ===== verification/Grant.thy ===== *)
theory Grant
  imports Scope
begin

text \<open>
  Grants and their extension data (\<open>oxide-auth/src/primitives/grant.rs\<close>). The URL type of the
  \<open>url\<close> crate is the type parameter of grants. The lemmas relate the two filtering iterators over
  the extension table to its contents: what is stored as private is never yielded as public.
\<close>

section \<open>Definitions\<close>

datatype ext_value = Public "string option" | Private "string option"

definition public_value :: "ext_value \<Rightarrow> (string option, unit) outcome" where
  "public_value v =
     (case v of
        Public (Some content) \<Rightarrow> Ok (Some content)
      | Public None \<Rightarrow> Ok None
      | _ \<Rightarrow> Err ())"

definition into_public_value :: "ext_value \<Rightarrow> (string option, unit) outcome" where
  "into_public_value v = (case v of Public content \<Rightarrow> Ok content | _ \<Rightarrow> Err ())"

definition private_value :: "ext_value \<Rightarrow> (string option, unit) outcome" where
  "private_value v =
     (case v of
        Private (Some content) \<Rightarrow> Ok (Some content)
      | Private None \<Rightarrow> Ok None
      | _ \<Rightarrow> Err ())"

definition into_private_value :: "ext_value \<Rightarrow> (string option, unit) outcome" where
  "into_private_value v = (case v of Private content \<Rightarrow> Ok content | _ \<Rightarrow> Err ())"

record extensions =
  ext_map :: "(string, ext_value) fmap"

definition extensions_new :: extensions where
  "extensions_new = \<lparr> ext_map = fmempty \<rparr>"

text \<open>An extension instance is known to the table by its identifier (trait \<open>GrantExtension\<close>).\<close>

definition ext_set :: "extensions \<Rightarrow> string \<Rightarrow> ext_value \<Rightarrow> extensions" where
  "ext_set e identifier content = e\<lparr> ext_map := fmupd identifier content (ext_map e) \<rparr>"

definition ext_set_raw :: "extensions \<Rightarrow> string \<Rightarrow> ext_value \<Rightarrow> extensions" where
  "ext_set_raw e identifier content = e\<lparr> ext_map := fmupd identifier content (ext_map e) \<rparr>"

definition ext_remove :: "extensions \<Rightarrow> string \<Rightarrow> ext_value option \<times> extensions" where
  "ext_remove e identifier =
     (fmlookup (ext_map e) identifier, e\<lparr> ext_map := fmdrop identifier (ext_map e) \<rparr>)"

text \<open>The entries in the order the hash map yields them, and one call of \<open>next\<close> of each filtering
  iterator: skip the entries of the other kind.\<close>

definition ext_entries :: "(string fset \<Rightarrow> string list) \<Rightarrow> extensions \<Rightarrow> (string \<times> ext_value) list" where
  "ext_entries it e =
     List.map_filter (\<lambda>k. map_option (Pair k) (fmlookup (ext_map e) k)) (it (fmdom (ext_map e)))"

fun public_next ::
  "(string \<times> ext_value) list \<Rightarrow> ((string \<times> string option) \<times> (string \<times> ext_value) list) option" where
  "public_next [] = None"
| "public_next ((key, v) # rest) =
     (case public_value v of Ok value \<Rightarrow> Some ((key, value), rest) | _ \<Rightarrow> public_next rest)"

fun private_next ::
  "(string \<times> ext_value) list \<Rightarrow> ((string \<times> string option) \<times> (string \<times> ext_value) list) option" where
  "private_next [] = None"
| "private_next ((key, v) # rest) =
     (case private_value v of Ok value \<Rightarrow> Some ((key, value), rest) | _ \<Rightarrow> private_next rest)"

lemma public_next_shorter: "public_next xs = Some (y, rest) \<Longrightarrow> length rest < length xs"
  by (induction xs rule: public_next.induct) (auto split: outcome.splits)

lemma private_next_shorter: "private_next xs = Some (y, rest) \<Longrightarrow> length rest < length xs"
  by (induction xs rule: private_next.induct) (auto split: outcome.splits)

text \<open>What a \<open>for\<close> loop over each iterator sees.\<close>

function public_all :: "(string \<times> ext_value) list \<Rightarrow> (string \<times> string option) list" where
  "public_all xs = (case public_next xs of None \<Rightarrow> [] | Some (y, rest) \<Rightarrow> y # public_all rest)"
  by pat_completeness auto
termination
  by (relation "measure length") (auto dest: public_next_shorter)

function private_all :: "(string \<times> ext_value) list \<Rightarrow> (string \<times> string option) list" where
  "private_all xs = (case private_next xs of None \<Rightarrow> [] | Some (y, rest) \<Rightarrow> y # private_all rest)"
  by pat_completeness auto
termination
  by (relation "measure length") (auto dest: private_next_shorter)

declare public_all.simps [simp del] private_all.simps [simp del]

definition ext_public :: "(string fset \<Rightarrow> string list) \<Rightarrow> extensions \<Rightarrow> (string \<times> string option) list" where
  "ext_public it e = public_all (ext_entries it e)"

definition ext_private :: "(string fset \<Rightarrow> string list) \<Rightarrow> extensions \<Rightarrow> (string \<times> string option) list" where
  "ext_private it e = private_all (ext_entries it e)"

record 'u grant =
  g_owner_id :: string
  g_client_id :: string
  g_scope :: scope
  g_redirect_uri :: 'u
  g_until :: time
  g_extensions :: extensions

section \<open>Values\<close>

lemma public_value_eq [simp]: "public_value v = into_public_value v"
  by (simp add: public_value_def into_public_value_def split: ext_value.splits option.splits)

lemma private_value_eq [simp]: "private_value v = into_private_value v"
  by (simp add: private_value_def into_private_value_def split: ext_value.splits option.splits)

lemma into_public_value_Ok [simp]: "into_public_value v = Ok c \<longleftrightarrow> v = Public c"
  by (auto simp: into_public_value_def split: ext_value.splits)

lemma into_private_value_Ok [simp]: "into_private_value v = Ok c \<longleftrightarrow> v = Private c"
  by (auto simp: into_private_value_def split: ext_value.splits)

section \<open>The iterators\<close>

lemma public_all_Nil [simp]: "public_all [] = []"
  by (simp add: public_all.simps)

lemma public_all_Cons [simp]:
  "public_all ((k, v) # xs) = (case v of Public c \<Rightarrow> (k, c) # public_all xs | Private c \<Rightarrow> public_all xs)"
  by (cases v) (simp_all add: public_all.simps [of "(k, _) # xs"] public_all.simps [of xs]
      into_public_value_def)

lemma private_all_Nil [simp]: "private_all [] = []"
  by (simp add: private_all.simps)

lemma private_all_Cons [simp]:
  "private_all ((k, v) # xs) = (case v of Private c \<Rightarrow> (k, c) # private_all xs | Public c \<Rightarrow> private_all xs)"
  by (cases v) (simp_all add: private_all.simps [of "(k, _) # xs"] private_all.simps [of xs]
      into_private_value_def)

lemma set_public_all: "set (public_all xs) = {(k, c). (k, Public c) \<in> set xs}"
proof (induction xs)
  case (Cons a xs)
  then show ?case by (cases a) (auto split: ext_value.splits)
qed simp

lemma set_private_all: "set (private_all xs) = {(k, c). (k, Private c) \<in> set xs}"
proof (induction xs)
  case (Cons a xs)
  then show ?case by (cases a) (auto split: ext_value.splits)
qed simp

lemma length_public_private: "length (public_all xs) + length (private_all xs) = length xs"
proof (induction xs)
  case (Cons a xs)
  then show ?case by (cases a) (auto split: ext_value.splits)
qed simp

lemma set_ext_entries:
  assumes "iter_order it"
  shows "set (ext_entries it e) = {(k, v). fmlookup (ext_map e) k = Some v}"
  using iter_order_set [OF assms, of "fmdom (ext_map e)"]
  by (auto simp: ext_entries_def in_map_filter fmlookup_dom_iff)

lemma length_ext_entries:
  assumes "iter_order it"
  shows "length (ext_entries it e) = fcard (fmdom (ext_map e))"
proof -
  let ?it = "it (fmdom (ext_map e))"
  have "\<forall>k\<in>set ?it. fmlookup (ext_map e) k \<noteq> None"
    using iter_order_set [OF assms, of "fmdom (ext_map e)"] by (auto simp: fmlookup_dom_iff)
  then have "length (ext_entries it e) = length ?it"
    unfolding ext_entries_def by (intro length_map_filter) simp
  also have "\<dots> = fcard (fmdom (ext_map e))"
    using assms iter_order_set [OF assms, of "fmdom (ext_map e)"]
    by (metis distinct_card fcard.rep_eq iter_order_def)
  finally show ?thesis .
qed

lemma in_ext_public: "iter_order it \<Longrightarrow> (k, c) \<in> set (ext_public it e) \<longleftrightarrow> fmlookup (ext_map e) k = Some (Public c)"
  by (simp add: ext_public_def set_public_all set_ext_entries)

lemma in_ext_private: "iter_order it \<Longrightarrow> (k, c) \<in> set (ext_private it e) \<longleftrightarrow> fmlookup (ext_map e) k = Some (Private c)"
  by (simp add: ext_private_def set_private_all set_ext_entries)

text \<open>Iterating the public extensions yields exactly the entries stored as public, iterating the
  private ones exactly those stored as private, and together they yield every entry once, whatever
  the iteration order of the hash map: private extension data never appears among the public.\<close>

lemma extension_iterators_partition:
  assumes "iter_order it"
  shows "set (ext_public it e) = {(k, c). fmlookup (ext_map e) k = Some (Public c)}
    \<and> set (ext_private it e) = {(k, c). fmlookup (ext_map e) k = Some (Private c)}
    \<and> length (ext_public it e) + length (ext_private it e) = fcard (fmdom (ext_map e))"
proof -
  have "length (ext_public it e) + length (ext_private it e) = fcard (fmdom (ext_map e))"
    unfolding ext_public_def ext_private_def length_public_private
    by (rule length_ext_entries [OF assms])
  then show ?thesis
    using in_ext_public [OF assms] in_ext_private [OF assms] by auto
qed

section \<open>The table\<close>

lemma ext_remove_set_same [simp]:
  "fst (ext_remove (ext_set e k v) k) = Some v"
  by (simp add: ext_remove_def ext_set_def)

lemma ext_remove_set_other:
  "k \<noteq> j \<Longrightarrow> fst (ext_remove (ext_set e k v) j) = fst (ext_remove e j)"
  by (simp add: ext_remove_def ext_set_def)

lemma ext_remove_new [simp]: "fst (ext_remove extensions_new k) = None"
  by (simp add: ext_remove_def extensions_new_def)

lemma ext_lookup_set: "fmlookup (ext_map (ext_set e k v)) j = (if j = k then Some v else fmlookup (ext_map e) j)"
  by (simp add: ext_set_def)

end
