(* ===== verification/Codec.thy ===== *)
theory Codec
  imports Redis Grant
begin

text \<open>
  An executable serialisation of grants as text. The sources use \<open>serde_json\<close>, which is a parameter
  of the model; this one shows that the round trip the model relies on can hold, and makes concrete
  runs of the components that store grants executable.
\<close>

section \<open>Sequences of strings\<close>

fun quote_string :: "string \<Rightarrow> string" where
  "quote_string [] = ''.''"
| "quote_string (c # cs) = CHR ''_'' # c # quote_string cs"

fun unquote :: "string \<Rightarrow> (string \<times> string) option" where
  "unquote (x # rest) =
     (if x = CHR ''.'' then Some ([], rest)
      else (case rest of [] \<Rightarrow> None
            | c # rest' \<Rightarrow> map_option (\<lambda>(s, t). (c # s, t)) (unquote rest')))"
| "unquote [] = None"

definition quote_list :: "string list \<Rightarrow> string" where
  "quote_list xs = concat (map quote_string xs)"

fun unquote_list :: "nat \<Rightarrow> string \<Rightarrow> string list option" where
  "unquote_list n [] = Some []"
| "unquote_list 0 (c # cs) = None"
| "unquote_list (Suc n) (c # cs) =
     (case unquote (c # cs) of None \<Rightarrow> None
      | Some (s, rest) \<Rightarrow> map_option ((#) s) (unquote_list n rest))"

definition unquoted :: "string \<Rightarrow> string list option" where
  "unquoted s = unquote_list (length s) s"

lemma unquote_quote [simp]: "unquote (quote_string s @ t) = Some (s, t)"
  by (induction s) auto

lemma quote_string_Cons: "\<exists>c cs. quote_string s = c # cs"
  by (cases s) auto

lemma unquote_list_quote:
  "length xs \<le> n \<Longrightarrow> unquote_list n (quote_list xs) = Some xs"
proof (induction xs arbitrary: n)
  case (Cons x xs)
  then obtain k where n: "n = Suc k" by (cases n) auto
  obtain c cs where q: "quote_string x = c # cs" using quote_string_Cons by blast
  have "unquote (c # cs @ quote_list xs) = Some (x, quote_list xs)"
    using unquote_quote [of x "quote_list xs"] unfolding q by simp
  moreover have "quote_list (x # xs) = c # cs @ quote_list xs"
    by (simp add: quote_list_def q)
  ultimately show ?case using Cons n by simp
qed (simp add: quote_list_def)

lemma length_quote_list: "length xs \<le> length (quote_list xs)"
proof (induction xs)
  case (Cons x xs)
  obtain c cs where "quote_string x = c # cs" using quote_string_Cons by blast
  then show ?case using Cons by (simp add: quote_list_def)
qed simp

lemma unquoted_quote [simp]: "unquoted (quote_list xs) = Some xs"
  by (simp add: unquoted_def unquote_list_quote length_quote_list)

section \<open>Values\<close>

function bits_text :: "int \<Rightarrow> string" where
  "bits_text i = (if i \<le> 0 then [] else (if i mod 2 = 0 then CHR ''O'' else CHR ''I'') # bits_text (i div 2))"
  by pat_completeness auto
termination
  by (relation "measure nat") auto

declare bits_text.simps [simp del]

fun text_bits :: "string \<Rightarrow> int" where
  "text_bits [] = 0"
| "text_bits (c # cs) = (if c = CHR ''I'' then 1 else 0) + 2 * text_bits cs"

lemma text_bits_text: "0 \<le> i \<Longrightarrow> text_bits (bits_text i) = i"
proof (induction i rule: bits_text.induct)
  case (1 i)
  show ?case
  proof (cases "i \<le> 0")
    case False
    then have "text_bits (bits_text (i div 2)) = i div 2" using 1 by simp
    moreover have "i mod 2 = 0 \<or> i mod 2 = 1" by presburger
    ultimately show ?thesis
      using False by (auto simp: bits_text.simps [of i]) presburger+
  qed (use 1 in \<open>simp add: bits_text.simps\<close>)
qed

definition int_text :: "int \<Rightarrow> string" where
  "int_text i = (if i < 0 then CHR ''-'' # bits_text (- i) else CHR ''+'' # bits_text i)"

definition text_int :: "string \<Rightarrow> int" where
  "text_int s = (case s of [] \<Rightarrow> 0 | c # cs \<Rightarrow> if c = CHR ''-'' then - text_bits cs else text_bits cs)"

lemma text_int_text [simp]: "text_int (int_text i) = i"
  by (simp add: text_int_def int_text_def text_bits_text)

fun opt_text :: "string option \<Rightarrow> string" where
  "opt_text None = ''-''"
| "opt_text (Some s) = CHR ''+'' # s"

fun text_opt :: "string \<Rightarrow> string option" where
  "text_opt (c # s) = (if c = CHR ''+'' then Some s else None)"
| "text_opt [] = None"

lemma text_opt_text [simp]: "text_opt (opt_text x) = x"
  by (cases x) auto

fun value_text :: "ext_value \<Rightarrow> string" where
  "value_text (Public c) = CHR ''p'' # opt_text c"
| "value_text (Private c) = CHR ''s'' # opt_text c"

fun text_value :: "string \<Rightarrow> ext_value" where
  "text_value (c # s) = (if c = CHR ''p'' then Public (text_opt s) else Private (text_opt s))"
| "text_value [] = Private None"

lemma text_value_text [simp]: "text_value (value_text v) = v"
  by (cases v) auto

fun pairs_text :: "(string \<times> ext_value) list \<Rightarrow> string list" where
  "pairs_text [] = []"
| "pairs_text ((k, v) # ps) = k # value_text v # pairs_text ps"

fun text_pairs :: "string list \<Rightarrow> (string \<times> ext_value) list" where
  "text_pairs (k # v # ps) = (k, text_value v) # text_pairs ps"
| "text_pairs _ = []"

lemma text_pairs_text [simp]: "text_pairs (pairs_text ps) = ps"
  by (induction ps rule: pairs_text.induct) auto

lemma fmap_of_entries:
  "fmap_of_list (ext_entries example_order e) = ext_map e"
proof (rule fmap_ext)
  fix k
  have dist: "distinct (map fst (List.map_filter (\<lambda>k. map_option (Pair k) (fmlookup m k)) ks))"
    if "distinct ks" for ks and m :: "(string, ext_value) fmap"
    using that by (induction ks) (auto split: option.splits simp: in_map_filter image_iff)
  have d: "distinct (map fst (ext_entries example_order e))"
    using example_order_ok unfolding ext_entries_def iter_order_def by (blast intro: dist)
  have mem: "(k, v) \<in> set (ext_entries example_order e) \<longleftrightarrow> fmlookup (ext_map e) k = Some v" for v
    using set_ext_entries [OF example_order_ok] by auto
  show "fmlookup (fmap_of_list (ext_entries example_order e)) k = fmlookup (ext_map e) k"
  proof (cases "fmlookup (ext_map e) k")
    case None
    then have "k \<notin> fst ` set (ext_entries example_order e)" using mem by auto
    then show ?thesis by (simp add: None fmlookup_of_list map_of_eq_None_iff)
  next
    case (Some v)
    then show ?thesis using mem d by (simp add: fmlookup_of_list)
  qed
qed

section \<open>Grants\<close>

definition grant_text :: "string grant \<Rightarrow> string" where
  "grant_text g = quote_list [g_owner_id g, g_client_id g,
     quote_list (example_order (tokens (g_scope g))), g_redirect_uri g, int_text (g_until g),
     quote_list (pairs_text (ext_entries example_order (g_extensions g)))]"

definition text_grant :: "string \<Rightarrow> string grant option" where
  "text_grant s =
     (case unquoted s of
        Some [owner, client, sc, uri, until, exts] \<Rightarrow>
          Option.bind (unquoted sc) (\<lambda>toks. map_option (\<lambda>ps.
            \<lparr> g_owner_id = owner, g_client_id = client, g_scope = \<lparr> tokens = fset_of_list toks \<rparr>,
              g_redirect_uri = uri, g_until = text_int until,
              g_extensions = \<lparr> ext_map = fmap_of_list (text_pairs ps) \<rparr> \<rparr>) (unquoted exts))
      | _ \<Rightarrow> None)"

definition grant_codec :: "string grant codec" where
  "grant_codec = \<lparr> enc = (\<lambda>g. Some (grant_text g)), dec = text_grant \<rparr>"

lemma text_grant_text [simp]: "text_grant (grant_text g) = Some g"
proof -
  have "fset_of_list (example_order A) = A" for A
    using example_order_ok by (simp add: iter_order_def)
  then show ?thesis
    by (simp add: text_grant_def grant_text_def fmap_of_entries)
qed

lemma grant_codec_ok: "codec_ok grant_codec"
  by (simp add: codec_ok_def grant_codec_def)

end
