(* ===== verification/Authorizer.thy ===== *)
theory Authorizer
  imports Codec
begin

text \<open>
  Authorization codes (\<open>oxide-auth/src/primitives/authorizer.rs\<close>): \<open>AuthMap\<close> keeps the serialised
  grant of every outstanding code in a hash of the store. The contract of an authorizer (a code is
  handed out once and redeemed at most once) is the locale \<open>authorizer\<close>; \<open>AuthMap\<close> is shown to
  implement it over any store that satisfies \<open>redis_store\<close>, whatever errors the store reports. The
  last section interleaves the commands of concurrent extractions.
\<close>

section \<open>The authorizer\<close>

text \<open>A tagger (trait \<open>TagGrant\<close>) threads its own state \<open>'g\<close>.\<close>

type_synonym ('g, 'u) tagger = "u64 \<Rightarrow> 'u grant \<Rightarrow> 'g \<Rightarrow> (string, unit) outcome \<times> 'g"

record ('g, 'u) auth_map =
  am_tagger :: 'g
  am_usage :: u64
  am_tokens :: "string \<rightharpoonup> 'u grant"

definition auth_map_new :: "'g \<Rightarrow> ('g, 'u) auth_map" where
  "auth_map_new tagger = \<lparr> am_tagger = tagger, am_usage = 0, am_tokens = Map.empty \<rparr>"

definition am_tag ::
  "('g, 'u) tagger \<Rightarrow> u64 \<Rightarrow> 'u grant \<Rightarrow> (('g, 'u) auth_map \<times> 'r, string, unit) action" where
  "am_tag tag usage grant = (\<lambda>(m, r).
     case tag usage grant (am_tagger m) of (x, g) \<Rightarrow> (x, (m\<lparr> am_tagger := g \<rparr>, r)))"

text \<open>\<open>checks\<close> says whether the build checks \<open>next_usage - 1\<close> for underflow.\<close>

definition authorize ::
  "'r redis_ops \<Rightarrow> 'u grant codec \<Rightarrow> ('g, 'u) tagger \<Rightarrow> bool \<Rightarrow> 'u grant
    \<Rightarrow> (('g, 'u) auth_map \<times> 'r, string, unit) action" where
  "authorize R C tag checks grant =
     bind_ac (get_connection R) (\<lambda>_.
     bind_ac (redis_do (r_get R ''oauth2:authmap_usage'')) (\<lambda>u.
     let curr_usage = (case u of Some n \<Rightarrow> n | None \<Rightarrow> 0);
         next_usage = curr_usage + 1
     in
     bind_ac (lift_oc (u64_sub checks next_usage 1)) (\<lambda>usage.
     bind_ac (am_tag tag usage grant) (\<lambda>token.
     bind_ac (lift_oc (ok_or () (enc C grant))) (\<lambda>grant_str.
     bind_ac (hset_new R ''oauth2:authmap'' token grant_str) (\<lambda>_.
     bind_ac (set_usage R ''oauth2:authmap_usage'' next_usage) (\<lambda>_.
     ret token)))))))"

definition extract_code ::
  "'r redis_ops \<Rightarrow> 'u grant codec \<Rightarrow> string \<Rightarrow> ('m \<times> 'r, 'u grant option, unit) action" where
  "extract_code R C code =
     bind_ac (get_connection R) (\<lambda>_.
     bind_ac (redis_do (r_hget R ''oauth2:authmap'' code)) (\<lambda>s.
     case s of
       None \<Rightarrow> ret None
     | Some str \<Rightarrow>
         bind_ac (lift_oc (ok_or () (dec C str))) (\<lambda>g.
         bind_ac (hdel_one R ''oauth2:authmap'' code) (\<lambda>_.
         ret (Some g)))))"

text \<open>An authorizer as a trait object, and the implementations that forward to another one.\<close>

record ('s, 'u) authorizer_ops =
  az_authorize :: "'u grant \<Rightarrow> ('s, string, unit) action"
  az_extract :: "string \<Rightarrow> ('s, 'u grant option, unit) action"

definition auth_map_authorizer ::
  "'r redis_ops \<Rightarrow> 'u grant codec \<Rightarrow> ('g, 'u) tagger \<Rightarrow> bool
    \<Rightarrow> (('g, 'u) auth_map \<times> 'r, 'u) authorizer_ops" where
  "auth_map_authorizer R C tag checks =
     \<lparr> az_authorize = authorize R C tag checks, az_extract = extract_code R C \<rparr>"

definition authorizer_forward :: "('s, 'u) authorizer_ops \<Rightarrow> ('s, 'u) authorizer_ops" where
  "authorizer_forward a =
     \<lparr> az_authorize = (\<lambda>grant. az_authorize a grant), az_extract = (\<lambda>code. az_extract a code) \<rparr>"

lemma authorizer_forward_id [simp]: "authorizer_forward a = a"
  by (simp add: authorizer_forward_def)

section \<open>Sequences of calls\<close>

text \<open>Calls of an authorizer, and the results they deliver.\<close>

datatype 'u auth_call = CallAuthorize "'u grant" | CallExtract string

datatype 'u auth_event =
    Authorized "'u grant" "(string, unit) outcome"
  | Extracted string "('u grant option, unit) outcome"

fun auth_run ::
  "('s, 'u) authorizer_ops \<Rightarrow> 'u auth_call list \<Rightarrow> 's \<Rightarrow> 'u auth_event list \<times> 's" where
  "auth_run A [] s = ([], s)"
| "auth_run A (CallAuthorize g # cs) s =
     (case az_authorize A g s of (x, s') \<Rightarrow>
      case auth_run A cs s' of (es, s'') \<Rightarrow> (Authorized g x # es, s''))"
| "auth_run A (CallExtract c # cs) s =
     (case az_extract A c s of (x, s') \<Rightarrow>
      case auth_run A cs s' of (es, s'') \<Rightarrow> (Extracted c x # es, s''))"

fun redemption :: "string \<Rightarrow> 'u auth_event \<Rightarrow> bool" where
  "redemption c (Extracted d x) = (d = c \<and> (case x of Ok (Some g) \<Rightarrow> True | _ \<Rightarrow> False))"
| "redemption c (Authorized g x) = False"

fun is_authorization :: "'u auth_event \<Rightarrow> bool" where
  "is_authorization (Authorized g x) = True"
| "is_authorization (Extracted c x) = False"

definition redemptions :: "string \<Rightarrow> 'u auth_event list \<Rightarrow> nat" where
  "redemptions c es = length (filter (redemption c) es)"

definition authorizations :: "'u auth_event list \<Rightarrow> nat" where
  "authorizations es = length (filter is_authorization es)"

definition outstanding :: "(string \<rightharpoonup> 'u grant) \<Rightarrow> string \<Rightarrow> nat" where
  "outstanding m c = (if m c = None then 0 else 1)"

lemma count_simps [simp]:
  "redemptions c [] = 0" "authorizations [] = 0"
  "redemptions c (e # es) = (if redemption c e then 1 else 0) + redemptions c es"
  "authorizations (e # es) = (if is_authorization e then 1 else 0) + authorizations es"
  by (simp_all add: redemptions_def authorizations_def)

lemma redemption_Extracted_iff:
  "redemption c (Extracted d x) \<longleftrightarrow> d = c \<and> (\<exists>g. x = Ok (Some g))"
  by (auto split: outcome.splits option.splits)

section \<open>The contract of an authorizer\<close>

text \<open>
  \<open>codes\<close> is the abstract state: the outstanding codes with their grants. A failing \<open>authorize\<close> may
  leave an entry behind, a failing \<open>extract\<close> may have removed the code, nothing else changes.
\<close>

locale authorizer =
  fixes A :: "('s, 'u) authorizer_ops"
    and codes :: "'s \<Rightarrow> string \<rightharpoonup> 'u grant"
  assumes authorize_Ok:
      "az_authorize A g s = (Ok c, s') \<Longrightarrow> codes s c = None \<and> codes s' = (codes s)(c \<mapsto> g)"
    and authorize_fail:
      "az_authorize A g s = (x, s') \<Longrightarrow> codes s' = codes s \<or> (\<exists>c. codes s' = (codes s)(c \<mapsto> g))"
    and extract_Some:
      "az_extract A c s = (Ok (Some g), s') \<Longrightarrow> codes s c = Some g \<and> codes s' = (codes s)(c := None)"
    and extract_other:
      "az_extract A c s = (y, s') \<Longrightarrow> codes s' = codes s \<or> codes s' = (codes s)(c := None)"
begin

lemma extract_counts:
  assumes "az_extract A d s = (x, s')"
  shows "(if redemption c (Extracted d x) then 1 else 0) + outstanding (codes s') c
    \<le> outstanding (codes s) c"
proof (cases "redemption c (Extracted d x)")
  case True
  then obtain g where "d = c" "x = Ok (Some g)" unfolding redemption_Extracted_iff by blast
  then show ?thesis using extract_Some assms by (auto simp: outstanding_def)
next
  case False
  then show ?thesis using extract_other [OF assms] by (auto simp: outstanding_def split: if_splits)
qed

lemma authorize_counts:
  "az_authorize A g s = (x, s') \<Longrightarrow> outstanding (codes s') c \<le> outstanding (codes s) c + 1"
  using authorize_fail [of g s x s'] by (auto simp: outstanding_def)

lemma run_counts:
  "auth_run A cs s = (es, s') \<Longrightarrow>
     redemptions c es + outstanding (codes s') c \<le> outstanding (codes s) c + authorizations es"
proof (induction cs arbitrary: s es)
  case (Cons call cs)
  show ?case
  proof (cases call)
    case (CallAuthorize g)
    obtain x s1 where one: "az_authorize A g s = (x, s1)" by fastforce
    obtain fs where rest: "auth_run A cs s1 = (fs, s')" "es = Authorized g x # fs"
      using Cons.prems CallAuthorize one by (auto split: prod.splits)
    show ?thesis using Cons.IH [OF rest(1)] authorize_counts [OF one, of c] rest(2) by simp
  next
    case (CallExtract d)
    obtain x s1 where one: "az_extract A d s = (x, s1)" by fastforce
    obtain fs where rest: "auth_run A cs s1 = (fs, s')" "es = Extracted d x # fs"
      using Cons.prems CallExtract one by (auto split: prod.splits)
    show ?thesis
      using Cons.IH [OF rest(1)] extract_counts [OF one, of c] rest(2) by (simp del: redemption.simps)
  qed
qed simp

lemma authorize_then_extract:
  assumes "az_authorize A g s = (Ok c, s1)" and "az_extract A c s1 = (Ok x, s2)" and "x \<noteq> None"
  shows "x = Some g \<and> codes s2 = codes s"
proof -
  have "codes s c = None" "codes s1 = (codes s)(c \<mapsto> g)"
    using authorize_Ok [OF assms(1)] by auto
  moreover obtain h where "x = Some h" "codes s1 c = Some h" "codes s2 = (codes s1)(c := None)"
    using assms(2,3) extract_Some by blast
  ultimately show ?thesis by auto
qed

end

section \<open>The authorizer over the store\<close>

definition auth_codes ::
  "('r \<Rightarrow> string \<Rightarrow> string \<Rightarrow> string option) \<Rightarrow> 'u grant codec \<Rightarrow> 'm \<times> 'r \<Rightarrow> string \<rightharpoonup> 'u grant" where
  "auth_codes hash C s c = Option.bind (hash (snd s) ''oauth2:authmap'' c) (dec C)"

context redis_store
begin

lemma extract_cases:
  assumes "extract_code R C c (m, r) = (x, (m', r'))"
  shows "m' = m \<and> num r' = num r \<and> x \<noteq> Panic \<and>
    (hash r' = hash r \<or> hash r' = hash_upd (hash r) ''oauth2:authmap'' c None) \<and>
    (\<forall>g. x = Ok (Some g) \<longrightarrow> auth_codes hash C (m, r) c = Some g \<and>
        hash r' = hash_upd (hash r) ''oauth2:authmap'' c None)"
proof -
  obtain y r1 where 1: "get_connection R (m, r) = (y, (m, r1))"
    using get_connection_frame by (metis prod.collapse)
  note f1 = get_connection_frame [OF 1]
  obtain s r2 where 2: "r_hget R ''oauth2:authmap'' c r1 = (s, r2)" by fastforce
  note f2 = hget [OF 2]
  obtain z m3 r3 where 3: "hdel_one R ''oauth2:authmap'' c (m, r2) = (z, (m3, r3))"
    by (metis prod.collapse)
  note f3 = hdel_one_frame [OF 3] and f3' = hdel_one_Ok [of "''oauth2:authmap''" c m r2 "()" m3 r3]
  have run: "extract_code R C c (m, r) =
      (case y of Ok _ \<Rightarrow>
         (case s of None \<Rightarrow> (Ok None, (m, r2))
          | Some str \<Rightarrow> (case dec C str of None \<Rightarrow> (Err (), (m, r2))
             | Some g \<Rightarrow> (map_ok (\<lambda>_. Some g) z, (m3, r3))))
       | Err e \<Rightarrow> (Err e, (m, r1)) | Panic \<Rightarrow> (Panic, (m, r1)))"
    using 1 2 3
    by (auto simp: extract_code_def bind_ac_def redis_do_def split: outcome.splits option.splits)
  have eqs: "hash r2 = hash r" "num r2 = num r" using f1 f2 by simp_all
  show ?thesis
  proof (cases "\<exists>str g. y = Ok () \<and> s = Some str \<and> dec C str = Some g")
    case True
    then obtain str g where *: "y = Ok ()" "s = Some str" "dec C str = Some g" by blast
    then have "auth_codes hash C (m, r) c = Some g"
      using f1 f2 by (auto simp: auth_codes_def)
    then show ?thesis
      using assms * 3 f3 f3' eqs unfolding run by (cases z) auto
  next
    case False
    then show ?thesis
      using assms f1 eqs unfolding run by (auto split: outcome.splits option.splits)
  qed
qed

lemma authorize_cases:
  assumes "authorize R C tag checks g (m, r) = (x, (m', r'))" and "codec_ok C"
  shows "(hash r' = hash r \<or>
       (\<exists>c v. hash r' = hash_upd (hash r) ''oauth2:authmap'' c (Some v) \<and> dec C v = Some g)) \<and>
    (\<forall>c. x = Ok c \<longrightarrow> hash r ''oauth2:authmap'' c = None \<and>
       (\<exists>v. hash r' = hash_upd (hash r) ''oauth2:authmap'' c (Some v) \<and> dec C v = Some g))"
proof -
  obtain y r1 where 1: "get_connection R (m, r) = (y, (m, r1))"
    using get_connection_frame by (metis prod.collapse)
  note f1 = get_connection_frame [OF 1]
  obtain u r2 where 2: "r_get R ''oauth2:authmap_usage'' r1 = (u, r2)" by fastforce
  note f2 = get [OF 2]
  define n where "n = (case u of Some n \<Rightarrow> n | None \<Rightarrow> 0) + (1 :: u64)"
  obtain t gt where 3: "tag (n - 1) g (am_tagger m) = (t, gt)" by fastforce
  obtain v where v: "enc C g = Some v" "dec C v = Some g" using codec_enc [OF assms(2)] by blast
  define m2 where "m2 = m\<lparr> am_tagger := gt \<rparr>"
  have up_to: "authorize R C tag checks g (m, r) =
      (case y of Ok _ \<Rightarrow>
         (if checks \<and> n < 1 then (Panic, (m, r2))
          else (case t of Ok token \<Rightarrow>
                  bind_ac (hset_new R ''oauth2:authmap'' token v)
                    (\<lambda>_. bind_ac (set_usage R ''oauth2:authmap_usage'' n) (\<lambda>_. ret token)) (m2, r2)
                | Err e \<Rightarrow> (Err e, (m2, r2)) | Panic \<Rightarrow> (Panic, (m2, r2))))
       | Err e \<Rightarrow> (Err e, (m, r1)) | Panic \<Rightarrow> (Panic, (m, r1)))"
    using 1 2 3 v(1)
    by (cases y; cases t)
      (simp_all add: authorize_def bind_ac_def redis_do_def u64_sub_def am_tag_def m2_def n_def Let_def)
  show ?thesis
  proof (cases "y = Ok () \<and> \<not> (checks \<and> n < 1) \<and> (\<exists>token. t = Ok token)")
    case True
    then obtain token where t: "t = Ok token" by blast
    obtain z m3 r3 where 4: "hset_new R ''oauth2:authmap'' token v (m2, r2) = (z, (m3, r3))"
      by (metis prod.collapse)
    note f4 = hset_new_frame [OF 4]
      and f4' = hset_new_Ok [of "''oauth2:authmap''" token v m2 r2 "()" m3 r3]
    obtain w m4 r4 where 5: "set_usage R ''oauth2:authmap_usage'' n (m3, r3) = (w, (m4, r4))"
      by (metis prod.collapse)
    note f5 = set_usage_frame [OF 5]
    have "hash r2 = hash r" using f1 f2 by simp
    then show ?thesis
      using assms(1) True t 4 5 f4 f4' f5 v
      unfolding up_to by (cases z; cases w) (auto simp: bind_ac_def)
  next
    case False
    then have "hash r' = hash r \<and> (\<forall>c. x \<noteq> Ok c)"
      using assms(1) f1 f2 unfolding up_to by (auto split: outcome.splits if_splits)
    then show ?thesis by blast
  qed
qed

lemma authorize_up:
  assumes "healthy r" and "codec_ok C"
    and usage: "usage = (case num r ''oauth2:authmap_usage'' of Some n \<Rightarrow> n | None \<Rightarrow> 0)"
    and "\<not> (checks \<and> usage + 1 < 1)"
    and tag: "tag usage g (am_tagger m) = (Ok c, gt)"
    and fresh: "hash r ''oauth2:authmap'' c = None"
  obtains v r' where
    "authorize R C tag checks g (m, r) = (Ok c, (m\<lparr> am_tagger := gt \<rparr>, r'))" "healthy r'"
    "hash r' = hash_upd (hash r) ''oauth2:authmap'' c (Some v)" "dec C v = Some g"
    "num r' = (num r)(''oauth2:authmap_usage'' \<mapsto> usage + 1)"
proof -
  obtain v where v: "enc C g = Some v" "dec C v = Some g" using codec_enc [OF assms(2)] by blast
  obtain r1 where 1: "get_connection R (m, r) = (Ok (), (m, r1))" "healthy r1"
    "hash r1 = hash r" "num r1 = num r"
    by (rule get_connection_up [OF assms(1)])
  obtain r2 where 2: "redis_do (r_get R ''oauth2:authmap_usage'') (m, r1)
      = (Ok (num r1 ''oauth2:authmap_usage''), (m, r2))" "healthy r2" "hash r2 = hash r1" "num r2 = num r1"
    by (rule get_up [OF 1(2)])
  let ?m = "m\<lparr> am_tagger := gt \<rparr>"
  obtain r3 where 3: "hset_new R ''oauth2:authmap'' c v (?m, r2) = (Ok (), (?m, r3))" "healthy r3"
    "hash r3 = hash_upd (hash r2) ''oauth2:authmap'' c (Some v)" "num r3 = num r2"
    using hset_new_up [OF 2(2)] fresh 1 2 by metis
  obtain r4 where 4: "set_usage R ''oauth2:authmap_usage'' (usage + 1) (?m, r3) = (Ok (), (?m, r4))"
    "healthy r4" "hash r4 = hash r3" "num r4 = (num r3)(''oauth2:authmap_usage'' \<mapsto> usage + 1)"
    by (rule set_usage_up [OF 3(2)])
  have "authorize R C tag checks g (m, r) = (Ok c, (?m, r4))"
    using 1 2 3 4 v assms(4) tag usage
    by (simp add: authorize_def bind_ac_step u64_sub_def am_tag_def Let_def)
  then show thesis using that 1 2 3 4 v by simp
qed

lemma extract_up:
  assumes "healthy r" and "hash r ''oauth2:authmap'' c = Some v" and "dec C v = Some g"
  obtains r' where "extract_code R C c (m, r) = (Ok (Some g), (m, r'))" "healthy r'"
    "hash r' = hash_upd (hash r) ''oauth2:authmap'' c None" "num r' = num r"
proof -
  obtain r1 where 1: "get_connection R (m, r) = (Ok (), (m, r1))" "healthy r1"
    "hash r1 = hash r" "num r1 = num r"
    by (rule get_connection_up [OF assms(1)])
  obtain r2 where 2: "redis_do (r_hget R ''oauth2:authmap'' c) (m, r1)
      = (Ok (hash r1 ''oauth2:authmap'' c), (m, r2))" "healthy r2" "hash r2 = hash r1" "num r2 = num r1"
    by (rule hget_up [OF 1(2)])
  obtain r3 where 3: "hdel_one R ''oauth2:authmap'' c (m, r2) = (Ok (), (m, r3))" "healthy r3"
    "hash r3 = hash_upd (hash r2) ''oauth2:authmap'' c None" "num r3 = num r2"
    using hdel_one_up [OF 2(2)] assms(2) 1 2 by (metis option.distinct(1))
  have "extract_code R C c (m, r) = (Ok (Some g), (m, r3))"
    using 1 2 3 assms by (simp add: extract_code_def bind_ac_step)
  then show thesis using that 1 2 3 by simp
qed

lemma extract_missing_up:
  assumes "healthy r" and "hash r ''oauth2:authmap'' c = None"
  obtains r' where "extract_code R C c (m, r) = (Ok None, (m, r'))" "healthy r'" "hash r' = hash r"
proof -
  obtain r1 where 1: "get_connection R (m, r) = (Ok (), (m, r1))" "healthy r1" "hash r1 = hash r"
    by (rule get_connection_up [OF assms(1)])
  obtain r2 where 2: "redis_do (r_hget R ''oauth2:authmap'' c) (m, r1)
      = (Ok (hash r1 ''oauth2:authmap'' c), (m, r2))" "healthy r2" "hash r2 = hash r1"
    by (rule hget_up [OF 1(2)])
  have "extract_code R C c (m, r) = (Ok None, (m, r2))"
    using 1 2 assms by (simp add: extract_code_def bind_ac_step)
  then show thesis using that 1 2 by simp
qed

end

text \<open>The end of the counter: \<open>authorize\<close> panics before it writes, and \<open>extract\<close> does not move the counter.\<close>

context redis_store
begin

definition exhausted :: "'r \<Rightarrow> bool" where
  "exhausted r \<longleftrightarrow> healthy r \<and> num r ''oauth2:authmap_usage'' = Some (- 1)"

lemma extract_healthy:
  assumes "extract_code R C c (m, r) = (x, (m', r'))" and "healthy r"
  shows "healthy r'"
proof -
  obtain r1 where 1: "get_connection R (m, r) = (Ok (), (m, r1))" "healthy r1"
    by (rule get_connection_up [OF assms(2)])
  obtain r2 where 2: "redis_do (r_hget R ''oauth2:authmap'' c) (m, r1)
      = (Ok (hash r1 ''oauth2:authmap'' c), (m, r2))" "healthy r2"
    by (rule hget_up [OF 1(2)])
  have "healthy r3" if "hdel_one R ''oauth2:authmap'' c (m, r2) = (y, (m3, r3))" for y m3 r3
    using hdel_one_healthy [OF that 2(2)] by blast
  then show ?thesis
    using assms(1) 1(1) 2
    by (cases "hdel_one R ''oauth2:authmap'' c (m, r2)")
      (auto simp: extract_code_def bind_ac_def ret_def lift_oc_def split: option.splits outcome.splits)
qed

lemma authorize_exhausted:
  assumes "exhausted r"
  obtains r' where "authorize R C tag True g (m, r) = (Panic, (m, r'))" "exhausted r'"
    "hash r' = hash r" "num r' = num r"
proof -
  have up: "healthy r" and counter: "num r ''oauth2:authmap_usage'' = Some (- 1)"
    using assms by (simp_all add: exhausted_def)
  obtain r1 where 1: "get_connection R (m, r) = (Ok (), (m, r1))" "healthy r1"
    "hash r1 = hash r" "num r1 = num r"
    by (rule get_connection_up [OF up])
  obtain r2 where 2: "redis_do (r_get R ''oauth2:authmap_usage'') (m, r1)
      = (Ok (num r1 ''oauth2:authmap_usage''), (m, r2))" "healthy r2" "hash r2 = hash r1" "num r2 = num r1"
    by (rule get_up [OF 1(2)])
  have "authorize R C tag True g (m, r) = (Panic, (m, r2))"
    using 1 2 counter by (simp add: authorize_def bind_ac_step u64_sub_def Let_def word_less_nat_alt)
  then show thesis
    using that [of r2] 1 2 counter by (simp add: exhausted_def)
qed

lemma extract_exhausted:
  assumes "extract_code R C c (m, r) = (x, (m', r'))" and "exhausted r"
  shows "exhausted r' \<and> m' = m \<and> num r' = num r \<and>
    auth_codes hash C (m', r') \<subseteq>\<^sub>m auth_codes hash C (m, r)"
proof -
  note cases = extract_cases [OF assms(1)]
  have "healthy r'"
    using extract_healthy [OF assms(1)] assms(2) by (simp add: exhausted_def)
  moreover have "auth_codes hash C (m', r') \<subseteq>\<^sub>m auth_codes hash C (m, r)"
    using cases by (auto simp: map_le_def auth_codes_def split: if_splits)
  ultimately show ?thesis
    using cases assms(2) by (simp add: exhausted_def)
qed

lemma run_exhausted:
  assumes "auth_run (auth_map_authorizer R C tag True) calls (m, r) = (es, (m', r'))" and "exhausted r"
  shows "(\<forall>g x. Authorized g x \<in> set es \<longrightarrow> x = Panic) \<and> exhausted r' \<and> m' = m \<and> num r' = num r \<and>
    auth_codes hash C (m', r') \<subseteq>\<^sub>m auth_codes hash C (m, r)"
  using assms
proof (induction calls arbitrary: r es)
  case (Cons call calls)
  show ?case
  proof (cases call)
    case (CallAuthorize g)
    obtain r1 where 1: "authorize R C tag True g (m, r) = (Panic, (m, r1))" "exhausted r1"
      "hash r1 = hash r" "num r1 = num r"
      by (rule authorize_exhausted [OF Cons.prems(2)])
    obtain fs where rest: "auth_run (auth_map_authorizer R C tag True) calls (m, r1) = (fs, (m', r'))"
      "es = Authorized g Panic # fs"
      using Cons.prems(1) 1(1) CallAuthorize by (auto simp: auth_map_authorizer_def split: prod.splits)
    have "auth_codes hash C (m, r1) = auth_codes hash C (m, r)"
      using 1(3) by (simp add: auth_codes_def fun_eq_iff)
    then show ?thesis
      using Cons.IH [OF rest(1) 1(2)] 1(4) rest(2) by auto
  next
    case (CallExtract c)
    obtain x m1 r1 where 1: "extract_code R C c (m, r) = (x, (m1, r1))" by (metis prod.collapse)
    note one = extract_exhausted [OF 1 Cons.prems(2)]
    obtain fs where rest: "auth_run (auth_map_authorizer R C tag True) calls (m, r1) = (fs, (m', r'))"
      "es = Extracted c x # fs"
      using Cons.prems(1) 1 one CallExtract by (auto simp: auth_map_authorizer_def split: prod.splits)
    show ?thesis
      using Cons.IH [OF rest(1)] one rest(2) by (auto intro: map_le_trans)
  qed
qed simp

end

text \<open>\<open>AuthMap\<close> fulfils the contract over every store with the laws of \<open>redis_store\<close>.\<close>

locale auth_store = redis_store R hash num healthy
  for R :: "'r redis_ops" and hash num healthy +
  fixes C :: "'u grant codec"
    and tag :: "('g, 'u) tagger"
    and checks :: bool
  assumes codec: "codec_ok C"

sublocale auth_store \<subseteq> authorizer "auth_map_authorizer R C tag checks" "auth_codes hash C"
proof
  fix g s c s'
  assume a: "az_authorize (auth_map_authorizer R C tag checks) g s = (Ok c, s')"
  show "auth_codes hash C s c = None \<and> auth_codes hash C s' = (auth_codes hash C s)(c \<mapsto> g)"
    using a authorize_cases [OF _ codec, of tag checks g "fst s" "snd s" "Ok c" "fst s'" "snd s'"]
    by (auto simp: auth_map_authorizer_def auth_codes_def fun_eq_iff)
next
  fix g s x s'
  assume a: "az_authorize (auth_map_authorizer R C tag checks) g s = (x, s')"
  then have "hash (snd s') = hash (snd s) \<or>
      (\<exists>c v. hash (snd s') = hash_upd (hash (snd s)) ''oauth2:authmap'' c (Some v) \<and> dec C v = Some g)"
    using authorize_cases [OF _ codec, of tag checks g "fst s" "snd s" x "fst s'" "snd s'"]
    by (auto simp: auth_map_authorizer_def)
  then show "auth_codes hash C s' = auth_codes hash C s \<or>
      (\<exists>c. auth_codes hash C s' = (auth_codes hash C s)(c \<mapsto> g))"
  proof
    assume "\<exists>c v. hash (snd s') = hash_upd (hash (snd s)) ''oauth2:authmap'' c (Some v) \<and> dec C v = Some g"
    then obtain c v where "hash (snd s') = hash_upd (hash (snd s)) ''oauth2:authmap'' c (Some v)"
      "dec C v = Some g" by blast
    then have "auth_codes hash C s' = (auth_codes hash C s)(c \<mapsto> g)"
      by (auto simp: auth_codes_def fun_eq_iff)
    then show ?thesis by blast
  qed (simp add: auth_codes_def fun_eq_iff)
next
  fix c s g s'
  assume a: "az_extract (auth_map_authorizer R C tag checks) c s = (Ok (Some g), s')"
  show "auth_codes hash C s c = Some g \<and> auth_codes hash C s' = (auth_codes hash C s)(c := None)"
    using a extract_cases [of C c "fst s" "snd s" "Ok (Some g)" "fst s'" "snd s'"]
    by (auto simp: auth_map_authorizer_def auth_codes_def fun_eq_iff)
next
  fix c s x s'
  assume a: "az_extract (auth_map_authorizer R C tag checks) c s = (x, s')"
  show "auth_codes hash C s' = auth_codes hash C s \<or>
      auth_codes hash C s' = (auth_codes hash C s)(c := None)"
    using a extract_cases [of C c "fst s" "snd s" x "fst s'" "snd s'"]
    by (auto simp: auth_map_authorizer_def auth_codes_def fun_eq_iff)
qed

context auth_store
begin

lemma is_authorizer: "authorizer (auth_map_authorizer R C tag checks) (auth_codes hash C)"
  by (rule authorizer_axioms)

end

text \<open>On the executable store, for every tagger.\<close>

interpretation mem_auth: auth_store mem_ops mr_hash mr_num mem_healthy grant_codec tag checks
  for tag checks
  by unfold_locales (rule grant_codec_ok)

section \<open>Properties of sequential use\<close>

lemma auth_map_is_authorizer:
  assumes "redis_store R hash num healthy" and "codec_ok C"
  shows "authorizer (auth_map_authorizer R C tag checks) (auth_codes hash C)"
  by (rule auth_store.is_authorizer [of R hash num healthy])
    (simp add: auth_store_def auth_store_axioms_def assms)

text \<open>
  C1: single use of authorization codes. In every sequence of calls, whatever errors the store
  reports on the way, a code is redeemed at most as often as it was outstanding at the start plus
  the number of calls of \<open>authorize\<close>: without a new authorization a code is redeemed at most once.
\<close>

theorem code_single_use:
  assumes "redis_store R hash num healthy" and "codec_ok C"
    and "auth_run (auth_map_authorizer R C tag checks) calls s = (es, s')"
  shows "redemptions c es \<le> outstanding (auth_codes hash C s) c + authorizations es"
  using authorizer.run_counts [OF auth_map_is_authorizer [OF assms(1,2)] assms(3), of c] by simp

definition example_grant :: "string grant" where
  "example_grant = \<lparr> g_owner_id = ''o'', g_client_id = ''c'', g_scope = \<lparr> tokens = {|''read''|} \<rparr>,
     g_redirect_uri = ''https://a/'', g_until = 5, g_extensions = extensions_new \<rparr>"

text \<open>A tagger that writes the usage counter in unary.\<close>

definition unary_tagger :: "(unit, 'u) tagger" where
  "unary_tagger usage g st = (Ok (CHR ''t'' # replicate (unat usage) (CHR ''I'')), st)"

definition example_auth_state :: "(unit, string) auth_map \<times> mem_redis" where
  "example_auth_state = (auth_map_new (), mem_empty)"

definition example_auth_run :: "string auth_event list \<times> (unit, string) auth_map \<times> mem_redis" where
  "example_auth_run = auth_run (auth_map_authorizer mem_ops grant_codec unary_tagger True)
     [CallAuthorize example_grant, CallExtract ''t'', CallExtract ''t''] example_auth_state"

theorem code_single_use_witness:
  "redemptions ''t'' (fst example_auth_run) \<le> 1 \<and>
   map (redemption ''t'') (fst example_auth_run) = [False, True, False]"
proof -
  have evs: "map (redemption ''t'') (fst example_auth_run) = [False, True, False]"
    "authorizations (fst example_auth_run) = 1"
    by code_simp+
  have run: "auth_run (auth_map_authorizer mem_ops grant_codec unary_tagger True)
     [CallAuthorize example_grant, CallExtract ''t'', CallExtract ''t''] example_auth_state
     = (fst example_auth_run, snd example_auth_run)"
    unfolding prod.collapse by (rule example_auth_run_def [symmetric])
  have "outstanding (auth_codes mr_hash grant_codec example_auth_state) ''t'' = 0"
    by (simp add: outstanding_def auth_codes_def example_auth_state_def mem_empty_def)
  then show ?thesis
    using code_single_use [OF mem_redis_store grant_codec_ok run, of "''t''"] evs by simp
qed

text \<open>
  Round trip. On a healthy store, with a tagger that produces a token that is not outstanding
  and a counter that has not reached its end, \<open>authorize\<close> returns the token, the next \<open>extract\<close> of it
  returns the grant, and a further one finds nothing.
\<close>

lemma authorize_extract_roundtrip:
  assumes "redis_store R hash num healthy" and "codec_ok C" and "healthy r"
    and "usage = (case num r ''oauth2:authmap_usage'' of Some n \<Rightarrow> n | None \<Rightarrow> 0)"
    and "\<not> (checks \<and> usage + 1 < 1)"
    and "tag usage g (am_tagger m) = (Ok c, gt)"
    and "hash r ''oauth2:authmap'' c = None"
  shows "\<exists>s1 s2 s3. authorize R C tag checks g (m, r) = (Ok c, s1) \<and>
    extract_code R C c s1 = (Ok (Some g), s2) \<and> extract_code R C c s2 = (Ok None, s3)"
proof -
  note st = assms(1)
  obtain v r1 where 1: "authorize R C tag checks g (m, r) = (Ok c, (m\<lparr> am_tagger := gt \<rparr>, r1))"
    "healthy r1" "hash r1 = hash_upd (hash r) ''oauth2:authmap'' c (Some v)" "dec C v = Some g"
    using redis_store.authorize_up [OF st, of r C usage checks tag g m c gt] assms(2-7) by blast
  have stored: "hash r1 ''oauth2:authmap'' c = Some v" using 1(3) by simp
  obtain r2 where 2: "extract_code R C c (m\<lparr> am_tagger := gt \<rparr>, r1)
      = (Ok (Some g), (m\<lparr> am_tagger := gt \<rparr>, r2))" "healthy r2"
    "hash r2 = hash_upd (hash r1) ''oauth2:authmap'' c None"
    by (rule redis_store.extract_up [OF st, OF 1(2) stored 1(4), of "m\<lparr> am_tagger := gt \<rparr>"])
  have gone: "hash r2 ''oauth2:authmap'' c = None" using 2(3) by simp
  obtain r3 where "extract_code R C c (m\<lparr> am_tagger := gt \<rparr>, r2) = (Ok None, (m\<lparr> am_tagger := gt \<rparr>, r3))"
    by (rule redis_store.extract_missing_up [OF st, OF 2(2) gone, of C "m\<lparr> am_tagger := gt \<rparr>"])
  then show ?thesis using 1 2 by blast
qed

text \<open>
  C40: the end of the usage counter. The counter wraps, and the decrement that follows does not. With
  overflow checks, once the stored counter is \<open>2^64 - 1\<close>, in every sequence of calls on a store whose
  commands succeed every \<open>authorize\<close> panics; the counter stays where it is and the tagger is not used,
  codes still leave the store but none enters it, and the store is as healthy as before, so that any
  further calls fare the same. (A store that fails to read the counter makes \<open>authorize\<close> begin again at
  zero.)
\<close>

theorem authorize_counter_exhausted:
  assumes "redis_store R hash num healthy" and "healthy (snd s)"
    and "num (snd s) ''oauth2:authmap_usage'' = Some (- 1)"
    and "auth_run (auth_map_authorizer R C tag True) calls s = (es, s')"
  shows "(\<forall>g x. Authorized g x \<in> set es \<longrightarrow> x = Panic) \<and>
    healthy (snd s') \<and> num (snd s') = num (snd s) \<and> fst s' = fst s \<and>
    auth_codes hash C s' \<subseteq>\<^sub>m auth_codes hash C s"
proof -
  note st = assms(1)
  have run: "auth_run (auth_map_authorizer R C tag True) calls (fst s, snd s) = (es, (fst s', snd s'))"
    using assms(4) by simp
  have "redis_store.exhausted num healthy (snd s)"
    using assms(2,3) by (simp add: redis_store.exhausted_def [OF st])
  from redis_store.run_exhausted [OF st run this] show ?thesis
    by (simp add: redis_store.exhausted_def [OF st])
qed

theorem authorize_counter_exhausted_witness:
  "\<exists>es s'. auth_run (auth_map_authorizer mem_ops grant_codec unary_tagger True)
      [CallAuthorize example_grant, CallExtract ''t'', CallAuthorize example_grant]
      (auth_map_new (), mem_empty\<lparr> mr_num := [''oauth2:authmap_usage'' \<mapsto> - 1] \<rparr>) = (es, s') \<and>
    length (filter is_authorization es) = 2 \<and>
    fst s' = auth_map_new () \<and> mr_num (snd s') = [''oauth2:authmap_usage'' \<mapsto> - 1]"
proof -
  let ?s = "(auth_map_new (), mem_empty\<lparr> mr_num := [''oauth2:authmap_usage'' \<mapsto> - 1] \<rparr>)
      :: (unit, string) auth_map \<times> mem_redis"
  obtain es s' where run: "auth_run (auth_map_authorizer mem_ops grant_codec unary_tagger True)
      [CallAuthorize example_grant, CallExtract ''t'', CallAuthorize example_grant] ?s = (es, s')" by (meson surj_pair)
  have "length (filter is_authorization es) = 2"
    using run by (auto split: prod.splits)
  then show ?thesis
    using authorize_counter_exhausted [OF mem_redis_store _ _ run] run
    by (simp add: mem_healthy_def mem_empty_def)
qed

section \<open>Concurrent extraction\<close>

text \<open>
  Several servers share the store. \<open>extract_step\<close> is one command of \<open>extract\<close> at a time; the steps of
  a set of running extractions interleave arbitrarily, each command being atomic in the store.
\<close>

datatype 'u extract_pc =
    ExConnect
  | ExGet
  | ExDel "'u grant"
  | ExDone "('u grant option, unit) outcome"

definition extract_step ::
  "'r redis_ops \<Rightarrow> 'u grant codec \<Rightarrow> string \<Rightarrow> 'u extract_pc \<Rightarrow> 'r \<Rightarrow> 'u extract_pc \<times> 'r" where
  "extract_step R C code pc r =
     (case pc of
        ExConnect \<Rightarrow>
          (case r_connect R r of (b, r') \<Rightarrow> (if b then ExGet else ExDone (Err ()), r'))
      | ExGet \<Rightarrow>
          (case r_hget R ''oauth2:authmap'' code r of
             (None, r') \<Rightarrow> (ExDone (Ok None), r')
           | (Some str, r') \<Rightarrow>
               (case dec C str of None \<Rightarrow> ExDone (Err ()) | Some g \<Rightarrow> ExDel g, r'))
      | ExDel g \<Rightarrow>
          (case r_hdel R ''oauth2:authmap'' code r of
             (n, r') \<Rightarrow> (ExDone (if n = Some 1 then Ok (Some g) else Err ()), r'))
      | ExDone x \<Rightarrow> (ExDone x, r))"

text \<open>Run to the end without interference, the steps are the sequential operation.\<close>

fun extract_steps ::
  "'r redis_ops \<Rightarrow> 'u grant codec \<Rightarrow> string \<Rightarrow> nat \<Rightarrow> 'u extract_pc \<Rightarrow> 'r \<Rightarrow> 'u extract_pc \<times> 'r" where
  "extract_steps R C code 0 pc r = (pc, r)"
| "extract_steps R C code (Suc n) pc r =
     (case extract_step R C code pc r of (pc', r') \<Rightarrow> extract_steps R C code n pc' r')"

lemma extract_code_steps:
  "extract_code R C code (m, r) =
     (case extract_steps R C code 3 ExConnect r of
        (ExDone x, r') \<Rightarrow> (x, (m, r')) | (_, r') \<Rightarrow> (Panic, (m, r')))"
  by (auto simp: numeral_3_eq_3 extract_step_def extract_code_def get_connection_def hdel_one_def
      bind_ac_def redis_do_def split: prod.splits option.splits)

inductive extract_conc ::
  "'r redis_ops \<Rightarrow> 'u grant codec \<Rightarrow> (string \<times> 'u extract_pc) list \<times> 'r
    \<Rightarrow> (string \<times> 'u extract_pc) list \<times> 'r \<Rightarrow> bool" for R C where
  conc_step:
    "i < length ps \<Longrightarrow> ps ! i = (code, pc) \<Longrightarrow> extract_step R C code pc r = (pc', r') \<Longrightarrow>
     extract_conc R C (ps, r) (ps[i := (code, pc')], r')"

inductive_cases extract_concE: "extract_conc R C (ps, r) (qs, r')"

fun won :: "string \<Rightarrow> string \<times> 'u extract_pc \<Rightarrow> bool" where
  "won c (code, ExDone (Ok (Some g))) = (code = c)"
| "won c p = False"

definition wins :: "string \<Rightarrow> (string \<times> 'u extract_pc) list \<Rightarrow> nat" where
  "wins c ps = sum_list (map (\<lambda>p. if won c p then 1 else 0) ps)"

definition stored_in :: "('r \<Rightarrow> string \<Rightarrow> string \<Rightarrow> string option) \<Rightarrow> string \<Rightarrow> 'r \<Rightarrow> nat" where
  "stored_in hash c r = (if hash r ''oauth2:authmap'' c = None then 0 else 1)"

lemma wins_update:
  "i < length ps \<Longrightarrow>
     wins c (ps[i := q]) + (if won c (ps ! i) then 1 else 0) = wins c ps + (if won c q then 1 else 0)"
proof (induction ps arbitrary: i)
  case (Cons p ps)
  then show ?case by (cases i) (auto simp: wins_def)
qed simp

context redis_store
begin

lemma extract_step_counts:
  assumes "extract_step R C code pc r = (pc', r')"
  shows "(if won c (code, pc') then 1 else 0) + stored_in hash c r' \<le>
     (if won c (code, pc) then 1 else 0) + stored_in hash c r"
proof (cases pc)
  case ExConnect
  then show ?thesis
    using assms connect [of r]
    by (cases "r_connect R r") (auto simp: extract_step_def stored_in_def split: if_splits)
next
  case ExGet
  then show ?thesis
    using assms hget [of "''oauth2:authmap''" code r]
    by (cases "r_hget R ''oauth2:authmap'' code r")
      (auto simp: extract_step_def stored_in_def split: if_splits option.splits)
next
  case (ExDel g)
  obtain n r1 where d: "r_hdel R ''oauth2:authmap'' code r = (n, r1)" by fastforce
  have "hash r1 = hash r \<or> hash r1 = hash_upd (hash r) ''oauth2:authmap'' code None"
    using hdel [OF d] by blast
  then have mono: "stored_in hash c r1 \<le> stored_in hash c r"
    by (elim disjE) (simp_all add: stored_in_def)
  have taken: "stored_in hash code r1 = 0" "stored_in hash code r = 1" if "n = Some 1"
    using hdel [OF d] that by (simp_all add: stored_in_def split: if_splits)
  show ?thesis
    using assms ExDel d mono taken by (cases "n = Some 1") (auto simp: extract_step_def)
next
  case (ExDone x)
  then show ?thesis using assms by (auto simp: extract_step_def)
qed

lemma extract_conc_counts:
  "extract_conc R C (ps, r) (qs, r') \<Longrightarrow>
     wins c qs + stored_in hash c r' \<le> wins c ps + stored_in hash c r"
proof (elim extract_concE)
  fix i code pc pc'
  assume "qs = ps[i := (code, pc')]" "i < length ps" "ps ! i = (code, pc)"
    "extract_step R C code pc r = (pc', r')"
  then show ?thesis
    using extract_step_counts [of C code pc r pc' r' c] wins_update [of i ps c "(code, pc')"] by simp
qed

lemma extract_conc_star_counts:
  "(extract_conc R C)\<^sup>*\<^sup>* (ps, r) (qs, r') \<Longrightarrow>
     wins c qs + stored_in hash c r' \<le> wins c ps + stored_in hash c r"
proof (induction "(qs, r')" arbitrary: qs r' rule: rtranclp_induct)
  case (step y)
  obtain qs0 r0 where y: "y = (qs0, r0)" by fastforce
  then show ?case
    using step.hyps(3) [of qs0 r0] extract_conc_counts [of C qs0 r0 qs r' c] step.hyps(2) by simp
qed simp

end

lemma wins_start: "wins c (map (\<lambda>code. (code, ExConnect)) codes) = 0"
  by (induction codes) (auto simp: wins_def)

text \<open>
  C2: concurrent redemption. However the store commands of any number of concurrent extractions
  interleave, at most one of them succeeds for the same code, and none when the code is not stored:
  reading the entry does not suffice, the deletion has to have removed it.
\<close>

theorem concurrent_extract_single_winner:
  assumes "redis_store R hash num healthy"
    and "(extract_conc R C)\<^sup>*\<^sup>* (map (\<lambda>code. (code, ExConnect)) codes, r) (qs, r')"
  shows "wins c qs \<le> stored_in hash c r \<and> stored_in hash c r \<le> 1"
  using redis_store.extract_conc_star_counts [OF assms(1), OF assms(2), of c]
  by (simp add: wins_start stored_in_def)

definition example_stored :: mem_redis where
  "example_stored = mem_empty\<lparr> mr_hash :=
     hash_upd (mr_hash mem_empty) ''oauth2:authmap'' ''t'' (Some (grant_text example_grant)) \<rparr>"

lemma extract_conc_at:
  "extract_step R C code pc r = (pc', r') \<Longrightarrow> ps ! i = (code, pc) \<Longrightarrow> i < length ps \<Longrightarrow>
     qs = ps[i := (code, pc')] \<Longrightarrow> extract_conc R C (ps, r) (qs, r')"
  by (auto intro: conc_step)

text \<open>Two extractions both read the entry before the first of them deletes it.\<close>

theorem concurrent_extract_single_winner_witness:
  "wins ''t'' [(''t'', ExDel example_grant), (''t'', ExDone (Ok (Some example_grant)))]
     \<le> stored_in mr_hash ''t'' example_stored \<and> stored_in mr_hash ''t'' example_stored \<le> 1"
proof -
  let ?R = "extract_conc mem_ops grant_codec"
  let ?gone = "example_stored\<lparr> mr_hash := hash_upd (mr_hash example_stored) ''oauth2:authmap'' ''t'' None \<rparr>"
  have conn: "extract_step mem_ops grant_codec ''t'' ExConnect example_stored = (ExGet, example_stored)"
    and got: "extract_step mem_ops grant_codec ''t'' ExGet example_stored
      = (ExDel example_grant, example_stored)"
    and deld: "extract_step mem_ops grant_codec ''t'' (ExDel example_grant) example_stored
      = (ExDone (Ok (Some example_grant)), ?gone)"
    by (simp_all add: extract_step_def mem_defs example_stored_def grant_codec_def)
  have "?R ([(''t'', ExConnect), (''t'', ExConnect)], example_stored)
      ([(''t'', ExGet), (''t'', ExConnect)], example_stored)"
    by (rule extract_conc_at [OF conn, where i = 0]) simp_all
  moreover have "?R \<dots> ([(''t'', ExGet), (''t'', ExGet)], example_stored)"
    by (rule extract_conc_at [OF conn, where i = 1]) simp_all
  moreover have "?R \<dots> ([(''t'', ExDel example_grant), (''t'', ExGet)], example_stored)"
    by (rule extract_conc_at [OF got, where i = 0]) simp_all
  moreover have "?R \<dots> ([(''t'', ExDel example_grant), (''t'', ExDel example_grant)], example_stored)"
    by (rule extract_conc_at [OF got, where i = 1]) simp_all
  moreover have "?R \<dots> ([(''t'', ExDel example_grant), (''t'', ExDone (Ok (Some example_grant)))], ?gone)"
    by (rule extract_conc_at [OF deld, where i = 1]) simp_all
  ultimately have "?R\<^sup>*\<^sup>* (map (\<lambda>code. (code, ExConnect)) [''t'', ''t''], example_stored)
      ([(''t'', ExDel example_grant), (''t'', ExDone (Ok (Some example_grant)))], ?gone)"
    by (auto intro: converse_rtranclp_into_rtranclp)
  then show ?thesis by (rule concurrent_extract_single_winner [OF mem_redis_store])
qed

end
