(* ===== verification/Registrar.thy ===== *)
theory Registrar
  imports Scope
begin

text \<open>
  Clients and the in-memory registrar (\<open>oxide-auth/src/primitives/registrar.rs\<close>). The password
  hashing of the \<open>argon2\<close> crate and the random salt are parameters. The interface of a registrar
  is the locale \<open>redirect_registrar\<close>; the client map is shown to provide it.
\<close>

section \<open>Registered URLs\<close>

datatype exact_url = ExactUrl string

datatype 'u registered_url = Exact exact_url | Semantic 'u

primrec exact_as_str :: "exact_url \<Rightarrow> string" where
  "exact_as_str (ExactUrl s) = s"

definition exact_new :: "'u url_lib \<Rightarrow> string \<Rightarrow> (exact_url, unit) outcome" where
  "exact_new U url = bind_oc (ok_or () (url_parse U url)) (\<lambda>_. Ok (ExactUrl url))"

definition exact_from_str :: "'u url_lib \<Rightarrow> string \<Rightarrow> (exact_url, unit) outcome" where
  "exact_from_str U st = bind_oc (ok_or () (url_parse U st)) (\<lambda>_. Ok (ExactUrl st))"

definition exact_to_url :: "'u url_lib \<Rightarrow> exact_url \<Rightarrow> ('u, 'e) outcome" where
  "exact_to_url U e = expect (url_parse U (exact_as_str e))"

definition registered_as_str :: "'u url_lib \<Rightarrow> 'u registered_url \<Rightarrow> string" where
  "registered_as_str U r = (case r of Exact e \<Rightarrow> exact_as_str e | Semantic url \<Rightarrow> url_as_str U url)"

definition registered_to_url :: "'u url_lib \<Rightarrow> 'u registered_url \<Rightarrow> ('u, 'e) outcome" where
  "registered_to_url U r = (case r of Exact e \<Rightarrow> exact_to_url U e | Semantic url \<Rightarrow> Ok url)"

definition registered_into_url :: "'u url_lib \<Rightarrow> 'u registered_url \<Rightarrow> ('u, 'e) outcome" where
  "registered_into_url U r =
     (case r of Exact e \<Rightarrow> expect (url_parse U (exact_as_str e)) | Semantic url \<Rightarrow> Ok url)"

definition registered_eq_exact :: "'u url_lib \<Rightarrow> 'u registered_url \<Rightarrow> exact_url \<Rightarrow> (bool, 'e) outcome" where
  "registered_eq_exact U r exact =
     (case r of
        Exact url \<Rightarrow> Ok (url = exact)
      | Semantic url \<Rightarrow> map_ok (\<lambda>u. url = u) (exact_to_url U exact))"

definition registered_eq_url :: "'u url_lib \<Rightarrow> 'u registered_url \<Rightarrow> 'u \<Rightarrow> (bool, 'e) outcome" where
  "registered_eq_url U r semantic = map_ok (\<lambda>u. u = semantic) (registered_to_url U r)"

definition registered_display :: "'u url_lib \<Rightarrow> 'u registered_url \<Rightarrow> (string, 'e) outcome" where
  "registered_display U r =
     (case r of
        Exact e \<Rightarrow> map_ok (url_as_str U) (exact_to_url U e)
      | Semantic url \<Rightarrow> Ok (url_as_str U url))"

section \<open>Clients and their parameters\<close>

record client_url =
  cu_client_id :: string
  cu_redirect_uri :: "exact_url option"

record 'u bound_client =
  bc_client_id :: string
  bc_redirect_uri :: "'u registered_url"

record 'u pre_grant =
  pg_client_id :: string
  pg_redirect_uri :: "'u registered_url"
  pg_scope :: scope

datatype registrar_error = Unspecified | RegPrimitiveError

datatype client_type = PublicClient | Confidential bytes

record 'u client =
  cl_client_id :: string
  cl_redirect_uri :: "'u registered_url"
  cl_additional_redirect_uris :: "'u registered_url list"
  cl_default_scope :: scope
  cl_client_type :: client_type

record 'u encoded_client =
  ec_client_id :: string
  ec_redirect_uri :: "'u registered_url"
  ec_additional_redirect_uris :: "'u registered_url list"
  ec_default_scope :: scope
  ec_encoded_client :: client_type

definition client_public :: "string \<Rightarrow> 'u registered_url \<Rightarrow> scope \<Rightarrow> 'u client" where
  "client_public client_id redirect_uri default_scope =
     \<lparr> cl_client_id = client_id, cl_redirect_uri = redirect_uri, cl_additional_redirect_uris = [],
       cl_default_scope = default_scope, cl_client_type = PublicClient \<rparr>"

definition client_confidential :: "string \<Rightarrow> 'u registered_url \<Rightarrow> scope \<Rightarrow> bytes \<Rightarrow> 'u client" where
  "client_confidential client_id redirect_uri default_scope passphrase =
     \<lparr> cl_client_id = client_id, cl_redirect_uri = redirect_uri, cl_additional_redirect_uris = [],
       cl_default_scope = default_scope, cl_client_type = Confidential passphrase \<rparr>"

definition with_additional_redirect_uris :: "'u client \<Rightarrow> 'u registered_url list \<Rightarrow> 'u client" where
  "with_additional_redirect_uris c uris = c\<lparr> cl_additional_redirect_uris := uris \<rparr>"

definition pre_grant_partial_cmp :: "'u pre_grant \<Rightarrow> 'u pre_grant \<Rightarrow> ordering option" where
  "pre_grant_partial_cmp self rhs =
     (if (pg_client_id self, pg_redirect_uri self) \<noteq> (pg_client_id rhs, pg_redirect_uri rhs) then None
      else scope_partial_cmp (pg_scope self) (pg_scope rhs))"

section \<open>Password policies\<close>

text \<open>A policy (trait \<open>PasswordPolicy\<close>): storing takes the random bytes drawn for the call.\<close>

record policy =
  pol_store :: "bytes \<Rightarrow> string \<Rightarrow> bytes \<Rightarrow> (bytes, registrar_error) outcome"
  pol_check :: "string \<Rightarrow> bytes \<Rightarrow> bytes \<Rightarrow> (unit, registrar_error) outcome"

text \<open>The functions of the \<open>argon2\<close> crate: \<open>hash_encoded\<close> with the default configuration and the
  given associated data, and \<open>verify_encoded_ext\<close>.\<close>

record argon2_lib =
  a2_hash_encoded :: "bytes \<Rightarrow> bytes \<Rightarrow> bytes \<Rightarrow> string option"
  a2_verify_encoded_ext :: "string \<Rightarrow> bytes \<Rightarrow> bytes \<Rightarrow> bytes \<Rightarrow> bool option"

definition argon2_store :: "argon2_lib \<Rightarrow> bytes \<Rightarrow> string \<Rightarrow> bytes \<Rightarrow> (bytes, registrar_error) outcome" where
  "argon2_store A salt client_id passphrase =
     map_ok as_bytes (expect (a2_hash_encoded A passphrase salt (as_bytes client_id)))"

definition argon2_check :: "argon2_lib \<Rightarrow> string \<Rightarrow> bytes \<Rightarrow> bytes \<Rightarrow> (unit, registrar_error) outcome" where
  "argon2_check A client_id passphrase stored =
     bind_oc (ok_or RegPrimitiveError (from_utf8 stored)) (\<lambda>hash.
     bind_oc (ok_or RegPrimitiveError (a2_verify_encoded_ext A hash passphrase [] (as_bytes client_id)))
       (\<lambda>valid. if valid then Ok () else Err Unspecified))"

definition argon2_policy :: "argon2_lib \<Rightarrow> policy" where
  "argon2_policy A = \<lparr> pol_store = argon2_store A, pol_check = argon2_check A \<rparr>"

definition client_encode :: "bytes \<Rightarrow> policy \<Rightarrow> 'u client \<Rightarrow> ('u encoded_client, registrar_error) outcome" where
  "client_encode salt policy c =
     map_ok (\<lambda>encoded_client.
         \<lparr> ec_client_id = cl_client_id c, ec_redirect_uri = cl_redirect_uri c,
           ec_additional_redirect_uris = cl_additional_redirect_uris c,
           ec_default_scope = cl_default_scope c, ec_encoded_client = encoded_client \<rparr>)
       (case cl_client_type c of
          PublicClient \<Rightarrow> Ok PublicClient
        | Confidential passphrase \<Rightarrow>
            map_ok Confidential (pol_store policy salt (cl_client_id c) passphrase))"

definition check_authentication ::
  "policy \<Rightarrow> 'u encoded_client \<Rightarrow> bytes option \<Rightarrow> (unit, registrar_error) outcome" where
  "check_authentication policy c passphrase =
     (case (passphrase, ec_encoded_client c) of
        (None, PublicClient) \<Rightarrow> Ok ()
      | (Some provided, Confidential stored) \<Rightarrow> pol_check policy (ec_client_id c) provided stored
      | _ \<Rightarrow> Err Unspecified)"

section \<open>The client map\<close>

record 'u client_map =
  cm_clients :: "string \<rightharpoonup> 'u encoded_client"
  cm_password_policy :: "policy option"

definition client_map_new :: "'u client_map" where
  "client_map_new = \<lparr> cm_clients = Map.empty, cm_password_policy = None \<rparr>"

definition current_policy :: "argon2_lib \<Rightarrow> policy option \<Rightarrow> policy" where
  "current_policy A p = (case p of Some boxed \<Rightarrow> boxed | None \<Rightarrow> argon2_policy A)"

definition register_client ::
  "argon2_lib \<Rightarrow> bytes \<Rightarrow> 'u client \<Rightarrow> ('u client_map, unit, registrar_error) action" where
  "register_client A salt c = (\<lambda>m.
     case client_encode salt (current_policy A (cm_password_policy m)) c of
       Ok e \<Rightarrow> (Ok (), m\<lparr> cm_clients := (cm_clients m)(cl_client_id c \<mapsto> e) \<rparr>)
     | Err e \<Rightarrow> (Err e, m)
     | Panic \<Rightarrow> (Panic, m))"

definition set_password_policy :: "'u client_map \<Rightarrow> policy \<Rightarrow> 'u client_map" where
  "set_password_policy m new_policy = m\<lparr> cm_password_policy := Some new_policy \<rparr>"

text \<open>\<open>extend\<close> registers the clients of a sequence in order, each with its own salt;
  \<open>from_iter\<close> starts from the empty map.\<close>

fun client_map_extend ::
  "argon2_lib \<Rightarrow> (bytes \<times> 'u client) list \<Rightarrow> ('u client_map, unit, registrar_error) action" where
  "client_map_extend A [] = ret ()"
| "client_map_extend A ((salt, c) # cs) =
     bind_ac (register_client A salt c) (\<lambda>_. client_map_extend A cs)"

definition client_map_from_iter ::
  "argon2_lib \<Rightarrow> (bytes \<times> 'u client) list \<Rightarrow> (unit, registrar_error) outcome \<times> 'u client_map" where
  "client_map_from_iter A cs = client_map_extend A cs client_map_new"

fun find_registered ::
  "'u url_lib \<Rightarrow> 'u registered_url list \<Rightarrow> exact_url \<Rightarrow> ('u registered_url option, 'e) outcome" where
  "find_registered U [] url = Ok None"
| "find_registered U (r # rs) url =
     bind_oc (registered_eq_exact U r url) (\<lambda>eq. if eq then Ok (Some r) else find_registered U rs url)"

definition cm_bound_redirect ::
  "'u url_lib \<Rightarrow> 'u client_map \<Rightarrow> client_url \<Rightarrow> ('u bound_client, registrar_error) outcome" where
  "cm_bound_redirect U m bound =
     (case cm_clients m (cu_client_id bound) of
        None \<Rightarrow> Err Unspecified
      | Some c \<Rightarrow>
          bind_oc
            (case cu_redirect_uri bound of
               None \<Rightarrow> Ok (ec_redirect_uri c)
             | Some url \<Rightarrow>
                 bind_oc (find_registered U (ec_redirect_uri c # ec_additional_redirect_uris c) url)
                   (\<lambda>found. case found of Some registered \<Rightarrow> Ok registered | None \<Rightarrow> Err Unspecified))
            (\<lambda>registered_url.
               Ok \<lparr> bc_client_id = cu_client_id bound, bc_redirect_uri = registered_url \<rparr>))"

definition cm_negotiate ::
  "'u client_map \<Rightarrow> 'u bound_client \<Rightarrow> scope option \<Rightarrow> ('u pre_grant, registrar_error) outcome" where
  "cm_negotiate m bound scope =
     bind_oc (expect (cm_clients m (bc_client_id bound))) (\<lambda>c.
       Ok \<lparr> pg_client_id = bc_client_id bound, pg_redirect_uri = bc_redirect_uri bound,
            pg_scope = ec_default_scope c \<rparr>)"

definition cm_check ::
  "argon2_lib \<Rightarrow> 'u client_map \<Rightarrow> string \<Rightarrow> bytes option \<Rightarrow> (unit, registrar_error) outcome" where
  "cm_check A m client_id passphrase =
     bind_oc (ok_or Unspecified (cm_clients m client_id)) (\<lambda>c.
       check_authentication (current_policy A (cm_password_policy m)) c passphrase)"

text \<open>A registrar as a trait object, and the implementations that forward to another registrar.\<close>

record 'u registrar =
  rg_bound_redirect :: "client_url \<Rightarrow> ('u bound_client, registrar_error) outcome"
  rg_negotiate :: "'u bound_client \<Rightarrow> scope option \<Rightarrow> ('u pre_grant, registrar_error) outcome"
  rg_check :: "string \<Rightarrow> bytes option \<Rightarrow> (unit, registrar_error) outcome"

definition client_map_registrar :: "'u url_lib \<Rightarrow> argon2_lib \<Rightarrow> 'u client_map \<Rightarrow> 'u registrar" where
  "client_map_registrar U A m =
     \<lparr> rg_bound_redirect = cm_bound_redirect U m, rg_negotiate = cm_negotiate m,
       rg_check = cm_check A m \<rparr>"

definition registrar_forward :: "'u registrar \<Rightarrow> 'u registrar" where
  "registrar_forward r =
     \<lparr> rg_bound_redirect = (\<lambda>bound. rg_bound_redirect r bound),
       rg_negotiate = (\<lambda>bound scope. rg_negotiate r bound scope),
       rg_check = (\<lambda>client_id passphrase. rg_check r client_id passphrase) \<rparr>"

lemma registrar_forward_id [simp]: "registrar_forward r = r"
  by (simp add: registrar_forward_def)

section \<open>Matching redirect URLs\<close>

text \<open>An exact URL in circulation went through \<open>ExactUrl::new\<close>, so its text parses.\<close>

definition exact_valid :: "'u url_lib \<Rightarrow> exact_url \<Rightarrow> bool" where
  "exact_valid U e \<longleftrightarrow> url_parse U (exact_as_str e) \<noteq> None"

lemma exact_new_valid: "exact_new U s = Ok e \<Longrightarrow> exact_valid U e \<and> exact_as_str e = s"
  by (auto simp: exact_new_def exact_valid_def)

lemma exact_from_str_valid: "exact_from_str U s = Ok e \<Longrightarrow> exact_valid U e \<and> e = ExactUrl s"
  by (auto simp: exact_from_str_def exact_valid_def)

lemma exact_to_url_Panic_iff [simp]: "exact_to_url U e = Panic \<longleftrightarrow> \<not> exact_valid U e"
  by (simp add: exact_to_url_def exact_valid_def)

lemma exact_to_url_not_Err [simp]: "exact_to_url U e \<noteq> Err x"
  by (simp add: exact_to_url_def)

lemma registered_into_url_eq: "registered_into_url U r = registered_to_url U r"
  by (simp add: registered_into_url_def registered_to_url_def exact_to_url_def
      split: registered_url.splits)

lemma registered_to_url_not_Err [simp]: "registered_to_url U r \<noteq> Err x"
  by (simp add: registered_to_url_def split: registered_url.splits)

lemma registered_eq_exact_not_Err [simp]: "registered_eq_exact U r e \<noteq> Err x"
  by (auto simp: registered_eq_exact_def map_ok_Err_iff split: registered_url.splits)

lemma registered_eq_exact_no_panic: "exact_valid U e \<Longrightarrow> registered_eq_exact U r e \<noteq> Panic"
  by (simp add: registered_eq_exact_def split: registered_url.splits)

lemma find_registered_Some:
  "find_registered U rs url = (Ok (Some r) :: (_, 'e) outcome) \<Longrightarrow>
     r \<in> set rs \<and> registered_eq_exact U r url = (Ok True :: (bool, 'e) outcome)"
proof (induction rs)
  case (Cons a rs)
  then show ?case
    by (cases "registered_eq_exact U a url :: (bool, 'e) outcome")
      (auto simp: registered_eq_exact_def split: if_splits registered_url.splits)
qed simp

lemma find_registered_not_Err [simp]: "find_registered U rs url \<noteq> Err x"
  by (induction rs) (auto simp: bind_oc_Err_iff)

lemma find_registered_no_panic: "exact_valid U url \<Longrightarrow> find_registered U rs url \<noteq> Panic"
  by (induction rs) (auto simp: registered_eq_exact_no_panic split: if_splits)

section \<open>The interface of a registrar\<close>

text \<open>
  What the authorization endpoint relies on: a bound client is a registered one, bound to one of its
  registered URLs that matches the requested one; negotiation keeps the client and its URL.
\<close>

locale redirect_registrar =
  fixes U :: "'u url_lib"
    and rg :: "'u registrar"
    and registered :: "string \<Rightarrow> 'u registered_url list option"
  assumes bound_registered:
      "rg_bound_redirect rg cu = Ok bc \<Longrightarrow>
         bc_client_id bc = cu_client_id cu \<and>
         (\<exists>urls. registered (cu_client_id cu) = Some urls \<and> bc_redirect_uri bc \<in> set urls)"
    and bound_matches:
      "rg_bound_redirect rg cu = Ok bc \<Longrightarrow> cu_redirect_uri cu = Some e \<Longrightarrow>
         registered_eq_exact U (bc_redirect_uri bc) e = (Ok True :: (bool, registrar_error) outcome)"
    and negotiate_keeps:
      "rg_negotiate rg bc sc = Ok pg \<Longrightarrow>
         pg_client_id pg = bc_client_id bc \<and> pg_redirect_uri pg = bc_redirect_uri bc"
begin

lemma negotiated_registered:
  assumes "rg_bound_redirect rg cu = Ok bc" and "rg_negotiate rg bc sc = Ok pg"
  shows "\<exists>urls. registered (pg_client_id pg) = Some urls \<and> pg_redirect_uri pg \<in> set urls"
  using bound_registered [OF assms(1)] negotiate_keeps [OF assms(2)] by auto

lemma exact_bound_is_requested:
  assumes "rg_bound_redirect rg cu = Ok bc" and "cu_redirect_uri cu = Some e"
    and "bc_redirect_uri bc = Exact x"
  shows "x = e"
  using bound_matches [OF assms(1,2)] assms(3) by (simp add: registered_eq_exact_def)

end

definition cm_registered :: "'u client_map \<Rightarrow> string \<Rightarrow> 'u registered_url list option" where
  "cm_registered m client_id =
     map_option (\<lambda>c. ec_redirect_uri c # ec_additional_redirect_uris c) (cm_clients m client_id)"

lemma cm_bound_redirect_Ok_iff:
  "cm_bound_redirect U m cu = Ok bc \<longleftrightarrow>
     bc_client_id bc = cu_client_id cu \<and>
     (\<exists>c. cm_clients m (cu_client_id cu) = Some c \<and>
       (case cu_redirect_uri cu of
          None \<Rightarrow> bc_redirect_uri bc = ec_redirect_uri c
        | Some url \<Rightarrow>
            find_registered U (ec_redirect_uri c # ec_additional_redirect_uris c) url
              = (Ok (Some (bc_redirect_uri bc)) :: (_, registrar_error) outcome)))"
  by (cases bc) (auto simp: cm_bound_redirect_def simp del: find_registered.simps
      split: option.splits)

interpretation cm: redirect_registrar U "client_map_registrar U A m" "cm_registered m"
  for U A m
proof unfold_locales
  fix cu bc
  assume "rg_bound_redirect (client_map_registrar U A m) cu = Ok bc"
  then show "bc_client_id bc = cu_client_id cu \<and>
         (\<exists>urls. cm_registered m (cu_client_id cu) = Some urls \<and> bc_redirect_uri bc \<in> set urls)"
    by (auto simp: client_map_registrar_def cm_bound_redirect_Ok_iff cm_registered_def
        simp del: find_registered.simps split: option.splits dest: find_registered_Some)
next
  fix cu bc e
  assume "rg_bound_redirect (client_map_registrar U A m) cu = Ok bc" "cu_redirect_uri cu = Some e"
  then show "registered_eq_exact U (bc_redirect_uri bc) e = (Ok True :: (bool, registrar_error) outcome)"
    by (auto simp: client_map_registrar_def cm_bound_redirect_Ok_iff
        simp del: find_registered.simps dest!: find_registered_Some)
next
  fix bc sc pg
  assume "rg_negotiate (client_map_registrar U A m) bc sc = Ok pg"
  then show "pg_client_id pg = bc_client_id bc \<and> pg_redirect_uri pg = bc_redirect_uri bc"
    by (auto simp: client_map_registrar_def cm_negotiate_def)
qed

section \<open>Properties\<close>

text \<open>
  Redirect URL safety. Whatever the request says, a successful binding names a registered client
  and one of the URLs registered for it: the primary URL when the request has none, and otherwise the
  first registered URL the requested one is equal to (textually for exact registrations, after
  parsing for semantic ones).
\<close>

lemma bound_redirect_registered:
  assumes "cm_bound_redirect U m cu = Ok bc"
  shows "bc_client_id bc = cu_client_id cu \<and>
    (\<exists>c. cm_clients m (cu_client_id cu) = Some c \<and>
      (case cu_redirect_uri cu of
         None \<Rightarrow> bc_redirect_uri bc = ec_redirect_uri c
       | Some url \<Rightarrow>
           bc_redirect_uri bc \<in> set (ec_redirect_uri c # ec_additional_redirect_uris c) \<and>
           registered_eq_exact U (bc_redirect_uri bc) url = (Ok True :: (bool, unit) outcome)))"
proof -
  have eq: "registered_eq_exact U r e = (Ok True :: (bool, unit) outcome)"
    if "registered_eq_exact U r e = (Ok True :: (bool, registrar_error) outcome)" for r e
    using that by (auto simp: registered_eq_exact_def exact_to_url_def split: registered_url.splits)
  show ?thesis
    using assms unfolding cm_bound_redirect_Ok_iff
    by (auto simp del: find_registered.simps split: option.splits
        dest!: find_registered_Some intro: eq)
qed

definition url_identity :: "string url_lib" where
  "url_identity = \<lparr> url_parse = (\<lambda>s. if s = [] then None else Some s), url_as_str = (\<lambda>u. u),
     url_extend_pairs = (\<lambda>u ps. u @ concat (map (\<lambda>(k, v). ''&'' @ k @ ''='' @ v) ps)) \<rparr>"

definition example_client :: "string client" where
  "example_client = with_additional_redirect_uris
     (client_public ''c'' (Semantic ''https://a/'') \<lparr> tokens = {|''read''|} \<rparr>)
     [Exact (ExactUrl ''https://b/'')]"

definition example_client_map :: "string client_map" where
  "example_client_map = client_map_new\<lparr> cm_clients := [''c'' \<mapsto>
     \<lparr> ec_client_id = ''c'', ec_redirect_uri = Semantic ''https://a/'',
       ec_additional_redirect_uris = [Exact (ExactUrl ''https://b/'')],
       ec_default_scope = \<lparr> tokens = {|''read''|} \<rparr>, ec_encoded_client = PublicClient \<rparr>] \<rparr>"

text \<open>
  Negotiation after a binding succeeds (the \<open>expect\<close> in \<open>negotiate\<close> cannot fire for a client
  bound by the same map) and always grants the default scope registered for the client, whatever
  scope was requested; the client and its bound URL are unchanged.
\<close>

lemma negotiate_after_bind:
  assumes "cm_bound_redirect U m cu = Ok bc"
  shows "\<exists>c. cm_clients m (cu_client_id cu) = Some c \<and>
    cm_negotiate m bc requested =
      Ok \<lparr> pg_client_id = cu_client_id cu, pg_redirect_uri = bc_redirect_uri bc,
           pg_scope = ec_default_scope c \<rparr>"
  using assms by (auto simp: cm_bound_redirect_Ok_iff cm_negotiate_def)

text \<open>
  What the registrar relies on of the \<open>argon2\<close> crate: hashing with a 32 byte salt succeeds, the
  encoded form is text, and verification with the same associated data accepts the hashed password
  and no other.
\<close>

definition argon2_ok :: "argon2_lib \<Rightarrow> bool" where
  "argon2_ok A \<longleftrightarrow> (\<forall>pw salt ad. length salt = 32 \<longrightarrow>
     (\<exists>h. a2_hash_encoded A pw salt ad = Some h \<and> utf8_valid (as_bytes h) \<and>
        (\<forall>pw'. a2_verify_encoded_ext A h pw' [] ad = Some (pw' = pw))))"

lemma argon2_store_check:
  assumes "argon2_ok A" and "length salt = 32"
  shows "\<exists>stored. argon2_store A salt cid pw = Ok stored \<and>
    (\<forall>pw'. argon2_check A cid pw' stored = (if pw' = pw then Ok () else Err Unspecified))"
proof -
  obtain h where h: "a2_hash_encoded A pw salt (as_bytes cid) = Some h" "utf8_valid (as_bytes h)"
    "\<And>pw'. a2_verify_encoded_ext A h pw' [] (as_bytes cid) = Some (pw' = pw)"
    using assms unfolding argon2_ok_def by metis
  then show ?thesis
    by (auto simp: argon2_store_def argon2_check_def from_utf8_as_bytes)
qed

lemma register_other:
  assumes "register_client A salt c m = (r, m')" and "cid \<noteq> cl_client_id c"
  shows "cm_check A m' cid p = cm_check A m cid p"
  using assms by (auto simp: register_client_def cm_check_def split: outcome.splits)

text \<open>
  C24: registration and authentication agree. With the default policy, registering a client succeeds;
  afterwards a public client authenticates exactly without a passphrase, a confidential one exactly
  with the registered passphrase, and the authentication of every other client is unchanged.
\<close>

theorem register_then_check:
  assumes "argon2_ok A" and "length salt = 32" and "cm_password_policy m = None"
  shows "fst (register_client A salt c m) = Ok () \<and>
    cm_check A (snd (register_client A salt c m)) cid p =
      (if cid = cl_client_id c then
         (case cl_client_type c of
            PublicClient \<Rightarrow> if p = None then Ok () else Err Unspecified
          | Confidential passphrase \<Rightarrow> if p = Some passphrase then Ok () else Err Unspecified)
       else cm_check A m cid p)"
proof (cases "cl_client_type c")
  case PublicClient
  then show ?thesis
    using assms(3)
    by (auto simp: register_client_def client_encode_def cm_check_def check_authentication_def
        split: option.splits)
next
  case (Confidential pw)
  obtain st where "argon2_store A salt (cl_client_id c) pw = Ok st"
    "\<And>pw'. argon2_check A (cl_client_id c) pw' st = (if pw' = pw then Ok () else Err Unspecified)"
    using argon2_store_check [OF assms(1,2)] by blast
  then show ?thesis
    using Confidential assms(3)
    by (auto simp: register_client_def client_encode_def cm_check_def check_authentication_def
        current_policy_def argon2_policy_def split: option.splits)
qed

text \<open>A password hash that spells the password in letters, enough to show the hypotheses consistent.\<close>

fun spell :: "bytes \<Rightarrow> string" where
  "spell [] = []"
| "spell (b # bs) = char_of (97 + unat b div 16) # char_of (97 + unat b mod 16) # spell bs"

lemma spell_inject: "spell xs = spell ys \<longleftrightarrow> xs = ys"
proof (induction xs arbitrary: ys)
  case Nil
  then show ?case by (cases ys) auto
next
  case (Cons b xs)
  show ?case
  proof (cases ys)
    case (Cons c zs)
    have lt: "unat b < 256" "unat c < 256" using unsigned_less [of b] unsigned_less [of c] by simp_all
    have "b = c" if "unat b div 16 = unat c div 16" "unat b mod 16 = unat c mod 16"
      using that div_mult_mod_eq [of "unat b" 16] div_mult_mod_eq [of "unat c" 16]
      by (metis word_unat_eq_iff)
    moreover have "(char_of (97 + unat b div 16) :: char) = char_of (97 + unat c div 16) \<longleftrightarrow>
        unat b div 16 = unat c div 16"
      using lt by (simp add: char_of_eq_iff take_bit_eq_mod)
    moreover have "(char_of (97 + unat b mod 16) :: char) = char_of (97 + unat c mod 16) \<longleftrightarrow>
        unat b mod 16 = unat c mod 16"
      by (simp add: char_of_eq_iff take_bit_eq_mod)
    ultimately show ?thesis using Cons Cons.IH by auto
  qed simp
qed

lemma spell_text: "utf8_valid (as_bytes (spell xs))"
proof (induction xs)
  case (Cons b xs)
  have ascii: "word_of_nat (97 + n) \<le> (0x7F :: 8 word)" if "n < 16" for n
  proof -
    have "unat (word_of_nat (97 + n) :: 8 word) = 97 + n"
      using that by (simp only: unat_of_nat) simp
    then show ?thesis using that by (simp add: word_le_nat_alt)
  qed
  have "unat b < 256" using unsigned_less [of b] by simp
  then have "unat b div 16 < 16" by simp
  then show ?case
    using Cons ascii [of "unat b div 16"] ascii [of "unat b mod 16"]
    by (simp add: as_bytes_def utf8_valid.simps(2) of_char_of)
qed (simp add: as_bytes_def)

definition spell_argon2 :: argon2_lib where
  "spell_argon2 = \<lparr> a2_hash_encoded = (\<lambda>pw salt ad. Some (spell pw)),
     a2_verify_encoded_ext = (\<lambda>h pw secret ad. Some (h = spell pw)) \<rparr>"

lemma spell_argon2_ok: "argon2_ok spell_argon2"
  by (auto simp: argon2_ok_def spell_argon2_def spell_text spell_inject)

theorem register_then_check_witness:
  "fst (register_client spell_argon2 (replicate 32 0)
      (client_confidential ''c'' (Semantic ''https://a/'') \<lparr> tokens = {||} \<rparr> (as_bytes ''pw''))
      client_map_new) = Ok () \<and>
   cm_check spell_argon2 (snd (register_client spell_argon2 (replicate 32 0)
      (client_confidential ''c'' (Semantic ''https://a/'') \<lparr> tokens = {||} \<rparr> (as_bytes ''pw''))
      client_map_new)) ''c'' (Some (as_bytes ''pw'')) = Ok ()"
  using register_then_check [OF spell_argon2_ok, of "replicate 32 0" client_map_new
      "client_confidential ''c'' (Semantic ''https://a/'') \<lparr> tokens = {||} \<rparr> (as_bytes ''pw'')"
      "''c''" "Some (as_bytes ''pw'')"]
  by (simp add: client_map_new_def client_confidential_def)

end
