(* ===== verification/Generator.thy ===== *)
theory Generator
  imports Authorizer Registrar
begin

text \<open>
  Token generators (\<open>oxide-auth/src/primitives/generator.rs\<close>): random tokens and signed assertions.
  The \<open>hmac\<close>, \<open>base64\<close> and \<open>rmp_serde\<close> crates and the system randomness are parameters. The
  lemmas show what a signed token carries: extraction inverts signing up to sub-second precision of
  the expiry, distinguishes usage tags and counters, and refuses grants with private data.
\<close>

section \<open>Random tokens\<close>

record 'r random_generator =
  rg_random :: 'r
  rg_len :: nat

definition random_generator_new :: "'r \<Rightarrow> nat \<Rightarrow> 'r random_generator" where
  "random_generator_new os_rng length' = \<lparr> rg_random = os_rng, rg_len = length' \<rparr>"

text \<open>\<open>fill\<close> is \<open>try_fill_bytes\<close> of the system generator.\<close>

definition random_generate ::
  "(nat \<Rightarrow> 'r \<Rightarrow> bytes option \<times> 'r) \<Rightarrow> (bytes \<Rightarrow> string)
    \<Rightarrow> 'r random_generator \<Rightarrow> (string, unit) outcome \<times> 'r random_generator" where
  "random_generate fill encode g =
     (case fill (rg_len g) (rg_random g) of
        (Some result, r) \<Rightarrow> (Ok (encode result), g\<lparr> rg_random := r \<rparr>)
      | (None, r) \<Rightarrow> (Panic, g\<lparr> rg_random := r \<rparr>))"

definition random_tag ::
  "(nat \<Rightarrow> 'r \<Rightarrow> bytes option \<times> 'r) \<Rightarrow> (bytes \<Rightarrow> string) \<Rightarrow> ('r random_generator, 'u) tagger" where
  "random_tag fill encode usage grant g = random_generate fill encode g"

section \<open>The serialised form of a grant\<close>

record 'u serde_assertion_grant =
  sa_owner_id :: string
  sa_client_id :: string
  sa_scope :: scope
  sa_redirect_uri :: 'u
  sa_until :: time
  sa_public_extensions :: "(string, string option) fmap"

text \<open>\<open>TryFrom<&Grant>\<close> and the way back. \<open>it\<close> is the iteration order of hash maps.\<close>

definition sa_try_from ::
  "(string fset \<Rightarrow> string list) \<Rightarrow> 'u grant \<Rightarrow> ('u serde_assertion_grant, unit) outcome" where
  "sa_try_from it grant =
     (if ext_private it (g_extensions grant) \<noteq> [] then Err ()
      else
        Ok \<lparr> sa_owner_id = g_owner_id grant, sa_client_id = g_client_id grant,
             sa_scope = g_scope grant, sa_redirect_uri = g_redirect_uri grant,
             sa_until = g_until grant,
             sa_public_extensions =
               fold (\<lambda>(name, content) m. fmupd name content m)
                 (ext_public it (g_extensions grant)) fmempty \<rparr>)"

definition sa_grant ::
  "(string fset \<Rightarrow> string list) \<Rightarrow> 'u serde_assertion_grant \<Rightarrow> 'u grant" where
  "sa_grant it sa =
     \<lparr> g_owner_id = sa_owner_id sa, g_client_id = sa_client_id sa, g_scope = sa_scope sa,
       g_redirect_uri = sa_redirect_uri sa, g_until = sa_until sa,
       g_extensions =
         fold (\<lambda>name e. case fmlookup (sa_public_extensions sa) name of
                  Some content \<Rightarrow> ext_set_raw e name (Public content) | None \<Rightarrow> e)
           (it (fmdom (sa_public_extensions sa))) extensions_new \<rparr>"

text \<open>The fields as they are written (\<open>scope_serde\<close>, \<open>url_serde\<close>, \<open>time_serde\<close>): the expiry is
  reduced to whole seconds. \<open>Utc.timestamp\<close> panics for a number of seconds that \<open>chrono\<close> cannot
  represent (beyond the year 262143); \<open>time_deserialize\<close> is its result for the others, which are all that
  \<open>time_serialize\<close> writes for an expiry the server itself computed.\<close>

record assertion_wire =
  aw_owner_id :: string
  aw_client_id :: string
  aw_scope :: string
  aw_redirect_uri :: string
  aw_until :: int
  aw_public_extensions :: "(string, string option) fmap"

definition time_serialize :: "time \<Rightarrow> int" where
  "time_serialize t = t div 1000000000"

definition time_deserialize :: "int \<Rightarrow> time" where
  "time_deserialize s = s * 1000000000"

definition sa_serialize ::
  "'u url_lib \<Rightarrow> (string fset \<Rightarrow> string list) \<Rightarrow> 'u serde_assertion_grant \<Rightarrow> assertion_wire" where
  "sa_serialize U it sa =
     \<lparr> aw_owner_id = sa_owner_id sa, aw_client_id = sa_client_id sa,
       aw_scope = scope_to_string it (sa_scope sa), aw_redirect_uri = url_as_str U (sa_redirect_uri sa),
       aw_until = time_serialize (sa_until sa), aw_public_extensions = sa_public_extensions sa \<rparr>"

definition sa_deserialize :: "'u url_lib \<Rightarrow> assertion_wire \<Rightarrow> 'u serde_assertion_grant option" where
  "sa_deserialize U w =
     (case (scope_from_str (aw_scope w), url_parse U (aw_redirect_uri w)) of
        (Ok sc, Some url) \<Rightarrow>
          Some \<lparr> sa_owner_id = aw_owner_id w, sa_client_id = aw_client_id w, sa_scope = sc,
                 sa_redirect_uri = url, sa_until = time_deserialize (aw_until w),
                 sa_public_extensions = aw_public_extensions w \<rparr>
      | _ \<Rightarrow> None)"

section \<open>Signed assertions\<close>

text \<open>The crates: key set-up and MAC of \<open>hmac\<close>, \<open>base64\<close>, and \<open>rmp_serde\<close> at the types used.\<close>

record 'k crypto_lib =
  cr_new_varkey :: "bytes \<Rightarrow> 'k option"
  cr_mac :: "'k \<Rightarrow> bytes \<Rightarrow> bytes"
  cr_b64_encode :: "bytes \<Rightarrow> string"
  cr_b64_decode :: "string \<Rightarrow> bytes option"
  cr_pack_counted :: "assertion_wire \<times> u64 \<Rightarrow> bytes option"
  cr_pack_tagged :: "u64 \<times> assertion_wire \<times> string \<Rightarrow> bytes option"
  cr_unpack_tagged :: "bytes \<Rightarrow> (u64 \<times> assertion_wire \<times> string) option"
  cr_pack_assert :: "bytes \<times> bytes \<Rightarrow> bytes option"
  cr_unpack_assert :: "bytes \<Rightarrow> (bytes \<times> bytes) option"

record 'k assertion =
  as_hasher :: 'k

datatype assertion_kind = HmacSha256

definition assertion_new :: "'k crypto_lib \<Rightarrow> assertion_kind \<Rightarrow> bytes \<Rightarrow> ('k assertion, unit) outcome" where
  "assertion_new L kind key =
     (case kind of HmacSha256 \<Rightarrow>
        bind_oc (expect (cr_new_varkey L key)) (\<lambda>k. Ok \<lparr> as_hasher = k \<rparr>))"

definition assertion_ephemeral :: "'k crypto_lib \<Rightarrow> bytes \<Rightarrow> ('k assertion, unit) outcome" where
  "assertion_ephemeral L rand_bytes =
     bind_oc (expect (cr_new_varkey L rand_bytes)) (\<lambda>k. Ok \<lparr> as_hasher = k \<rparr>)"

definition assertion_signature :: "'k crypto_lib \<Rightarrow> 'k assertion \<Rightarrow> bytes \<Rightarrow> bytes" where
  "assertion_signature L a data = cr_mac L (as_hasher a) data"

definition counted_signature ::
  "'k crypto_lib \<Rightarrow> 'u url_lib \<Rightarrow> (string fset \<Rightarrow> string list) \<Rightarrow> 'k assertion \<Rightarrow> u64 \<Rightarrow> 'u grant
    \<Rightarrow> (string, unit) outcome" where
  "counted_signature L U it a counter grant =
     bind_oc (sa_try_from it grant) (\<lambda>serde_grant.
     bind_oc (expect (cr_pack_counted L (sa_serialize U it serde_grant, counter))) (\<lambda>tosign.
     Ok (cr_b64_encode L (assertion_signature L a tosign))))"

definition generate_tagged ::
  "'k crypto_lib \<Rightarrow> 'u url_lib \<Rightarrow> (string fset \<Rightarrow> string list) \<Rightarrow> 'k assertion \<Rightarrow> u64 \<Rightarrow> 'u grant \<Rightarrow> string
    \<Rightarrow> (string, unit) outcome" where
  "generate_tagged L U it a counter grant tag =
     bind_oc (sa_try_from it grant) (\<lambda>serde_grant.
     bind_oc (expect (cr_pack_tagged L (counter, sa_serialize U it serde_grant, tag))) (\<lambda>tosign.
     bind_oc (expect (cr_pack_assert L (tosign, assertion_signature L a tosign))) (\<lambda>assert.
     Ok (cr_b64_encode L assert))))"

definition assertion_extract ::
  "'k crypto_lib \<Rightarrow> 'u url_lib \<Rightarrow> (string fset \<Rightarrow> string list) \<Rightarrow> 'k assertion \<Rightarrow> string
    \<Rightarrow> ('u grant \<times> string, unit) outcome" where
  "assertion_extract L U it a token =
     bind_oc (ok_or () (cr_b64_decode L token)) (\<lambda>decoded.
     bind_oc (ok_or () (cr_unpack_assert L decoded)) (\<lambda>(data, mac).
     bind_oc (if cr_mac L (as_hasher a) data = mac then Ok () else Err ()) (\<lambda>_.
     bind_oc (ok_or () (cr_unpack_tagged L data)) (\<lambda>(_, wire, tag).
     bind_oc (ok_or () (sa_deserialize U wire)) (\<lambda>serde_grant.
     Ok (sa_grant it serde_grant, tag))))))"

text \<open>\<open>TaggedAssertion\<close>: the assertion with a usage tag.\<close>

datatype 'k tagged_assertion = TaggedAssertion "'k assertion" string

definition assertion_tag :: "'k assertion \<Rightarrow> string \<Rightarrow> 'k tagged_assertion" where
  "assertion_tag a tag = TaggedAssertion a tag"

fun tagged_sign ::
  "'k crypto_lib \<Rightarrow> 'u url_lib \<Rightarrow> (string fset \<Rightarrow> string list) \<Rightarrow> 'k tagged_assertion \<Rightarrow> u64 \<Rightarrow> 'u grant
    \<Rightarrow> (string, unit) outcome" where
  "tagged_sign L U it (TaggedAssertion a tag) counter grant = generate_tagged L U it a counter grant tag"

fun tagged_extract ::
  "'k crypto_lib \<Rightarrow> 'u url_lib \<Rightarrow> (string fset \<Rightarrow> string list) \<Rightarrow> 'k tagged_assertion \<Rightarrow> string
    \<Rightarrow> ('u grant, unit) outcome" where
  "tagged_extract L U it (TaggedAssertion a expected) token =
     bind_oc (assertion_extract L U it a token)
       (\<lambda>(grant, tag). if tag = expected then Ok grant else Err ())"

text \<open>An assertion as a tagger (trait \<open>TagGrant\<close>): the token is the signature alone.\<close>

definition assertion_tag_grant ::
  "'k crypto_lib \<Rightarrow> 'u url_lib \<Rightarrow> (string fset \<Rightarrow> string list) \<Rightarrow> ('k assertion, 'u) tagger" where
  "assertion_tag_grant L U it counter grant a = (counted_signature L U it a counter grant, a)"

section \<open>What is relied on of the crates\<close>

definition crypto_ok :: "'k crypto_lib \<Rightarrow> bool" where
  "crypto_ok L \<longleftrightarrow>
     (\<forall>bs. cr_b64_decode L (cr_b64_encode L bs) = Some bs) \<and>
     (\<forall>p. \<exists>bs. cr_pack_assert L p = Some bs \<and> cr_unpack_assert L bs = Some p) \<and>
     (\<forall>p. \<exists>bs. cr_pack_tagged L p = Some bs \<and> cr_unpack_tagged L bs = Some p)"

definition url_ok :: "'u url_lib \<Rightarrow> 'u \<Rightarrow> bool" where
  "url_ok U url \<longleftrightarrow> url_parse U (url_as_str U url) = Some url"

section \<open>Serialisation of grants\<close>

lemma fold_fmupd_lookup:
  "distinct (map fst ps) \<Longrightarrow>
     fmlookup (fold (\<lambda>(n, c) m. fmupd n c m) ps m0) k =
       (case map_of ps k of Some c \<Rightarrow> Some c | None \<Rightarrow> fmlookup m0 k)"
proof (induction ps arbitrary: m0)
  case (Cons p ps)
  then show ?case
    by (cases p) (auto split: option.splits simp: map_of_eq_None_iff rev_image_eqI)
qed simp

lemma public_all_subseq: "set (map fst (public_all xs)) \<subseteq> set (map fst xs)"
proof (induction xs)
  case (Cons a xs)
  then show ?case by (cases a) (auto split: ext_value.splits)
qed simp

lemma public_all_distinct: "distinct (map fst xs) \<Longrightarrow> distinct (map fst (public_all xs))"
proof (induction xs)
  case (Cons a xs)
  then show ?case
    using public_all_subseq [of xs] by (cases a) (auto split: ext_value.splits)
qed simp

lemma map_filter_fst_distinct:
  "distinct ks \<Longrightarrow> distinct (map fst (List.map_filter (\<lambda>k. map_option (Pair k) (f k)) ks))"
  by (induction ks) (auto split: option.splits simp: in_map_filter image_iff)

lemma ext_public_distinct: "iter_order it \<Longrightarrow> distinct (map fst (ext_public it e))"
  unfolding ext_public_def ext_entries_def iter_order_def
  by (blast intro: public_all_distinct map_filter_fst_distinct)

lemma sa_try_from_lookup:
  assumes "iter_order it" and "sa_try_from it g = Ok sa"
  shows "fmlookup (sa_public_extensions sa) k = c \<longleftrightarrow>
    fmlookup (ext_map (g_extensions g)) k = map_option Public c"
proof -
  let ?e = "g_extensions g"
  have no_private: "fmlookup (ext_map ?e) k \<noteq> Some (Private c)" for c
    using assms in_ext_private [OF assms(1), of k c ?e]
    by (auto simp: sa_try_from_def split: if_splits)
  have "fmlookup (sa_public_extensions sa) k = map_of (ext_public it ?e) k"
    using assms ext_public_distinct [OF assms(1), of ?e]
    by (auto simp: sa_try_from_def fold_fmupd_lookup split: if_splits option.splits)
  moreover have "map_of (ext_public it ?e) k = Some d \<longleftrightarrow> fmlookup (ext_map ?e) k = Some (Public d)" for d
    using ext_public_distinct [OF assms(1), of ?e] in_ext_public [OF assms(1), of k d ?e] by simp
  moreover have "map_of (ext_public it ?e) k = None \<longleftrightarrow> fmlookup (ext_map ?e) k = None"
    using calculation(2) no_private
    by (metis ext_value.exhaust not_None_eq)
  ultimately show ?thesis by (cases c) auto
qed

lemma fold_ext_set_raw_lookup:
  "distinct ks \<Longrightarrow> set ks \<subseteq> fset (fmdom m) \<Longrightarrow>
     fmlookup (ext_map (fold (\<lambda>name e. case fmlookup m name of
         Some content \<Rightarrow> ext_set_raw e name (Public content) | None \<Rightarrow> e) ks e0)) k =
       (if k \<in> set ks then map_option Public (fmlookup m k) else fmlookup (ext_map e0) k)"
proof (induction ks arbitrary: e0)
  case (Cons a ks)
  then show ?case
    by (cases "fmlookup m a") (auto simp: ext_set_raw_def fmlookup_dom_iff)
qed simp

lemma sa_grant_extensions:
  assumes "iter_order it"
  shows "fmlookup (ext_map (g_extensions (sa_grant it sa))) k =
    map_option Public (fmlookup (sa_public_extensions sa) k)"
proof -
  let ?m = "sa_public_extensions sa"
  have "distinct (it (fmdom ?m))" "set (it (fmdom ?m)) = fset (fmdom ?m)"
    using assms iter_order_set [OF assms] by (auto simp: iter_order_def)
  then show ?thesis
    by (auto simp: sa_grant_def fold_ext_set_raw_lookup extensions_new_def fmlookup_dom_iff)
qed

lemma sa_roundtrip:
  assumes "iter_order it" and "sa_try_from it g = Ok sa"
  shows "sa_grant it sa = g"
proof -
  have "ext_map (g_extensions (sa_grant it sa)) = ext_map (g_extensions g)"
  proof (rule fmap_ext)
    fix k
    show "fmlookup (ext_map (g_extensions (sa_grant it sa))) k = fmlookup (ext_map (g_extensions g)) k"
      using sa_grant_extensions [OF assms(1)] sa_try_from_lookup [OF assms] by metis
  qed
  then have "g_extensions (sa_grant it sa) = g_extensions g" by simp
  then show ?thesis
    using assms(2) by (auto simp: sa_try_from_def sa_grant_def intro!: grant.equality split: if_splits)
qed

lemma sa_wire_roundtrip:
  assumes "iter_order it" and "scope_wf (sa_scope sa)" and "url_ok U (sa_redirect_uri sa)"
  shows "sa_deserialize U (sa_serialize U it sa) =
    Some (sa\<lparr> sa_until := sa_until sa div 1000000000 * 1000000000 \<rparr>)"
  using assms
  by (cases sa)
    (simp add: sa_deserialize_def sa_serialize_def scope_roundtrip url_ok_def
      time_serialize_def time_deserialize_def)

section \<open>Signing and extracting\<close>

lemma crypto_b64: "crypto_ok L \<Longrightarrow> cr_b64_decode L (cr_b64_encode L bs) = Some bs"
  by (simp add: crypto_ok_def)

lemma generate_tagged_Ok:
  assumes "crypto_ok L" and "generate_tagged L U it a counter g tag = Ok token"
  obtains sa data where "sa_try_from it g = Ok sa"
    "cr_unpack_tagged L data = Some (counter, sa_serialize U it sa, tag)"
    "Option.bind (cr_b64_decode L token) (cr_unpack_assert L) = Some (data, assertion_signature L a data)"
proof -
  obtain sa data bs where 1: "sa_try_from it g = Ok sa"
    "cr_pack_tagged L (counter, sa_serialize U it sa, tag) = Some data"
    "cr_pack_assert L (data, assertion_signature L a data) = Some bs" "token = cr_b64_encode L bs"
    using assms(2) by (auto simp: generate_tagged_def)
  then have "cr_unpack_tagged L data = Some (counter, sa_serialize U it sa, tag)"
    "cr_unpack_assert L bs = Some (data, assertion_signature L a data)"
    using assms(1) unfolding crypto_ok_def by (metis option.inject)+
  then show thesis using that 1 crypto_b64 [OF assms(1)] by simp
qed

lemma generate_tagged_total:
  assumes "crypto_ok L" and "sa_try_from it g = Ok sa"
  shows "\<exists>token. generate_tagged L U it a counter g tag = Ok token"
proof -
  obtain data where data: "cr_pack_tagged L (counter, sa_serialize U it sa, tag) = Some data"
    using assms(1) unfolding crypto_ok_def by blast
  obtain bs where "cr_pack_assert L (data, assertion_signature L a data) = Some bs"
    using assms(1) unfolding crypto_ok_def by blast
  then show ?thesis using assms(2) data by (simp add: generate_tagged_def)
qed

lemma assertion_extract_generated:
  assumes "crypto_ok L" and "iter_order it" and "scope_wf (g_scope g)" and "url_ok U (g_redirect_uri g)"
    and "generate_tagged L U it a counter g tag = Ok token"
  shows "assertion_extract L U it a token =
    Ok (g\<lparr> g_until := g_until g div 1000000000 * 1000000000 \<rparr>, tag)"
proof -
  obtain sa data where sa: "sa_try_from it g = Ok sa"
    and data: "cr_unpack_tagged L data = Some (counter, sa_serialize U it sa, tag)"
    and tok: "Option.bind (cr_b64_decode L token) (cr_unpack_assert L)
      = Some (data, assertion_signature L a data)"
    by (rule generate_tagged_Ok [OF assms(1,5)])
  have fields: "sa_scope sa = g_scope g" "sa_redirect_uri sa = g_redirect_uri g" "sa_until sa = g_until g"
    using sa by (auto simp: sa_try_from_def split: if_splits)
  have "sa_grant it (sa\<lparr> sa_until := t \<rparr>) = (sa_grant it sa)\<lparr> g_until := t \<rparr>" for t
    by (simp add: sa_grant_def)
  then show ?thesis
    using data tok sa_wire_roundtrip [OF assms(2), of sa U] assms(3,4) fields sa_roundtrip [OF assms(2) sa]
    by (auto simp: assertion_extract_def assertion_signature_def bind_eq_Some_conv)
qed

text \<open>
  C39: signing and extracting. A grant without private extensions, with a well-formed scope and a URL
  that survives printing, can be signed for every usage tag; extraction with the same tag returns
  the grant with its expiry rounded down to the second, extraction with any other tag is refused.
\<close>

theorem tagged_sign_extract_roundtrip:
  assumes "crypto_ok L" and "iter_order it" and "scope_wf (g_scope g)" and "url_ok U (g_redirect_uri g)"
    and "ext_private it (g_extensions g) = []"
  shows "\<exists>token. tagged_sign L U it (assertion_tag a tag) counter g = Ok token \<and>
    tagged_extract L U it (assertion_tag a tag') token =
      (if tag' = tag then Ok (g\<lparr> g_until := g_until g div 1000000000 * 1000000000 \<rparr>) else Err ())"
proof -
  obtain sa where "sa_try_from it g = Ok sa" using assms(5) by (simp add: sa_try_from_def)
  then obtain token where t: "generate_tagged L U it a counter g tag = Ok token"
    using generate_tagged_total [OF assms(1)] by blast
  then show ?thesis
    using assertion_extract_generated [OF assms(1-4) t] by (auto simp: assertion_tag_def)
qed

text \<open>
  Signed tokens are readable by their holder, so no grant with a private extension is ever
  signed, neither as a tagged assertion nor as a bare signature.
\<close>

lemma private_extensions_not_signed:
  assumes "iter_order it" and "fmlookup (ext_map (g_extensions g)) k = Some (Private c)"
  shows "tagged_sign L U it (assertion_tag a tag) counter g = Err () \<and>
    fst (assertion_tag_grant L U it counter g a) = Err ()"
proof -
  have "ext_private it (g_extensions g) \<noteq> []"
    using in_ext_private [OF assms(1), of k c "g_extensions g"] assms(2) by auto
  then show ?thesis
    by (simp add: assertion_tag_def generate_tagged_def assertion_tag_grant_def counted_signature_def
        sa_try_from_def)
qed

text \<open>
  Tokens signed with different counters or for different usages are different, whatever the
  grants: the counter keeps two tokens of the same grant apart, and no access token is a refresh token.
\<close>

lemma signed_tokens_distinct:
  assumes "crypto_ok L"
    and "tagged_sign L U it (assertion_tag a tag) counter g = Ok token"
    and "tagged_sign L U it (assertion_tag a tag') counter' g' = Ok token'"
    and "(counter, tag) \<noteq> (counter', tag')"
  shows "token \<noteq> token'"
proof
  assume eq: "token = token'"
  have 1: "generate_tagged L U it a counter g tag = Ok token"
    and 2: "generate_tagged L U it a counter' g' tag' = Ok token'"
    using assms(2,3) by (simp_all add: assertion_tag_def)
  from generate_tagged_Ok [OF assms(1) 1] generate_tagged_Ok [OF assms(1) 2]
  show False
    using assms(4) eq by (metis (no_types, lifting) option.inject prod.inject)
qed

section \<open>An executable instance\<close>

definition chars_of :: "bytes \<Rightarrow> string" where
  "chars_of bs = map (\<lambda>b. char_of (unat b)) bs"

lemma as_bytes_chars_of [simp]: "as_bytes (chars_of bs) = bs"
  by (simp add: as_bytes_def chars_of_def comp_def byte_of_char_of)

lemma chars_of_as_bytes [simp]: "chars_of (as_bytes s) = s"
  by (simp add: as_bytes_def chars_of_def comp_def unat_byte_of_char)

definition wire_text :: "assertion_wire \<Rightarrow> string" where
  "wire_text w = quote_list [aw_owner_id w, aw_client_id w, aw_scope w, aw_redirect_uri w,
     int_text (aw_until w),
     quote_list (pairs_text (ext_entries example_order
       \<lparr> ext_map = fmmap Public (aw_public_extensions w) \<rparr>))]"

definition text_wire :: "string \<Rightarrow> assertion_wire option" where
  "text_wire s =
     (case unquoted s of
        Some [owner, client, sc, uri, until, exts] \<Rightarrow>
          map_option (\<lambda>ps.
            \<lparr> aw_owner_id = owner, aw_client_id = client, aw_scope = sc, aw_redirect_uri = uri,
              aw_until = text_int until,
              aw_public_extensions =
                fmmap (\<lambda>v. case v of Public c \<Rightarrow> c | Private c \<Rightarrow> c) (fmap_of_list (text_pairs ps)) \<rparr>)
            (unquoted exts)
      | _ \<Rightarrow> None)"

lemma text_wire_text [simp]: "text_wire (wire_text w) = Some w"
proof -
  have "fmmap (\<lambda>v. case v of Public c \<Rightarrow> c | Private c \<Rightarrow> c) (fmmap Public m) = m" for m :: "(string, string option) fmap"
    by (rule fmap_ext) (simp add: option.map_comp comp_def option.map_ident)
  then show ?thesis
    by (simp add: text_wire_def wire_text_def fmap_of_entries)
qed

definition plain_crypto :: "bytes crypto_lib" where
  "plain_crypto = \<lparr>
     cr_new_varkey = Some,
     cr_mac = (\<lambda>k data. k @ data),
     cr_b64_encode = chars_of,
     cr_b64_decode = (\<lambda>s. Some (as_bytes s)),
     cr_pack_counted = (\<lambda>(w, n). Some (as_bytes (quote_list [wire_text w, int_text (uint n)]))),
     cr_pack_tagged = (\<lambda>(n, w, t). Some (as_bytes (quote_list [int_text (uint n), wire_text w, t]))),
     cr_unpack_tagged = (\<lambda>bs. case unquoted (chars_of bs) of
        Some [n, w, t] \<Rightarrow> map_option (\<lambda>w. (word_of_int (text_int n), w, t)) (text_wire w) | _ \<Rightarrow> None),
     cr_pack_assert = (\<lambda>(d, m). Some (as_bytes (quote_list [chars_of d, chars_of m]))),
     cr_unpack_assert = (\<lambda>bs. case unquoted (chars_of bs) of
        Some [d, m] \<Rightarrow> Some (as_bytes d, as_bytes m) | _ \<Rightarrow> None) \<rparr>"

lemma plain_crypto_ok: "crypto_ok plain_crypto"
  by (simp add: crypto_ok_def plain_crypto_def)

theorem tagged_sign_extract_roundtrip_witness:
  "\<exists>token. tagged_sign plain_crypto url_identity example_order
      (assertion_tag \<lparr> as_hasher = [7] \<rparr> ''token'') 3 example_grant = Ok token \<and>
    tagged_extract plain_crypto url_identity example_order
      (assertion_tag \<lparr> as_hasher = [7] \<rparr> ''refresh'') token = Err ()"
proof -
  have "scope_wf (g_scope example_grant)" by code_simp
  moreover have "ext_private example_order (g_extensions example_grant) = []" by code_simp
  moreover have "url_ok url_identity (g_redirect_uri example_grant)"
    by (simp add: url_ok_def url_identity_def example_grant_def)
  ultimately show ?thesis
    using tagged_sign_extract_roundtrip [OF plain_crypto_ok example_order_ok,
        of example_grant url_identity "\<lparr> as_hasher = [7] \<rparr>" "''token''" 3 "''refresh''"]
    by simp
qed

end
