(* ===== verification/Issuer.thy ===== *)
theory Issuer
  imports Generator
begin

text \<open>
  Issuing and recovering tokens (\<open>oxide-auth/src/primitives/issuer.rs\<close>): \<open>TokenMap\<close>, which keeps
  serialised tokens in two hashes of the store, one by access token and one by refresh token, and
  \<open>TokenSigner\<close>, which signs them. The contract both fulfil is the locale \<open>token_issuer\<close>; the
  invariant of the token map is that every entry decodes to a token that links back to its key.
\<close>

section \<open>Tokens\<close>

datatype token_type = Bearer

record issued_token =
  it_token :: string
  it_refresh :: "string option"
  it_until :: time
  it_token_type :: token_type

record refreshed_token =
  rt_token :: string
  rt_refresh :: "string option"
  rt_until :: time
  rt_token_type :: token_type

record 'u token =
  tk_access :: string
  tk_refresh :: "string option"
  tk_grant :: "'u grant"

definition token_from_access :: "string \<Rightarrow> 'u grant \<Rightarrow> 'u token" where
  "token_from_access access grant = \<lparr> tk_access = access, tk_refresh = None, tk_grant = grant \<rparr>"

definition token_from_refresh :: "string \<Rightarrow> string \<Rightarrow> 'u grant \<Rightarrow> 'u token" where
  "token_from_refresh access refresh grant =
     \<lparr> tk_access = access, tk_refresh = Some refresh, tk_grant = grant \<rparr>"

definition without_refresh :: "string \<Rightarrow> time \<Rightarrow> issued_token" where
  "without_refresh token until =
     \<lparr> it_token = token, it_refresh = None, it_until = until, it_token_type = Bearer \<rparr>"

definition refreshable :: "issued_token \<Rightarrow> bool" where
  "refreshable t = (it_refresh t \<noteq> None)"

section \<open>The token map\<close>

record ('g, 'u) token_map =
  tm_duration :: "int option"
  tm_generator :: 'g
  tm_usage :: u64
  tm_access :: "string \<rightharpoonup> 'u token"
  tm_refresh :: "string \<rightharpoonup> 'u token"

definition token_map_new :: "'g \<Rightarrow> ('g, 'u) token_map" where
  "token_map_new generator =
     \<lparr> tm_duration = None, tm_generator = generator, tm_usage = 0,
       tm_access = Map.empty, tm_refresh = Map.empty \<rparr>"

definition tm_valid_for :: "('g, 'u) token_map \<Rightarrow> int \<Rightarrow> ('g, 'u) token_map" where
  "tm_valid_for m duration = m\<lparr> tm_duration := Some duration \<rparr>"

definition tm_valid_for_default :: "('g, 'u) token_map \<Rightarrow> ('g, 'u) token_map" where
  "tm_valid_for_default m = m\<lparr> tm_duration := None \<rparr>"

definition tm_revoke :: "string \<Rightarrow> ('g, 'u) token_map \<times> 'r \<Rightarrow> ('g, 'u) token_map \<times> 'r" where
  "tm_revoke token = (\<lambda>(m, r).
     (m\<lparr> tm_access := (tm_access m)(token := None), tm_refresh := (tm_refresh m)(token := None) \<rparr>, r))"

text \<open>\<open>now\<close> is what \<open>Utc::now()\<close> returns during the call.\<close>

definition set_duration :: "time \<Rightarrow> ('g, 'u) token_map \<Rightarrow> 'u grant \<Rightarrow> 'u grant" where
  "set_duration now m grant =
     (case tm_duration m of Some duration \<Rightarrow> grant\<lparr> g_until := now + duration \<rparr> | None \<Rightarrow> grant)"

definition tm_timed :: "time \<Rightarrow> 'u grant \<Rightarrow> (('g, 'u) token_map \<times> 'r, 'u grant, unit) action" where
  "tm_timed now grant = (\<lambda>(m, r). (Ok (set_duration now m grant), (m, r)))"

definition tm_tag ::
  "('g, 'u) tagger \<Rightarrow> u64 \<Rightarrow> 'u grant \<Rightarrow> (('g, 'u) token_map \<times> 'r, string, unit) action" where
  "tm_tag tag usage grant = (\<lambda>(m, r).
     case tag usage grant (tm_generator m) of (x, g) \<Rightarrow> (x, (m\<lparr> tm_generator := g \<rparr>, r)))"

text \<open>\<open>import_grant\<close> returns nothing: the outcome only says where it stopped.\<close>

definition import_grant ::
  "'r redis_ops \<Rightarrow> 'u token codec \<Rightarrow> time \<Rightarrow> string \<Rightarrow> 'u grant
    \<Rightarrow> (('g, 'u) token_map \<times> 'r, unit, unit) action" where
  "import_grant R C now token grant =
     bind_ac (get_connection R) (\<lambda>_.
     bind_ac (tm_timed now grant) (\<lambda>grant.
     bind_ac (lift_oc (ok_or () (enc C (token_from_access token grant)))) (\<lambda>token_str.
     hset_new R ''oauth2:tokenmap_access'' token token_str)))"

text \<open>\<open>checks\<close> says whether the build has debug assertions.\<close>

definition tm_issue ::
  "'r redis_ops \<Rightarrow> 'u token codec \<Rightarrow> ('g, 'u) tagger \<Rightarrow> bool \<Rightarrow> time \<Rightarrow> 'u grant
    \<Rightarrow> (('g, 'u) token_map \<times> 'r, issued_token, unit) action" where
  "tm_issue R C tag checks now grant =
     bind_ac (tm_timed now grant) (\<lambda>grant.
     bind_ac (get_connection R) (\<lambda>_.
     bind_ac (redis_do (r_get R ''oauth2:tokenmap_usage'')) (\<lambda>u.
     let curr_usage = (case u of Some n \<Rightarrow> n | None \<Rightarrow> 0);
         next_usage = curr_usage + 2
     in
     bind_ac (tm_tag tag curr_usage grant) (\<lambda>access.
     bind_ac (tm_tag tag (curr_usage + 1) grant) (\<lambda>refresh.
     bind_ac (lift_oc (if checks \<and> (access = [] \<or> refresh = []) then Panic else Ok ())) (\<lambda>_.
     bind_ac (lift_oc (ok_or () (enc C (token_from_refresh access refresh grant)))) (\<lambda>token_str.
     bind_ac (hset_new R ''oauth2:tokenmap_access'' access token_str) (\<lambda>_.
     bind_ac (hset_new R ''oauth2:tokenmap_refresh'' refresh token_str) (\<lambda>_.
     bind_ac (set_usage R ''oauth2:tokenmap_usage'' next_usage) (\<lambda>_.
     ret \<lparr> it_token = access, it_refresh = Some refresh, it_until = g_until grant,
           it_token_type = Bearer \<rparr>))))))))))"

definition tm_do_refresh ::
  "'r redis_ops \<Rightarrow> 'u token codec \<Rightarrow> ('g, 'u) tagger \<Rightarrow> time \<Rightarrow> string \<Rightarrow> 'u grant
    \<Rightarrow> (('g, 'u) token_map \<times> 'r, refreshed_token, unit) action" where
  "tm_do_refresh R C tag now refresh grant =
     bind_ac (get_connection R) (\<lambda>_.
     bind_ac (redis_do (r_hget R ''oauth2:tokenmap_refresh'' refresh)) (\<lambda>s.
     bind_ac (lift_oc (ok_or () s)) (\<lambda>str.
     bind_ac (lift_oc (ok_or () (dec C str))) (\<lambda>token.
     bind_ac (hdel_one R ''oauth2:tokenmap_refresh'' refresh) (\<lambda>_.
     bind_ac (lift_oc (bind_oc (expect (tk_refresh token))
        (\<lambda>f. if refresh = f then Ok () else Panic))) (\<lambda>_.
     bind_ac (tm_timed now grant) (\<lambda>grant.
     bind_ac (redis_do (r_get R ''oauth2:tokenmap_usage'')) (\<lambda>u.
     bind_ac (lift_oc (ok_or () u)) (\<lambda>curr_usage.
     let next_usage = curr_usage + 1 in
     bind_ac (tm_tag tag curr_usage grant) (\<lambda>new_access.
     bind_ac (redis_do (r_hget R ''oauth2:tokenmap_access'' (tk_access token))) (\<lambda>s.
     bind_ac (lift_oc (ok_or () s)) (\<lambda>str.
     bind_ac (lift_oc (ok_or () (dec C str))) (\<lambda>atoken.
     bind_ac (hdel_one R ''oauth2:tokenmap_access'' (tk_access token)) (\<lambda>_.
     bind_ac (lift_oc (if tk_access token = tk_access atoken then Ok () else Panic)) (\<lambda>_.
     let token = token\<lparr> tk_access := new_access, tk_grant := grant \<rparr> in
     bind_ac (lift_oc (ok_or () (enc C token))) (\<lambda>token_str.
     bind_ac (hset_new R ''oauth2:tokenmap_access'' new_access token_str) (\<lambda>_.
     bind_ac (hset_new R ''oauth2:tokenmap_refresh'' refresh token_str) (\<lambda>_.
     bind_ac (set_usage R ''oauth2:tokenmap_usage'' next_usage) (\<lambda>_.
     ret \<lparr> rt_token = new_access, rt_refresh = None, rt_until = g_until grant,
           rt_token_type = Bearer \<rparr>)))))))))))))))))))"

definition tm_recover_token ::
  "'r redis_ops \<Rightarrow> 'u token codec \<Rightarrow> string \<Rightarrow> ('m \<times> 'r, 'u grant option, unit) action" where
  "tm_recover_token R C token =
     bind_ac (get_connection R) (\<lambda>_.
     bind_ac (redis_do (r_hget R ''oauth2:tokenmap_access'' token)) (\<lambda>s.
     case s of
       Some str \<Rightarrow> bind_ac (lift_oc (ok_or () (dec C str))) (\<lambda>t. ret (Some (tk_grant t)))
     | None \<Rightarrow> ret None))"

definition tm_recover_refresh ::
  "'r redis_ops \<Rightarrow> 'u token codec \<Rightarrow> string \<Rightarrow> ('m \<times> 'r, 'u grant option, unit) action" where
  "tm_recover_refresh R C token =
     bind_ac (get_connection R) (\<lambda>_.
     bind_ac (redis_do (r_hget R ''oauth2:tokenmap_refresh'' token)) (\<lambda>s.
     case s of
       Some str \<Rightarrow> bind_ac (lift_oc (ok_or () (dec C str))) (\<lambda>t. ret (Some (tk_grant t)))
     | None \<Rightarrow> ret None))"

text \<open>Both read one hash of the store.\<close>

definition recover_at ::
  "'r redis_ops \<Rightarrow> 'u token codec \<Rightarrow> string \<Rightarrow> string \<Rightarrow> ('m \<times> 'r, 'u grant option, unit) action" where
  "recover_at R C key token =
     bind_ac (get_connection R) (\<lambda>_.
     bind_ac (redis_do (r_hget R key token)) (\<lambda>s.
     case s of
       Some str \<Rightarrow> bind_ac (lift_oc (ok_or () (dec C str))) (\<lambda>t. ret (Some (tk_grant t)))
     | None \<Rightarrow> ret None))"

lemma recover_at_eqs:
  "tm_recover_token R C = recover_at R C ''oauth2:tokenmap_access''"
  "tm_recover_refresh R C = recover_at R C ''oauth2:tokenmap_refresh''"
  by (simp_all add: fun_eq_iff tm_recover_token_def tm_recover_refresh_def recover_at_def)

section \<open>The token signer\<close>

record 'k token_signer =
  ts_duration :: "int option"
  ts_signer :: "'k assertion"
  ts_counter :: u64
  ts_have_refresh :: bool

definition token_signer_new :: "'k assertion \<Rightarrow> 'k token_signer" where
  "token_signer_new secret =
     \<lparr> ts_duration = None, ts_signer = secret, ts_counter = 0, ts_have_refresh = False \<rparr>"

definition token_signer_ephemeral :: "'k crypto_lib \<Rightarrow> bytes \<Rightarrow> ('k token_signer, unit) outcome" where
  "token_signer_ephemeral L rand_bytes = map_ok token_signer_new (assertion_ephemeral L rand_bytes)"

definition ts_valid_for :: "'k token_signer \<Rightarrow> int \<Rightarrow> 'k token_signer" where
  "ts_valid_for s duration = s\<lparr> ts_duration := Some duration \<rparr>"

definition ts_valid_for_default :: "'k token_signer \<Rightarrow> 'k token_signer" where
  "ts_valid_for_default s = s\<lparr> ts_duration := None \<rparr>"

definition generate_refresh_tokens :: "'k token_signer \<Rightarrow> bool \<Rightarrow> 'k token_signer" where
  "generate_refresh_tokens s refresh = s\<lparr> ts_have_refresh := refresh \<rparr>"

text \<open>\<open>fetch_add\<close> on a 64-bit \<open>AtomicUsize\<close>: the old value, the counter wraps.\<close>

definition next_counter :: "('k token_signer, u64, unit) action" where
  "next_counter s = (Ok (ts_counter s), s\<lparr> ts_counter := ts_counter s + 1 \<rparr>)"

definition ts_as_token :: "'k token_signer \<Rightarrow> 'k tagged_assertion" where
  "ts_as_token s = assertion_tag (ts_signer s) ''token''"

definition ts_as_refresh :: "'k token_signer \<Rightarrow> 'k tagged_assertion" where
  "ts_as_refresh s = assertion_tag (ts_signer s) ''refresh''"

definition refreshable_token ::
  "'k crypto_lib \<Rightarrow> 'u url_lib \<Rightarrow> (string fset \<Rightarrow> string list) \<Rightarrow> 'u grant
    \<Rightarrow> ('k token_signer, issued_token, unit) action" where
  "refreshable_token L U it grant =
     bind_ac next_counter (\<lambda>first_ctr.
     bind_ac next_counter (\<lambda>second_ctr. \<lambda>s.
     bind_ac (lift_oc (tagged_sign L U it (ts_as_token s) first_ctr grant)) (\<lambda>token.
     bind_ac (lift_oc (tagged_sign L U it (ts_as_refresh s) second_ctr grant)) (\<lambda>refresh.
     ret \<lparr> it_token = token, it_refresh = Some refresh, it_until = g_until grant,
           it_token_type = Bearer \<rparr>)) s))"

definition unrefreshable_token ::
  "'k crypto_lib \<Rightarrow> 'u url_lib \<Rightarrow> (string fset \<Rightarrow> string list) \<Rightarrow> 'u grant
    \<Rightarrow> ('k token_signer, issued_token, unit) action" where
  "unrefreshable_token L U it grant =
     bind_ac next_counter (\<lambda>counter. \<lambda>s.
     bind_ac (lift_oc (tagged_sign L U it (ts_as_token s) counter grant)) (\<lambda>token.
     ret (without_refresh token (g_until grant))) s)"

definition ts_issue ::
  "'k crypto_lib \<Rightarrow> 'u url_lib \<Rightarrow> (string fset \<Rightarrow> string list) \<Rightarrow> time \<Rightarrow> 'u grant
    \<Rightarrow> ('k token_signer, issued_token, unit) action" where
  "ts_issue L U it now grant = (\<lambda>s.
     let grant = (case ts_duration s of Some duration \<Rightarrow> grant\<lparr> g_until := now + duration \<rparr>
                  | None \<Rightarrow> grant) in
     if ts_have_refresh s then refreshable_token L U it grant s else unrefreshable_token L U it grant s)"

definition ts_refresh :: "time \<Rightarrow> string \<Rightarrow> 'u grant \<Rightarrow> ('k token_signer, refreshed_token, unit) action" where
  "ts_refresh now refresh grant = fail ()"

definition ok_option :: "('a, 'e) outcome \<Rightarrow> ('a option, 'f) outcome" where
  "ok_option x = (case x of Ok y \<Rightarrow> Ok (Some y) | Err e \<Rightarrow> Ok None | Panic \<Rightarrow> Panic)"

definition ts_recover_token ::
  "'k crypto_lib \<Rightarrow> 'u url_lib \<Rightarrow> (string fset \<Rightarrow> string list) \<Rightarrow> string
    \<Rightarrow> ('k token_signer, 'u grant option, unit) action" where
  "ts_recover_token L U it token = (\<lambda>s. (ok_option (tagged_extract L U it (ts_as_token s) token), s))"

definition ts_recover_refresh ::
  "'k crypto_lib \<Rightarrow> 'u url_lib \<Rightarrow> (string fset \<Rightarrow> string list) \<Rightarrow> string
    \<Rightarrow> ('k token_signer, 'u grant option, unit) action" where
  "ts_recover_refresh L U it token = (\<lambda>s.
     if \<not> ts_have_refresh s then (Ok None, s)
     else (ok_option (tagged_extract L U it (ts_as_refresh s) token), s))"

section \<open>Issuers as trait objects\<close>

record ('s, 'u) issuer_ops =
  is_issue :: "time \<Rightarrow> 'u grant \<Rightarrow> ('s, issued_token, unit) action"
  is_refresh :: "time \<Rightarrow> string \<Rightarrow> 'u grant \<Rightarrow> ('s, refreshed_token, unit) action"
  is_recover_token :: "string \<Rightarrow> ('s, 'u grant option, unit) action"
  is_recover_refresh :: "string \<Rightarrow> ('s, 'u grant option, unit) action"

definition token_map_issuer ::
  "'r redis_ops \<Rightarrow> 'u token codec \<Rightarrow> ('g, 'u) tagger \<Rightarrow> bool
    \<Rightarrow> (('g, 'u) token_map \<times> 'r, 'u) issuer_ops" where
  "token_map_issuer R C tag checks =
     \<lparr> is_issue = tm_issue R C tag checks, is_refresh = tm_do_refresh R C tag,
       is_recover_token = tm_recover_token R C, is_recover_refresh = tm_recover_refresh R C \<rparr>"

definition token_signer_issuer ::
  "'k crypto_lib \<Rightarrow> 'u url_lib \<Rightarrow> (string fset \<Rightarrow> string list) \<Rightarrow> ('k token_signer, 'u) issuer_ops" where
  "token_signer_issuer L U it =
     \<lparr> is_issue = ts_issue L U it, is_refresh = ts_refresh,
       is_recover_token = ts_recover_token L U it, is_recover_refresh = ts_recover_refresh L U it \<rparr>"

definition issuer_forward :: "('s, 'u) issuer_ops \<Rightarrow> ('s, 'u) issuer_ops" where
  "issuer_forward i =
     \<lparr> is_issue = (\<lambda>now grant. is_issue i now grant),
       is_refresh = (\<lambda>now token grant. is_refresh i now token grant),
       is_recover_token = (\<lambda>token. is_recover_token i token),
       is_recover_refresh = (\<lambda>token. is_recover_refresh i token) \<rparr>"

lemma issuer_forward_id [simp]: "issuer_forward i = i"
  by (simp add: issuer_forward_def)

section \<open>The contract of an issuer\<close>

text \<open>
  \<open>access\<close> and \<open>refr\<close> are the abstract state: the grants behind access and refresh tokens. An issued
  token stands for the grant it was issued for, with an expiry at most a second before the reported
  one; recovering a token reports that grant or nothing, and changes nothing.
\<close>

definition token_for :: "'u grant \<Rightarrow> time \<Rightarrow> 'u grant option \<Rightarrow> bool" where
  "token_for g until x \<longleftrightarrow> (\<exists>u. x = Some (g\<lparr> g_until := u \<rparr>) \<and> u \<le> until \<and> until < u + seconds 1)"

locale token_issuer =
  fixes I :: "('s, 'u) issuer_ops"
    and access :: "'s \<Rightarrow> string \<Rightarrow> 'u grant option"
    and refr :: "'s \<Rightarrow> string \<Rightarrow> 'u grant option"
    and admissible :: "'u grant \<Rightarrow> bool"
  assumes issue_access:
      "admissible g \<Longrightarrow> is_issue I now g s = (Ok t, s') \<Longrightarrow>
         token_for g (it_until t) (access s' (it_token t))"
    and issue_refresh:
      "admissible g \<Longrightarrow> is_issue I now g s = (Ok t, s') \<Longrightarrow> it_refresh t = Some f \<Longrightarrow>
         token_for g (it_until t) (refr s' f)"
    and recover_access:
      "is_recover_token I k s = (x, s') \<Longrightarrow>
         (\<forall>g. x = Ok (Some g) \<longrightarrow> access s k = Some g) \<and> access s' = access s \<and> refr s' = refr s"
    and recover_refr:
      "is_recover_refresh I k s = (x, s') \<Longrightarrow>
         (\<forall>g. x = Ok (Some g) \<longrightarrow> refr s k = Some g) \<and> access s' = access s \<and> refr s' = refr s"
begin

lemma issue_recover:
  assumes "admissible g" and "is_issue I now g s = (Ok t, s1)"
    and "is_recover_token I (it_token t) s1 = (Ok (Some h), s2)"
  shows "token_for g (it_until t) (Some h)"
  using issue_access [OF assms(1,2)] recover_access [OF assms(3)] by simp

lemma recovered_owner:
  assumes "admissible g" and "is_issue I now g s = (Ok t, s1)"
    and "is_recover_token I (it_token t) s1 = (Ok (Some h), s2)"
  shows "g_owner_id h = g_owner_id g \<and> g_client_id h = g_client_id g \<and> g_scope h = g_scope g \<and>
    g_redirect_uri h = g_redirect_uri g \<and> g_extensions h = g_extensions g \<and> g_until h \<le> it_until t"
  using issue_recover [OF assms] by (auto simp: token_for_def)

end

section \<open>The token map over the store\<close>

definition stored_grant ::
  "('r \<Rightarrow> string \<Rightarrow> string \<Rightarrow> string option) \<Rightarrow> 'u token codec \<Rightarrow> string \<Rightarrow> 'm \<times> 'r \<Rightarrow> string \<rightharpoonup> 'u grant" where
  "stored_grant hash C key s k = map_option tk_grant (Option.bind (hash (snd s) key k) (dec C))"

text \<open>Every entry decodes to a token that links back to the key it is stored under.\<close>

definition tokens_linked :: "'u token codec \<Rightarrow> (string \<Rightarrow> string \<Rightarrow> string option) \<Rightarrow> bool" where
  "tokens_linked C h \<longleftrightarrow>
     (\<forall>a s. h ''oauth2:tokenmap_access'' a = Some s \<longrightarrow> (\<exists>t. dec C s = Some t \<and> tk_access t = a)) \<and>
     (\<forall>f s. h ''oauth2:tokenmap_refresh'' f = Some s \<longrightarrow> (\<exists>t. dec C s = Some t \<and> tk_refresh t = Some f))"

lemma tokens_linked_access:
  "tokens_linked C h \<Longrightarrow> dec C v = Some t \<Longrightarrow> tk_access t = a \<Longrightarrow>
     tokens_linked C (hash_upd h ''oauth2:tokenmap_access'' a (Some v))"
  by (simp add: tokens_linked_def)

lemma tokens_linked_refresh:
  "tokens_linked C h \<Longrightarrow> dec C v = Some t \<Longrightarrow> tk_refresh t = Some f \<Longrightarrow>
     tokens_linked C (hash_upd h ''oauth2:tokenmap_refresh'' f (Some v))"
  by (simp add: tokens_linked_def)

lemma tokens_linked_del: "tokens_linked C h \<Longrightarrow> tokens_linked C (hash_upd h k f None)"
  by (auto simp: tokens_linked_def)

lemma tm_tag_Ok:
  "tm_tag tag u g (m, r) = (Ok x, (m', r')) \<Longrightarrow>
     (\<exists>gt. tag u g (tm_generator m) = (Ok x, gt) \<and> m' = m\<lparr> tm_generator := gt \<rparr>) \<and> r' = r"
  by (auto simp: tm_tag_def split: prod.splits)

lemma tm_timed_Ok:
  "tm_timed now g (m, r) = (Ok x, (m', r')) \<Longrightarrow> x = set_duration now m g \<and> m' = m \<and> r' = r"
  by (auto simp: tm_timed_def)

lemma keeps_tm_tag: "(\<And>m m' r. I (m, r) \<longleftrightarrow> I (m', r)) \<Longrightarrow> keeps I (tm_tag tag u g)"
  by (auto simp: keeps_def tm_tag_def split: prod.splits)

lemma keeps_tm_timed: "keeps I (tm_timed now g)"
  by (auto simp: keeps_def tm_timed_def)

text \<open>
  The effect of a refresh on the stored hashes: the entry of the refresh token is replaced by one
  that points to the new access token and the new grant, the old access token is gone.
\<close>

definition rotated ::
  "'u token codec \<Rightarrow> (string \<Rightarrow> string \<Rightarrow> string option) \<Rightarrow> (string \<Rightarrow> string \<Rightarrow> string option)
    \<Rightarrow> string \<Rightarrow> 'u grant \<Rightarrow> string \<Rightarrow> bool" where
  "rotated C h h' f g access \<longleftrightarrow> (\<exists>s old v.
     h ''oauth2:tokenmap_refresh'' f = Some s \<and> dec C s = Some old \<and> tk_refresh old = Some f \<and>
     h ''oauth2:tokenmap_access'' (tk_access old) \<noteq> None \<and>
     enc C (old\<lparr> tk_access := access, tk_grant := g \<rparr>) = Some v \<and>
     h' = hash_upd (hash_upd (hash_upd (hash_upd h ''oauth2:tokenmap_refresh'' f None)
        ''oauth2:tokenmap_access'' (tk_access old) None)
        ''oauth2:tokenmap_access'' access (Some v)) ''oauth2:tokenmap_refresh'' f (Some v))"

lemma rotatedI:
  assumes "h ''oauth2:tokenmap_refresh'' f = Some s" and "dec C s = Some old" and "tk_refresh old = Some f"
    and "h ''oauth2:tokenmap_access'' (tk_access old) = Some w"
    and "enc C (old\<lparr> tk_access := access, tk_grant := g \<rparr>) = Some v"
    and "h' = hash_upd (hash_upd (hash_upd (hash_upd h ''oauth2:tokenmap_refresh'' f None)
        ''oauth2:tokenmap_access'' (tk_access old) None)
        ''oauth2:tokenmap_access'' access (Some v)) ''oauth2:tokenmap_refresh'' f (Some v)"
  shows "rotated C h h' f g access"
  using assms unfolding rotated_def by blast

context redis_store
begin

definition linked :: "'u token codec \<Rightarrow> 'm \<times> 'r \<Rightarrow> bool" where
  "linked C s \<longleftrightarrow> tokens_linked C (hash (snd s))"

lemma linked_hash: "linked C (m, r) \<Longrightarrow> hash r' = hash r \<Longrightarrow> linked C (m', r')"
  by (simp add: linked_def)

lemmas keeps_linked_store = keeps_store [where I = "linked _", OF linked_hash]

lemma keeps_linked_hdel: "keeps (linked C) (hdel_one R k f)"
  by (rule keeps_hdel_one) (auto simp: linked_def tokens_linked_del)

lemma keeps_linked_hset_access:
  "codec_ok C \<Longrightarrow> enc C t = Some v \<Longrightarrow> tk_access t = a \<Longrightarrow>
     keeps (linked C) (hset_new R ''oauth2:tokenmap_access'' a v)"
  by (rule keeps_hset_new) (auto simp: linked_def intro: tokens_linked_access codec_dec)

lemma keeps_linked_hset_refresh:
  "codec_ok C \<Longrightarrow> enc C t = Some v \<Longrightarrow> tk_refresh t = Some f \<Longrightarrow>
     keeps (linked C) (hset_new R ''oauth2:tokenmap_refresh'' f v)"
  by (rule keeps_hset_new) (auto simp: linked_def intro: tokens_linked_refresh codec_dec)

lemma keeps_linked_tag: "keeps (linked C) (tm_tag tag u g)"
  by (rule keeps_tm_tag) (simp add: linked_def)

lemmas keeps_linked = keeps_linked_store keeps_linked_hdel keeps_linked_tag keeps_tm_timed
  keeps_ret keeps_fail keeps_lift

lemma import_grant_linked: "codec_ok C \<Longrightarrow> keeps (linked C) (import_grant R C now token grant)"
  unfolding import_grant_def
  by (intro keeps_bind keeps_bind_lift keeps_linked keeps_linked_hset_access)
    (auto simp: token_from_access_def)

lemma tm_issue_linked: "codec_ok C \<Longrightarrow> keeps (linked C) (tm_issue R C tag checks now grant)"
  unfolding tm_issue_def Let_def
  by (intro keeps_bind keeps_bind_lift keeps_linked keeps_linked_hset_access keeps_linked_hset_refresh)
    (auto simp: token_from_refresh_def)

lemma get_connection_Ok:
  "get_connection R (m, r) = (Ok u, (m', r')) \<Longrightarrow> m' = m \<and> hash r' = hash r \<and> num r' = num r"
  by (blast dest: get_connection_frame)

lemma hget_Ok:
  "redis_do (r_hget R k f) (m, r) = (Ok x, (m', r')) \<Longrightarrow>
     m' = m \<and> hash r' = hash r \<and> num r' = num r \<and> (\<forall>w. x = Some w \<longrightarrow> hash r k f = Some w)"
  by (auto simp: redis_do_iff dest: hget)

lemma get_Ok:
  "redis_do (r_get R k) (m, r) = (Ok x, (m', r')) \<Longrightarrow>
     m' = m \<and> hash r' = hash r \<and> num r' = num r \<and> (\<forall>n. x = Some n \<longrightarrow> num r k = Some n)"
  by (auto simp: redis_do_iff dest: get)

lemma set_usage_Ok:
  "set_usage R k n (m, r) = (Ok u, (m', r')) \<Longrightarrow>
     m' = m \<and> hash r' = hash r \<and> num r' = (num r)(k \<mapsto> n)"
  using set_usage_frame [of k n m r "Ok u" m' r'] by simp

lemmas run_Ok = get_connection_Ok get_Ok hget_Ok hset_new_Ok hdel_one_Ok set_usage_Ok
  tm_tag_Ok tm_timed_Ok

lemma tm_issue_Ok:
  assumes "tm_issue R C tag checks now g (m, r) = (Ok t, (m', r'))"
  shows "\<exists>f v. enc C (token_from_refresh (it_token t) f (set_duration now m g)) = Some v \<and>
    it_refresh t = Some f \<and> it_until t = g_until (set_duration now m g) \<and>
    hash r ''oauth2:tokenmap_access'' (it_token t) = None \<and> hash r ''oauth2:tokenmap_refresh'' f = None \<and>
    hash r' = hash_upd (hash_upd (hash r) ''oauth2:tokenmap_access'' (it_token t) (Some v))
        ''oauth2:tokenmap_refresh'' f (Some v)"
  using assms unfolding tm_issue_def Let_def
  by (auto elim!: bind_ac_OkE split: if_splits dest!: run_Ok)

lemma tm_do_refresh_Ok:
  assumes "tm_do_refresh R C tag now f g (m, r) = (Ok t, (m', r'))"
  shows "rotated C (hash r) (hash r') f (set_duration now m g) (rt_token t) \<and>
    rt_until t = g_until (set_duration now m g) \<and> rt_refresh t = None"
  using assms unfolding tm_do_refresh_def Let_def
  by (elim bind_ac_OkE) (auto split: if_splits dest!: run_Ok intro: rotatedI)

lemma keeps_linked_hset_relinked:
  "codec_ok C \<Longrightarrow> enc C (t\<lparr> tk_access := a, tk_grant := g \<rparr>) = Some v \<Longrightarrow> tk_refresh t = Some f \<Longrightarrow>
     keeps (linked C) (hset_new R ''oauth2:tokenmap_refresh'' f v)"
  by (rule keeps_linked_hset_refresh [of C "t\<lparr> tk_access := a, tk_grant := g \<rparr>"]) simp_all

lemma tm_do_refresh_linked: "codec_ok C \<Longrightarrow> keeps (linked C) (tm_do_refresh R C tag now f grant)"
  unfolding tm_do_refresh_def Let_def
  by (intro keeps_bind_lift keeps_bind keeps_linked keeps_linked_hset_access keeps_linked_hset_relinked)
    (auto split: if_splits)

lemma store_no_panic:
  "get_connection R (m, r) \<noteq> (Panic, s')" "hset_new R k f v (m, r) \<noteq> (Panic, s')"
  "hdel_one R k f (m, r) \<noteq> (Panic, s')" "set_usage R k n (m, r) \<noteq> (Panic, s')"
  "redis_do act (m, r) \<noteq> (Panic, s')" "tm_timed now g (m2, r) \<noteq> (Panic, s2)"
  by (metis get_connection_frame prod.collapse)
    (metis hset_new_frame prod.collapse, metis hdel_one_frame prod.collapse,
     metis set_usage_frame prod.collapse, auto simp: redis_do_def tm_timed_def split: prod.splits)

lemma tm_tag_Panic: "tm_tag tag u g (m, r) = (Panic, s') \<Longrightarrow> \<exists>u g st. fst (tag u g st) = Panic"
  by (auto simp: tm_tag_def split: prod.splits) (metis fst_conv)

lemma linkedD:
  "linked C (m, r) \<Longrightarrow> hash r ''oauth2:tokenmap_refresh'' f = Some s \<Longrightarrow> dec C s = Some t \<Longrightarrow>
     tk_refresh t = Some f"
  "linked C (m, r) \<Longrightarrow> hash r ''oauth2:tokenmap_access'' f = Some s \<Longrightarrow> dec C s = Some t \<Longrightarrow>
     tk_access t = f"
  by (fastforce simp: linked_def tokens_linked_def)+

lemma tm_do_refresh_Panic:
  assumes "linked C (m, r)" and "tm_do_refresh R C tag now f g (m, r) = (Panic, s')"
  shows "\<exists>u g st. fst (tag u g st) = Panic"
  using assms(2) unfolding tm_do_refresh_def Let_def
  apply (elim bind_ac_PanicE)
  apply (auto split: if_splits simp: store_no_panic dest!: run_Ok dest: tm_tag_Panic)
  using linkedD [OF assms(1)] by (metis option.distinct(1) option.inject)+

lemma recover_at_cases:
  assumes run: "recover_at R C key k (m, r) = (x, (m', r'))"
  shows "m' = m \<and> hash r' = hash r \<and> num r' = num r \<and>
    (\<forall>g. x = Ok (Some g) \<longrightarrow> stored_grant hash C key (m, r) k = Some g)"
proof -
  have "keeps (\<lambda>s. hash (snd s) = hash r \<and> num (snd s) = num r \<and> fst s = m) (recover_at R C key k)"
    unfolding recover_at_def
    by (intro keeps_bind keeps_pairI) (auto simp: keeps_def bind_ac_def redis_do_iff
        dest!: get_connection_frame hget split: option.splits outcome.splits prod.splits)
  from keepsD [OF this, of "(m, r)", OF _ run]
  have "hash r' = hash r \<and> num r' = num r \<and> m' = m" by simp
  moreover have "stored_grant hash C key (m, r) k = Some g" if "x = Ok (Some g)" for g
    using run that unfolding recover_at_def
    by (auto elim!: bind_ac_OkE dest!: run_Ok split: option.splits simp: stored_grant_def)
  ultimately show ?thesis by blast
qed

lemma recover_at_up:
  assumes "healthy r" and "\<And>v. hash r key k = Some v \<Longrightarrow> dec C v \<noteq> None"
  obtains r' where "recover_at R C key k (m, r) = (Ok (stored_grant hash C key (m, r) k), (m, r'))"
    "healthy r'" "hash r' = hash r" "num r' = num r"
proof -
  obtain r1 where 1: "get_connection R (m, r) = (Ok (), (m, r1))" "healthy r1"
    "hash r1 = hash r" "num r1 = num r"
    by (rule get_connection_up [OF assms(1)])
  obtain r2 where 2: "redis_do (r_hget R key k) (m, r1) = (Ok (hash r1 key k), (m, r2))" "healthy r2"
    "hash r2 = hash r1" "num r2 = num r1"
    by (rule hget_up [OF 1(2)])
  have "recover_at R C key k (m, r) = (Ok (stored_grant hash C key (m, r) k), (m, r2))"
    using 1 2 assms(2)
    by (cases "hash r key k"; cases "dec C (the (hash r key k))")
      (auto simp: recover_at_def bind_ac_step stored_grant_def)
  then show thesis using that 1 2 by simp
qed

lemma tm_issue_up:
  assumes "healthy r" and "codec_ok C"
    and u: "u = (case num r ''oauth2:tokenmap_usage'' of Some n \<Rightarrow> n | None \<Rightarrow> 0)"
    and g': "g' = set_duration now m g"
    and tag1: "tag u g' (tm_generator m) = (Ok a, gt)" and tag2: "tag (u + 1) g' gt = (Ok f, gt')"
    and fresh: "hash r ''oauth2:tokenmap_access'' a = None" "hash r ''oauth2:tokenmap_refresh'' f = None"
    and "a \<noteq> []" "f \<noteq> []"
  obtains v r' where
    "tm_issue R C tag checks now g (m, r) =
       (Ok \<lparr> it_token = a, it_refresh = Some f, it_until = g_until g', it_token_type = Bearer \<rparr>,
        (m\<lparr> tm_generator := gt' \<rparr>, r'))" "healthy r'"
    "hash r' = hash_upd (hash_upd (hash r) ''oauth2:tokenmap_access'' a (Some v))
        ''oauth2:tokenmap_refresh'' f (Some v)"
    "dec C v = Some (token_from_refresh a f g')"
    "num r' = (num r)(''oauth2:tokenmap_usage'' \<mapsto> u + 2)"
proof -
  obtain v where v: "enc C (token_from_refresh a f g') = Some v" "dec C v = Some (token_from_refresh a f g')"
    using codec_enc [OF assms(2)] by blast
  obtain r1 where 1: "get_connection R (m, r) = (Ok (), (m, r1))" "healthy r1"
    "hash r1 = hash r" "num r1 = num r"
    by (rule get_connection_up [OF assms(1)])
  obtain r2 where 2: "redis_do (r_get R ''oauth2:tokenmap_usage'') (m, r1)
      = (Ok (num r1 ''oauth2:tokenmap_usage''), (m, r2))" "healthy r2" "hash r2 = hash r1" "num r2 = num r1"
    by (rule get_up [OF 1(2)])
  let ?m = "m\<lparr> tm_generator := gt' \<rparr>"
  have t: "tm_tag tag u g' (m, r2) = (Ok a, (m\<lparr> tm_generator := gt \<rparr>, r2))"
    "tm_tag tag (u + 1) g' (m\<lparr> tm_generator := gt \<rparr>, r2) = (Ok f, (?m, r2))"
    using tag1 tag2 by (simp_all add: tm_tag_def)
  have f1: "hash r2 ''oauth2:tokenmap_access'' a = None" using fresh(1) 1 2 by simp
  obtain r3 where 3: "hset_new R ''oauth2:tokenmap_access'' a v (?m, r2) = (Ok (), (?m, r3))" "healthy r3"
    "hash r3 = hash_upd (hash r2) ''oauth2:tokenmap_access'' a (Some v)" "num r3 = num r2"
    by (rule hset_new_up [OF 2(2) f1, of v ?m])
  have f2: "hash r3 ''oauth2:tokenmap_refresh'' f = None" using fresh(2) 1 2 3 by simp
  obtain r4 where 4: "hset_new R ''oauth2:tokenmap_refresh'' f v (?m, r3) = (Ok (), (?m, r4))" "healthy r4"
    "hash r4 = hash_upd (hash r3) ''oauth2:tokenmap_refresh'' f (Some v)" "num r4 = num r3"
    by (rule hset_new_up [OF 3(2) f2, of v ?m])
  obtain r5 where 5: "set_usage R ''oauth2:tokenmap_usage'' (u + 2) (?m, r4) = (Ok (), (?m, r5))"
    "healthy r5" "hash r5 = hash r4" "num r5 = (num r4)(''oauth2:tokenmap_usage'' \<mapsto> u + 2)"
    by (rule set_usage_up [OF 4(2)])
  have "tm_timed now g (m, r) = (Ok g', (m, r))" by (simp add: tm_timed_def g')
  then have "tm_issue R C tag checks now g (m, r) =
       (Ok \<lparr> it_token = a, it_refresh = Some f, it_until = g_until g', it_token_type = Bearer \<rparr>, (?m, r5))"
    using 1 2 3 4 5 v t assms(9,10) u by (simp add: tm_issue_def bind_ac_step Let_def)
  then show thesis using that 1 2 3 4 5 v by simp
qed

end

section \<open>Both issuers fulfil the contract\<close>

locale token_store = redis_store R hash num healthy
  for R :: "'r redis_ops" and hash num healthy +
  fixes C :: "'u token codec"
    and tag :: "('g, 'u) tagger"
    and checks :: bool
  assumes codec: "codec_ok C"

lemma token_for_set_duration:
  "it_until t = g_until (set_duration now m g) \<Longrightarrow>
     token_for g (it_until t) (Some (set_duration now m g))"
  by (auto simp: token_for_def set_duration_def seconds_def split: option.splits
      intro!: exI [of _ "g_until (set_duration now m g)"])

sublocale token_store \<subseteq> token_issuer "token_map_issuer R C tag checks"
  "stored_grant hash C ''oauth2:tokenmap_access''" "stored_grant hash C ''oauth2:tokenmap_refresh''"
  "\<lambda>g. True"
proof
  fix g now s t s'
  assume "is_issue (token_map_issuer R C tag checks) now g s = (Ok t, s')"
  then have "tm_issue R C tag checks now g (fst s, snd s) = (Ok t, (fst s', snd s'))"
    by (simp add: token_map_issuer_def)
  from tm_issue_Ok [OF this] obtain f v
    where v: "enc C (token_from_refresh (it_token t) f (set_duration now (fst s) g)) = Some v"
      and f: "it_refresh t = Some f" "it_until t = g_until (set_duration now (fst s) g)"
      and h: "hash (snd s') = hash_upd (hash_upd (hash (snd s)) ''oauth2:tokenmap_access'' (it_token t) (Some v))
        ''oauth2:tokenmap_refresh'' f (Some v)" by blast
  note d = codec_dec [OF codec v]
  show "token_for g (it_until t) (stored_grant hash C ''oauth2:tokenmap_access'' s' (it_token t))"
    using h d token_for_set_duration [OF f(2)] by (simp add: stored_grant_def token_from_refresh_def)
  fix f'
  assume "it_refresh t = Some f'"
  then show "token_for g (it_until t) (stored_grant hash C ''oauth2:tokenmap_refresh'' s' f')"
    using f(1) h d token_for_set_duration [OF f(2)] by (simp add: stored_grant_def token_from_refresh_def)
next
  fix k s x s'
  assume "is_recover_token (token_map_issuer R C tag checks) k s = (x, s')"
  then have "recover_at R C ''oauth2:tokenmap_access'' k (fst s, snd s) = (x, (fst s', snd s'))"
    by (simp add: token_map_issuer_def recover_at_eqs)
  from recover_at_cases [OF this]
  show "(\<forall>g. x = Ok (Some g) \<longrightarrow> stored_grant hash C ''oauth2:tokenmap_access'' s k = Some g) \<and>
      stored_grant hash C ''oauth2:tokenmap_access'' s' = stored_grant hash C ''oauth2:tokenmap_access'' s \<and>
      stored_grant hash C ''oauth2:tokenmap_refresh'' s' = stored_grant hash C ''oauth2:tokenmap_refresh'' s"
    by (simp add: stored_grant_def fun_eq_iff)
next
  fix k s x s'
  assume "is_recover_refresh (token_map_issuer R C tag checks) k s = (x, s')"
  then have "recover_at R C ''oauth2:tokenmap_refresh'' k (fst s, snd s) = (x, (fst s', snd s'))"
    by (simp add: token_map_issuer_def recover_at_eqs)
  from recover_at_cases [OF this]
  show "(\<forall>g. x = Ok (Some g) \<longrightarrow> stored_grant hash C ''oauth2:tokenmap_refresh'' s k = Some g) \<and>
      stored_grant hash C ''oauth2:tokenmap_access'' s' = stored_grant hash C ''oauth2:tokenmap_access'' s \<and>
      stored_grant hash C ''oauth2:tokenmap_refresh'' s' = stored_grant hash C ''oauth2:tokenmap_refresh'' s"
    by (simp add: stored_grant_def fun_eq_iff)
qed

text \<open>The signer: what stands behind a token is what extraction returns.\<close>

definition signed_access ::
  "'k crypto_lib \<Rightarrow> 'u url_lib \<Rightarrow> (string fset \<Rightarrow> string list) \<Rightarrow> 'k token_signer \<Rightarrow> string \<rightharpoonup> 'u grant" where
  "signed_access L U it s k =
     (case tagged_extract L U it (ts_as_token s) k of Ok g \<Rightarrow> Some g | _ \<Rightarrow> None)"

definition signed_refresh ::
  "'k crypto_lib \<Rightarrow> 'u url_lib \<Rightarrow> (string fset \<Rightarrow> string list) \<Rightarrow> 'k token_signer \<Rightarrow> string \<rightharpoonup> 'u grant" where
  "signed_refresh L U it s k =
     (if ts_have_refresh s
      then (case tagged_extract L U it (ts_as_refresh s) k of Ok g \<Rightarrow> Some g | _ \<Rightarrow> None) else None)"

definition signable :: "'u url_lib \<Rightarrow> 'u grant \<Rightarrow> bool" where
  "signable U g \<longleftrightarrow> scope_wf (g_scope g) \<and> url_ok U (g_redirect_uri g)"

locale signer =
  fixes L :: "'k crypto_lib" and U :: "'u url_lib" and it :: "string fset \<Rightarrow> string list"
  assumes crypto: "crypto_ok L" and order: "iter_order it"
begin

lemma tagged_extract_signed:
  assumes "signable U g" and "tagged_sign L U it (assertion_tag a tag) counter g = Ok token"
  shows "tagged_extract L U it (assertion_tag a tag) token =
    Ok (g\<lparr> g_until := g_until g div 1000000000 * 1000000000 \<rparr>)"
  using assertion_extract_generated [OF crypto order, of g U a counter tag token] assms
  by (simp add: assertion_tag_def signable_def)

lemma token_for_rounded:
  "token_for g until (Some (g\<lparr> g_until := until div 1000000000 * 1000000000 \<rparr>))"
proof -
  have "until div 1000000000 * 1000000000 \<le> until \<and> until < until div 1000000000 * 1000000000 + 1000000000"
    using div_mult_mod_eq [of until 1000000000] pos_mod_sign [of 1000000000 until]
      pos_mod_bound [of 1000000000 until] by linarith
  then show ?thesis by (auto simp: token_for_def seconds_def)
qed

text \<open>The grant that is signed, and what an issued token extracts to.\<close>

definition timed :: "time \<Rightarrow> 'k token_signer \<Rightarrow> 'u grant \<Rightarrow> 'u grant" where
  "timed now s g = (case ts_duration s of Some duration \<Rightarrow> g\<lparr> g_until := now + duration \<rparr> | None \<Rightarrow> g)"

lemma ts_issue_Ok:
  assumes "ts_issue L U it now g s = (Ok t, s')"
  shows "ts_signer s' = ts_signer s \<and> ts_have_refresh s' = ts_have_refresh s \<and>
    it_until t = g_until (timed now s g) \<and>
    (\<exists>c. tagged_sign L U it (ts_as_token s') c (timed now s g) = Ok (it_token t)) \<and>
    (\<forall>f. it_refresh t = Some f \<longrightarrow> ts_have_refresh s \<and>
       (\<exists>c. tagged_sign L U it (ts_as_refresh s') c (timed now s g) = Ok f))"
proof (cases "ts_have_refresh s")
  case True
  then have "refreshable_token L U it (timed now s g) s = (Ok t, s')"
    using assms by (simp add: ts_issue_def timed_def Let_def split: option.splits)
  then show ?thesis
    using True
    by (auto simp: refreshable_token_def bind_ac_Ok_iff next_counter_def ts_as_token_def ts_as_refresh_def)
next
  case False
  then have "unrefreshable_token L U it (timed now s g) s = (Ok t, s')"
    using assms by (simp add: ts_issue_def timed_def Let_def split: option.splits)
  then show ?thesis
    using False
    by (auto simp: unrefreshable_token_def bind_ac_Ok_iff next_counter_def ts_as_token_def without_refresh_def)
qed

lemma token_for_timed: "token_for (timed now s g) until x \<Longrightarrow> token_for g until x"
  by (auto simp: token_for_def timed_def split: option.splits)

lemma signable_timed [simp]: "signable U (timed now s g) = signable U g"
  by (simp add: signable_def timed_def split: option.splits)

end

sublocale signer \<subseteq> token_issuer "token_signer_issuer L U it"
  "signed_access L U it" "signed_refresh L U it" "signable U"
proof
  fix g now s t s'
  assume adm: "signable U g" and i: "is_issue (token_signer_issuer L U it) now g s = (Ok t, s')"
  then have i: "ts_issue L U it now g s = (Ok t, s')" by (simp add: token_signer_issuer_def)
  note ok = ts_issue_Ok [OF i]
  obtain c where "tagged_sign L U it (assertion_tag (ts_signer s') ''token'') c (timed now s g) = Ok (it_token t)"
    using ok by (auto simp: ts_as_token_def)
  from tagged_extract_signed [OF _ this] adm
  show "token_for g (it_until t) (signed_access L U it s' (it_token t))"
    using ok token_for_rounded [of "timed now s g" "it_until t"]
    by (auto simp: signed_access_def ts_as_token_def intro: token_for_timed)
  fix f
  assume f: "it_refresh t = Some f"
  then obtain c where
    "tagged_sign L U it (assertion_tag (ts_signer s') ''refresh'') c (timed now s g) = Ok f"
    using ok by (auto simp: ts_as_refresh_def)
  from tagged_extract_signed [OF _ this] adm
  show "token_for g (it_until t) (signed_refresh L U it s' f)"
    using ok f token_for_rounded [of "timed now s g" "it_until t"]
    by (auto simp: signed_refresh_def ts_as_refresh_def intro: token_for_timed)
next
  fix k s x s'
  assume "is_recover_token (token_signer_issuer L U it) k s = (x, s')"
  then show "(\<forall>g. x = Ok (Some g) \<longrightarrow> signed_access L U it s k = Some g) \<and>
      signed_access L U it s' = signed_access L U it s \<and> signed_refresh L U it s' = signed_refresh L U it s"
    by (auto simp: token_signer_issuer_def ts_recover_token_def ok_option_def signed_access_def
        split: outcome.splits)
next
  fix k s x s'
  assume "is_recover_refresh (token_signer_issuer L U it) k s = (x, s')"
  then show "(\<forall>g. x = Ok (Some g) \<longrightarrow> signed_refresh L U it s k = Some g) \<and>
      signed_access L U it s' = signed_access L U it s \<and> signed_refresh L U it s' = signed_refresh L U it s"
    by (auto simp: token_signer_issuer_def ts_recover_refresh_def ok_option_def signed_refresh_def
        split: outcome.splits if_splits)
qed

interpretation plain_signer: signer plain_crypto url_identity example_order
  by unfold_locales (rule plain_crypto_ok, rule example_order_ok)

section \<open>Properties\<close>

definition token_text :: "string token \<Rightarrow> string" where
  "token_text t = quote_list [tk_access t, opt_text (tk_refresh t), grant_text (tk_grant t)]"

definition text_token :: "string \<Rightarrow> string token option" where
  "text_token s =
     (case unquoted s of
        Some [a, f, g] \<Rightarrow>
          map_option (\<lambda>g. \<lparr> tk_access = a, tk_refresh = text_opt f, tk_grant = g \<rparr>) (text_grant g)
      | _ \<Rightarrow> None)"

definition token_codec :: "string token codec" where
  "token_codec = \<lparr> enc = (\<lambda>t. Some (token_text t)), dec = text_token \<rparr>"

lemma token_codec_ok: "codec_ok token_codec"
  by (simp add: codec_ok_def token_codec_def text_token_def token_text_def)

interpretation mem_tokens: token_store mem_ops mr_hash mr_num mem_healthy token_codec tag checks
  for tag checks
  by unfold_locales (rule token_codec_ok)

text \<open>
  C22: round trip of issued tokens. On a healthy store, with a generator that returns two unused
  non-empty tokens, \<open>issue\<close> succeeds and hands out both; afterwards the access token and the refresh
  token each recover exactly the grant, with the configured lifetime, and the counter has moved by two.
\<close>

theorem issue_recover_roundtrip:
  assumes "redis_store R hash num healthy" and "codec_ok C" and "healthy r"
    and "u = (case num r ''oauth2:tokenmap_usage'' of Some n \<Rightarrow> n | None \<Rightarrow> 0)"
    and "g' = set_duration now m g"
    and "tag u g' (tm_generator m) = (Ok a, gt)" and "tag (u + 1) g' gt = (Ok f, gt')"
    and "hash r ''oauth2:tokenmap_access'' a = None" "hash r ''oauth2:tokenmap_refresh'' f = None"
    and "a \<noteq> []" "f \<noteq> []"
  shows "\<exists>m' r'. tm_issue R C tag checks now g (m, r) =
      (Ok \<lparr> it_token = a, it_refresh = Some f, it_until = g_until g', it_token_type = Bearer \<rparr>, (m', r')) \<and>
    fst (tm_recover_token R C a (m', r')) = Ok (Some g') \<and>
    fst (tm_recover_refresh R C f (m', r')) = Ok (Some g') \<and>
    num r' ''oauth2:tokenmap_usage'' = Some (u + 2)"
proof -
  note st = assms(1)
  obtain v r1 where i: "tm_issue R C tag checks now g (m, r) =
      (Ok \<lparr> it_token = a, it_refresh = Some f, it_until = g_until g', it_token_type = Bearer \<rparr>,
       (m\<lparr> tm_generator := gt' \<rparr>, r1))" "healthy r1"
    and h: "hash r1 = hash_upd (hash_upd (hash r) ''oauth2:tokenmap_access'' a (Some v))
        ''oauth2:tokenmap_refresh'' f (Some v)"
    and d: "dec C v = Some (token_from_refresh a f g')"
    and n: "num r1 = (num r)(''oauth2:tokenmap_usage'' \<mapsto> u + 2)"
    by (rule redis_store.tm_issue_up [OF st, where tag = tag and checks = checks, OF assms(3,2) assms(4-11)])
  have "dec C w \<noteq> None" if "hash r1 ''oauth2:tokenmap_access'' a = Some w" for w using that h d by simp
  then have ra: "fst (recover_at R C ''oauth2:tokenmap_access'' a (m\<lparr> tm_generator := gt' \<rparr>, r1))
      = Ok (stored_grant hash C ''oauth2:tokenmap_access'' (m\<lparr> tm_generator := gt' \<rparr>, r1) a)"
    using redis_store.recover_at_up [OF st, OF i(2), of "''oauth2:tokenmap_access''" a C
        "m\<lparr> tm_generator := gt' \<rparr>"] by (metis fst_conv)
  have "dec C w \<noteq> None" if "hash r1 ''oauth2:tokenmap_refresh'' f = Some w" for w using that h d by simp
  then have rf: "fst (recover_at R C ''oauth2:tokenmap_refresh'' f (m\<lparr> tm_generator := gt' \<rparr>, r1))
      = Ok (stored_grant hash C ''oauth2:tokenmap_refresh'' (m\<lparr> tm_generator := gt' \<rparr>, r1) f)"
    using redis_store.recover_at_up [OF st, OF i(2), of "''oauth2:tokenmap_refresh''" f C
        "m\<lparr> tm_generator := gt' \<rparr>"] by (metis fst_conv)
  show ?thesis
    using i(1) ra rf h d n unfolding recover_at_eqs by (simp add: stored_grant_def token_from_refresh_def)
qed

theorem issue_recover_roundtrip_witness:
  "\<exists>m' r'. tm_issue mem_ops token_codec unary_tagger True 7 example_grant
      (tm_valid_for (token_map_new ()) 100, mem_empty) =
      (Ok \<lparr> it_token = ''t'', it_refresh = Some ''tI'', it_until = 107, it_token_type = Bearer \<rparr>, (m', r')) \<and>
    fst (tm_recover_token mem_ops token_codec ''t'' (m', r')) = Ok (Some (example_grant\<lparr> g_until := 107 \<rparr>)) \<and>
    fst (tm_recover_refresh mem_ops token_codec ''tI'' (m', r')) = Ok (Some (example_grant\<lparr> g_until := 107 \<rparr>)) \<and>
    mr_num r' ''oauth2:tokenmap_usage'' = Some 2"
  using issue_recover_roundtrip [OF mem_redis_store token_codec_ok mem_healthy_empty, of 0
      "example_grant\<lparr> g_until := 107 \<rparr>" 7 "tm_valid_for (token_map_new ()) 100" example_grant
      unary_tagger "''t''" "()" "''tI''" "()" True]
  by (simp add: mem_empty_def unary_tagger_def set_duration_def tm_valid_for_def)

text \<open>
  Token rotation. A successful refresh was given a stored refresh token; it withdraws the access
  token that was linked to it, installs the new access token for the refreshed grant, keeps the
  refresh token usable for that grant, and touches no other token.
\<close>

lemma refresh_rotates_tokens:
  assumes "redis_store R hash num healthy" and "codec_ok C"
    and "tm_do_refresh R C tag now f g (m, r) = (Ok t, (m', r'))"
  shows "\<exists>s old. hash r ''oauth2:tokenmap_refresh'' f = Some s \<and> dec C s = Some old \<and>
    tk_refresh old = Some f \<and>
    stored_grant hash C ''oauth2:tokenmap_access'' (m', r') =
      (stored_grant hash C ''oauth2:tokenmap_access'' (m, r))
        (tk_access old := None, rt_token t \<mapsto> set_duration now m g) \<and>
    stored_grant hash C ''oauth2:tokenmap_refresh'' (m', r') =
      (stored_grant hash C ''oauth2:tokenmap_refresh'' (m, r))(f \<mapsto> set_duration now m g) \<and>
    rt_refresh t = None \<and> rt_until t = g_until (set_duration now m g)"
proof -
  note ok = redis_store.tm_do_refresh_Ok [OF assms(1), OF assms(3)]
  then obtain s old v where *: "hash r ''oauth2:tokenmap_refresh'' f = Some s" "dec C s = Some old"
    "tk_refresh old = Some f"
    "enc C (old\<lparr> tk_access := rt_token t, tk_grant := set_duration now m g \<rparr>) = Some v"
    "hash r' = hash_upd (hash_upd (hash_upd (hash_upd (hash r) ''oauth2:tokenmap_refresh'' f None)
        ''oauth2:tokenmap_access'' (tk_access old) None)
        ''oauth2:tokenmap_access'' (rt_token t) (Some v)) ''oauth2:tokenmap_refresh'' f (Some v)"
    unfolding rotated_def by blast
  have "dec C v = Some (old\<lparr> tk_access := rt_token t, tk_grant := set_duration now m g \<rparr>)"
    by (rule codec_dec [OF assms(2) *(4)])
  then show ?thesis
    using * ok by (auto simp: stored_grant_def fun_eq_iff)
qed

lemma text_token_text [simp]: "text_token (token_text t) = Some t"
  by (simp add: text_token_def token_text_def)

text \<open>
  C21: the links invariant. Every entry of the two token hashes decodes to a token that names the key
  it is stored under. Issuing, refreshing and importing keep this, whatever the outcome and whatever
  errors the store reports.
\<close>

theorem token_links_invariant:
  assumes "redis_store R hash num healthy" and "codec_ok C" and "tokens_linked C (hash (snd s))"
  shows "tokens_linked C (hash (snd (snd (tm_issue R C tag checks now g s)))) \<and>
    tokens_linked C (hash (snd (snd (tm_do_refresh R C tag now f g s)))) \<and>
    tokens_linked C (hash (snd (snd (import_grant R C now a g s))))"
proof -
  note st = assms(1)
  note I = redis_store.linked_def [OF st]
  show ?thesis
    using redis_store.tm_issue_linked [OF st, OF assms(2), of tag checks now g]
      redis_store.tm_do_refresh_linked [OF st, OF assms(2), of tag now f g]
      redis_store.import_grant_linked [OF st, OF assms(2), of now a g] assms(3)
    unfolding keeps_def I by blast
qed

theorem token_links_invariant_witness:
  "tokens_linked token_codec (mr_hash (snd (snd (tm_issue mem_ops token_codec unary_tagger True 0
     example_grant (token_map_new (), mem_empty)))))"
  using token_links_invariant [OF mem_redis_store token_codec_ok, of "(token_map_new (), mem_empty)"
      unary_tagger True 0 example_grant]
  by (simp add: tokens_linked_def mem_empty_def)

text \<open>
  Refreshing does not panic. With the links in place the two assertions of \<open>refresh\<close> and its
  \<open>unwrap\<close> cannot fail: a panic can only come out of the token generator.
\<close>

lemma refresh_does_not_panic:
  assumes "redis_store R hash num healthy" and "tokens_linked C (hash (snd s))"
    and "\<And>u g st. fst (tag u g st) \<noteq> Panic"
  shows "fst (tm_do_refresh R C tag now f g s) \<noteq> Panic"
proof
  assume "fst (tm_do_refresh R C tag now f g s) = Panic"
  then have "tm_do_refresh R C tag now f g (fst s, snd s) = (Panic, snd (tm_do_refresh R C tag now f g s))"
    by (metis prod.collapse)
  moreover have "redis_store.linked hash C (fst s, snd s)"
    using assms(2) by (simp add: redis_store.linked_def [OF assms(1)])
  ultimately show False
    using redis_store.tm_do_refresh_Panic [OF assms(1)] assms(3) by blast
qed

text \<open>
  C23: revocation has no effect. \<open>revoke\<close> removes the token from two maps in memory that are never
  filled; the store is untouched, and every token, the revoked one included, recovers as before.
\<close>

theorem revoke_has_no_effect:
  "snd (tm_revoke t s) = snd s \<and>
   fst (tm_recover_token R C k (tm_revoke t s)) = fst (tm_recover_token R C k s) \<and>
   fst (tm_recover_refresh R C k (tm_revoke t s)) = fst (tm_recover_refresh R C k s)"
proof -
  have frame: "fst (recover_at R C key k (m, r)) = fst (recover_at R C key k (m', r))" for key m m' r
    by (auto simp: recover_at_def bind_ac_def get_connection_def redis_do_def
        split: prod.splits outcome.splits option.splits)
  show ?thesis
    unfolding recover_at_eqs by (cases s) (auto simp: tm_revoke_def intro: frame)
qed

text \<open>
  The signer. A token it issues for a grant with a well-formed scope and a printable URL
  recovers to that grant, with an expiry less than a second before the reported one; it does not
  recover as a refresh token, and refreshing always fails.
\<close>

lemma signer_issue_recover:
  assumes "crypto_ok L" and "iter_order it" and "signable U g"
    and "ts_issue L U it now g s = (Ok t, s')"
  shows "(\<exists>h. fst (ts_recover_token L U it (it_token t) s') = Ok (Some h) \<and>
      token_for g (it_until t) (Some h)) \<and>
    fst (ts_recover_refresh L U it (it_token t) s') = Ok None \<and>
    fst (ts_refresh now' f g' s') = Err ()"
proof -
  have sg: "signer L it" using assms(1,2) by (simp add: signer_def)
  obtain c where c: "tagged_sign L U it (assertion_tag (ts_signer s') ''token'') c
      (signer.timed now s g) = Ok (it_token t)" and until: "it_until t = g_until (signer.timed now s g)"
    using signer.ts_issue_Ok [OF sg assms(4)] by (auto simp: ts_as_token_def)
  have g: "signable U (signer.timed now s g)" using assms(3) by (simp add: signer.signable_timed [OF sg])
  then have ex: "assertion_extract L U it (ts_signer s') (it_token t) =
      Ok ((signer.timed now s g)\<lparr> g_until := it_until t div 1000000000 * 1000000000 \<rparr>, ''token'')"
    using assertion_extract_generated [OF assms(1,2), of _ U "ts_signer s'" c "''token''" "it_token t"] c until
    by (auto simp: signable_def assertion_tag_def)
  have "token_for g (it_until t)
      (Some ((signer.timed now s g)\<lparr> g_until := it_until t div 1000000000 * 1000000000 \<rparr>))"
    by (rule signer.token_for_timed [OF sg]) (rule signer.token_for_rounded [OF sg])
  then show ?thesis
    using ex by (auto simp: ts_recover_token_def ts_recover_refresh_def ts_as_token_def ts_as_refresh_def
        assertion_tag_def ok_option_def ts_refresh_def)
qed

end
