(* ===== verification/Access_Token.thy ===== *)
theory Access_Token
  imports Errors Issuer
begin

text \<open>
  Redeeming an authorization code (\<open>oxide-auth/src/code_grant/accesstoken.rs\<close>): the request, the
  state machine \<open>AccessToken\<close> and the loop \<open>access_token\<close> that executes it against an endpoint. The
  loop is shown equal to a straight-line specification; from it follow what a success implies, and
  that replies to unauthenticated clients leave the endpoint unchanged.
\<close>

section \<open>Requests, endpoints and errors\<close>

text \<open>The request trait: one field per query.\<close>

record at_request =
  atr_valid :: bool
  atr_code :: "string option"
  atr_authorization :: "(string \<times> bytes) option"
  atr_client_id :: "string option"
  atr_redirect_uri :: "string option"
  atr_grant_type :: "string option"
  atr_extension :: "string \<Rightarrow> string option"
  atr_allow_credentials_in_body :: bool

text \<open>The endpoint, with its state \<open>'w\<close>.\<close>

record ('w, 'u) at_endpoint =
  ate_registrar :: "'w \<Rightarrow> 'u registrar"
  ate_authorizer :: "('w, 'u) authorizer_ops"
  ate_issuer :: "('w, 'u) issuer_ops"
  ate_extension :: "at_request \<Rightarrow> extensions \<Rightarrow> ('w, extensions, unit) action"

text \<open>The extension of endpoints without extensions (\<open>impl Extension for ()\<close>).\<close>

definition at_no_extension :: "at_request \<Rightarrow> extensions \<Rightarrow> ('w, extensions, unit) action" where
  "at_no_extension request data = ret extensions_new"

record 'u primitive_error =
  pe_grant :: "'u grant option"
  pe_extensions :: "extensions option"

definition primitive_error_empty :: "'u primitive_error" where
  "primitive_error_empty = \<lparr> pe_grant = None, pe_extensions = None \<rparr>"

datatype 'u at_error =
    AtInvalid access_token_error
  | AtUnauthorized access_token_error string
  | AtPrimitive "'u primitive_error"

definition at_invalid :: "'u at_error" where
  "at_invalid = AtInvalid te_default"

definition at_invalid_with :: "access_token_error_type \<Rightarrow> 'u at_error" where
  "at_invalid_with with_type = AtInvalid (te_set_type te_default with_type)"

definition at_unauthorized :: "string \<Rightarrow> 'u at_error" where
  "at_unauthorized authtype = AtUnauthorized (te_set_type te_default TeInvalidClient) authtype"

fun at_description :: "'u at_error \<Rightarrow> access_token_error option" where
  "at_description (AtInvalid description) = Some description"
| "at_description (AtUnauthorized description _) = Some description"
| "at_description (AtPrimitive _) = None"

text \<open>The map that \<open>ErrorDescription::to_json\<close> serialises.\<close>

definition error_to_json :: "access_token_error \<Rightarrow> (string, string) fmap" where
  "error_to_json e = fmap_of_list (te_into_iter e)"

datatype bearer_token = BearerToken issued_token string

record token_response =
  tr_access_token :: "string option"
  tr_refresh_token :: "string option"
  tr_token_type :: "string option"
  tr_expires_in :: "int option"
  tr_scope :: "string option"
  tr_error :: "string option"

text \<open>\<open>Duration::num_seconds\<close> rounds towards zero.\<close>

definition num_seconds :: "int \<Rightarrow> int" where
  "num_seconds d = (if d < 0 then - (- d div 1000000000) else d div 1000000000)"

fun bearer_to_json :: "time \<Rightarrow> bearer_token \<Rightarrow> token_response" where
  "bearer_to_json now (BearerToken token scope) =
     \<lparr> tr_access_token = Some (it_token token), tr_refresh_token = it_refresh token,
       tr_token_type = Some ''bearer'', tr_expires_in = Some (num_seconds (it_until token - now)),
       tr_scope = Some scope, tr_error = None \<rparr>"

section \<open>Credentials\<close>

datatype credentials =
    NoCredentials
  | Authenticated string bytes
  | Unauthenticated string
  | Duplicate

definition cred_add :: "credentials \<Rightarrow> credentials \<Rightarrow> credentials" where
  "cred_add self new = (case self of NoCredentials \<Rightarrow> new | _ \<Rightarrow> Duplicate)"

definition cred_authenticate :: "credentials \<Rightarrow> string \<Rightarrow> bytes \<Rightarrow> credentials" where
  "cred_authenticate self client_id passphrase = cred_add self (Authenticated client_id passphrase)"

definition cred_unauthenticated :: "credentials \<Rightarrow> string \<Rightarrow> credentials" where
  "cred_unauthenticated self client_id = cred_add self (Unauthenticated client_id)"

fun cred_into_client :: "credentials \<Rightarrow> (string \<times> bytes option) option" where
  "cred_into_client (Authenticated client_id passphrase) = Some (client_id, Some passphrase)"
| "cred_into_client (Unauthenticated client_id) = Some (client_id, None)"
| "cred_into_client _ = None"

section \<open>The state machine\<close>

datatype 'u at_state =
    AtsAuthenticate string "bytes option" string 'u
  | AtsRecover string string 'u
  | AtsExtend "'u grant" extensions
  | AtsIssue "'u grant"
  | AtsErr "'u at_error"

datatype 'u at_input =
    AtiRequest at_request
  | AtiAuthenticated
  | AtiRecovered "'u grant option"
  | AtiExtended extensions
  | AtiIssued issued_token
  | AtiNone

datatype 'u at_output =
    AtoAuthenticate string "bytes option"
  | AtoRecover string
  | AtoExtend extensions
  | AtoIssue "'u grant"
  | AtoOk bearer_token
  | AtoErr "'u at_error"

definition at_credentials :: "at_request \<Rightarrow> credentials" where
  "at_credentials request =
     (let credentials = (case atr_authorization request of
            Some (client_id, auth) \<Rightarrow> cred_authenticate NoCredentials client_id auth
          | None \<Rightarrow> NoCredentials)
      in case atr_client_id request of
           Some client_id \<Rightarrow>
             (case atr_extension request ''client_secret'' of
                Some auth \<Rightarrow>
                  if atr_allow_credentials_in_body request
                  then cred_authenticate credentials client_id (as_bytes auth)
                  else cred_unauthenticated credentials client_id
              | None \<Rightarrow> cred_unauthenticated credentials client_id)
         | None \<Rightarrow> credentials)"

definition at_validate :: "'u url_lib \<Rightarrow> at_request \<Rightarrow> ('u at_state, 'u at_error) outcome" where
  "at_validate U request =
     (if \<not> atr_valid request then Err at_invalid
      else
        let credentials = at_credentials request in
        bind_oc (case atr_grant_type request of
            Some t \<Rightarrow> if t = ''authorization_code'' then Ok ()
                     else Err (at_invalid_with TeUnsupportedGrantType)
          | None \<Rightarrow> Err at_invalid) (\<lambda>_.
        bind_oc (ok_or at_invalid (cred_into_client credentials)) (\<lambda>(client_id, passdata).
        bind_oc (ok_or at_invalid (atr_redirect_uri request)) (\<lambda>uri.
        bind_oc (ok_or at_invalid (url_parse U uri)) (\<lambda>redirect_uri.
        bind_oc (ok_or at_invalid (atr_code request)) (\<lambda>code.
        Ok (AtsAuthenticate client_id passdata code redirect_uri)))))))"

definition unwrap_or_err :: "('u at_state, 'u at_error) outcome \<Rightarrow> 'u at_state" where
  "unwrap_or_err x = (case x of Ok s \<Rightarrow> s | Err e \<Rightarrow> AtsErr e | Panic \<Rightarrow> AtsErr at_invalid)"

definition at_new :: "'u url_lib \<Rightarrow> at_request \<Rightarrow> 'u at_state" where
  "at_new U request = unwrap_or_err (at_validate U request)"

definition at_recovered ::
  "time \<Rightarrow> string \<Rightarrow> 'u \<Rightarrow> 'u grant option \<Rightarrow> ('u at_state, 'u at_error) outcome" where
  "at_recovered now client_id redirect_uri grant =
     (case grant of
        None \<Rightarrow> Err at_invalid
      | Some saved_params \<Rightarrow>
          if (g_client_id saved_params, g_redirect_uri saved_params) \<noteq> (client_id, redirect_uri)
          then Err (at_invalid_with TeInvalidGrant)
          else if g_until saved_params < now then Err (at_invalid_with TeInvalidGrant)
          else Ok (AtsExtend (saved_params\<lparr> g_extensions := extensions_new \<rparr>) (g_extensions saved_params)))"

definition at_issue :: "'u grant \<Rightarrow> extensions \<Rightarrow> 'u at_state" where
  "at_issue grant exts = AtsIssue (grant\<lparr> g_extensions := exts \<rparr>)"

text \<open>\<open>it\<close> is the order in which the scope is printed.\<close>

definition at_finish :: "(string fset \<Rightarrow> string list) \<Rightarrow> 'u grant \<Rightarrow> issued_token \<Rightarrow> bearer_token" where
  "at_finish it grant token = BearerToken token (scope_to_string it (g_scope grant))"

fun at_out :: "'u at_state \<Rightarrow> 'u at_output" where
  "at_out (AtsErr err) = AtoErr err"
| "at_out (AtsAuthenticate client passdata code redirect_uri) = AtoAuthenticate client passdata"
| "at_out (AtsRecover client code redirect_uri) = AtoRecover code"
| "at_out (AtsExtend saved_params exts) = AtoExtend exts"
| "at_out (AtsIssue grant) = AtoIssue grant"

text \<open>The successor state; the machine is left in the primitive error after it handed out a token.\<close>

fun at_next :: "time \<Rightarrow> 'u at_state \<Rightarrow> 'u at_input \<Rightarrow> 'u at_state" where
  "at_next now current AtiNone = current"
| "at_next now (AtsAuthenticate client passdata code redirect_uri) AtiAuthenticated =
     AtsRecover client code redirect_uri"
| "at_next now (AtsRecover client code redirect_uri) (AtiRecovered grant) =
     unwrap_or_err (at_recovered now client redirect_uri grant)"
| "at_next now (AtsExtend saved_params exts) (AtiExtended access_extensions) =
     at_issue saved_params access_extensions"
| "at_next now (AtsErr err) _ = AtsErr err"
| "at_next now _ _ = AtsErr (AtPrimitive primitive_error_empty)"

definition at_advance ::
  "(string fset \<Rightarrow> string list) \<Rightarrow> time \<Rightarrow> 'u at_state \<Rightarrow> 'u at_input \<Rightarrow> 'u at_state \<times> 'u at_output" where
  "at_advance it now s input =
     (case (s, input) of
        (AtsIssue grant, AtiIssued token) \<Rightarrow>
          (AtsErr (AtPrimitive primitive_error_empty), AtoOk (at_finish it grant token))
      | _ \<Rightarrow> let s' = at_next now s input in (s', at_out s'))"

section \<open>The executor\<close>

datatype 'u at_requested =
    AtqNone
  | AtqAuthenticate string "bytes option"
  | AtqRecover string
  | AtqExtend extensions
  | AtqIssue "'u grant"

text \<open>\<open>now\<close> is the time at which the token is issued.\<close>

fun at_answer ::
  "('w, 'u) at_endpoint \<Rightarrow> at_request \<Rightarrow> time \<Rightarrow> 'u at_requested \<Rightarrow> ('w, 'u at_input, 'u at_error) action" where
  "at_answer E request now AtqNone = ret AtiNone"
| "at_answer E request now (AtqAuthenticate client passdata) = (\<lambda>w.
     (bind_oc (map_err (\<lambda>err. case err of Unspecified \<Rightarrow> at_unauthorized ''basic''
                  | RegPrimitiveError \<Rightarrow> AtPrimitive primitive_error_empty)
                (rg_check (ate_registrar E w) client passdata)) (\<lambda>_. Ok AtiAuthenticated), w))"
| "at_answer E request now (AtqRecover code) =
     bind_ac (err_ac (\<lambda>_. AtPrimitive primitive_error_empty) (az_extract (ate_authorizer E) code))
       (\<lambda>opt_grant. ret (AtiRecovered opt_grant))"
| "at_answer E request now (AtqExtend exts) =
     bind_ac (err_ac (\<lambda>_. at_invalid) (ate_extension E request exts))
       (\<lambda>access_extensions. ret (AtiExtended access_extensions))"
| "at_answer E request now (AtqIssue grant) =
     bind_ac (err_ac (\<lambda>_. AtPrimitive primitive_error_empty) (is_issue (ate_issuer E) now grant))
       (\<lambda>token. ret (AtiIssued token))"

fun at_request_of :: "'u at_output \<Rightarrow> (bearer_token, 'u at_error) outcome + 'u at_requested" where
  "at_request_of (AtoAuthenticate client passdata) = Inr (AtqAuthenticate client passdata)"
| "at_request_of (AtoRecover code) = Inr (AtqRecover code)"
| "at_request_of (AtoExtend exts) = Inr (AtqExtend exts)"
| "at_request_of (AtoIssue grant) = Inr (AtqIssue grant)"
| "at_request_of (AtoOk token) = Inl (Ok token)"
| "at_request_of (AtoErr err) = Inl (Err err)"

fun at_rank :: "'u at_state \<Rightarrow> nat" where
  "at_rank (AtsAuthenticate _ _ _ _) = 4"
| "at_rank (AtsRecover _ _ _) = 3"
| "at_rank (AtsExtend _ _) = 2"
| "at_rank (AtsIssue _) = 1"
| "at_rank (AtsErr _) = 0"

lemma unwrap_recovered_rank: "at_rank (unwrap_or_err (at_recovered now c u g)) < 3"
  by (auto simp: unwrap_or_err_def at_recovered_def split: option.splits)

lemma at_next_rank:
  "input \<noteq> AtiNone \<Longrightarrow> at_rank s \<noteq> 0 \<Longrightarrow> at_rank (at_next now s input) < at_rank s"
  using unwrap_recovered_rank
  by (cases s; cases input) (auto simp: at_issue_def)

lemma at_answer_input:
  "at_answer E request now req w = (Ok input, w') \<Longrightarrow> input = AtiNone \<longleftrightarrow> req = AtqNone"
  by (cases req) (auto simp: bind_ac_Ok_iff)

lemma at_out_requested:
  "at_request_of (at_out s) = Inr req \<Longrightarrow> at_rank s \<noteq> 0 \<and> req \<noteq> AtqNone"
  by (cases s) auto

lemma at_advance_requested:
  "at_advance it now s input = (s', out) \<Longrightarrow> at_request_of out = Inr req \<Longrightarrow>
     s' = at_next now s input \<and> at_rank s' \<noteq> 0 \<and> req \<noteq> AtqNone"
  by (auto simp: at_advance_def Let_def split: at_state.splits at_input.splits dest: at_out_requested)

definition at_measure :: "'u at_state \<Rightarrow> 'u at_requested \<Rightarrow> nat" where
  "at_measure s requested = 2 * at_rank s + (if requested = AtqNone then 1 else 0)"

lemma at_measure_decreases:
  assumes "at_answer E request inow requested w = (Ok input, w')"
    and "at_advance it rnow s input = (s', out)" and "at_request_of out = Inr requested'"
  shows "at_measure s' requested' < at_measure s requested"
proof -
  note adv = at_advance_requested [OF assms(2,3)]
  show ?thesis
  proof (cases "input = AtiNone")
    case True
    then show ?thesis using adv at_answer_input [OF assms(1)] by (simp add: at_measure_def)
  next
    case False
    have "at_rank s \<noteq> 0"
    proof
      assume "at_rank s = 0"
      then obtain e where "s = AtsErr e" by (cases s) auto
      then show False using adv by (cases input) auto
    qed
    then show ?thesis
      using adv at_next_rank [OF False, of s rnow] at_answer_input [OF assms(1)] by (simp add: at_measure_def)
  qed
qed

text \<open>\<open>rnow\<close> and \<open>inow\<close> are the times read when the code is recovered and when the token is issued.\<close>

function at_loop ::
  "(string fset \<Rightarrow> string list) \<Rightarrow> ('w, 'u) at_endpoint \<Rightarrow> at_request \<Rightarrow> time \<Rightarrow> time
    \<Rightarrow> 'u at_state \<Rightarrow> 'u at_requested \<Rightarrow> ('w, bearer_token, 'u at_error) action" where
  "at_loop it E request rnow inow s requested w =
     (case at_answer E request inow requested w of
        (Err e, w') \<Rightarrow> (Err e, w')
      | (Panic, w') \<Rightarrow> (Panic, w')
      | (Ok input, w') \<Rightarrow>
          (case at_advance it rnow s input of (s', out) \<Rightarrow>
             (case at_request_of out of
                Inl result \<Rightarrow> (result, w')
              | Inr requested' \<Rightarrow> at_loop it E request rnow inow s' requested' w')))"
  by pat_completeness auto
termination
  by (relation "measure (\<lambda>(it, E, request, rnow, inow, s, requested, w). at_measure s requested)")
    (auto intro: at_measure_decreases [OF sym sym])

declare at_loop.simps [simp del]

definition access_token ::
  "'u url_lib \<Rightarrow> (string fset \<Rightarrow> string list) \<Rightarrow> ('w, 'u) at_endpoint \<Rightarrow> at_request \<Rightarrow> time \<Rightarrow> time
    \<Rightarrow> ('w, bearer_token, 'u at_error) action" where
  "access_token U it E request rnow inow =
     at_loop it E request rnow inow (at_new U request) AtqNone"

section \<open>The specification\<close>

text \<open>What a redemption does, without the machine: check the parameters, authenticate, take the code
  out, compare it with the request, run the extensions, issue.\<close>

definition at_params :: "'u url_lib \<Rightarrow> at_request \<Rightarrow> (string \<times> bytes option \<times> string \<times> 'u) option" where
  "at_params U request =
     (case (cred_into_client (at_credentials request), Option.bind (atr_redirect_uri request) (url_parse U),
            atr_code request) of
        (Some (client, passdata), Some uri, Some code) \<Rightarrow> Some (client, passdata, code, uri)
      | _ \<Rightarrow> None)"

definition at_check_params ::
  "'u url_lib \<Rightarrow> at_request \<Rightarrow> (string \<times> bytes option \<times> string \<times> 'u, 'u at_error) outcome" where
  "at_check_params U request =
     (if \<not> atr_valid request \<or> atr_grant_type request = None then Err at_invalid
      else if atr_grant_type request \<noteq> Some ''authorization_code''
      then Err (at_invalid_with TeUnsupportedGrantType)
      else ok_or at_invalid (at_params U request))"

definition redeemable ::
  "time \<Rightarrow> string \<Rightarrow> 'u \<Rightarrow> 'u grant option \<Rightarrow> ('u grant, 'u at_error) outcome" where
  "redeemable now client uri grant =
     (case grant of
        None \<Rightarrow> Err at_invalid
      | Some g \<Rightarrow> if g_client_id g = client \<and> g_redirect_uri g = uri \<and> now \<le> g_until g then Ok g
                 else Err (at_invalid_with TeInvalidGrant))"

definition code_exchange ::
  "'u url_lib \<Rightarrow> (string fset \<Rightarrow> string list) \<Rightarrow> ('w, 'u) at_endpoint \<Rightarrow> at_request \<Rightarrow> time \<Rightarrow> time
    \<Rightarrow> ('w, bearer_token, 'u at_error) action" where
  "code_exchange U it E request rnow inow =
     bind_ac (lift_oc (at_check_params U request)) (\<lambda>(client, passdata, code, uri).
     bind_ac (\<lambda>w. (map_err (\<lambda>err. case err of Unspecified \<Rightarrow> at_unauthorized ''basic''
                  | RegPrimitiveError \<Rightarrow> AtPrimitive primitive_error_empty)
                (rg_check (ate_registrar E w) client passdata), w)) (\<lambda>_.
     bind_ac (err_ac (\<lambda>_. AtPrimitive primitive_error_empty) (az_extract (ate_authorizer E) code)) (\<lambda>opt.
     bind_ac (lift_oc (redeemable rnow client uri opt)) (\<lambda>g.
     bind_ac (err_ac (\<lambda>_. at_invalid) (ate_extension E request (g_extensions g))) (\<lambda>exts.
     bind_ac (err_ac (\<lambda>_. AtPrimitive primitive_error_empty)
       (is_issue (ate_issuer E) inow (g\<lparr> g_extensions := exts \<rparr>))) (\<lambda>token.
     ret (BearerToken token (scope_to_string it (g_scope g)))))))))"

section \<open>The loop implements the specification\<close>

lemma at_validate_params:
  "at_validate U request =
     map_ok (\<lambda>(client, passdata, code, uri). AtsAuthenticate client passdata code uri)
       (at_check_params U request)"
  by (cases "atr_redirect_uri request")
    (auto simp: at_validate_def at_check_params_def at_params_def Let_def split: option.splits prod.splits)

lemma loop_err: "at_loop it E q rnow inow (AtsErr e) AtqNone w = (Err e, w)"
  by (simp add: at_loop.simps [of _ _ _ _ _ "AtsErr e"] at_advance_def)

lemma loop_issue:
  "at_loop it E q rnow inow (AtsIssue g) (AtqIssue g) =
     bind_ac (err_ac (\<lambda>_. AtPrimitive primitive_error_empty) (is_issue (ate_issuer E) inow g))
       (\<lambda>token. ret (at_finish it g token))"
  by (rule ext) (simp add: at_loop.simps at_advance_def bind_ac_def split: prod.splits outcome.splits)

lemma loop_extend:
  "at_loop it E q rnow inow (AtsExtend g exts) (AtqExtend exts) =
     bind_ac (err_ac (\<lambda>_. at_invalid) (ate_extension E q exts))
       (\<lambda>x. at_loop it E q rnow inow (AtsIssue (g\<lparr> g_extensions := x \<rparr>)) (AtqIssue (g\<lparr> g_extensions := x \<rparr>)))"
  by (rule ext) (simp add: at_loop.simps [of _ _ _ _ _ "AtsExtend _ _"] at_advance_def at_issue_def bind_ac_def
      split: prod.splits outcome.splits)

lemma loop_recover:
  "at_loop it E q rnow inow (AtsRecover client code uri) (AtqRecover code) =
     bind_ac (err_ac (\<lambda>_. AtPrimitive primitive_error_empty) (az_extract (ate_authorizer E) code)) (\<lambda>opt.
     bind_ac (lift_oc (redeemable rnow client uri opt)) (\<lambda>g.
     at_loop it E q rnow inow (AtsExtend (g\<lparr> g_extensions := extensions_new \<rparr>) (g_extensions g))
       (AtqExtend (g_extensions g))))"
  by (rule ext)
    (auto simp: at_loop.simps [of _ _ _ _ _ "AtsRecover _ _ _"] at_advance_def bind_ac_def at_recovered_def
      redeemable_def unwrap_or_err_def at_loop.simps [of _ _ _ _ _ "AtsErr _"]
      split: prod.splits outcome.splits option.splits)

lemma loop_authenticate:
  "at_loop it E q rnow inow (AtsAuthenticate client passdata code uri) (AtqAuthenticate client passdata) =
     bind_ac (\<lambda>w. (map_err (\<lambda>err. case err of Unspecified \<Rightarrow> at_unauthorized ''basic''
                  | RegPrimitiveError \<Rightarrow> AtPrimitive primitive_error_empty)
                (rg_check (ate_registrar E w) client passdata), w))
       (\<lambda>_. at_loop it E q rnow inow (AtsRecover client code uri) (AtqRecover code))"
  by (rule ext) (auto simp: at_loop.simps [of _ _ _ _ _ "AtsAuthenticate _ _ _ _"] at_advance_def bind_ac_def
      bind_oc_Err_iff split: prod.splits outcome.splits)

lemma loop_start:
  "at_loop it E q rnow inow (AtsAuthenticate client passdata code uri) AtqNone =
     at_loop it E q rnow inow (AtsAuthenticate client passdata code uri) (AtqAuthenticate client passdata)"
  by (rule ext) (simp add: at_loop.simps [of _ _ _ _ _ "AtsAuthenticate _ _ _ _" AtqNone] at_advance_def)

lemma access_token_exchange: "access_token U it E q rnow inow w = code_exchange U it E q rnow inow w"
proof (cases "at_check_params U q")
  case (Ok p)
  obtain client passdata code uri where p: "p = (client, passdata, code, uri)" by (cases p)
  show ?thesis
    using Ok
    by (simp add: access_token_def at_new_def at_validate_params unwrap_or_err_def p loop_start
        loop_authenticate loop_recover loop_extend loop_issue code_exchange_def bind_ac_step(1) at_finish_def)
next
  case (Err e)
  then show ?thesis
    by (simp add: access_token_def at_new_def at_validate_params unwrap_or_err_def loop_err
        code_exchange_def bind_ac_step(2))
next
  case Panic
  then show ?thesis by (auto simp: at_check_params_def split: if_splits)
qed

section \<open>Properties\<close>

text \<open>
  C4: the executor loop over the state machine terminates and does exactly what the straight-line
  specification says, on every request, endpoint and outcome: the order of the checks, the error of
  each failing check and the effect on the endpoint are those of \<open>code_exchange\<close>.
\<close>

theorem access_token_implements_exchange:
  "access_token U it E request rnow inow w = code_exchange U it E request rnow inow w"
  by (rule access_token_exchange)

lemma code_exchange_Ok:
  assumes "code_exchange U it E q rnow inow w = (Ok b, w')"
  shows "\<exists>client passdata code uri g exts t w1 w2.
    at_check_params U q = Ok (client, passdata, code, uri) \<and>
    rg_check (ate_registrar E w) client passdata = Ok () \<and>
    az_extract (ate_authorizer E) code w = (Ok (Some g), w1) \<and>
    g_client_id g = client \<and> g_redirect_uri g = uri \<and> rnow \<le> g_until g \<and>
    ate_extension E q (g_extensions g) w1 = (Ok exts, w2) \<and>
    is_issue (ate_issuer E) inow (g\<lparr> g_extensions := exts \<rparr>) w2 = (Ok t, w') \<and>
    b = BearerToken t (scope_to_string it (g_scope g))"
  using assms
  by (auto simp: code_exchange_def bind_ac_Ok_iff redeemable_def split: option.splits if_splits)

lemma at_check_params_Ok:
  "at_check_params U q = Ok (client, passdata, code, uri) \<longleftrightarrow>
     atr_valid q \<and> atr_grant_type q = Some ''authorization_code'' \<and> atr_code q = Some code \<and>
     Option.bind (atr_redirect_uri q) (url_parse U) = Some uri \<and>
     cred_into_client (at_credentials q) = Some (client, passdata)"
  by (auto simp: at_check_params_def at_params_def split: option.splits prod.splits)

text \<open>
  C5: what a token response implies. A token is handed out only for a well-formed request of the
  right grant type, by a client the registrar authenticated with the one set of credentials of the
  request, for a code the authorizer gave up in this very run, whose grant is for this client and
  this redirect URL and has not expired; the extensions agreed, and the token is the one issued for
  that grant.
\<close>

theorem access_token_success:
  assumes "access_token U it E q rnow inow w = (Ok b, w')"
  shows "\<exists>client passdata code uri g exts t w1 w2.
    atr_valid q \<and> atr_grant_type q = Some ''authorization_code'' \<and> atr_code q = Some code \<and>
    Option.bind (atr_redirect_uri q) (url_parse U) = Some uri \<and>
    cred_into_client (at_credentials q) = Some (client, passdata) \<and>
    rg_check (ate_registrar E w) client passdata = Ok () \<and>
    az_extract (ate_authorizer E) code w = (Ok (Some g), w1) \<and>
    g_client_id g = client \<and> g_redirect_uri g = uri \<and> rnow \<le> g_until g \<and>
    ate_extension E q (g_extensions g) w1 = (Ok exts, w2) \<and>
    is_issue (ate_issuer E) inow (g\<lparr> g_extensions := exts \<rparr>) w2 = (Ok t, w') \<and>
    b = BearerToken t (scope_to_string it (g_scope g))"
  using code_exchange_Ok [OF assms [unfolded access_token_exchange]]
  by (auto simp: at_check_params_Ok)

text \<open>A small endpoint for concrete runs: the codes are its state, every grant gets the same token.\<close>

definition example_at_endpoint :: "(string \<rightharpoonup> string grant, string) at_endpoint" where
  "example_at_endpoint = \<lparr>
     ate_registrar = (\<lambda>w. client_map_registrar url_identity spell_argon2 example_client_map),
     ate_authorizer = \<lparr> az_authorize = (\<lambda>g w. (Ok ''code'', w(''code'' \<mapsto> g))),
                        az_extract = (\<lambda>c w. (Ok (w c), w(c := None))) \<rparr>,
     ate_issuer = \<lparr> is_issue = (\<lambda>now g w. (Ok (without_refresh ''token'' (g_until g)), w)),
                    is_refresh = (\<lambda>now f g. fail ()),
                    is_recover_token = (\<lambda>t. ret None), is_recover_refresh = (\<lambda>t. ret None) \<rparr>,
     ate_extension = at_no_extension \<rparr>"

definition example_at_request :: at_request where
  "example_at_request = \<lparr> atr_valid = True, atr_code = Some ''code'', atr_authorization = None,
     atr_client_id = Some ''c'', atr_redirect_uri = Some ''https://a/'',
     atr_grant_type = Some ''authorization_code'', atr_extension = (\<lambda>k. None),
     atr_allow_credentials_in_body = False \<rparr>"

lemma example_at_run:
  "access_token url_identity example_order example_at_endpoint example_at_request 3 4
     [''code'' \<mapsto> example_grant]
   = (Ok (BearerToken (without_refresh ''token'' 5) (scope_to_string example_order (g_scope example_grant))),
      Map.empty)"
  by (simp add: access_token_exchange code_exchange_def bind_ac_def err_ac_def at_check_params_def
      at_params_def at_credentials_def cred_unauthenticated_def cred_add_def example_at_request_def
      example_at_endpoint_def url_identity_def client_map_registrar_def cm_check_def example_client_map_def
      check_authentication_def redeemable_def example_grant_def at_no_extension_def client_map_new_def)

theorem access_token_success_witness:
  "\<exists>g. [''code'' \<mapsto> example_grant] ''code'' = Some g \<and> g_client_id g = ''c'' \<and> 3 \<le> g_until g"
  using access_token_success [OF example_at_run]
  by (auto simp: example_at_request_def example_at_endpoint_def at_credentials_def cred_unauthenticated_def
      cred_add_def)

text \<open>
  C6: an attempt without valid parameters or without valid credentials costs nothing. Unless the
  request is well formed and the registrar accepts its credentials, no token is returned and the
  endpoint is left exactly as it was: in particular the authorization code stays redeemable.
\<close>

theorem code_untouched_unless_authenticated:
  assumes "case at_check_params U q of
      Ok (client, passdata, code, uri) \<Rightarrow> rg_check (ate_registrar E w) client passdata \<noteq> Ok ()
    | _ \<Rightarrow> True"
  shows "snd (access_token U it E q rnow inow w) = w \<and> fst (access_token U it E q rnow inow w) \<noteq> Ok b"
  using assms unfolding access_token_exchange
  by (auto simp: code_exchange_def bind_ac_def split: outcome.splits prod.splits)

theorem code_untouched_unless_authenticated_witness:
  "snd (access_token url_identity example_order example_at_endpoint
      (example_at_request\<lparr> atr_authorization := Some (''c'', as_bytes ''guess''), atr_client_id := None \<rparr>) 3 4
      [''code'' \<mapsto> example_grant]) = [''code'' \<mapsto> example_grant]"
proof -
  let ?q = "example_at_request\<lparr> atr_authorization := Some (''c'', as_bytes ''guess''), atr_client_id := None \<rparr>"
  have "at_check_params url_identity ?q = Ok (''c'', Some (as_bytes ''guess''), ''code'', ''https://a/'')"
    by (simp add: at_check_params_def at_params_def at_credentials_def cred_authenticate_def cred_add_def
        example_at_request_def url_identity_def)
  then show ?thesis
    using code_untouched_unless_authenticated [where U = url_identity and q = ?q and E = example_at_endpoint and w = "[''code'' \<mapsto> example_grant]"]
    by (simp add: example_at_endpoint_def client_map_registrar_def cm_check_def example_client_map_def
        check_authentication_def)
qed

text \<open>
  One set of credentials per request. A request that names a client both in the authorization
  header and in the body is refused before anything is looked up, whether or not either set is valid.
\<close>

lemma duplicate_credentials_refused:
  assumes "atr_authorization q = Some (user, pw)" and "atr_client_id q = Some client"
  shows "\<exists>e. access_token U it E q rnow inow w = (Err e, w)"
proof -
  have "at_credentials q = Duplicate"
    using assms
    by (auto simp: at_credentials_def cred_authenticate_def cred_unauthenticated_def cred_add_def Let_def
        split: option.splits)
  then have "\<exists>e. at_check_params U q = Err e"
    by (auto simp: at_check_params_def at_params_def)
  then show ?thesis
    unfolding access_token_exchange by (auto simp: code_exchange_def bind_ac_def)
qed

end
