(* ===== verification/Refresh.thy ===== *)
theory Refresh
  imports Access_Token
begin

text \<open>
  Refreshing an access token (\<open>oxide-auth/src/code_grant/refresh.rs\<close>): the request, the state machine
  \<open>Refresh\<close> and the loop \<open>refresh\<close> that executes it. The loop is shown equal to a straight-line
  specification; from it follow the authentication rules and that a refresh never widens the scope.
\<close>

section \<open>Requests and errors\<close>

record rf_request =
  rfr_valid :: bool
  rfr_refresh_token :: "string option"
  rfr_scope :: "string option"
  rfr_grant_type :: "string option"
  rfr_authorization :: "(string \<times> bytes) option"
  rfr_extension :: "string \<Rightarrow> string option"

record ('w, 'u) rf_endpoint =
  rfe_registrar :: "'w \<Rightarrow> 'u registrar"
  rfe_issuer :: "('w, 'u) issuer_ops"

datatype rf_bearer_token = RfBearerToken refreshed_token string

datatype rf_error =
    RfInvalid access_token_error
  | RfUnauthorized access_token_error string
  | RfPrimitive

definition rf_invalid :: "access_token_error_type \<Rightarrow> rf_error" where
  "rf_invalid kind = RfInvalid (te_new kind)"

definition rf_unauthorized :: "string \<Rightarrow> rf_error" where
  "rf_unauthorized authtype = RfUnauthorized (te_new TeInvalidClient) authtype"

fun rf_description :: "rf_error \<Rightarrow> access_token_error option" where
  "rf_description (RfInvalid description) = Some description"
| "rf_description (RfUnauthorized description _) = Some description"
| "rf_description RfPrimitive = None"

fun rf_bearer_to_json :: "time \<Rightarrow> rf_bearer_token \<Rightarrow> token_response" where
  "rf_bearer_to_json now (RfBearerToken token scope) =
     \<lparr> tr_access_token = Some (rt_token token), tr_refresh_token = rt_refresh token,
       tr_token_type = Some ''bearer'', tr_expires_in = Some (num_seconds (rt_until token - now)),
       tr_scope = Some scope, tr_error = None \<rparr>"

section \<open>The state machine\<close>

datatype 'u rf_state =
    RfsAuthenticating string "bytes option" string
  | RfsRecovering "string option" string
  | RfsCoAuthenticating "'u grant" string
  | RfsIssuing "'u grant" string
  | RfsErr rf_error

datatype 'u rf_input =
    RfiAuthenticated "string option"
  | RfiRecovered "string option" "'u grant option"
  | RfiRefreshed refreshed_token
  | RfiNone

datatype 'u rf_output =
    RfoUnauthenticated string "bytes option"
  | RfoRecoverRefresh string
  | RfoRefresh string "'u grant"
  | RfoOk rf_bearer_token
  | RfoErr rf_error

definition rf_initialize :: "rf_request \<Rightarrow> ('u rf_state, rf_error) outcome" where
  "rf_initialize request =
     (if \<not> rfr_valid request then Err (rf_invalid TeInvalidRequest)
      else
        bind_oc (ok_or (rf_invalid TeInvalidRequest) (rfr_refresh_token request)) (\<lambda>token.
        bind_oc (case rfr_grant_type request of
            Some t \<Rightarrow> if t = ''refresh_token'' then Ok () else Err (rf_invalid TeUnsupportedGrantType)
          | None \<Rightarrow> Err (rf_invalid TeInvalidRequest)) (\<lambda>_.
        case rfr_authorization request of
          Some (client, passdata) \<Rightarrow> Ok (RfsAuthenticating client (Some passdata) token)
        | None \<Rightarrow> Ok (RfsRecovering None token))))"

definition rf_authenticated :: "string \<Rightarrow> string \<Rightarrow> 'u rf_state" where
  "rf_authenticated client token = RfsRecovering (Some client) token"

text \<open>\<open>now\<close> and \<open>now'\<close> are the two readings of the clock in \<open>validate\<close>.\<close>

definition rf_validate ::
  "time \<Rightarrow> time \<Rightarrow> string option \<Rightarrow> 'u grant \<Rightarrow> string \<Rightarrow> ('u rf_state, rf_error) outcome" where
  "rf_validate now now' scope grant token =
     (if g_until grant \<le> now then Err (rf_invalid TeInvalidGrant)
      else
        bind_oc (case scope of
            Some scope \<Rightarrow> map_ok Some (map_err (\<lambda>_. rf_invalid TeInvalidScope) (scope_from_str scope))
          | None \<Rightarrow> Ok None) (\<lambda>scope.
        bind_oc (case scope of
            Some scope \<Rightarrow>
              if \<not> priviledged_to (g_scope grant) scope then Err (rf_invalid TeInvalidScope) else Ok scope
          | None \<Rightarrow> Ok (g_scope grant)) (\<lambda>scope.
        Ok (RfsIssuing (grant\<lparr> g_scope := scope, g_until := now' + days 7 \<rparr>) token))))"

definition rf_co_authenticated ::
  "time \<Rightarrow> time \<Rightarrow> string option \<Rightarrow> 'u grant \<Rightarrow> string \<Rightarrow> ('u rf_state, rf_error) outcome" where
  "rf_co_authenticated now now' scope grant token = rf_validate now now' scope grant token"

definition rf_recovered_refresh ::
  "time \<Rightarrow> time \<Rightarrow> string option \<Rightarrow> string option \<Rightarrow> 'u grant option \<Rightarrow> string
    \<Rightarrow> ('u rf_state, rf_error) outcome" where
  "rf_recovered_refresh now now' scope authenticated grant token =
     bind_oc (ok_or (rf_invalid TeInvalidGrant) grant) (\<lambda>grant.
     case authenticated of
       Some client \<Rightarrow>
         if g_client_id grant \<noteq> client then Err (rf_invalid TeInvalidGrant)
         else rf_validate now now' scope grant token
     | None \<Rightarrow> Ok (RfsCoAuthenticating grant token))"

definition rf_unwrap :: "('u rf_state, rf_error) outcome \<Rightarrow> 'u rf_state" where
  "rf_unwrap x = (case x of Ok s \<Rightarrow> s | Err e \<Rightarrow> RfsErr e | Panic \<Rightarrow> RfsErr RfPrimitive)"

definition rf_new :: "rf_request \<Rightarrow> 'u rf_state" where
  "rf_new request = rf_unwrap (rf_initialize request)"

definition rf_issued :: "(string fset \<Rightarrow> string list) \<Rightarrow> 'u grant \<Rightarrow> refreshed_token \<Rightarrow> rf_bearer_token" where
  "rf_issued it grant token = RfBearerToken token (scope_to_string it (g_scope grant))"

fun rf_out :: "'u rf_state \<Rightarrow> 'u rf_output" where
  "rf_out (RfsAuthenticating client passdata token) = RfoUnauthenticated client passdata"
| "rf_out (RfsCoAuthenticating grant token) = RfoUnauthenticated (g_client_id grant) None"
| "rf_out (RfsRecovering authenticated token) = RfoRecoverRefresh token"
| "rf_out (RfsIssuing grant token) = RfoRefresh token grant"
| "rf_out (RfsErr err) = RfoErr err"

text \<open>The successor state; taking the state leaves the primitive error behind.\<close>

fun rf_next :: "time \<Rightarrow> time \<Rightarrow> 'u rf_state \<Rightarrow> 'u rf_input \<Rightarrow> 'u rf_state" where
  "rf_next now now' (RfsErr err) _ = RfsErr err"
| "rf_next now now' (RfsAuthenticating client passdata token) (RfiAuthenticated scope) =
     rf_authenticated client token"
| "rf_next now now' (RfsRecovering authenticated token) (RfiRecovered scope grant) =
     rf_unwrap (rf_recovered_refresh now now' scope authenticated grant token)"
| "rf_next now now' (RfsCoAuthenticating grant token) (RfiAuthenticated scope) =
     rf_unwrap (rf_co_authenticated now now' scope grant token)"
| "rf_next now now' (RfsAuthenticating client passdata token) RfiNone = RfsAuthenticating client passdata token"
| "rf_next now now' (RfsRecovering authenticated token) RfiNone = RfsRecovering authenticated token"
| "rf_next now now' _ _ = RfsErr RfPrimitive"

definition rf_advance ::
  "(string fset \<Rightarrow> string list) \<Rightarrow> time \<Rightarrow> time \<Rightarrow> 'u rf_state \<Rightarrow> 'u rf_input
    \<Rightarrow> 'u rf_state \<times> 'u rf_output" where
  "rf_advance it now now' s input =
     (case (s, input) of
        (RfsIssuing grant _, RfiRefreshed token) \<Rightarrow> (RfsErr RfPrimitive, RfoOk (rf_issued it grant token))
      | _ \<Rightarrow> let s' = rf_next now now' s input in (s', rf_out s'))"

section \<open>The executor\<close>

datatype 'u rf_requested =
    RfqNone
  | RfqRefresh string "'u grant"
  | RfqRecoverRefresh string
  | RfqAuthenticate string "bytes option"

fun rf_answer ::
  "('w, 'u) rf_endpoint \<Rightarrow> rf_request \<Rightarrow> time \<Rightarrow> 'u rf_requested \<Rightarrow> ('w, 'u rf_input, rf_error) action" where
  "rf_answer E request inow RfqNone = ret RfiNone"
| "rf_answer E request inow (RfqRefresh token grant) =
     bind_ac (err_ac (\<lambda>_. RfPrimitive) (is_refresh (rfe_issuer E) inow token grant))
       (\<lambda>refreshed. ret (RfiRefreshed refreshed))"
| "rf_answer E request inow (RfqRecoverRefresh token) =
     bind_ac (err_ac (\<lambda>_. RfPrimitive) (is_recover_refresh (rfe_issuer E) token))
       (\<lambda>recovered. ret (RfiRecovered (rfr_scope request) recovered))"
| "rf_answer E request inow (RfqAuthenticate client pass) = (\<lambda>w.
     (bind_oc (map_err (\<lambda>err. case err of RegPrimitiveError \<Rightarrow> RfPrimitive
                  | Unspecified \<Rightarrow> rf_unauthorized ''basic'')
                (rg_check (rfe_registrar E w) client pass))
        (\<lambda>_. Ok (RfiAuthenticated (rfr_scope request))), w))"

fun rf_request_of :: "'u rf_output \<Rightarrow> (rf_bearer_token, rf_error) outcome + 'u rf_requested" where
  "rf_request_of (RfoErr err) = Inl (Err err)"
| "rf_request_of (RfoOk token) = Inl (Ok token)"
| "rf_request_of (RfoRefresh token grant) = Inr (RfqRefresh token grant)"
| "rf_request_of (RfoRecoverRefresh token) = Inr (RfqRecoverRefresh token)"
| "rf_request_of (RfoUnauthenticated client pass) = Inr (RfqAuthenticate client pass)"

fun rf_rank :: "'u rf_state \<Rightarrow> nat" where
  "rf_rank (RfsAuthenticating _ _ _) = 4"
| "rf_rank (RfsRecovering _ _) = 3"
| "rf_rank (RfsCoAuthenticating _ _) = 2"
| "rf_rank (RfsIssuing _ _) = 1"
| "rf_rank (RfsErr _) = 0"

lemma rf_validate_rank: "rf_rank (rf_unwrap (rf_validate now now' scope g t)) < 2"
  by (auto simp: rf_unwrap_def rf_validate_def bind_oc_Err_iff split: outcome.splits option.splits if_splits)

lemma rf_recovered_rank: "rf_rank (rf_unwrap (rf_recovered_refresh now now' scope a g t)) < 3"
  using rf_validate_rank [of now now' scope "the g" t]
  by (cases g) (auto simp: rf_recovered_refresh_def rf_unwrap_def split: option.splits)

lemma rf_next_rank:
  "input \<noteq> RfiNone \<Longrightarrow> rf_rank s \<noteq> 0 \<Longrightarrow> rf_rank (rf_next now now' s input) < rf_rank s"
  by (cases s; cases input)
    (simp_all add: rf_authenticated_def rf_co_authenticated_def rf_validate_rank rf_recovered_rank)

lemma rf_next_none: "rf_next now now' s RfiNone = s \<or> rf_rank (rf_next now now' s RfiNone) = 0"
  by (cases s) auto

lemma rf_out_requested:
  "rf_request_of (rf_out s) = Inr req \<Longrightarrow> rf_rank s \<noteq> 0 \<and> req \<noteq> RfqNone"
  by (cases s) auto

lemma rf_advance_requested:
  "rf_advance it now now' s input = (s', out) \<Longrightarrow> rf_request_of out = Inr req \<Longrightarrow>
     s' = rf_next now now' s input \<and> rf_rank s' \<noteq> 0 \<and> req \<noteq> RfqNone"
  by (auto simp: rf_advance_def Let_def split: rf_state.splits rf_input.splits dest: rf_out_requested)

lemma rf_answer_input:
  "rf_answer E request now req w = (Ok input, w') \<Longrightarrow> input = RfiNone \<longleftrightarrow> req = RfqNone"
  by (cases req) (auto simp: bind_ac_Ok_iff)

definition rf_measure :: "'u rf_state \<Rightarrow> 'u rf_requested \<Rightarrow> nat" where
  "rf_measure s requested = 2 * rf_rank s + (if requested = RfqNone then 1 else 0)"

lemma rf_measure_decreases:
  assumes "rf_answer E request inow requested w = (Ok input, w')"
    and "rf_advance it now now' s input = (s', out)" and "rf_request_of out = Inr requested'"
  shows "rf_measure s' requested' < rf_measure s requested"
proof -
  note adv = rf_advance_requested [OF assms(2,3)]
  show ?thesis
  proof (cases "input = RfiNone")
    case True
    then show ?thesis
      using adv at_answer_input rf_answer_input [OF assms(1)] rf_next_none [of now now' s]
      by (auto simp: rf_measure_def)
  next
    case False
    have "rf_rank s \<noteq> 0"
    proof
      assume "rf_rank s = 0"
      then obtain e where "s = RfsErr e" by (cases s) auto
      then show False using adv by (cases input) auto
    qed
    then show ?thesis
      using adv rf_next_rank [OF False, of s now now'] rf_answer_input [OF assms(1)]
      by (simp add: rf_measure_def)
  qed
qed

text \<open>\<open>now\<close>, \<open>now'\<close> are the readings of the clock in \<open>validate\<close>, \<open>inow\<close> the one of the issuer.\<close>

function rf_loop ::
  "(string fset \<Rightarrow> string list) \<Rightarrow> ('w, 'u) rf_endpoint \<Rightarrow> rf_request \<Rightarrow> time \<Rightarrow> time \<Rightarrow> time
    \<Rightarrow> 'u rf_state \<Rightarrow> 'u rf_requested \<Rightarrow> ('w, rf_bearer_token, rf_error) action" where
  "rf_loop it E request now now' inow s requested w =
     (case rf_answer E request inow requested w of
        (Err e, w') \<Rightarrow> (Err e, w')
      | (Panic, w') \<Rightarrow> (Panic, w')
      | (Ok input, w') \<Rightarrow>
          (case rf_advance it now now' s input of (s', out) \<Rightarrow>
             (case rf_request_of out of
                Inl result \<Rightarrow> (result, w')
              | Inr requested' \<Rightarrow> rf_loop it E request now now' inow s' requested' w')))"
  by pat_completeness auto
termination
  by (relation "measure (\<lambda>(it, E, request, now, now', inow, s, requested, w). rf_measure s requested)")
    (auto intro: rf_measure_decreases [OF sym sym])

declare rf_loop.simps [simp del]

definition refresh ::
  "(string fset \<Rightarrow> string list) \<Rightarrow> ('w, 'u) rf_endpoint \<Rightarrow> rf_request \<Rightarrow> time \<Rightarrow> time \<Rightarrow> time
    \<Rightarrow> ('w, rf_bearer_token, rf_error) action" where
  "refresh it E request now now' inow = rf_loop it E request now now' inow (rf_new request) RfqNone"

section \<open>The specification\<close>

definition rf_params :: "rf_request \<Rightarrow> ((string \<times> bytes) option \<times> string, rf_error) outcome" where
  "rf_params q =
     (case rfr_refresh_token q of
        Some token \<Rightarrow>
          if \<not> rfr_valid q \<or> rfr_grant_type q = None then Err (rf_invalid TeInvalidRequest)
          else if rfr_grant_type q \<noteq> Some ''refresh_token'' then Err (rf_invalid TeUnsupportedGrantType)
          else Ok (rfr_authorization q, token)
      | None \<Rightarrow> Err (rf_invalid TeInvalidRequest))"

definition rf_check ::
  "('w, 'u) rf_endpoint \<Rightarrow> string \<Rightarrow> bytes option \<Rightarrow> ('w, unit, rf_error) action" where
  "rf_check E client pass = (\<lambda>w.
     (map_err (\<lambda>err. case err of RegPrimitiveError \<Rightarrow> RfPrimitive | Unspecified \<Rightarrow> rf_unauthorized ''basic'')
        (rg_check (rfe_registrar E w) client pass), w))"

text \<open>The grant of the refreshed token: not expired, at most the old scope, valid for a week.\<close>

definition rf_renewed ::
  "time \<Rightarrow> time \<Rightarrow> string option \<Rightarrow> 'u grant \<Rightarrow> ('u grant, rf_error) outcome" where
  "rf_renewed now now' scope g =
     (if g_until g \<le> now then Err (rf_invalid TeInvalidGrant)
      else case scope of
             None \<Rightarrow> Ok (g\<lparr> g_until := now' + days 7 \<rparr>)
           | Some text \<Rightarrow>
               (case scope_from_str text of
                  Ok sc \<Rightarrow> if tokens sc |\<subseteq>| tokens (g_scope g)
                          then Ok (g\<lparr> g_scope := sc, g_until := now' + days 7 \<rparr>)
                          else Err (rf_invalid TeInvalidScope)
                | _ \<Rightarrow> Err (rf_invalid TeInvalidScope)))"

definition token_renewal ::
  "(string fset \<Rightarrow> string list) \<Rightarrow> ('w, 'u) rf_endpoint \<Rightarrow> rf_request \<Rightarrow> time \<Rightarrow> time \<Rightarrow> time
    \<Rightarrow> ('w, rf_bearer_token, rf_error) action" where
  "token_renewal it E q now now' inow =
     bind_ac (lift_oc (rf_params q)) (\<lambda>(auth, token).
     bind_ac (case auth of Some (client, pass) \<Rightarrow> rf_check E client (Some pass) | None \<Rightarrow> ret ()) (\<lambda>_.
     bind_ac (err_ac (\<lambda>_. RfPrimitive) (is_recover_refresh (rfe_issuer E) token)) (\<lambda>opt.
     bind_ac (lift_oc (ok_or (rf_invalid TeInvalidGrant) opt)) (\<lambda>g.
     bind_ac (case auth of
         Some (client, pass) \<Rightarrow>
           if g_client_id g = client then ret () else fail (rf_invalid TeInvalidGrant)
       | None \<Rightarrow> rf_check E (g_client_id g) None) (\<lambda>_.
     bind_ac (lift_oc (rf_renewed now now' (rfr_scope q) g)) (\<lambda>g'.
     bind_ac (err_ac (\<lambda>_. RfPrimitive) (is_refresh (rfe_issuer E) inow token g')) (\<lambda>t.
     ret (RfBearerToken t (scope_to_string it (g_scope g'))))))))))"

section \<open>The loop implements the specification\<close>

lemma scope_from_str_no_panic [simp]: "scope_from_str s \<noteq> Panic"
  by (auto simp: scope_from_str_def split: option.splits)

lemma rf_validate_renewed:
  "rf_validate now now' scope g token = map_ok (\<lambda>g'. RfsIssuing g' token) (rf_renewed now now' scope g)"
  by (cases scope; cases "scope_from_str (the scope)")
    (auto simp: rf_validate_def rf_renewed_def priviledged_to_def)

lemma rf_initialize_params:
  "rf_initialize q = map_ok (\<lambda>(auth, token). case auth of
       Some (client, pass) \<Rightarrow> RfsAuthenticating client (Some pass) token
     | None \<Rightarrow> RfsRecovering None token) (rf_params q)"
  by (auto simp: rf_initialize_def rf_params_def split: option.splits)

lemma rf_renewed_no_panic [simp]: "rf_renewed now now' scope g \<noteq> Panic"
  by (auto simp: rf_renewed_def split: option.splits outcome.splits)

lemma rf_loop_err: "rf_loop it E q now now' inow (RfsErr e) RfqNone w = (Err e, w)"
  by (simp add: rf_loop.simps rf_advance_def)

lemma rf_loop_issuing:
  "rf_loop it E q now now' inow (RfsIssuing g token) (RfqRefresh token g) =
     bind_ac (err_ac (\<lambda>_. RfPrimitive) (is_refresh (rfe_issuer E) inow token g))
       (\<lambda>t. ret (RfBearerToken t (scope_to_string it (g_scope g))))"
  by (rule ext) (simp add: rf_loop.simps rf_advance_def bind_ac_def rf_issued_def
      split: prod.splits outcome.splits)

lemma rf_loop_co:
  "rf_loop it E q now now' inow (RfsCoAuthenticating g token) (RfqAuthenticate (g_client_id g) None) =
     bind_ac (rf_check E (g_client_id g) None) (\<lambda>_.
     bind_ac (lift_oc (rf_renewed now now' (rfr_scope q) g)) (\<lambda>g'.
     rf_loop it E q now now' inow (RfsIssuing g' token) (RfqRefresh token g')))"
proof
  fix w
  have unwrap: "rf_unwrap (map_ok (\<lambda>g'. RfsIssuing g' token) (rf_renewed now now' (rfr_scope q) g)) =
      (case rf_renewed now now' (rfr_scope q) g of Ok g' \<Rightarrow> RfsIssuing g' token | Err e \<Rightarrow> RfsErr e
        | Panic \<Rightarrow> RfsErr RfPrimitive)"
    by (simp add: rf_unwrap_def split: outcome.splits)
  show "rf_loop it E q now now' inow (RfsCoAuthenticating g token) (RfqAuthenticate (g_client_id g) None) w =
     bind_ac (rf_check E (g_client_id g) None) (\<lambda>_.
     bind_ac (lift_oc (rf_renewed now now' (rfr_scope q) g)) (\<lambda>g'.
     rf_loop it E q now now' inow (RfsIssuing g' token) (RfqRefresh token g'))) w"
    by (cases "rg_check (rfe_registrar E w) (g_client_id g) None")
      (auto simp: rf_loop.simps [of _ _ _ _ _ _ "RfsCoAuthenticating _ _"] rf_advance_def bind_ac_def
        rf_check_def rf_co_authenticated_def rf_validate_renewed unwrap split: outcome.splits)
qed

lemma rf_loop_recovering_auth:
  "rf_loop it E q now now' inow (RfsRecovering (Some client) token) (RfqRecoverRefresh token) =
     bind_ac (err_ac (\<lambda>_. RfPrimitive) (is_recover_refresh (rfe_issuer E) token)) (\<lambda>opt.
     bind_ac (lift_oc (ok_or (rf_invalid TeInvalidGrant) opt)) (\<lambda>g.
     bind_ac (if g_client_id g = client then ret () else fail (rf_invalid TeInvalidGrant)) (\<lambda>_.
     bind_ac (lift_oc (rf_renewed now now' (rfr_scope q) g)) (\<lambda>g'.
     rf_loop it E q now now' inow (RfsIssuing g' token) (RfqRefresh token g')))))"
  by (rule ext)
    (auto simp: rf_loop.simps [of _ _ _ _ _ _ "RfsRecovering _ _"] rf_advance_def bind_ac_def
      rf_recovered_refresh_def rf_validate_renewed rf_unwrap_def
      split: prod.splits outcome.splits option.splits)

lemma rf_loop_recovering_co:
  "rf_loop it E q now now' inow (RfsRecovering None token) (RfqRecoverRefresh token) =
     bind_ac (err_ac (\<lambda>_. RfPrimitive) (is_recover_refresh (rfe_issuer E) token)) (\<lambda>opt.
     bind_ac (lift_oc (ok_or (rf_invalid TeInvalidGrant) opt)) (\<lambda>g.
     rf_loop it E q now now' inow (RfsCoAuthenticating g token) (RfqAuthenticate (g_client_id g) None)))"
  by (rule ext)
    (auto simp: rf_loop.simps [of _ _ _ _ _ _ "RfsRecovering _ _"] rf_advance_def bind_ac_def
      rf_recovered_refresh_def rf_unwrap_def split: prod.splits outcome.splits option.splits)

lemma rf_loop_authenticating:
  "rf_loop it E q now now' inow (RfsAuthenticating client pass token) (RfqAuthenticate client pass) =
     bind_ac (rf_check E client pass)
       (\<lambda>_. rf_loop it E q now now' inow (RfsRecovering (Some client) token) (RfqRecoverRefresh token))"
proof
  fix w
  show "rf_loop it E q now now' inow (RfsAuthenticating client pass token) (RfqAuthenticate client pass) w =
     bind_ac (rf_check E client pass)
       (\<lambda>_. rf_loop it E q now now' inow (RfsRecovering (Some client) token) (RfqRecoverRefresh token)) w"
    by (cases "rg_check (rfe_registrar E w) client pass")
      (auto simp: rf_loop.simps [of _ _ _ _ _ _ "RfsAuthenticating _ _ _"] rf_advance_def bind_ac_def
        rf_check_def rf_authenticated_def)
qed

lemma rf_loop_start:
  "rf_loop it E q now now' inow (RfsAuthenticating client pass token) RfqNone =
     rf_loop it E q now now' inow (RfsAuthenticating client pass token) (RfqAuthenticate client pass)"
  "rf_loop it E q now now' inow (RfsRecovering a token) RfqNone =
     rf_loop it E q now now' inow (RfsRecovering a token) (RfqRecoverRefresh token)"
  by (rule ext, simp add: rf_loop.simps [of _ _ _ _ _ _ _ RfqNone] rf_advance_def)+

lemma refresh_renewal: "refresh it E q now now' inow w = token_renewal it E q now now' inow w"
proof (cases "rf_params q")
  case (Ok p)
  obtain auth token where p: "p = (auth, token)" by (cases p)
  show ?thesis
  proof (cases auth)
    case None
    then show ?thesis
      using Ok p
      by (simp add: refresh_def rf_new_def rf_initialize_params rf_unwrap_def rf_loop_start
          rf_loop_recovering_co rf_loop_co rf_loop_issuing token_renewal_def bind_ac_step(1))
  next
    case (Some cp)
    obtain client pass where "cp = (client, pass)" by (cases cp)
    then show ?thesis
      using Ok p Some
      by (simp add: refresh_def rf_new_def rf_initialize_params rf_unwrap_def rf_loop_start
          rf_loop_authenticating rf_loop_recovering_auth rf_loop_issuing token_renewal_def bind_ac_step(1))
  qed
next
  case (Err e)
  then show ?thesis
    by (simp add: refresh_def rf_new_def rf_initialize_params rf_unwrap_def rf_loop_err
        token_renewal_def bind_ac_step(2))
next
  case Panic
  then show ?thesis by (auto simp: rf_params_def split: if_splits option.splits)
qed

section \<open>Properties\<close>

text \<open>
  C11: the executor loop over the refresh machine terminates and does exactly what the straight-line
  specification says, on every request, endpoint and outcome.
\<close>

theorem refresh_implements_renewal:
  "refresh it E request now now' inow w = token_renewal it E request now now' inow w"
  by (rule refresh_renewal)

lemma rf_params_Ok:
  "rf_params q = Ok (auth, token) \<longleftrightarrow> rfr_valid q \<and> rfr_grant_type q = Some ''refresh_token'' \<and>
     rfr_refresh_token q = Some token \<and> auth = rfr_authorization q"
  by (auto simp: rf_params_def split: option.splits)

lemma rf_renewed_Ok:
  assumes "rf_renewed now now' scope g = Ok g'"
  shows "now < g_until g \<and> tokens (g_scope g') |\<subseteq>| tokens (g_scope g) \<and>
    g' = g\<lparr> g_scope := g_scope g', g_until := now' + days 7 \<rparr>"
  using assms by (auto simp: rf_renewed_def split: option.splits outcome.splits if_splits)

text \<open>
  C12: what a refresh implies. A token is refreshed only for a well-formed request with a refresh
  token the issuer recovers; a client that authenticated must be the owner of the token, and without
  authentication the owner must be a client that needs none; the token must not have expired. The
  refreshed grant differs from the old one only in its scope, which never grows, and in its expiry,
  a week from the time of the check.
\<close>

theorem refresh_success:
  assumes "refresh it E q now now' inow w = (Ok b, w')"
  shows "\<exists>token g g' t w1. rfr_valid q \<and> rfr_grant_type q = Some ''refresh_token'' \<and>
    rfr_refresh_token q = Some token \<and>
    is_recover_refresh (rfe_issuer E) token w = (Ok (Some g), w1) \<and>
    (case rfr_authorization q of
       Some (client, pass) \<Rightarrow> rg_check (rfe_registrar E w) client (Some pass) = Ok () \<and> g_client_id g = client
     | None \<Rightarrow> rg_check (rfe_registrar E w1) (g_client_id g) None = Ok ()) \<and>
    now < g_until g \<and> tokens (g_scope g') |\<subseteq>| tokens (g_scope g) \<and>
    g' = g\<lparr> g_scope := g_scope g', g_until := now' + days 7 \<rparr> \<and>
    is_refresh (rfe_issuer E) inow token g' w1 = (Ok t, w') \<and>
    b = RfBearerToken t (scope_to_string it (g_scope g'))"
proof -
  have run: "token_renewal it E q now now' inow w = (Ok b, w')"
    using assms unfolding refresh_renewal .
  obtain auth token where p: "rf_params q = Ok (auth, token)"
    using run by (auto simp: token_renewal_def bind_ac_Ok_iff)
  have auth: "auth = rfr_authorization q" using p by (simp add: rf_params_Ok)
  obtain g g' t w1 where *: "is_recover_refresh (rfe_issuer E) token w = (Ok (Some g), w1)"
    "case auth of
       Some (client, pass) \<Rightarrow> rg_check (rfe_registrar E w) client (Some pass) = Ok () \<and> g_client_id g = client
     | None \<Rightarrow> rg_check (rfe_registrar E w1) (g_client_id g) None = Ok ()"
    "rf_renewed now now' (rfr_scope q) g = Ok g'"
    "is_refresh (rfe_issuer E) inow token g' w1 = (Ok t, w')"
    "b = RfBearerToken t (scope_to_string it (g_scope g'))"
    using run p
    by (cases auth) (auto simp: token_renewal_def bind_ac_Ok_iff rf_check_def split: if_splits)
  then show ?thesis
    using rf_renewed_Ok [OF *(3)] p unfolding auth rf_params_Ok by blast
qed

definition example_rf_endpoint :: "(unit, string) rf_endpoint" where
  "example_rf_endpoint = \<lparr>
     rfe_registrar = (\<lambda>w. client_map_registrar url_identity spell_argon2 example_client_map),
     rfe_issuer = \<lparr> is_issue = (\<lambda>now g. fail ()),
       is_refresh = (\<lambda>now f g. ret \<lparr> rt_token = ''new'', rt_refresh = None, rt_until = g_until g,
                                     rt_token_type = Bearer \<rparr>),
       is_recover_token = (\<lambda>t. ret None),
       is_recover_refresh = (\<lambda>t. ret (if t = ''r'' then Some example_grant else None)) \<rparr> \<rparr>"

definition example_rf_request :: rf_request where
  "example_rf_request = \<lparr> rfr_valid = True, rfr_refresh_token = Some ''r'', rfr_scope = None,
     rfr_grant_type = Some ''refresh_token'', rfr_authorization = None, rfr_extension = (\<lambda>k. None) \<rparr>"

lemma example_rf_run:
  "refresh example_order example_rf_endpoint example_rf_request 3 4 4 () =
     (Ok (RfBearerToken \<lparr> rt_token = ''new'', rt_refresh = None, rt_until = 4 + days 7, rt_token_type = Bearer \<rparr>
        (scope_to_string example_order (g_scope example_grant))), ())"
  by (simp add: refresh_renewal token_renewal_def bind_ac_def err_ac_def rf_params_def rf_check_def
      rf_renewed_def example_rf_request_def example_rf_endpoint_def client_map_registrar_def cm_check_def
      example_client_map_def check_authentication_def example_grant_def)

theorem refresh_success_witness:
  "\<exists>g g'. is_recover_refresh (rfe_issuer example_rf_endpoint) ''r'' () = (Ok (Some g), ()) \<and>
     tokens (g_scope g') |\<subseteq>| tokens (g_scope g) \<and>
     g' = g\<lparr> g_scope := g_scope g', g_until := 4 + days 7 \<rparr>"
proof -
  have tok: "rfr_refresh_token example_rf_request = Some ''r''" by (simp add: example_rf_request_def)
  show ?thesis using refresh_success [OF example_rf_run] unfolding tok by auto
qed

text \<open>
  Asking the machine to repeat its output is not harmless in its last two phases. Without input
  the output is repeated while authenticating and recovering, but when the machine waits for the
  second authentication or for the new token, its state is lost and the flow ends in an error.
\<close>

lemma refresh_machine_forgets_state:
  "rf_advance it now now' (RfsAuthenticating c p t) RfiNone
     = (RfsAuthenticating c p t, RfoUnauthenticated c p) \<and>
   rf_advance it now now' (RfsRecovering a t) RfiNone = (RfsRecovering a t, RfoRecoverRefresh t) \<and>
   rf_advance it now now' (RfsCoAuthenticating g t) RfiNone = (RfsErr RfPrimitive, RfoErr RfPrimitive) \<and>
   rf_advance it now now' (RfsIssuing g t) RfiNone = (RfsErr RfPrimitive, RfoErr RfPrimitive)"
  by (simp add: rf_advance_def)

end
