(* ===== verification/Resource.thy ===== *)
theory Resource
  imports Issuer
begin

text \<open>
  Access to protected resources (\<open>oxide-auth/src/code_grant/resource.rs\<close>): the state machine
  \<open>Resource\<close>, the loop \<open>protect\<close> that executes it, and the \<open>WWW-Authenticate\<close> header of its errors.
  The loop is shown equal to a direct decision, which says exactly when access is granted.
\<close>

section \<open>Requests and errors\<close>

datatype error_code = RcInvalidRequest | RcInsufficientScope | RcInvalidToken

record access_failure =
  af_code :: "error_code option"

record authenticate_info =
  au_realm :: "string option"
  au_scope :: "scope option"

datatype resource_error =
    AccessDenied access_failure authenticate_info
  | NoAuthentication authenticate_info
  | ResInvalidRequest authenticate_info
  | ResPrimitiveError

definition authenticate_empty :: authenticate_info where
  "authenticate_empty = \<lparr> au_realm = None, au_scope = None \<rparr>"

record resource_request =
  rq_valid :: bool
  rq_token :: "string option"

text \<open>Determining the scopes has no error, but the implementation may panic: \<open>None\<close>.\<close>

record ('w, 'u) resource_endpoint =
  re_scopes :: "'w \<Rightarrow> scope list option \<times> 'w"
  re_issuer :: "('w, 'u) issuer_ops"

section \<open>The state machine\<close>

datatype resource_state =
    RsNew
  | RsInternalized string
  | RsRecovering string "scope list"
  | RsErr resource_error

datatype 'u resource_input =
    RiRecovered "'u grant option"
  | RiScopes "scope list"
  | RiRequest resource_request
  | RiNone

datatype 'u resource_output =
    RoGetRequest
  | RoRecover string
  | RoDetermineScopes
  | RoOk "'u grant"
  | RoErr resource_error

definition bearer_start :: string where
  "bearer_start = ''Bearer ''"

definition resource_validate :: "resource_request \<Rightarrow> (resource_state, resource_error) outcome" where
  "resource_validate request =
     (if \<not> rq_valid request then Err (ResInvalidRequest authenticate_empty)
      else case rq_token request of
             None \<Rightarrow> Err (NoAuthentication authenticate_empty)
           | Some client_token \<Rightarrow>
               if \<not> starts_with client_token bearer_start
               then Err (ResInvalidRequest authenticate_empty)
               else Ok (RsInternalized (drop (length bearer_start) client_token)))"

definition get_scopes :: "string \<Rightarrow> scope list \<Rightarrow> resource_state" where
  "get_scopes token scopes = RsRecovering token scopes"

definition resource_recovered ::
  "time \<Rightarrow> 'u grant option \<Rightarrow> scope list \<Rightarrow> ('u grant, resource_error) outcome" where
  "resource_recovered now grant scopes =
     (case grant of
        None \<Rightarrow> Err (AccessDenied \<lparr> af_code = Some RcInvalidRequest \<rparr>
                      \<lparr> au_realm = None, au_scope = (case scopes of [] \<Rightarrow> None | s # _ \<Rightarrow> Some s) \<rparr>)
      | Some grant \<Rightarrow>
          if g_until grant < now
          then Err (AccessDenied \<lparr> af_code = Some RcInvalidToken \<rparr> authenticate_empty)
          else if List.find (\<lambda>resource_scope. allow_access (g_scope grant) resource_scope) scopes = None
          then Err (AccessDenied \<lparr> af_code = Some RcInsufficientScope \<rparr>
                      \<lparr> au_realm = None, au_scope = (case scopes of [] \<Rightarrow> None | s # _ \<Rightarrow> Some s) \<rparr>)
          else Ok grant)"

fun resource_out :: "resource_state \<Rightarrow> 'u resource_output" where
  "resource_out RsNew = RoGetRequest"
| "resource_out (RsInternalized token) = RoDetermineScopes"
| "resource_out (RsRecovering token scopes) = RoRecover token"
| "resource_out (RsErr error) = RoErr error"

definition resource_unwrap :: "(resource_state, resource_error) outcome \<Rightarrow> resource_state" where
  "resource_unwrap x = (case x of Ok s \<Rightarrow> s | Err e \<Rightarrow> RsErr e | Panic \<Rightarrow> RsErr ResPrimitiveError)"

text \<open>Taking the state leaves the primitive error behind, which stays after a result was returned.\<close>

fun resource_advance ::
  "time \<Rightarrow> resource_state \<Rightarrow> 'u resource_input \<Rightarrow> resource_state \<times> 'u resource_output" where
  "resource_advance now any RiNone = (any, resource_out any)"
| "resource_advance now RsNew (RiRequest request) =
     (let s = resource_unwrap (resource_validate request) in (s, resource_out s))"
| "resource_advance now (RsInternalized token) (RiScopes scopes) =
     (let s = get_scopes token scopes in (s, resource_out s))"
| "resource_advance now (RsRecovering token scopes) (RiRecovered grant) =
     (case resource_recovered now grant scopes of
        Ok grant \<Rightarrow> (RsErr ResPrimitiveError, RoOk grant)
      | Err err \<Rightarrow> (RsErr err, RoErr err)
      | Panic \<Rightarrow> (RsErr ResPrimitiveError, RoErr ResPrimitiveError))"
| "resource_advance now _ _ = (RsErr ResPrimitiveError, RoErr ResPrimitiveError)"

section \<open>The executor\<close>

datatype resource_requested = RrqNone | RrqRequest | RrqScopes | RrqGrant string

fun resource_answer ::
  "('w, 'u) resource_endpoint \<Rightarrow> resource_request \<Rightarrow> resource_requested
    \<Rightarrow> ('w, 'u resource_input, resource_error) action" where
  "resource_answer E req RrqNone = ret RiNone"
| "resource_answer E req RrqRequest = ret (RiRequest req)"
| "resource_answer E req RrqScopes = (\<lambda>w.
     case re_scopes E w of (Some scopes, w') \<Rightarrow> (Ok (RiScopes scopes), w') | (None, w') \<Rightarrow> (Panic, w'))"
| "resource_answer E req (RrqGrant token) =
     bind_ac (err_ac (\<lambda>_. ResPrimitiveError) (is_recover_token (re_issuer E) token))
       (\<lambda>grant. ret (RiRecovered grant))"

fun resource_request_of :: "'u resource_output \<Rightarrow> ('u grant, resource_error) outcome + resource_requested" where
  "resource_request_of (RoErr error) = Inl (Err error)"
| "resource_request_of (RoOk grant) = Inl (Ok grant)"
| "resource_request_of RoGetRequest = Inr RrqRequest"
| "resource_request_of RoDetermineScopes = Inr RrqScopes"
| "resource_request_of (RoRecover token) = Inr (RrqGrant token)"

fun resource_rank :: "resource_state \<Rightarrow> nat" where
  "resource_rank RsNew = 3"
| "resource_rank (RsInternalized _) = 2"
| "resource_rank (RsRecovering _ _) = 1"
| "resource_rank (RsErr _) = 0"

definition resource_measure :: "resource_state \<Rightarrow> resource_requested \<Rightarrow> nat" where
  "resource_measure s requested = 2 * resource_rank s + (if requested = RrqNone then 1 else 0)"

lemma validate_rank: "resource_rank (resource_unwrap (resource_validate request)) < 3"
  by (auto simp: resource_unwrap_def resource_validate_def split: option.splits)

lemma resource_advance_rank:
  assumes "input \<noteq> RiNone" and "resource_advance now s input = (s', out)"
    and "resource_request_of out = Inr requested"
  shows "resource_rank s' < resource_rank s"
proof (cases s)
  case RsNew
  show ?thesis
  proof (cases input)
    case (RiRequest q)
    then have "s' = resource_unwrap (resource_validate q)"
      using assms(2) RsNew by (simp add: Let_def)
    then show ?thesis using RsNew validate_rank [of q] by simp
  qed (use assms RsNew in auto)
next
  case (RsInternalized t)
  then show ?thesis
    using assms by (cases input) (auto simp: Let_def get_scopes_def)
next
  case (RsRecovering t scopes)
  then show ?thesis
    using assms by (cases input) (auto split: outcome.splits)
next
  case (RsErr e)
  then show ?thesis using assms by (cases input) auto
qed

lemma resource_measure_decreases:
  assumes "resource_answer E req requested w = (Ok input, w')"
    and "resource_advance now s input = (s', out)" and "resource_request_of out = Inr requested'"
  shows "resource_measure s' requested' < resource_measure s requested"
proof -
  have out: "requested' \<noteq> RrqNone" using assms(3) by (cases out) auto
  show ?thesis
  proof (cases "requested = RrqNone")
    case True
    then have "input = RiNone" using assms(1) by simp
    then show ?thesis using True out assms(2,3) by (cases s) (auto simp: resource_measure_def)
  next
    case False
    then have "input \<noteq> RiNone"
      using assms(1) by (cases requested) (auto simp: bind_ac_Ok_iff split: prod.splits option.splits)
    then have "resource_rank s' < resource_rank s"
      by (rule resource_advance_rank [OF _ assms(2,3)])
    then show ?thesis using False out by (simp add: resource_measure_def)
  qed
qed

function resource_loop ::
  "('w, 'u) resource_endpoint \<Rightarrow> resource_request \<Rightarrow> time \<Rightarrow> resource_state \<Rightarrow> resource_requested
    \<Rightarrow> ('w, 'u grant, resource_error) action" where
  "resource_loop E req now s requested w =
     (case resource_answer E req requested w of
        (Err e, w') \<Rightarrow> (Err e, w')
      | (Panic, w') \<Rightarrow> (Panic, w')
      | (Ok input, w') \<Rightarrow>
          (case resource_advance now s input of (s', out) \<Rightarrow>
             (case resource_request_of out of
                Inl result \<Rightarrow> (result, w')
              | Inr requested' \<Rightarrow> resource_loop E req now s' requested' w')))"
  by pat_completeness auto
termination
  by (relation "measure (\<lambda>(E, req, now, s, requested, w). resource_measure s requested)")
    (auto intro: resource_measure_decreases [OF sym sym])

declare resource_loop.simps [simp del]

definition protect ::
  "('w, 'u) resource_endpoint \<Rightarrow> resource_request \<Rightarrow> time \<Rightarrow> ('w, 'u grant, resource_error) action" where
  "protect E req now = resource_loop E req now RsNew RrqNone"

section \<open>The header\<close>

definition error_code_description :: "error_code \<Rightarrow> string" where
  "error_code_description c =
     (case c of RcInvalidRequest \<Rightarrow> ''invalid_request'' | RcInsufficientScope \<Rightarrow> ''insufficient_scope''
      | RcInvalidToken \<Rightarrow> ''invalid_token'')"

record bearer_header =
  bh_content :: string
  bh_first_option :: bool

definition bearer_header_new :: bearer_header where
  "bearer_header_new = \<lparr> bh_content = ''Bearer'', bh_first_option = True \<rparr>"

definition add_option :: "bearer_header \<Rightarrow> string \<Rightarrow> bearer_header" where
  "add_option h args =
     h\<lparr> bh_content := bh_content h @ (if bh_first_option h then '' '' else '','') @ args \<rparr>"

definition add_kvp :: "bearer_header \<Rightarrow> string \<Rightarrow> string option \<Rightarrow> bearer_header" where
  "add_kvp h key v =
     (case v of Some v \<Rightarrow> add_option h (key @ ''='' @ [CHR 0x22] @ v @ [CHR 0x22]) | None \<Rightarrow> h)"

definition authenticate_extend_header ::
  "(string fset \<Rightarrow> string list) \<Rightarrow> authenticate_info \<Rightarrow> bearer_header \<Rightarrow> bearer_header" where
  "authenticate_extend_header it a h =
     add_kvp (add_kvp h ''realm'' (au_realm a)) ''scope'' (map_option (scope_to_string it) (au_scope a))"

definition failure_extend_header :: "access_failure \<Rightarrow> bearer_header \<Rightarrow> bearer_header" where
  "failure_extend_header f h = add_kvp h ''error'' (map_option error_code_description (af_code f))"

definition www_authenticate :: "(string fset \<Rightarrow> string list) \<Rightarrow> resource_error \<Rightarrow> string" where
  "www_authenticate it e =
     bh_content
       (case e of
          AccessDenied failure authenticate \<Rightarrow>
            authenticate_extend_header it authenticate (failure_extend_header failure bearer_header_new)
        | NoAuthentication authenticate \<Rightarrow> authenticate_extend_header it authenticate bearer_header_new
        | ResInvalidRequest authenticate \<Rightarrow> authenticate_extend_header it authenticate bearer_header_new
        | ResPrimitiveError \<Rightarrow> bearer_header_new)"

section \<open>The decision\<close>

text \<open>The token of the request, and the direct form of the whole check.\<close>

definition bearer_token_of :: "resource_request \<Rightarrow> (string, resource_error) outcome" where
  "bearer_token_of q =
     (if \<not> rq_valid q then Err (ResInvalidRequest authenticate_empty)
      else case rq_token q of
             None \<Rightarrow> Err (NoAuthentication authenticate_empty)
           | Some header \<Rightarrow>
               if take 7 header = ''Bearer '' then Ok (drop 7 header)
               else Err (ResInvalidRequest authenticate_empty))"

definition determine_scopes :: "('w, 'u) resource_endpoint \<Rightarrow> ('w, scope list, 'e) action" where
  "determine_scopes E = (\<lambda>w. case re_scopes E w of (s, w') \<Rightarrow> (expect s, w'))"

definition guard_resource ::
  "('w, 'u) resource_endpoint \<Rightarrow> resource_request \<Rightarrow> time \<Rightarrow> ('w, 'u grant, resource_error) action" where
  "guard_resource E q now =
     bind_ac (lift_oc (bearer_token_of q)) (\<lambda>token.
     bind_ac (determine_scopes E) (\<lambda>scopes.
     bind_ac (err_ac (\<lambda>_. ResPrimitiveError) (is_recover_token (re_issuer E) token)) (\<lambda>grant.
     lift_oc (resource_recovered now grant scopes))))"

lemma starts_with_take: "starts_with s p \<longleftrightarrow> take (length p) s = p"
  by (metis append_eq_conv_conj append_take_drop_id starts_with_iff)

lemma resource_validate_token:
  "resource_validate q = map_ok RsInternalized (bearer_token_of q)"
  by (auto simp: resource_validate_def bearer_token_of_def starts_with_take bearer_start_def
      numeral_eq_Suc split: option.splits)

lemma rloop_recovering:
  "resource_loop E q now (RsRecovering token scopes) (RrqGrant token) =
     bind_ac (err_ac (\<lambda>_. ResPrimitiveError) (is_recover_token (re_issuer E) token))
       (\<lambda>grant. lift_oc (resource_recovered now grant scopes))"
proof
  fix w
  have "resource_recovered now g scopes \<noteq> Panic" for g :: "'b grant option"
    by (auto simp: resource_recovered_def split: option.splits)
  then show "resource_loop E q now (RsRecovering token scopes) (RrqGrant token) w =
     bind_ac (err_ac (\<lambda>_. ResPrimitiveError) (is_recover_token (re_issuer E) token))
       (\<lambda>grant. lift_oc (resource_recovered now grant scopes)) w"
    by (auto simp: resource_loop.simps bind_ac_def split: prod.splits outcome.splits)
qed

lemma rloop_scopes:
  "resource_loop E q now (RsInternalized token) RrqScopes =
     bind_ac (determine_scopes E)
       (\<lambda>scopes. resource_loop E q now (RsRecovering token scopes) (RrqGrant token))"
  by (rule ext) (auto simp: resource_loop.simps [of _ _ _ "RsInternalized _"] bind_ac_def get_scopes_def
      determine_scopes_def split: prod.splits option.splits outcome.splits)

lemma protect_guard: "protect E q now w = guard_resource E q now w"
proof (cases "bearer_token_of q")
  case (Ok token)
  then show ?thesis
    by (simp add: protect_def resource_loop.simps [of _ _ _ RsNew] resource_validate_token
        resource_unwrap_def guard_resource_def bind_ac_step(1) rloop_scopes rloop_recovering)
next
  case (Err e)
  then show ?thesis
    by (simp add: protect_def resource_loop.simps [of _ _ _ RsNew] resource_validate_token
        resource_unwrap_def guard_resource_def bind_ac_step(2))
next
  case Panic
  then show ?thesis by (auto simp: bearer_token_of_def split: if_splits option.splits)
qed

section \<open>Properties\<close>

lemma append_prefix_iff:
  "length p = n \<Longrightarrow> take n h = p \<and> drop n h = t \<longleftrightarrow> h = p @ t"
  by (metis append_eq_conv_conj append_take_drop_id)

lemma bearer_token_of_Ok:
  "bearer_token_of q = Ok token \<longleftrightarrow> rq_valid q \<and> rq_token q = Some (''Bearer '' @ token)"
proof -
  have iff: "take 7 h = ''Bearer '' \<and> drop 7 h = token \<longleftrightarrow> h = ''Bearer '' @ token" for h
    by (rule append_prefix_iff) simp
  show ?thesis
  proof (cases "rq_token q")
    case (Some h)
    then show ?thesis using iff [of h] by (simp add: bearer_token_of_def del: append_Cons) blast
  qed (simp add: bearer_token_of_def)
qed

lemma resource_recovered_Ok:
  "resource_recovered now x scopes = Ok g \<longleftrightarrow>
     x = Some g \<and> now \<le> g_until g \<and> list_ex (\<lambda>s. tokens (g_scope g) |\<subseteq>| tokens s) scopes"
proof -
  have found: "List.find P scopes = None \<longleftrightarrow> \<not> list_ex P scopes" for P :: "scope \<Rightarrow> bool"
    by (auto simp: find_None_iff list_ex_iff)
  show ?thesis
  proof (cases x)
    case (Some h)
    then show ?thesis
      unfolding resource_recovered_def option.simps found allow_access_def scope_le_subset by auto
  qed (simp add: resource_recovered_def)
qed

text \<open>
  C19: when access is granted. \<open>protect\<close> returns a grant exactly when the request is well formed and
  carries a bearer token, the issuer recovers the grant from that token, the grant has not expired,
  and its scope is contained in one of the scopes of the resource.
\<close>

theorem protect_grants_iff:
  "protect E q now w = (Ok g, w') \<longleftrightarrow>
    (\<exists>token scopes w1. rq_valid q \<and> rq_token q = Some (''Bearer '' @ token) \<and>
       re_scopes E w = (Some scopes, w1) \<and> is_recover_token (re_issuer E) token w1 = (Ok (Some g), w') \<and>
       now \<le> g_until g \<and> list_ex (\<lambda>s. tokens (g_scope g) |\<subseteq>| tokens s) scopes)"
  unfolding protect_guard guard_resource_def
  by (auto simp: bind_ac_Ok_iff bearer_token_of_Ok resource_recovered_Ok determine_scopes_def split: prod.splits)

text \<open>
  The comparison is the wrong way round. A token whose scope has more than the resource asks
  for, which is privileged to it in the sense of \<open>Scope::priviledged_to\<close>, is refused for an
  insufficient scope.
\<close>

lemma broader_token_denied:
  assumes "rq_valid q" and "rq_token q = Some (''Bearer '' @ token)" and "re_scopes E w = (Some [required], w1)"
    and "is_recover_token (re_issuer E) token w1 = (Ok (Some g), w')" and "now \<le> g_until g"
    and "tokens required |\<subset>| tokens (g_scope g)"
  shows "priviledged_to (g_scope g) required \<and>
    protect E q now w = (Err (AccessDenied \<lparr> af_code = Some RcInsufficientScope \<rparr>
      \<lparr> au_realm = None, au_scope = Some required \<rparr>), w')"
proof -
  have "bearer_token_of q = Ok token" using assms(1,2) by (simp add: bearer_token_of_Ok)
  moreover have "\<not> allow_access (g_scope g) required" "priviledged_to (g_scope g) required"
    using assms(6) by (auto simp: allow_access_def priviledged_to_def scope_le_subset)
  ultimately show ?thesis
    using assms(3-5)
    by (simp add: protect_guard guard_resource_def determine_scopes_def bind_ac_def err_ac_def resource_recovered_def)
qed

definition example_resource :: "(unit, string) resource_endpoint" where
  "example_resource = \<lparr> re_scopes = (\<lambda>w. (Some [\<lparr> tokens = {|''read''|} \<rparr>], w)),
     re_issuer = \<lparr> is_issue = (\<lambda>now g. fail ()), is_refresh = (\<lambda>now f g. fail ()),
       is_recover_token = (\<lambda>t. ret (if t = ''t'' then Some (example_grant
          \<lparr> g_scope := \<lparr> tokens = {|''read'', ''write''|} \<rparr> \<rparr>) else None)),
       is_recover_refresh = (\<lambda>t. ret None) \<rparr> \<rparr>"

text \<open>
  The challenge header. The options of the \<open>WWW-Authenticate\<close> header of a refused access are the
  error, the realm and the scope, each preceded by a space: the marker for the first option is
  never cleared, so no comma is ever written between them.
\<close>

lemma www_authenticate_options:
  "www_authenticate it (AccessDenied \<lparr> af_code = Some c \<rparr> \<lparr> au_realm = Some r, au_scope = Some s \<rparr>) =
     ''Bearer'' @ '' error='' @ [CHR 0x22] @ error_code_description c @ [CHR 0x22]
       @ '' realm='' @ [CHR 0x22] @ r @ [CHR 0x22]
       @ '' scope='' @ [CHR 0x22] @ scope_to_string it s @ [CHR 0x22]"
  by (simp add: www_authenticate_def failure_extend_header_def authenticate_extend_header_def
      add_kvp_def add_option_def bearer_header_new_def)

end
