(* ===== verification/Authorization.thy ===== *)
theory Authorization
  imports Errors Issuer
begin

text \<open>
  Authorization code requests (\<open>oxide-auth/src/code_grant/authorization.rs\<close>): the state machine
  \<open>Authorization\<close>, the loop \<open>authorization_code\<close> that executes it, the pending request with the
  owner's two answers, and the redirect errors. The loop is shown equal to a straight-line
  specification. The locale \<open>authorization_server\<close> states what the flow relies on of its registrar;
  with the client map it gives that the user agent is only ever sent to registered URLs.
\<close>

section \<open>Requests and endpoints\<close>

record auth_request =
  aur_valid :: bool
  aur_client_id :: "string option"
  aur_scope :: "string option"
  aur_redirect_uri :: "string option"
  aur_state :: "string option"
  aur_response_type :: "string option"
  aur_extension :: "string \<Rightarrow> string option"
  aur_user_id :: "string option"

record ('w, 'u) auth_endpoint =
  aue_registrar :: "'w \<Rightarrow> 'u registrar"
  aue_authorizer :: "('w, 'u) authorizer_ops"
  aue_extension :: "auth_request \<Rightarrow> ('w, extensions, unit) action"
  aue_issuer :: "('w, 'u) issuer_ops"

definition auth_no_extension :: "auth_request \<Rightarrow> ('w, extensions, unit) action" where
  "auth_no_extension request = ret extensions_new"

section \<open>Errors\<close>

record 'u error_url =
  eu_base_uri :: 'u
  eu_error :: authorization_error

datatype 'u auth_error = AuIgnore | AuRedirect "'u error_url" | AuPrimitiveError

definition error_url_new_generic ::
  "'u url_lib \<Rightarrow> 'u \<Rightarrow> string option \<Rightarrow> authorization_error \<Rightarrow> 'u error_url" where
  "error_url_new_generic U url state error =
     \<lparr> eu_base_uri = url_extend_pairs U url (case state of Some st \<Rightarrow> [(''state'', st)] | None \<Rightarrow> []),
       eu_error = error \<rparr>"

definition error_url_new ::
  "'u url_lib \<Rightarrow> 'u \<Rightarrow> string option \<Rightarrow> authorization_error \<Rightarrow> 'u error_url" where
  "error_url_new U url state error = error_url_new_generic U url state error"

definition error_url_with_request ::
  "'u url_lib \<Rightarrow> auth_request \<Rightarrow> 'u \<Rightarrow> authorization_error_type \<Rightarrow> 'u error_url" where
  "error_url_with_request U request redirect_uri err_type =
     (let err = error_url_new U redirect_uri (aur_state request) ae_default
      in err\<lparr> eu_error := ae_set_type (eu_error err) err_type \<rparr>)"

definition error_url_into :: "'u url_lib \<Rightarrow> 'u error_url \<Rightarrow> 'u" where
  "error_url_into U e = url_extend_pairs U (eu_base_uri e) (ae_into_iter (eu_error e))"

definition error_url_description :: "'u error_url \<Rightarrow> authorization_error" where
  "error_url_description e = eu_error e"

fun auth_error_description :: "'u auth_error \<Rightarrow> authorization_error option" where
  "auth_error_description AuIgnore = None"
| "auth_error_description (AuRedirect inner) = Some (error_url_description inner)"
| "auth_error_description AuPrimitiveError = None"

section \<open>The state machine\<close>

datatype 'u auth_state =
    AusBinding string "exact_url option"
  | AusExtending "'u bound_client"
  | AusNegotiating "'u bound_client"
  | AusPending "'u pre_grant" "string option" extensions
  | AusErr "'u auth_error"

record 'u auth_machine =
  am_state :: "'u auth_state"
  am_extensions :: "extensions option"
  am_scope :: "scope option"

datatype 'u auth_input =
    AuiBound auth_request "'u bound_client"
  | AuiExtended extensions
  | AuiNegotiated "'u pre_grant" "string option"
  | AuiFinished
  | AuiNone

datatype 'u auth_output =
    AuoBind string "exact_url option"
  | AuoExtend
  | AuoNegotiate "'u bound_client" "scope option"
  | AuoOk "'u pre_grant" "string option" extensions
  | AuoErr "'u auth_error"

definition auth_validate :: "'u url_lib \<Rightarrow> auth_request \<Rightarrow> ('u auth_state, 'u auth_error) outcome" where
  "auth_validate U request =
     (if \<not> aur_valid request then Err AuIgnore
      else
        bind_oc (ok_or AuIgnore (aur_client_id request)) (\<lambda>client_id.
        bind_oc (case aur_redirect_uri request of
            None \<Rightarrow> Ok None
          | Some uri \<Rightarrow> map_ok Some (map_err (\<lambda>_. AuIgnore) (exact_from_str U uri))) (\<lambda>redirect_uri.
        Ok (AusBinding client_id redirect_uri))))"

definition auth_unwrap :: "('u auth_state, 'u auth_error) outcome \<Rightarrow> 'u auth_state" where
  "auth_unwrap x = (case x of Ok s \<Rightarrow> s | Err e \<Rightarrow> AusErr e | Panic \<Rightarrow> AusErr AuPrimitiveError)"

definition auth_new :: "'u url_lib \<Rightarrow> auth_request \<Rightarrow> 'u auth_machine" where
  "auth_new U request =
     \<lparr> am_state = auth_unwrap (auth_validate U request), am_extensions = None, am_scope = None \<rparr>"

text \<open>The machine after binding; an error leaves the parsed scope unset.\<close>

definition auth_bound ::
  "'u url_lib \<Rightarrow> 'u auth_machine \<Rightarrow> auth_request \<Rightarrow> 'u bound_client
    \<Rightarrow> ('u auth_machine, 'u auth_error) outcome" where
  "auth_bound U m request bound_client =
     (if aur_response_type request \<noteq> Some ''code''
      then bind_oc (registered_to_url U (bc_redirect_uri bound_client)) (\<lambda>url.
             Err (AuRedirect (error_url_with_request U request url AeUnsupportedResponseType)))
      else
        (case map_option scope_from_str (aur_scope request) of
           None \<Rightarrow> Ok (m\<lparr> am_scope := None, am_state := AusExtending bound_client \<rparr>)
         | Some (Ok scope) \<Rightarrow> Ok (m\<lparr> am_scope := Some scope, am_state := AusExtending bound_client \<rparr>)
         | Some _ \<Rightarrow>
             bind_oc (registered_to_url U (bc_redirect_uri bound_client)) (\<lambda>url.
               Err (AuRedirect (error_url_with_request U request url AeInvalidScope)))))"

definition auth_extended :: "'u auth_machine \<Rightarrow> extensions \<Rightarrow> 'u bound_client \<Rightarrow> 'u auth_machine" where
  "auth_extended m grant_extension bound_client =
     m\<lparr> am_extensions := Some grant_extension, am_state := AusNegotiating bound_client \<rparr>"

definition auth_negotiated ::
  "'u auth_machine \<Rightarrow> string option \<Rightarrow> 'u pre_grant \<Rightarrow> ('u auth_machine, 'e) outcome" where
  "auth_negotiated m state pre_grant =
     bind_oc (expect (am_extensions m)) (\<lambda>exts. Ok (m\<lparr> am_state := AusPending pre_grant state exts \<rparr>))"

definition auth_out :: "'u auth_machine \<Rightarrow> 'u auth_output" where
  "auth_out m =
     (case am_state m of
        AusErr err \<Rightarrow> AuoErr err
      | AusBinding client_id redirect_uri \<Rightarrow> AuoBind client_id redirect_uri
      | AusExtending bound_client \<Rightarrow> AuoExtend
      | AusNegotiating bound_client \<Rightarrow> AuoNegotiate bound_client (am_scope m)
      | AusPending pre_grant state exts \<Rightarrow> AuoOk pre_grant state exts)"

definition auth_next ::
  "'u url_lib \<Rightarrow> 'u auth_machine \<Rightarrow> 'u auth_input \<Rightarrow> ('u auth_machine, 'u auth_error) outcome" where
  "auth_next U m input =
     (case (am_state m, input) of
        (_, AuiNone) \<Rightarrow> Ok m
      | (AusBinding _ _, AuiBound request bound_client) \<Rightarrow>
          (case auth_bound U m request bound_client of
             Ok m' \<Rightarrow> Ok m'
           | Err e \<Rightarrow> Ok (m\<lparr> am_state := AusErr e \<rparr>)
           | Panic \<Rightarrow> Panic)
      | (AusExtending bound_client, AuiExtended grant_extension) \<Rightarrow>
          Ok (auth_extended m grant_extension bound_client)
      | (AusNegotiating _, AuiNegotiated pre_grant state) \<Rightarrow> auth_negotiated m state pre_grant
      | (AusErr err, _) \<Rightarrow> Ok m
      | (_, _) \<Rightarrow> Ok (m\<lparr> am_state := AusErr AuPrimitiveError \<rparr>))"

definition auth_advance ::
  "'u url_lib \<Rightarrow> 'u auth_machine \<Rightarrow> 'u auth_input
    \<Rightarrow> ('u auth_machine \<times> 'u auth_output, 'u auth_error) outcome" where
  "auth_advance U m input = map_ok (\<lambda>m'. (m', auth_out m')) (auth_next U m input)"

section \<open>The executor\<close>

record 'u pending =
  pd_pre_grant :: "'u pre_grant"
  pd_state :: "string option"
  pd_extensions :: extensions

datatype 'u auth_requested =
    AuqNone
  | AuqBind string "exact_url option"
  | AuqExtend
  | AuqNegotiate string 'u "scope option"

text \<open>\<open>uri\<close> is the local variable \<open>the_redirect_uri\<close>.\<close>

fun auth_answer ::
  "'u url_lib \<Rightarrow> ('w, 'u) auth_endpoint \<Rightarrow> auth_request \<Rightarrow> 'u registered_url option \<Rightarrow> 'u auth_requested
    \<Rightarrow> ('w, 'u auth_input \<times> 'u registered_url option, 'u auth_error) action" where
  "auth_answer U E request uri AuqNone = ret (AuiNone, uri)"
| "auth_answer U E request uri (AuqBind client_id redirect_uri) = (\<lambda>w.
     (map_ok (\<lambda>bc. (AuiBound request bc, Some (bc_redirect_uri bc)))
       (map_err (\<lambda>e. case e of Unspecified \<Rightarrow> AuIgnore | RegPrimitiveError \<Rightarrow> AuPrimitiveError)
         (rg_bound_redirect (aue_registrar E w)
           \<lparr> cu_client_id = client_id, cu_redirect_uri = redirect_uri \<rparr>)), w))"
| "auth_answer U E request uri AuqExtend = (\<lambda>w.
     case aue_extension E request w of
       (Ok extension_data, w') \<Rightarrow> (Ok (AuiExtended extension_data, uri), w')
     | (Err _, w') \<Rightarrow>
         (bind_oc (expect uri) (\<lambda>r. bind_oc (registered_into_url U r) (\<lambda>url.
            Err (AuRedirect (error_url_with_request U request url AeInvalidRequest)))), w')
     | (Panic, w') \<Rightarrow> (Panic, w'))"
| "auth_answer U E request uri (AuqNegotiate client_id redirect_uri scope) = (\<lambda>w.
     (map_ok (\<lambda>pre_grant. (AuiNegotiated pre_grant (aur_state request), uri))
       (map_err (\<lambda>e. case e of
            RegPrimitiveError \<Rightarrow> AuPrimitiveError
          | Unspecified \<Rightarrow> AuRedirect (error_url_with_request U request redirect_uri AeInvalidScope))
         (rg_negotiate (aue_registrar E w)
           \<lparr> bc_client_id = client_id, bc_redirect_uri = Semantic redirect_uri \<rparr> scope)), w))"

fun auth_request_of ::
  "'u url_lib \<Rightarrow> 'u auth_output \<Rightarrow> ('u pending, 'u auth_error) outcome + 'u auth_requested" where
  "auth_request_of U (AuoBind client_id redirect_uri) = Inr (AuqBind client_id redirect_uri)"
| "auth_request_of U AuoExtend = Inr AuqExtend"
| "auth_request_of U (AuoNegotiate bound_client scope) =
     (case registered_to_url U (bc_redirect_uri bound_client) of
        Ok url \<Rightarrow> Inr (AuqNegotiate (bc_client_id bound_client) url scope)
      | Err e \<Rightarrow> Inl (Err e)
      | Panic \<Rightarrow> Inl Panic)"
| "auth_request_of U (AuoOk pre_grant state exts) =
     Inl (Ok \<lparr> pd_pre_grant = pre_grant, pd_state = state, pd_extensions = exts \<rparr>)"
| "auth_request_of U (AuoErr e) = Inl (Err e)"

fun auth_rank :: "'u auth_state \<Rightarrow> nat" where
  "auth_rank (AusBinding _ _) = 3"
| "auth_rank (AusExtending _) = 2"
| "auth_rank (AusNegotiating _) = 1"
| "auth_rank (AusPending _ _ _) = 0"
| "auth_rank (AusErr _) = 0"

definition auth_measure :: "'u auth_machine \<Rightarrow> 'u auth_requested \<Rightarrow> nat" where
  "auth_measure m requested = 2 * auth_rank (am_state m) + (if requested = AuqNone then 1 else 0)"

lemma auth_bound_state:
  "auth_bound U m q bc = Ok m' \<Longrightarrow> am_state m' = AusExtending bc"
  by (auto simp: auth_bound_def split: if_splits option.splits outcome.splits)

lemma auth_next_rank:
  "auth_next U m input = Ok m' \<Longrightarrow> input \<noteq> AuiNone \<Longrightarrow> auth_rank (am_state m) \<noteq> 0 \<Longrightarrow>
     auth_rank (am_state m') < auth_rank (am_state m)"
  by (cases "am_state m"; cases input)
    (auto simp: auth_next_def auth_extended_def auth_negotiated_def dest: auth_bound_state
      split: outcome.splits)

lemma auth_next_final:
  "auth_next U m input = Ok m' \<Longrightarrow> auth_rank (am_state m) = 0 \<Longrightarrow> auth_rank (am_state m') = 0"
  by (cases "am_state m"; cases input) (auto simp: auth_next_def)

lemma auth_next_none: "auth_next U m AuiNone = Ok m"
  by (cases "am_state m") (auto simp: auth_next_def)

lemma auth_out_requested:
  "auth_request_of U (auth_out m) = Inr requested \<Longrightarrow> requested \<noteq> AuqNone \<and> auth_rank (am_state m) \<noteq> 0"
  by (cases "am_state m") (auto simp: auth_out_def split: outcome.splits)

lemma auth_answer_input:
  "auth_answer U E q uri requested w = (Ok (input, uri'), w') \<Longrightarrow> input = AuiNone \<longleftrightarrow> requested = AuqNone"
  by (cases requested) (auto split: outcome.splits prod.splits)

lemma auth_measure_decreases:
  assumes "auth_answer U E q uri requested w = (Ok (input, uri'), w')"
    and "auth_advance U m input = Ok (m', out)" and "auth_request_of U out = Inr requested'"
  shows "auth_measure m' requested' < auth_measure m requested"
proof -
  have m': "auth_next U m input = Ok m'" and out: "out = auth_out m'"
    using assms(2) by (auto simp: auth_advance_def)
  have req: "requested' \<noteq> AuqNone" "auth_rank (am_state m') \<noteq> 0"
    using auth_out_requested assms(3) out by blast+
  show ?thesis
  proof (cases "input = AuiNone")
    case True
    then have "requested = AuqNone" "m' = m"
      using auth_answer_input [OF assms(1)] m' by (auto simp: auth_next_none)
    then show ?thesis using req by (simp add: auth_measure_def)
  next
    case False
    have "auth_rank (am_state m) \<noteq> 0" using auth_next_final [OF m'] req by blast
    then show ?thesis
      using auth_next_rank [OF m' False] req by (simp add: auth_measure_def)
  qed
qed

function auth_loop ::
  "'u url_lib \<Rightarrow> ('w, 'u) auth_endpoint \<Rightarrow> auth_request \<Rightarrow> 'u registered_url option \<Rightarrow> 'u auth_machine
    \<Rightarrow> 'u auth_requested \<Rightarrow> ('w, 'u pending, 'u auth_error) action" where
  "auth_loop U E request uri m requested w =
     (case auth_answer U E request uri requested w of
        (Err e, w') \<Rightarrow> (Err e, w')
      | (Panic, w') \<Rightarrow> (Panic, w')
      | (Ok (input, uri'), w') \<Rightarrow>
          (case auth_advance U m input of
             Err e \<Rightarrow> (Err e, w')
           | Panic \<Rightarrow> (Panic, w')
           | Ok (m', out) \<Rightarrow>
               (case auth_request_of U out of
                  Inl result \<Rightarrow> (result, w')
                | Inr requested' \<Rightarrow> auth_loop U E request uri' m' requested' w')))"
  by pat_completeness auto
termination
  by (relation "measure (\<lambda>(U, E, request, uri, m, requested, w). auth_measure m requested)")
    (auto intro: auth_measure_decreases [OF sym sym])

declare auth_loop.simps [simp del]

definition authorization_code ::
  "'u url_lib \<Rightarrow> ('w, 'u) auth_endpoint \<Rightarrow> auth_request \<Rightarrow> ('w, 'u pending, 'u auth_error) action" where
  "authorization_code U E request = auth_loop U E request None (auth_new U request) AuqNone"

section \<open>The answer of the owner\<close>

record 'u solicitation =
  so_grant :: "'u pre_grant"
  so_state :: "string option"

definition as_solicitation :: "'u pending \<Rightarrow> 'u solicitation" where
  "as_solicitation p = \<lparr> so_grant = pd_pre_grant p, so_state = pd_state p \<rparr>"

definition pending_deny :: "'u url_lib \<Rightarrow> 'u pending \<Rightarrow> ('u, 'u auth_error) outcome" where
  "pending_deny U p =
     bind_oc (registered_into_url U (pg_redirect_uri (pd_pre_grant p))) (\<lambda>url.
       Err (AuRedirect (error_url_new_generic U url (pd_state p) (ae_set_type ae_default AeAccessDenied))))"

definition pending_authorize ::
  "'u url_lib \<Rightarrow> ('w, 'u) auth_endpoint \<Rightarrow> time \<Rightarrow> string \<Rightarrow> 'u pending \<Rightarrow> ('w, 'u, 'u auth_error) action" where
  "pending_authorize U E now owner_id p =
     bind_ac (lift_oc (registered_to_url U (pg_redirect_uri (pd_pre_grant p)))) (\<lambda>url.
     bind_ac (lift_oc (registered_into_url U (pg_redirect_uri (pd_pre_grant p)))) (\<lambda>redirect_uri.
     bind_ac (err_ac (\<lambda>_. AuPrimitiveError)
       (az_authorize (aue_authorizer E)
          \<lparr> g_owner_id = owner_id, g_client_id = pg_client_id (pd_pre_grant p),
            g_scope = pg_scope (pd_pre_grant p), g_redirect_uri = redirect_uri,
            g_until = now + days 1, g_extensions = pd_extensions p \<rparr>)) (\<lambda>grant.
     ret (url_extend_pairs U url
       ((''code'', grant) # (case pd_state p of Some v \<Rightarrow> [(''state'', v)] | None \<Rightarrow> []))))))"

section \<open>The specification\<close>

text \<open>What the flow does, without the machine.\<close>

definition auth_params :: "'u url_lib \<Rightarrow> auth_request \<Rightarrow> client_url option" where
  "auth_params U q =
     (if \<not> aur_valid q then None
      else case (aur_client_id q, aur_redirect_uri q) of
             (Some client, None) \<Rightarrow> Some \<lparr> cu_client_id = client, cu_redirect_uri = None \<rparr>
           | (Some client, Some uri) \<Rightarrow>
               if url_parse U uri = None then None
               else Some \<lparr> cu_client_id = client, cu_redirect_uri = Some (ExactUrl uri) \<rparr>
           | _ \<Rightarrow> None)"

definition auth_requested_scope :: "auth_request \<Rightarrow> (scope option, authorization_error_type) outcome" where
  "auth_requested_scope q =
     (if aur_response_type q \<noteq> Some ''code'' then Err AeUnsupportedResponseType
      else case aur_scope q of
             None \<Rightarrow> Ok None
           | Some text \<Rightarrow> (case scope_from_str text of Ok scope \<Rightarrow> Ok (Some scope) | _ \<Rightarrow> Err AeInvalidScope))"

text \<open>Redirecting with an error of a given type, to a registered URL.\<close>

definition redirecting ::
  "'u url_lib \<Rightarrow> auth_request \<Rightarrow> 'u registered_url \<Rightarrow> authorization_error_type \<Rightarrow> ('a, 'u auth_error) outcome" where
  "redirecting U q r t = bind_oc (registered_to_url U r) (\<lambda>url. Err (AuRedirect (error_url_with_request U q url t)))"

definition code_request ::
  "'u url_lib \<Rightarrow> ('w, 'u) auth_endpoint \<Rightarrow> auth_request \<Rightarrow> ('w, 'u pending, 'u auth_error) action" where
  "code_request U E q =
     bind_ac (lift_oc (ok_or AuIgnore (auth_params U q))) (\<lambda>cu.
     bind_ac (\<lambda>w. (map_err (\<lambda>e. case e of Unspecified \<Rightarrow> AuIgnore | RegPrimitiveError \<Rightarrow> AuPrimitiveError)
                (rg_bound_redirect (aue_registrar E w) cu), w)) (\<lambda>bc.
     bind_ac (lift_oc (case auth_requested_scope q of
         Ok scope \<Rightarrow> Ok scope | Err t \<Rightarrow> redirecting U q (bc_redirect_uri bc) t | Panic \<Rightarrow> Panic)) (\<lambda>scope.
     bind_ac (\<lambda>w. case aue_extension E q w of
         (Ok exts, w') \<Rightarrow> (Ok exts, w')
       | (Err _, w') \<Rightarrow> (redirecting U q (bc_redirect_uri bc) AeInvalidRequest, w')
       | (Panic, w') \<Rightarrow> (Panic, w')) (\<lambda>exts.
     bind_ac (lift_oc (registered_to_url U (bc_redirect_uri bc))) (\<lambda>url.
     bind_ac (\<lambda>w. (map_err (\<lambda>e. case e of
            RegPrimitiveError \<Rightarrow> AuPrimitiveError
          | Unspecified \<Rightarrow> AuRedirect (error_url_with_request U q url AeInvalidScope))
         (rg_negotiate (aue_registrar E w)
           \<lparr> bc_client_id = bc_client_id bc, bc_redirect_uri = Semantic url \<rparr> scope), w)) (\<lambda>pre_grant.
     ret \<lparr> pd_pre_grant = pre_grant, pd_state = aur_state q, pd_extensions = exts \<rparr>))))))"

section \<open>The loop implements the specification\<close>

lemma auth_validate_params:
  "auth_validate U q = map_ok (\<lambda>cu. AusBinding (cu_client_id cu) (cu_redirect_uri cu))
     (ok_or AuIgnore (auth_params U q))"
  by (auto simp: auth_validate_def auth_params_def exact_from_str_def split: option.splits)

lemma auth_bound_scope:
  "auth_bound U m q bc =
     (case auth_requested_scope q of
        Ok scope \<Rightarrow> Ok (m\<lparr> am_scope := scope, am_state := AusExtending bc \<rparr>)
      | Err t \<Rightarrow> redirecting U q (bc_redirect_uri bc) t
      | Panic \<Rightarrow> Panic)"
  by (auto simp: auth_bound_def auth_requested_scope_def redirecting_def split: option.splits outcome.splits)

lemma redirecting_case:
  "redirecting U q r t =
     (case (registered_to_url U r :: ('u, 'u auth_error) outcome) of
        Ok url \<Rightarrow> Err (AuRedirect (error_url_with_request U q url t)) | _ \<Rightarrow> Panic)"
  by (auto simp: redirecting_def split: outcome.splits)

lemma redirecting_into:
  "bind_oc (registered_into_url U r) (\<lambda>url. Err (AuRedirect (error_url_with_request U q url t)))
     = redirecting U q r t"
  by (simp add: redirecting_def registered_into_url_eq)

lemma auth_loop_err:
  "am_state m = AusErr e \<Longrightarrow> auth_loop U E q uri m AuqNone w = (Err e, w)"
  by (simp add: auth_loop.simps auth_advance_def auth_next_none auth_out_def)

lemma auth_loop_negotiating:
  assumes "am_state m = AusNegotiating bc" and "am_extensions m = Some exts"
  shows "auth_loop U E q uri m (AuqNegotiate client url scope) =
     bind_ac (\<lambda>w. (map_err (\<lambda>e. case e of
            RegPrimitiveError \<Rightarrow> AuPrimitiveError
          | Unspecified \<Rightarrow> AuRedirect (error_url_with_request U q url AeInvalidScope))
         (rg_negotiate (aue_registrar E w)
           \<lparr> bc_client_id = client, bc_redirect_uri = Semantic url \<rparr> scope), w)) (\<lambda>pre_grant.
     ret \<lparr> pd_pre_grant = pre_grant, pd_state = aur_state q, pd_extensions = exts \<rparr>)"
proof
  fix w
  let ?r = "rg_negotiate (aue_registrar E w) \<lparr> bc_client_id = client, bc_redirect_uri = Semantic url \<rparr> scope"
  show "auth_loop U E q uri m (AuqNegotiate client url scope) w = bind_ac (\<lambda>w. (map_err (\<lambda>e. case e of
            RegPrimitiveError \<Rightarrow> AuPrimitiveError
          | Unspecified \<Rightarrow> AuRedirect (error_url_with_request U q url AeInvalidScope))
         (rg_negotiate (aue_registrar E w)
           \<lparr> bc_client_id = client, bc_redirect_uri = Semantic url \<rparr> scope), w)) (\<lambda>pre_grant.
     ret \<lparr> pd_pre_grant = pre_grant, pd_state = aur_state q, pd_extensions = exts \<rparr>) w"
    using assms
    by (cases ?r) (simp_all add: auth_loop.simps bind_ac_def auth_advance_def auth_next_def
        auth_negotiated_def auth_out_def)
qed

lemma auth_loop_extending:
  assumes "am_state m = AusExtending bc"
  shows "auth_loop U E q (Some (bc_redirect_uri bc)) m AuqExtend =
     bind_ac (\<lambda>w. case aue_extension E q w of
         (Ok exts, w') \<Rightarrow> (Ok exts, w')
       | (Err _, w') \<Rightarrow> (redirecting U q (bc_redirect_uri bc) AeInvalidRequest, w')
       | (Panic, w') \<Rightarrow> (Panic, w')) (\<lambda>exts.
     bind_ac (lift_oc (registered_to_url U (bc_redirect_uri bc))) (\<lambda>url.
     auth_loop U E q (Some (bc_redirect_uri bc)) (auth_extended m exts bc)
       (AuqNegotiate (bc_client_id bc) url (am_scope m))))"
  using assms
  by (intro ext)
    (auto simp: auth_loop.simps [of _ _ _ _ m] bind_ac_def auth_advance_def auth_next_def auth_out_def
      auth_extended_def redirecting_into redirecting_case split: outcome.splits prod.splits)

lemma auth_loop_binding:
  assumes "am_state m = AusBinding (cu_client_id cu) (cu_redirect_uri cu)"
  shows "auth_loop U E q uri m (AuqBind (cu_client_id cu) (cu_redirect_uri cu)) =
     bind_ac (\<lambda>w. (map_err (\<lambda>e. case e of Unspecified \<Rightarrow> AuIgnore | RegPrimitiveError \<Rightarrow> AuPrimitiveError)
                (rg_bound_redirect (aue_registrar E w) cu), w)) (\<lambda>bc.
     bind_ac (lift_oc (case auth_requested_scope q of
         Ok scope \<Rightarrow> Ok scope | Err t \<Rightarrow> redirecting U q (bc_redirect_uri bc) t | Panic \<Rightarrow> Panic)) (\<lambda>scope.
     auth_loop U E q (Some (bc_redirect_uri bc)) (m\<lparr> am_scope := scope, am_state := AusExtending bc \<rparr>) AuqExtend))"
proof -
  have cu: "\<lparr> cu_client_id = cu_client_id cu, cu_redirect_uri = cu_redirect_uri cu \<rparr> = cu" by simp
  show ?thesis
    using assms
    by (intro ext)
      (auto simp: auth_loop.simps [of _ _ _ _ m] bind_ac_def auth_advance_def auth_next_def auth_out_def
        auth_bound_scope redirecting_case cu map_ok_Err_iff simp del: client_url.surjective
        split: outcome.splits prod.splits)
qed

lemma auth_loop_start:
  assumes "am_state m = AusBinding client uri"
  shows "auth_loop U E q None m AuqNone = auth_loop U E q None m (AuqBind client uri)"
  using assms
  by (intro ext) (simp add: auth_loop.simps [of _ _ _ _ m AuqNone] auth_advance_def auth_next_none auth_out_def)

lemma authorization_code_request: "authorization_code U E q w = code_request U E q w"
proof (cases "auth_params U q")
  case None
  then show ?thesis
    by (simp add: authorization_code_def auth_new_def auth_validate_params auth_unwrap_def auth_loop_err
        code_request_def bind_ac_step(2))
next
  case (Some cu)
  let ?m = "auth_new U q"
  have m: "am_state ?m = AusBinding (cu_client_id cu) (cu_redirect_uri cu)"
    using Some by (simp add: auth_new_def auth_validate_params auth_unwrap_def)
  show ?thesis
    using Some
    by (simp add: authorization_code_def auth_loop_start [OF m] auth_loop_binding [OF m]
        auth_loop_extending auth_loop_negotiating auth_extended_def code_request_def bind_ac_step(1))
qed

section \<open>What the flow relies on of its registrar\<close>

text \<open>The URL that a redirect URL of the request was resolved to: one registered for its client.\<close>

definition registered_target ::
  "'u url_lib \<Rightarrow> (string \<Rightarrow> 'u registered_url list option) \<Rightarrow> auth_request \<Rightarrow> 'u \<Rightarrow> bool" where
  "registered_target U registered q url \<longleftrightarrow>
     (\<exists>client urls r. aur_client_id q = Some client \<and> registered client = Some urls \<and> r \<in> set urls \<and>
        registered_to_url U r = (Ok url :: ('u, 'u auth_error) outcome) \<and>
        (case aur_redirect_uri q of
           None \<Rightarrow> True
         | Some text \<Rightarrow> registered_eq_exact U r (ExactUrl text) = (Ok True :: (bool, registrar_error) outcome)))"

lemma auth_params_Some:
  "auth_params U q = Some cu \<longleftrightarrow>
     aur_valid q \<and> aur_client_id q = Some (cu_client_id cu) \<and>
     cu_redirect_uri cu = map_option ExactUrl (aur_redirect_uri q) \<and>
     (case aur_redirect_uri q of None \<Rightarrow> True | Some text \<Rightarrow> url_parse U text \<noteq> None)"
  by (cases cu) (auto simp: auth_params_def split: option.splits)

lemma redirecting_not_Ok [simp]: "redirecting U q r t \<noteq> Ok x"
  by (simp add: redirecting_def)

lemma bind_error_not_redirect [simp]:
  "(case e of Unspecified \<Rightarrow> AuIgnore | RegPrimitiveError \<Rightarrow> AuPrimitiveError) \<noteq> AuRedirect x"
  "AuRedirect x \<noteq> (case e of Unspecified \<Rightarrow> AuIgnore | RegPrimitiveError \<Rightarrow> AuPrimitiveError)"
  by (cases e; simp)+

lemma negotiate_error_redirect [simp]:
  "AuRedirect e = (case d of Unspecified \<Rightarrow> AuRedirect x | RegPrimitiveError \<Rightarrow> AuPrimitiveError)
     \<longleftrightarrow> d = Unspecified \<and> x = e"
  by (cases d) auto

lemma scope_step_Ok [simp]:
  "(case s of Ok scope \<Rightarrow> Ok scope | Err t \<Rightarrow> redirecting U q r t | Panic \<Rightarrow> Panic) = Ok scope \<longleftrightarrow> s = Ok scope"
  by (cases s) auto

lemma extension_step_Ok [simp]:
  "(case x of (Ok exts, w') \<Rightarrow> (Ok exts, w') | (Err _, w') \<Rightarrow> (redirecting U q r t, w')
      | (Panic, w') \<Rightarrow> (Panic, w')) = (Ok exts, w') \<longleftrightarrow> x = (Ok exts, w')"
  by (cases x; cases "fst x") auto

locale authorization_server =
  fixes U :: "'u url_lib"
    and E :: "('w, 'u) auth_endpoint"
    and registered :: "'w \<Rightarrow> string \<Rightarrow> 'u registered_url list option"
  assumes registrars: "redirect_registrar U (aue_registrar E w) (registered w)"
begin

lemma bound_target:
  assumes "auth_params U q = Some cu" and "rg_bound_redirect (aue_registrar E w) cu = Ok bc"
    and "registered_to_url U (bc_redirect_uri bc) = (Ok url :: ('u, 'u auth_error) outcome)"
  shows "bc_client_id bc = cu_client_id cu \<and> registered_target U (registered w) q url"
proof -
  note reg = redirect_registrar.bound_registered [OF registrars assms(2)]
    and match = redirect_registrar.bound_matches [OF registrars assms(2)]
  show ?thesis
    using assms(1,3) reg match unfolding registered_target_def auth_params_Some
    by (auto split: option.splits)
qed

lemma request_redirect:
  assumes "code_request U E q w = (Err (AuRedirect e), w')"
  shows "\<exists>url t. registered_target U (registered w) q url \<and> e = error_url_with_request U q url t \<and>
    t \<in> {AeUnsupportedResponseType, AeInvalidScope, AeInvalidRequest}"
proof -
  from assms obtain cu bc where cu: "auth_params U q = Some cu"
    and bc: "rg_bound_redirect (aue_registrar E w) cu = Ok bc"
    by (auto simp: code_request_def bind_ac_def map_err_Err_iff ok_or_Ok_iff
        split: outcome.splits prod.splits option.splits elim!: ok_or.elims)
  obtain url t where "registered_to_url U (bc_redirect_uri bc) = (Ok url :: ('u, 'u auth_error) outcome)"
    and "e = error_url_with_request U q url t"
    and "t \<in> {AeUnsupportedResponseType, AeInvalidScope, AeInvalidRequest}"
    using assms cu bc
    by (auto simp: code_request_def bind_ac_def map_err_Err_iff redirecting_case auth_requested_scope_def
        split: outcome.splits prod.splits option.splits if_splits)
  then show ?thesis using bound_target [OF cu bc] by blast
qed

lemma request_pending:
  assumes "code_request U E q w = (Ok p, w')"
  shows "\<exists>url client. registered_target U (registered w) q url \<and> aur_client_id q = Some client \<and>
    pg_client_id (pd_pre_grant p) = client \<and> pg_redirect_uri (pd_pre_grant p) = Semantic url \<and>
    pd_state p = aur_state q \<and> aur_response_type q = Some ''code''"
proof -
  obtain cu bc url scope w1 where cu: "auth_params U q = Some cu"
    and bc: "rg_bound_redirect (aue_registrar E w) cu = Ok bc"
    and url: "registered_to_url U (bc_redirect_uri bc) = (Ok url :: ('u, 'u auth_error) outcome)"
    and neg: "rg_negotiate (aue_registrar E w1)
       \<lparr> bc_client_id = bc_client_id bc, bc_redirect_uri = Semantic url \<rparr> scope = Ok (pd_pre_grant p)"
    and rest: "pd_state p = aur_state q" "auth_requested_scope q = Ok scope"
    using assms
    by (auto simp: code_request_def bind_ac_Ok_iff)
  show ?thesis
    using bound_target [OF cu bc url] redirect_registrar.negotiate_keeps [OF registrars neg] rest cu
    by (auto simp: auth_params_Some auth_requested_scope_def split: if_splits)
qed

end

interpretation cm_server: authorization_server U
  "E\<lparr> aue_registrar := \<lambda>w. client_map_registrar U A (clients w) \<rparr>" "\<lambda>w. cm_registered (clients w)"
  for U E A clients
  by (rule authorization_server.intro) (simp add: cm.redirect_registrar_axioms)

section \<open>Properties\<close>

text \<open>
  C7: the executor loop over the machine terminates and computes the straight-line specification of
  an authorization request, on every request, endpoint and outcome; in particular the \<open>expect\<close> on the
  extensions and the \<open>unwrap\<close> of the redirect URL in the executor never fail.
\<close>

theorem authorization_implements_request:
  "authorization_code U E q w = code_request U E q w"
  by (rule authorization_code_request)

text \<open>
  C8: no open redirect. With the client map as registrar, whatever the request says and whatever the
  extensions do, the user agent is only ever sent to a URL registered for the client the request
  names, and matching the URL the request asked for: the target of an error redirect is that URL with
  the request's state and one of three error codes appended, and the pending request that goes to the
  owner carries exactly that URL, the named client and the state.
\<close>

theorem redirects_only_to_registered:
  assumes "aue_registrar E = (\<lambda>w. client_map_registrar U A (clients w))"
    and "authorization_code U E q w = (result, w')"
  shows "case result of
      Ok p \<Rightarrow> \<exists>url. registered_target U (cm_registered (clients w)) q url \<and>
               aur_client_id q = Some (pg_client_id (pd_pre_grant p)) \<and>
               pg_redirect_uri (pd_pre_grant p) = Semantic url \<and> pd_state p = aur_state q \<and>
               aur_response_type q = Some ''code''
    | Err (AuRedirect e) \<Rightarrow> \<exists>url t. registered_target U (cm_registered (clients w)) q url \<and>
               t \<in> {AeUnsupportedResponseType, AeInvalidScope, AeInvalidRequest} \<and>
               error_url_into U e =
                 url_extend_pairs U
                   (url_extend_pairs U url (case aur_state q of Some st \<Rightarrow> [(''state'', st)] | None \<Rightarrow> []))
                   [(''error'', ae_type_description t)]
    | _ \<Rightarrow> True"
proof -
  have E: "E\<lparr> aue_registrar := \<lambda>w. client_map_registrar U A (clients w) \<rparr> = E"
    using assms(1) by (cases E) simp
  note red = cm_server.request_redirect [where U = U and E = E and A = A and clients = clients and q = q and w = w and w' = w', unfolded E]
    and pend = cm_server.request_pending [where U = U and E = E and A = A and clients = clients and q = q and w = w and w' = w', unfolded E]
  show ?thesis
  proof (cases result)
    case (Ok p)
    then show ?thesis using pend [of p] assms(2) by (auto simp: authorization_code_request)
  next
    case (Err x)
    show ?thesis
    proof (cases x)
      case (AuRedirect e)
      then obtain url t where "registered_target U (cm_registered (clients w)) q url"
        "e = error_url_with_request U q url t"
        "t \<in> {AeUnsupportedResponseType, AeInvalidScope, AeInvalidRequest}"
        using red [of e] assms(2) Err by (auto simp: authorization_code_request)
      then show ?thesis
        unfolding Err AuRedirect
        by (auto simp: error_url_into_def error_url_with_request_def error_url_new_def
            error_url_new_generic_def ae_into_iter_def ae_set_type_def ae_default_def)
    qed (use Err in simp_all)
  qed simp
qed

text \<open>A small endpoint for concrete runs: the codes are its state.\<close>

definition example_auth_endpoint :: "(string \<rightharpoonup> string grant, string) auth_endpoint" where
  "example_auth_endpoint = \<lparr>
     aue_registrar = (\<lambda>w. client_map_registrar url_identity spell_argon2 example_client_map),
     aue_authorizer = \<lparr> az_authorize = (\<lambda>g w. (Ok ''code'', w(''code'' \<mapsto> g))),
                        az_extract = (\<lambda>c w. (Ok (w c), w(c := None))) \<rparr>,
     aue_extension = auth_no_extension,
     aue_issuer = \<lparr> is_issue = (\<lambda>now g w. (Ok (without_refresh ''token'' (g_until g)), w)),
                    is_refresh = (\<lambda>now f g. fail ()),
                    is_recover_token = (\<lambda>t. ret None), is_recover_refresh = (\<lambda>t. ret None) \<rparr> \<rparr>"

definition example_auth_request :: auth_request where
  "example_auth_request = \<lparr> aur_valid = True, aur_client_id = Some ''c'', aur_scope = Some ''read'',
     aur_redirect_uri = Some ''https://b/'', aur_state = Some ''xyz'', aur_response_type = Some ''code'',
     aur_extension = (\<lambda>k. None), aur_user_id = None \<rparr>"

lemma example_auth_redirect:
  "authorization_code url_identity example_auth_endpoint (example_auth_request\<lparr> aur_response_type := None \<rparr>) w
   = (Err (AuRedirect \<lparr> eu_base_uri = ''https://b/&state=xyz'',
        eu_error = ae_set_type ae_default AeUnsupportedResponseType \<rparr>), w)"
  by (simp add: authorization_code_request code_request_def bind_ac_def auth_params_def
      example_auth_request_def example_auth_endpoint_def url_identity_def client_map_registrar_def
      cm_bound_redirect_def example_client_map_def registered_eq_exact_def exact_to_url_def
      auth_requested_scope_def redirecting_def registered_to_url_def error_url_with_request_def
      error_url_new_def error_url_new_generic_def)

theorem redirects_only_to_registered_witness:
  "\<exists>url. registered_target url_identity (cm_registered example_client_map)
      (example_auth_request\<lparr> aur_response_type := None \<rparr>) url"
  using redirects_only_to_registered [where U = url_identity and A = spell_argon2
      and clients = "\<lambda>_. example_client_map", OF _ example_auth_redirect]
  by (auto simp: example_auth_endpoint_def)

text \<open>
  Requests that could be an impersonation are dropped. If the named client is unknown, or the
  requested redirect URL does not parse or is equal to none of the client's registered URLs, the
  request is ignored: no redirect, no error page for a third party, no change of the endpoint.
\<close>

lemma unregistered_request_ignored:
  assumes "aue_registrar E = (\<lambda>w. client_map_registrar U A (clients w))"
    and "\<not> (\<exists>client c. aur_client_id q = Some client \<and> cm_clients (clients w) client = Some c \<and>
        (case aur_redirect_uri q of None \<Rightarrow> True
         | Some uri \<Rightarrow> url_parse U uri \<noteq> None \<and>
             (\<exists>r \<in> set (ec_redirect_uri c # ec_additional_redirect_uris c).
                registered_eq_exact U r (ExactUrl uri) = (Ok True :: (bool, registrar_error) outcome))))"
  shows "authorization_code U E q w = (Err AuIgnore, w)"
proof (cases "auth_params U q")
  case None
  then show ?thesis by (simp add: authorization_code_request code_request_def bind_ac_step(2))
next
  case (Some cu)
  then have cu: "aur_client_id q = Some (cu_client_id cu)"
      "cu_redirect_uri cu = map_option ExactUrl (aur_redirect_uri q)"
      "case aur_redirect_uri q of None \<Rightarrow> True | Some uri \<Rightarrow> url_parse U uri \<noteq> None"
    by (simp_all add: auth_params_Some)
  have "cm_bound_redirect U (clients w) cu = Err Unspecified"
  proof (cases "cm_clients (clients w) (cu_client_id cu)")
    case (Some c)
    then obtain uri where uri: "aur_redirect_uri q = Some uri" "url_parse U uri \<noteq> None"
      using assms(2) cu by (auto split: option.splits)
    let ?rs = "ec_redirect_uri c # ec_additional_redirect_uris c"
    have "find_registered U ?rs (ExactUrl uri) = (Ok None :: (_, registrar_error) outcome)"
    proof (cases "find_registered U ?rs (ExactUrl uri) :: (_, registrar_error) outcome")
      case (Ok found)
      then show ?thesis
      proof (cases found)
        fix r assume "found = Some r"
        then have False using Ok find_registered_Some [of U ?rs "ExactUrl uri" r] assms(2) cu(1) Some uri
          by auto
        then show ?thesis ..
      qed simp
    next
      case Panic
      then show ?thesis
        using find_registered_no_panic [of U "ExactUrl uri" ?rs] uri by (auto simp: exact_valid_def)
    next
      case (Err x)
      then show ?thesis using find_registered_not_Err [of U ?rs "ExactUrl uri" x] by simp
    qed
    then show ?thesis
      using Some cu(2) uri by (simp add: cm_bound_redirect_def del: find_registered.simps)
  qed (simp add: cm_bound_redirect_def)
  then show ?thesis
    using Some assms(1)
    by (simp add: authorization_code_request code_request_def bind_ac_def client_map_registrar_def)
qed

text \<open>The pending request of a client map: the client, a registered target, the default scope and the
  extensions of the request.\<close>

lemma client_map_pending:
  assumes "aue_registrar E = (\<lambda>w. client_map_registrar U A clients)"
    and "authorization_code U E q w = (Ok p, w')"
  obtains client c url where "aur_client_id q = Some client" "cm_clients clients client = Some c"
    "registered_target U (cm_registered clients) q url"
    "pd_pre_grant p = \<lparr> pg_client_id = client, pg_redirect_uri = Semantic url, pg_scope = ec_default_scope c \<rparr>"
    "pd_state p = aur_state q" "aue_extension E q w = (Ok (pd_extensions p), w')"
proof -
  have E: "E\<lparr> aue_registrar := \<lambda>w. client_map_registrar U A clients \<rparr> = E"
    using assms(1) by (cases E) simp
  obtain url client where target: "registered_target U (cm_registered clients) q url"
    and client: "aur_client_id q = Some client" "pg_client_id (pd_pre_grant p) = client"
      "pg_redirect_uri (pd_pre_grant p) = Semantic url" "pd_state p = aur_state q"
    using cm_server.request_pending [where U = U and E = E and A = A and clients = "\<lambda>_. clients" and q = q and w = w
        and w' = w' and p = p, unfolded E] assms(2)
    by (auto simp: authorization_code_request)
  have ext: "aue_extension E q w = (Ok (pd_extensions p), w')"
    using assms(2) by (auto simp: authorization_code_request code_request_def bind_ac_Ok_iff)
  obtain bc scope where "cm_negotiate clients bc scope = (Ok (pd_pre_grant p) :: (_, registrar_error) outcome)"
    using assms by (auto simp: authorization_code_request code_request_def bind_ac_Ok_iff client_map_registrar_def)
  then obtain c where "cm_clients clients client = Some c" "pg_scope (pd_pre_grant p) = ec_default_scope c"
    using client(2) by (auto simp: cm_negotiate_def bind_oc_Ok_iff dest!: sym [of _ "pd_pre_grant p"])
  then show thesis
    using that [OF client(1) _ target _ client(4) ext] client(2,3) by (cases "pd_pre_grant p") simp
qed

text \<open>
  C10: consent, from the request to the store. Let the client map be the registrar and \<open>AuthMap\<close> the
  authorizer, let a request succeed and the owner consent. Then the request names a registered client,
  and the only grant that can enter the store is the negotiated one: for that owner and that client, with
  the default scope of the client, a registered URL that matches the request, the extensions of the
  request and one day to live. If the answer is a redirect, the grant is stored under a code that was not
  outstanding, every other code is as before, and the user agent is sent to that URL with that code and
  the state of the request; in every other case at most that grant has been stored, whatever errors the
  store reports. Had the owner denied, the user agent would be sent to the same URL with \<open>access_denied\<close>.
\<close>

theorem consent_grants_negotiated:
  assumes "redis_store R hash num healthy" and "codec_ok C"
    and "aue_registrar E = (\<lambda>w. client_map_registrar U A clients)"
    and "aue_authorizer E = auth_map_authorizer R C tag checks"
    and "authorization_code U E q w = (Ok p, w1)"
    and "pending_authorize U E now owner p w1 = (answer, w2)"
  shows "\<exists>client c url exts g.
    aur_client_id q = Some client \<and> cm_clients clients client = Some c \<and>
    registered_target U (cm_registered clients) q url \<and> aue_extension E q w = (Ok exts, w1) \<and>
    g = \<lparr> g_owner_id = owner, g_client_id = client, g_scope = ec_default_scope c, g_redirect_uri = url,
          g_until = now + 86400000000000, g_extensions = exts \<rparr> \<and>
    (case answer of
       Ok target \<Rightarrow> \<exists>code. auth_codes hash C w1 code = None \<and>
         auth_codes hash C w2 = (auth_codes hash C w1)(code \<mapsto> g) \<and>
         target = url_extend_pairs U url
           ((''code'', code) # (case aur_state q of Some v \<Rightarrow> [(''state'', v)] | None \<Rightarrow> []))
     | _ \<Rightarrow> auth_codes hash C w2 = auth_codes hash C w1 \<or>
         (\<exists>code. auth_codes hash C w2 = (auth_codes hash C w1)(code \<mapsto> g))) \<and>
    (\<exists>e. pending_deny U p = Err (AuRedirect e) \<and> error_url_into U e = url_extend_pairs U
      (url_extend_pairs U url (case aur_state q of Some v \<Rightarrow> [(''state'', v)] | None \<Rightarrow> []))
      [(''error'', ''access_denied'')])"
proof -
  note az = auth_map_is_authorizer [OF assms(1,2)]
  obtain client c url where q: "aur_client_id q = Some client" "cm_clients clients client = Some c"
      "registered_target U (cm_registered clients) q url"
    and p: "pd_pre_grant p = \<lparr> pg_client_id = client, pg_redirect_uri = Semantic url, pg_scope = ec_default_scope c \<rparr>"
      "pd_state p = aur_state q" and ext: "aue_extension E q w = (Ok (pd_extensions p), w1)"
    by (rule client_map_pending [OF assms(3,5)])
  let ?g = "\<lparr> g_owner_id = owner, g_client_id = client, g_scope = ec_default_scope c, g_redirect_uri = url,
    g_until = now + 86400000000000, g_extensions = pd_extensions p \<rparr>"
  obtain x w3 where run: "az_authorize (auth_map_authorizer R C tag checks) ?g w1 = (x, w3)"
    by (meson surj_pair)
  have answer: "w2 = w3 \<and> answer = (case x of
      Ok code \<Rightarrow> Ok (url_extend_pairs U url
        ((''code'', code) # (case aur_state q of Some v \<Rightarrow> [(''state'', v)] | None \<Rightarrow> [])))
    | Err _ \<Rightarrow> Err AuPrimitiveError | Panic \<Rightarrow> Panic)"
    using assms(6) run
    by (auto simp: pending_authorize_def p assms(4) registered_to_url_def registered_into_url_eq bind_ac_def err_ac_def
        days_def seconds_def split: outcome.splits)
  have stored: "case answer of
       Ok target \<Rightarrow> \<exists>code. auth_codes hash C w1 code = None \<and>
         auth_codes hash C w2 = (auth_codes hash C w1)(code \<mapsto> ?g) \<and>
         target = url_extend_pairs U url
           ((''code'', code) # (case aur_state q of Some v \<Rightarrow> [(''state'', v)] | None \<Rightarrow> []))
     | _ \<Rightarrow> auth_codes hash C w2 = auth_codes hash C w1 \<or>
         (\<exists>code. auth_codes hash C w2 = (auth_codes hash C w1)(code \<mapsto> ?g))"
    using answer authorizer.authorize_Ok [OF az, of tag checks ?g w1 _ w3] authorizer.authorize_fail [OF az run]
    by (cases x) (auto simp: run)
  have deny: "\<exists>e. pending_deny U p = Err (AuRedirect e) \<and> error_url_into U e = url_extend_pairs U
      (url_extend_pairs U url (case aur_state q of Some v \<Rightarrow> [(''state'', v)] | None \<Rightarrow> []))
      [(''error'', ''access_denied'')]"
    by (simp add: pending_deny_def p registered_into_url_eq registered_to_url_def error_url_new_generic_def
        error_url_into_def ae_into_iter_def ae_set_type_def ae_default_def)
  show ?thesis
    using q ext stored deny by blast
qed

text \<open>The request of the example over the executable store.\<close>

definition example_code_endpoint :: "((unit, string) auth_map \<times> mem_redis, string) auth_endpoint" where
  "example_code_endpoint = \<lparr>
     aue_registrar = (\<lambda>w. client_map_registrar url_identity spell_argon2 example_client_map),
     aue_authorizer = auth_map_authorizer mem_ops grant_codec unary_tagger True,
     aue_extension = auth_no_extension,
     aue_issuer = \<lparr> is_issue = (\<lambda>now g. fail ()), is_refresh = (\<lambda>now f g. fail ()),
                    is_recover_token = (\<lambda>t. ret None), is_recover_refresh = (\<lambda>t. ret None) \<rparr> \<rparr>"

definition example_pending :: "string pending" where
  "example_pending = \<lparr> pd_pre_grant = \<lparr> pg_client_id = ''c'', pg_redirect_uri = Semantic ''https://b/'',
       pg_scope = \<lparr> tokens = {|''read''|} \<rparr> \<rparr>,
     pd_state = Some ''xyz'', pd_extensions = extensions_new \<rparr>"

theorem consent_grants_negotiated_witness:
  "\<exists>p code g s. authorization_code url_identity example_code_endpoint example_auth_request example_auth_state
      = (Ok p, example_auth_state) \<and>
    pending_authorize url_identity example_code_endpoint 0 ''owner'' p example_auth_state
      = (Ok ''https://b/&code=t&state=xyz'', s) \<and>
    auth_codes mr_hash grant_codec s = [code \<mapsto> g] \<and> g_owner_id g = ''owner'' \<and> g_client_id g = ''c'' \<and>
    g_scope g = \<lparr> tokens = {|''read''|} \<rparr> \<and> g_until g = days 1"
proof -
  let ?E = example_code_endpoint and ?s = example_auth_state
    and ?m = "(auth_map_new () :: (unit, string) auth_map)\<lparr> am_tagger := () \<rparr>"
  let ?g = "\<lparr> g_owner_id = ''owner'', g_client_id = ''c'', g_scope = \<lparr> tokens = {|''read''|} \<rparr>,
    g_redirect_uri = ''https://b/'', g_until = days 1, g_extensions = extensions_new \<rparr> :: string grant"
  have scope: "scope_from_str ''read'' = Ok \<lparr> tokens = {|''read''|} \<rparr>"
    by code_simp
  have asked: "authorization_code url_identity ?E example_auth_request ?s = (Ok example_pending, ?s)"
    by (simp add: authorization_code_request code_request_def bind_ac_def auth_params_def
      example_auth_request_def example_code_endpoint_def url_identity_def client_map_registrar_def
      cm_bound_redirect_def cm_negotiate_def example_client_map_def registered_eq_exact_def exact_to_url_def
      auth_requested_scope_def scope registered_to_url_def auth_no_extension_def ret_def example_pending_def)
  have empty: "mr_num mem_empty k = None" "mr_hash mem_empty k f = None" for k f
    by (simp_all add: mem_empty_def)
  have tag: "unary_tagger 0 ?g () = (Ok ''t'', ())"
    by (simp add: unary_tagger_def)
  obtain v r where stored: "authorize mem_ops grant_codec unary_tagger True ?g ?s
      = (Ok ''t'', (?m, r))"
    unfolding example_auth_state_def
    by (rule redis_store.authorize_up [OF mem_redis_store mem_healthy_empty grant_codec_ok refl _ _ empty(2),
          where tag = unary_tagger and m = "auth_map_new ()" and checks = True and g = ?g and c = "''t''"])
      (simp_all add: empty(1) tag)
  have granted: "pending_authorize url_identity ?E 0 ''owner'' example_pending ?s
      = (Ok ''https://b/&code=t&state=xyz'', (?m, r))"
    using stored by (simp add: pending_authorize_def example_pending_def example_code_endpoint_def
        auth_map_authorizer_def registered_to_url_def registered_into_url_eq bind_ac_def err_ac_def url_identity_def)
  have parts: "aue_registrar ?E = (\<lambda>w. client_map_registrar url_identity spell_argon2 example_client_map)"
    "aue_authorizer ?E = auth_map_authorizer mem_ops grant_codec unary_tagger True"
    by (simp_all add: example_code_endpoint_def)
  have none: "auth_codes mr_hash grant_codec ?s = Map.empty"
    by (simp add: auth_codes_def example_auth_state_def mem_empty_def fun_eq_iff)
  from consent_grants_negotiated [OF mem_redis_store grant_codec_ok parts asked granted] none
  obtain client c url code where grant: "cm_clients example_client_map client = Some c"
    "aur_client_id example_auth_request = Some client"
    "auth_codes mr_hash grant_codec (?m, r) = [code \<mapsto>
      \<lparr> g_owner_id = ''owner'', g_client_id = client, g_scope = ec_default_scope c, g_redirect_uri = url,
        g_until = 0 + 86400000000000, g_extensions = extensions_new \<rparr>]"
    by (auto simp: example_code_endpoint_def auth_no_extension_def ret_def)
  have "client = ''c''" "ec_default_scope c = \<lparr> tokens = {|''read''|} \<rparr>"
    using grant(1,2) by (auto simp: example_client_map_def example_auth_request_def split: if_splits)
  then have "auth_codes mr_hash grant_codec (?m, r) = [code \<mapsto> ?g\<lparr> g_redirect_uri := url \<rparr>]"
    using grant(3) by (simp add: days_def seconds_def)
  moreover have "g_owner_id (?g\<lparr> g_redirect_uri := url \<rparr>) = ''owner'' \<and> g_client_id (?g\<lparr> g_redirect_uri := url \<rparr>) = ''c'' \<and>
      g_scope (?g\<lparr> g_redirect_uri := url \<rparr>) = \<lparr> tokens = {|''read''|} \<rparr> \<and> g_until (?g\<lparr> g_redirect_uri := url \<rparr>) = days 1"
    by simp
  ultimately show ?thesis
    using asked granted by blast
qed

end
