(* ===== verification/Token_Grant.thy ===== *)
theory Token_Grant
  imports Access_Token Authorization
begin

text \<open>
  The implicit flow (\<open>oxide-auth/src/token_grant/authorization.rs\<close>): \<open>authorization_token\<close> turns an
  authorization request directly into an access token. The properties say what a token of this flow
  stands for, and that unregistered clients and URLs get none.
\<close>

section \<open>The flow\<close>

text \<open>\<open>str::replace\<close> with a nonempty pattern: non-overlapping matches from left to right.\<close>

function str_replace :: "string \<Rightarrow> string \<Rightarrow> string \<Rightarrow> string" where
  "str_replace pat new [] = []"
| "str_replace pat new (c # cs) =
     (if pat \<noteq> [] \<and> starts_with (c # cs) pat then new @ str_replace pat new (drop (length pat) (c # cs))
      else c # str_replace pat new cs)"
  by pat_completeness auto
termination
  by (relation "measure (\<lambda>(pat, new, s). length s)") auto

text \<open>The requested scope, with the escaped spaces the query parser left in place.\<close>

definition token_scope :: "auth_request \<Rightarrow> (scope option, 'u at_error) outcome" where
  "token_scope request =
     (case map_option (\<lambda>scope. scope_from_str (str_replace ''%20'' '' '' scope)) (aur_scope request) of
        None \<Rightarrow> Ok None
      | Some (Ok scope) \<Rightarrow> Ok (Some scope)
      | Some _ \<Rightarrow> Err (at_invalid_with TeInvalidScope))"

text \<open>\<open>now\<close> is the time of the grant, \<open>inow\<close> the time at which the issuer reads the clock.\<close>

definition authorization_token ::
  "'u url_lib \<Rightarrow> (string fset \<Rightarrow> string list) \<Rightarrow> ('w, 'u) auth_endpoint \<Rightarrow> auth_request \<Rightarrow> time \<Rightarrow> time
    \<Rightarrow> ('w, bearer_token, 'u at_error) action" where
  "authorization_token U it E request now inow =
     bind_ac (lift_oc (ok_or (at_invalid_with TeInvalidRequest) (aur_client_id request))) (\<lambda>client_id.
     bind_ac (lift_oc (case aur_redirect_uri request of
         None \<Rightarrow> Ok None
       | Some uri \<Rightarrow> map_ok Some (map_err (\<lambda>_. at_invalid_with TeInvalidRequest) (exact_from_str U uri))))
       (\<lambda>redirect_uri.
     bind_ac (\<lambda>w. (map_err (\<lambda>e. case e of
             Unspecified \<Rightarrow> at_invalid_with TeUnauthorizedClient
           | RegPrimitiveError \<Rightarrow> at_invalid_with TeUnauthorizedClient)
         (rg_bound_redirect (aue_registrar E w)
           \<lparr> cu_client_id = client_id, cu_redirect_uri = redirect_uri \<rparr>), w)) (\<lambda>bound_client.
     bind_ac (lift_oc (token_scope request)) (\<lambda>scope.
     bind_ac (\<lambda>w. (map_err (\<lambda>e. case e of
             RegPrimitiveError \<Rightarrow> at_invalid_with TeInvalidGrant
           | Unspecified \<Rightarrow> at_invalid_with TeInvalidRequest)
         (rg_negotiate (aue_registrar E w) bound_client scope), w)) (\<lambda>pre_grant.
     bind_ac (lift_oc (registered_into_url U (pg_redirect_uri pre_grant))) (\<lambda>url.
     let grant = \<lparr> g_owner_id = (case aur_user_id request of Some u \<Rightarrow> u | None \<Rightarrow> []),
                   g_client_id = pg_client_id pre_grant, g_scope = pg_scope pre_grant,
                   g_redirect_uri = url, g_until = now + seconds 3600, g_extensions = extensions_new \<rparr> in
     bind_ac (err_ac (\<lambda>_. at_invalid_with TeServerError) (is_issue (aue_issuer E) inow grant)) (\<lambda>token.
     ret (BearerToken (without_refresh (it_token token) (it_until token))
            (scope_to_string it (g_scope grant))))))))))"

section \<open>Properties\<close>

lemma exact_arg_Ok:
  "(case x of None \<Rightarrow> Ok None | Some uri \<Rightarrow> map_ok Some (map_err f (exact_from_str U uri))) = Ok r \<longleftrightarrow>
     r = map_option ExactUrl x \<and> (case x of None \<Rightarrow> True | Some uri \<Rightarrow> url_parse U uri \<noteq> None)"
  by (auto simp: exact_from_str_def split: option.splits)

lemma authorization_token_Ok:
  assumes "authorization_token U it E q now inow w = (Ok (BearerToken t s), w')"
  shows "\<exists>client scope bc pg url t0.
    aur_client_id q = Some client \<and>
    rg_bound_redirect (aue_registrar E w)
      \<lparr> cu_client_id = client, cu_redirect_uri = map_option ExactUrl (aur_redirect_uri q) \<rparr> = Ok bc \<and>
    rg_negotiate (aue_registrar E w) bc scope = Ok pg \<and>
    registered_to_url U (pg_redirect_uri pg) = (Ok url :: ('u, 'u auth_error) outcome) \<and>
    is_issue (aue_issuer E) inow
      \<lparr> g_owner_id = (case aur_user_id q of Some u \<Rightarrow> u | None \<Rightarrow> []), g_client_id = pg_client_id pg,
        g_scope = pg_scope pg, g_redirect_uri = url, g_until = now + 3600000000000,
        g_extensions = extensions_new \<rparr> w = (Ok t0, w') \<and>
    t = without_refresh (it_token t0) (it_until t0) \<and> s = scope_to_string it (pg_scope pg)"
proof -
  have conv: "registered_to_url U r = (Ok url :: ('u, 'u auth_error) outcome)"
    if "registered_into_url U r = (Ok url :: ('u, 'u at_error) outcome)" for r url
    using that by (auto simp: registered_into_url_def registered_to_url_def exact_to_url_def
        split: registered_url.splits)
  show ?thesis
    using assms
    by (fastforce simp: authorization_token_def bind_ac_Ok_iff exact_arg_Ok Let_def seconds_def dest: conv)
qed

text \<open>
  C38: what a token of the implicit flow stands for. With the client map as registrar: the named
  client is registered and the requested URL resolves to one of its registered URLs; the scope is the
  client's default scope, whatever scope the request asked for; the grant is valid for one hour; the
  response carries no refresh token. The owner of the grant is the \<open>user_id\<close> parameter of the request
  itself (the empty name when it has none): no owner is consulted.
\<close>

theorem implicit_token_grant:
  assumes "aue_registrar E = (\<lambda>w. client_map_registrar U A (clients w))"
    and "authorization_token U it E q now inow w = (Ok (BearerToken t s), w')"
  shows "\<exists>client c url t0.
    aur_client_id q = Some client \<and> cm_clients (clients w) client = Some c \<and>
    registered_target U (cm_registered (clients w)) q url \<and>
    is_issue (aue_issuer E) inow
      \<lparr> g_owner_id = (case aur_user_id q of Some u \<Rightarrow> u | None \<Rightarrow> []), g_client_id = client,
        g_scope = ec_default_scope c, g_redirect_uri = url, g_until = now + 3600000000000,
        g_extensions = extensions_new \<rparr> w = (Ok t0, w') \<and>
    it_token t = it_token t0 \<and> it_refresh t = None \<and> s = scope_to_string it (ec_default_scope c)"
proof -
  obtain client scope bc pg url t0 where client: "aur_client_id q = Some client"
    and bc: "rg_bound_redirect (client_map_registrar U A (clients w))
      \<lparr> cu_client_id = client, cu_redirect_uri = map_option ExactUrl (aur_redirect_uri q) \<rparr> = Ok bc"
    and pg: "rg_negotiate (client_map_registrar U A (clients w)) bc scope = Ok pg"
    and url: "registered_to_url U (pg_redirect_uri pg) = (Ok url :: ('b, 'b auth_error) outcome)"
    and rest: "is_issue (aue_issuer E) inow
      \<lparr> g_owner_id = (case aur_user_id q of Some u \<Rightarrow> u | None \<Rightarrow> []), g_client_id = pg_client_id pg,
        g_scope = pg_scope pg, g_redirect_uri = url, g_until = now + 3600000000000,
        g_extensions = extensions_new \<rparr> w = (Ok t0, w')"
      "t = without_refresh (it_token t0) (it_until t0)" "s = scope_to_string it (pg_scope pg)"
    using authorization_token_Ok [OF assms(2)] unfolding assms(1) by auto
  note keep = cm.negotiate_keeps [OF pg] and reg = cm.bound_registered [OF bc]
    and match = cm.bound_matches [OF bc]
  have "registered_target U (cm_registered (clients w)) q url"
    using client url keep reg match unfolding registered_target_def by (auto split: option.splits)
  moreover obtain c where "cm_clients (clients w) client = Some c" "pg_scope pg = ec_default_scope c"
    using reg pg by (auto simp: cm_registered_def client_map_registrar_def cm_negotiate_def)
  ultimately show ?thesis
    using client rest keep reg by (auto simp: without_refresh_def)
qed

lemma example_implicit_run:
  "authorization_token url_identity example_order example_auth_endpoint
     (example_auth_request\<lparr> aur_user_id := Some ''alice'' \<rparr>) 0 0 w
   = (Ok (BearerToken (without_refresh ''token'' 3600000000000) ''read''), w)"
proof -
  have "scope_from_str (str_replace ''%20'' '' '' ''read'') = Ok \<lparr> tokens = {|''read''|} \<rparr>"
    by code_simp
  moreover have "scope_to_string example_order \<lparr> tokens = {|''read''|} \<rparr> = ''read''"
    by code_simp
  ultimately show ?thesis
    by (simp add: authorization_token_def bind_ac_def err_ac_def
      example_auth_request_def example_auth_endpoint_def url_identity_def client_map_registrar_def
      cm_bound_redirect_def cm_negotiate_def example_client_map_def registered_eq_exact_def exact_to_url_def
      exact_from_str_def token_scope_def registered_into_url_def without_refresh_def seconds_def)
qed

theorem implicit_token_grant_witness:
  "\<exists>c url. cm_clients example_client_map ''c'' = Some c \<and>
     registered_target url_identity (cm_registered example_client_map)
       (example_auth_request\<lparr> aur_user_id := Some ''alice'' \<rparr>) url"
  using implicit_token_grant [where U = url_identity and A = spell_argon2
      and clients = "\<lambda>_. example_client_map", OF _ example_implicit_run]
  by (auto simp: example_auth_endpoint_def example_auth_request_def)

end
