(* ===== verification/Query.thy ===== *)
theory Query
  imports Prelude
begin

text \<open>
  Query parameters (\<open>oxide-auth/src/endpoint/query.rs\<close>): the trait \<open>QueryParameter\<close> and its
  implementations, the normal form and the values that are collections. The contract of the trait,
  that a key counts only if it appears once and that normalising changes no answer, is the locale
  \<open>query_parameter\<close>; every implementation is shown to provide it.
\<close>

section \<open>The normal form\<close>

text \<open>A key that appeared at least twice maps to \<open>None\<close>.\<close>

record normalized_parameter =
  np_inner :: "(string, string option) fmap"

definition np_new :: normalized_parameter where
  "np_new = \<lparr> np_inner = fmempty \<rparr>"

definition np_unique_value :: "normalized_parameter \<Rightarrow> string \<Rightarrow> string option" where
  "np_unique_value p key = Option.bind (fmlookup (np_inner p) key) (\<lambda>val. val)"

definition np_normalize :: "normalized_parameter \<Rightarrow> normalized_parameter" where
  "np_normalize p = p"

definition insert_or_poison :: "normalized_parameter \<Rightarrow> string \<Rightarrow> string \<Rightarrow> normalized_parameter" where
  "insert_or_poison p key val =
     p\<lparr> np_inner := fmupd key
          (case fmlookup (np_inner p) key of Some _ \<Rightarrow> None | None \<Rightarrow> Some val) (np_inner p) \<rparr>"

text \<open>Deserialising a sequence of pairs, each of which may fail to decode.\<close>

fun np_visit_seq ::
  "('e + string \<times> string) list \<Rightarrow> normalized_parameter \<Rightarrow> (normalized_parameter, 'e) outcome" where
  "np_visit_seq [] p = Ok p"
| "np_visit_seq (Inl e # rest) p = Err e"
| "np_visit_seq (Inr (key, val) # rest) p = np_visit_seq rest (insert_or_poison p key val)"

definition np_deserialize :: "('e + string \<times> string) list \<Rightarrow> (normalized_parameter, 'e) outcome" where
  "np_deserialize elements = np_visit_seq elements np_new"

definition np_from_iter :: "(string \<times> string) list \<Rightarrow> normalized_parameter" where
  "np_from_iter pairs = fold (\<lambda>(k, v) target. insert_or_poison target k v) pairs np_new"

section \<open>Values that may be collections\<close>

text \<open>The trait \<open>UniqueValue\<close>: a function from the value to its unique string, if it has one.\<close>

definition unique_str :: "string \<Rightarrow> string option" where
  "unique_str s = Some s"

definition unique_option :: "('v \<Rightarrow> string option) \<Rightarrow> 'v option \<Rightarrow> string option" where
  "unique_option get v = Option.bind v get"

definition unique_slice :: "('v \<Rightarrow> string option) \<Rightarrow> 'v list \<Rightarrow> string option" where
  "unique_slice get vs =
     (if length vs > 1 then None else Option.bind (case vs of [] \<Rightarrow> None | v # _ \<Rightarrow> Some v) get)"

definition unique_vec :: "('v \<Rightarrow> string option) \<Rightarrow> 'v list \<Rightarrow> string option" where
  "unique_vec get vs =
     (if length vs > 1 then None else Option.bind (case vs of [] \<Rightarrow> None | v # _ \<Rightarrow> Some v) get)"

definition unique_forward :: "('v \<Rightarrow> string option) \<Rightarrow> 'v \<Rightarrow> string option" where
  "unique_forward get v = get v"

section \<open>Hash maps and vectors of pairs\<close>

definition map_unique_value :: "('v \<Rightarrow> string option) \<Rightarrow> (string, 'v) fmap \<Rightarrow> string \<Rightarrow> string option" where
  "map_unique_value get m key = Option.bind (fmlookup m key) get"

definition map_normalize :: "('v \<Rightarrow> string option) \<Rightarrow> (string, 'v) fmap \<Rightarrow> normalized_parameter" where
  "map_normalize get m =
     \<lparr> np_inner = fmmap get (fmfilter (\<lambda>key. Option.bind (fmlookup m key) get \<noteq> None) m) \<rparr>"

fun vec_unique_loop :: "(string \<times> string) list \<Rightarrow> string \<Rightarrow> string option \<Rightarrow> string option" where
  "vec_unique_loop [] key found = found"
| "vec_unique_loop ((k, v) # rest) key found =
     (if k = key then (if found \<noteq> None then None else vec_unique_loop rest key (Some v))
      else vec_unique_loop rest key found)"

definition vec_unique_value :: "(string \<times> string) list \<Rightarrow> string \<Rightarrow> string option" where
  "vec_unique_value pairs key = vec_unique_loop pairs key None"

definition vec_normalize :: "(string \<times> string) list \<Rightarrow> normalized_parameter" where
  "vec_normalize pairs = fold (\<lambda>(key, val) params. insert_or_poison params key val) pairs np_new"

text \<open>A parameter object: what the flows see of a query or a body.\<close>

record query_object =
  qo_unique_value :: "string \<Rightarrow> string option"
  qo_normalize :: normalized_parameter

definition query_forward :: "query_object \<Rightarrow> query_object" where
  "query_forward q = \<lparr> qo_unique_value = (\<lambda>key. qo_unique_value q key), qo_normalize = qo_normalize q \<rparr>"

definition query_to_owned :: "query_object \<Rightarrow> normalized_parameter" where
  "query_to_owned q = qo_normalize q"

section \<open>The contract\<close>

text \<open>\<open>occurrences\<close> lists the values a key has in the source of the parameters.\<close>

locale query_parameter =
  fixes unique :: "'q \<Rightarrow> string \<Rightarrow> string option"
    and normal :: "'q \<Rightarrow> normalized_parameter"
    and occurrences :: "'q \<Rightarrow> string \<Rightarrow> string list"
  assumes unique_once: "unique q key = (case occurrences q key of [v] \<Rightarrow> Some v | _ \<Rightarrow> None)"
    and normal_agrees: "np_unique_value (normal q) key = unique q key"
begin

lemma unique_Some_iff: "unique q key = Some v \<longleftrightarrow> occurrences q key = [v]"
  by (auto simp: unique_once split: list.splits)

lemma duplicate_hidden: "length (occurrences q key) \<noteq> 1 \<Longrightarrow> unique q key = None"
  by (auto simp: unique_once split: list.splits)

lemma owned_answer: "np_unique_value (normal q) key = Some v \<longleftrightarrow> occurrences q key = [v]"
  by (simp add: normal_agrees unique_Some_iff)

end

definition pair_values :: "(string \<times> string) list \<Rightarrow> string \<Rightarrow> string list" where
  "pair_values pairs key = map snd (filter (\<lambda>(k, v). k = key) pairs)"

lemma pair_values_simps [simp]:
  "pair_values [] key = []"
  "pair_values ((k, v) # rest) key = (if k = key then v # pair_values rest key else pair_values rest key)"
  by (simp_all add: pair_values_def)

lemma vec_unique_loop_eq:
  "vec_unique_loop pairs key found =
     (case (found, pair_values pairs key) of (None, [v]) \<Rightarrow> Some v | (Some w, []) \<Rightarrow> Some w | _ \<Rightarrow> None)"
  by (induction pairs key found rule: vec_unique_loop.induct)
    (auto split: option.splits list.splits)

lemma insert_or_poison_lookup:
  "fmlookup (np_inner (insert_or_poison p k v)) key =
     (if k = key then Some (case fmlookup (np_inner p) key of Some _ \<Rightarrow> None | None \<Rightarrow> Some v)
      else fmlookup (np_inner p) key)"
  by (simp add: insert_or_poison_def)

lemma fold_poison_lookup:
  "fmlookup (np_inner (fold (\<lambda>(k, v) t. insert_or_poison t k v) pairs p)) key =
     (case (fmlookup (np_inner p) key, pair_values pairs key) of
        (old, []) \<Rightarrow> old | (None, [v]) \<Rightarrow> Some (Some v) | _ \<Rightarrow> Some None)"
proof (induction pairs arbitrary: p)
  case (Cons pair pairs)
  obtain k v where pair: "pair = (k, v)" by (cases pair)
  show ?case
    using Cons [of "insert_or_poison p k v"]
    by (cases "k = key"; cases "fmlookup (np_inner p) key"; cases "pair_values pairs key")
      (simp_all add: pair insert_or_poison_lookup)
qed (simp split: option.splits)

lemma vec_normalize_lookup:
  "np_unique_value (vec_normalize pairs) key = (case pair_values pairs key of [v] \<Rightarrow> Some v | _ \<Rightarrow> None)"
  by (simp add: np_unique_value_def vec_normalize_def fold_poison_lookup np_new_def
      split: option.splits list.splits)

interpretation vec: query_parameter vec_unique_value vec_normalize pair_values
  by unfold_locales
    (simp_all add: vec_unique_value_def vec_unique_loop_eq vec_normalize_lookup split: list.splits)

text \<open>A map of single strings holds each key at most once.\<close>

definition map_values :: "('v \<Rightarrow> string option) \<Rightarrow> (string, 'v) fmap \<Rightarrow> string \<Rightarrow> string list" where
  "map_values get m key = (case Option.bind (fmlookup m key) get of Some v \<Rightarrow> [v] | None \<Rightarrow> [])"

interpretation hash_map: query_parameter "map_unique_value get" "map_normalize get" "map_values get" for get
proof unfold_locales
  fix m key
  show "map_unique_value get m key = (case map_values get m key of [v] \<Rightarrow> Some v | _ \<Rightarrow> None)"
    by (simp add: map_unique_value_def map_values_def split: option.splits)
  show "np_unique_value (map_normalize get m) key = map_unique_value get m key"
    by (cases "fmlookup m key") (auto simp: np_unique_value_def map_normalize_def map_unique_value_def)
qed

interpretation normal: query_parameter np_unique_value np_normalize
  "\<lambda>p key. case np_unique_value p key of Some v \<Rightarrow> [v] | None \<Rightarrow> []"
  by unfold_locales (simp_all add: np_normalize_def split: option.splits)

section \<open>Properties\<close>

lemma np_deserialize_pairs: "np_deserialize (map Inr pairs) = Ok (np_from_iter pairs)"
proof -
  have "np_visit_seq (map Inr pairs) p = Ok (fold (\<lambda>(k, v) t. insert_or_poison t k v) pairs p)" for p
    by (induction pairs arbitrary: p) auto
  then show ?thesis by (simp add: np_deserialize_def np_from_iter_def)
qed

text \<open>
  A parameter counts only if it was given once. For the pairs of a query in any representation
  (looked up in the list itself, normalised into a map, collected from an iterator, deserialised),
  a key has a value exactly if one pair of the query has it; a repeated parameter is treated like a
  missing one, wherever its copies stand.
\<close>

lemma repeated_parameters_vanish:
  "(vec_unique_value pairs key = Some v \<longleftrightarrow> map snd (filter (\<lambda>(k, v). k = key) pairs) = [v]) \<and>
   np_unique_value (vec_normalize pairs) key = vec_unique_value pairs key \<and>
   np_unique_value (np_from_iter pairs) key = vec_unique_value pairs key \<and>
   map_ok (\<lambda>p. np_unique_value p key) (np_deserialize (map Inr pairs)) = Ok (vec_unique_value pairs key)"
proof -
  have "np_from_iter pairs = vec_normalize pairs"
    by (simp add: np_from_iter_def vec_normalize_def)
  then show ?thesis
    using vec.unique_Some_iff [of pairs key v]
    by (simp add: vec.normal_agrees np_deserialize_pairs pair_values_def)
qed

end
