(* ===== verification/Pkce.thy ===== *)
theory Pkce
  imports Access_Token Authorization
begin

text \<open>
  Addons of the code flow and the proof key extension
  (\<open>oxide-auth/src/code_grant/extensions/pkce.rs\<close> and
  \<open>oxide-auth/src/frontends/simple/extensions/\<close>). The hash function and the base64 encoding are
  parameters. The locale \<open>code_addon\<close> is the contract between the two halves of an addon, the one
  that sees the authorization request and the one that sees the token request; from it follows what
  an addon list that contains the addon enforces across the flow.
\<close>

section \<open>Proof keys\<close>

text \<open>\<open>sha2::Sha256\<close> and \<open>base64::encode_config(_, URL_SAFE_NO_PAD)\<close>.\<close>

record pkce_lib =
  pk_sha256 :: "bytes \<Rightarrow> bytes"
  pk_base64 :: "bytes \<Rightarrow> string"

record pkce =
  pk_required :: bool
  pk_allow_plain :: bool

datatype pkce_method = Plain string | Sha256 string

definition pkce_new_required :: pkce where
  "pkce_new_required = \<lparr> pk_required = True, pk_allow_plain = False \<rparr>"

definition pkce_new_optional :: pkce where
  "pkce_new_optional = \<lparr> pk_required = False, pk_allow_plain = False \<rparr>"

definition pkce_allow_plain :: "pkce \<Rightarrow> pkce" where
  "pkce_allow_plain p = p\<lparr> pk_allow_plain := True \<rparr>"

definition method_from_parameter :: "string \<Rightarrow> string \<Rightarrow> (pkce_method, unit) outcome" where
  "method_from_parameter method challenge =
     (if method = ''plain'' then Ok (Plain challenge)
      else if method = ''S256'' then Ok (Sha256 challenge)
      else Err ())"

definition assert_supported_method :: "pkce_method \<Rightarrow> bool \<Rightarrow> (pkce_method, unit) outcome" where
  "assert_supported_method m allow_plain =
     (case (m, allow_plain) of
        (this, True) \<Rightarrow> Ok this
      | (Sha256 content, False) \<Rightarrow> Ok (Sha256 content)
      | (Plain _, False) \<Rightarrow> Err ())"

fun method_encode :: "pkce_method \<Rightarrow> string" where
  "method_encode (Plain challenge) = challenge @ ''p''"
| "method_encode (Sha256 challenge) = challenge @ ''S''"

definition method_from_encoded :: "string \<Rightarrow> (pkce_method, unit) outcome" where
  "method_from_encoded encoded =
     (if encoded = [] then Err ()
      else if last encoded = CHR ''p'' then Ok (Plain (butlast encoded))
      else if last encoded = CHR ''S'' then Ok (Sha256 (butlast encoded))
      else Err ())"

definition b64encode :: "pkce_lib \<Rightarrow> bytes \<Rightarrow> string" where
  "b64encode L data = pk_base64 L data"

fun method_verify :: "pkce_lib \<Rightarrow> pkce_method \<Rightarrow> string \<Rightarrow> (unit, unit) outcome" where
  "method_verify L (Plain encoded) verifier =
     (if as_bytes encoded = as_bytes verifier then Ok () else Err ())"
| "method_verify L (Sha256 encoded) verifier =
     (let b64digest = b64encode L (pk_sha256 L (as_bytes verifier))
      in if as_bytes encoded = as_bytes b64digest then Ok () else Err ())"

definition pkce_challenge ::
  "pkce \<Rightarrow> string option \<Rightarrow> string option \<Rightarrow> (ext_value option, unit) outcome" where
  "pkce_challenge p method challenge =
     (let method = (case method of Some m \<Rightarrow> m | None \<Rightarrow> ''plain'') in
      case challenge of
        None \<Rightarrow> if pk_required p then Err () else Ok None
      | Some challenge \<Rightarrow>
          bind_oc (method_from_parameter method challenge) (\<lambda>method.
          bind_oc (assert_supported_method method (pk_allow_plain p)) (\<lambda>method.
          Ok (Some (Private (Some (method_encode method)))))))"

definition pkce_verify ::
  "pkce_lib \<Rightarrow> pkce \<Rightarrow> ext_value option \<Rightarrow> string option \<Rightarrow> (unit, unit) outcome" where
  "pkce_verify L p method verifier =
     (case (method, verifier) of
        (None, _) \<Rightarrow> if pk_required p then Err () else Ok ()
      | (Some _, None) \<Rightarrow> Err ()
      | (Some method, Some verifier) \<Rightarrow>
          (case into_private_value method of
             Ok (Some method) \<Rightarrow>
               bind_oc (method_from_encoded method) (\<lambda>method. method_verify L method verifier)
           | _ \<Rightarrow> Err ()))"

definition pkce_identifier :: string where
  "pkce_identifier = ''pkce''"

section \<open>Addons\<close>

datatype addon_result = AddonOk | AddonData ext_value | AddonErr

record auth_addon =
  xa_identifier :: string
  xa_execute :: "auth_request \<Rightarrow> addon_result"

record token_addon =
  xt_identifier :: string
  xt_execute :: "at_request \<Rightarrow> ext_value option \<Rightarrow> addon_result"

text \<open>The implementations for references, \<open>Box\<close>, \<open>Arc\<close>, \<open>Rc\<close> and \<open>Cow\<close> forward.\<close>

definition auth_addon_forward :: "auth_addon \<Rightarrow> auth_addon" where
  "auth_addon_forward a =
     \<lparr> xa_identifier = xa_identifier a, xa_execute = (\<lambda>request. xa_execute a request) \<rparr>"

definition token_addon_forward :: "token_addon \<Rightarrow> token_addon" where
  "token_addon_forward a =
     \<lparr> xt_identifier = xt_identifier a, xt_execute = (\<lambda>request data. xt_execute a request data) \<rparr>"

lemma addon_forward_id [simp]: "auth_addon_forward a = a" "token_addon_forward b = b"
  by (simp_all add: auth_addon_forward_def token_addon_forward_def)

definition pkce_auth_addon :: "pkce \<Rightarrow> auth_addon" where
  "pkce_auth_addon p = \<lparr> xa_identifier = pkce_identifier, xa_execute = (\<lambda>request.
     let method = aur_extension request ''code_challenge_method'';
         challenge = aur_extension request ''code_challenge''
     in case pkce_challenge p method challenge of
          Ok None \<Rightarrow> AddonOk
        | Ok (Some encoded) \<Rightarrow> AddonData encoded
        | _ \<Rightarrow> AddonErr) \<rparr>"

definition pkce_token_addon :: "pkce_lib \<Rightarrow> pkce \<Rightarrow> token_addon" where
  "pkce_token_addon L p = \<lparr> xt_identifier = pkce_identifier, xt_execute = (\<lambda>request data.
     let verifier = atr_extension request ''code_verifier''
     in case pkce_verify L p data verifier of Ok _ \<Rightarrow> AddonOk | _ \<Rightarrow> AddonErr) \<rparr>"

record addon_list =
  al_authorization :: "auth_addon list"
  al_access_token :: "token_addon list"

definition addon_list_new :: addon_list where
  "addon_list_new = \<lparr> al_authorization = [], al_access_token = [] \<rparr>"

definition push_authorization :: "addon_list \<Rightarrow> auth_addon \<Rightarrow> addon_list" where
  "push_authorization l addon = l\<lparr> al_authorization := al_authorization l @ [addon] \<rparr>"

definition push_access_token :: "addon_list \<Rightarrow> token_addon \<Rightarrow> addon_list" where
  "push_access_token l addon = l\<lparr> al_access_token := al_access_token l @ [addon] \<rparr>"

text \<open>One object with both halves.\<close>

definition push_code :: "addon_list \<Rightarrow> auth_addon \<Rightarrow> token_addon \<Rightarrow> addon_list" where
  "push_code l auth token =
     l\<lparr> al_authorization := al_authorization l @ [auth], al_access_token := al_access_token l @ [token] \<rparr>"

fun addons_authorize :: "auth_addon list \<Rightarrow> auth_request \<Rightarrow> extensions \<Rightarrow> (extensions, unit) outcome" where
  "addons_authorize [] request result_data = Ok result_data"
| "addons_authorize (ext # exts) request result_data =
     (case xa_execute ext request of
        AddonOk \<Rightarrow> addons_authorize exts request result_data
      | AddonData data \<Rightarrow> addons_authorize exts request (ext_set result_data (xa_identifier ext) data)
      | AddonErr \<Rightarrow> Err ())"

fun addons_redeem ::
  "token_addon list \<Rightarrow> at_request \<Rightarrow> extensions \<Rightarrow> extensions \<Rightarrow> (extensions, unit) outcome" where
  "addons_redeem [] request data result_data = Ok result_data"
| "addons_redeem (ext # exts) request data result_data =
     (case ext_remove data (xt_identifier ext) of (ext_data, data') \<Rightarrow>
        (case xt_execute ext request ext_data of
           AddonOk \<Rightarrow> addons_redeem exts request data' result_data
         | AddonData d \<Rightarrow> addons_redeem exts request data' (ext_set result_data (xt_identifier ext) d)
         | AddonErr \<Rightarrow> Err ()))"

definition addon_list_authorization :: "addon_list \<Rightarrow> auth_request \<Rightarrow> ('w, extensions, unit) action" where
  "addon_list_authorization l request = lift_oc (addons_authorize (al_authorization l) request extensions_new)"

definition addon_list_access_token ::
  "addon_list \<Rightarrow> at_request \<Rightarrow> extensions \<Rightarrow> ('w, extensions, unit) action" where
  "addon_list_access_token l request data =
     lift_oc (addons_redeem (al_access_token l) request data extensions_new)"

section \<open>What a list stores and hands back\<close>

lemma distinct_map_neq:
  "distinct (map f (x # xs)) \<Longrightarrow> y \<in> set (x # xs) \<Longrightarrow> y \<noteq> x \<Longrightarrow> f y \<noteq> f x"
  by (metis distinct.simps(2) image_eqI image_set list.simps(9) set_ConsD)

lemma authorize_keeps:
  "addons_authorize as q res = Ok exts \<Longrightarrow> k \<notin> xa_identifier ` set as \<Longrightarrow>
     fmlookup (ext_map exts) k = fmlookup (ext_map res) k"
  by (induction as q res rule: addons_authorize.induct)
    (auto simp: ext_lookup_set split: addon_result.splits)

lemma authorize_stores:
  assumes "addons_authorize as q res = Ok exts" and "a \<in> set as" and "distinct (map xa_identifier as)"
    and "xa_identifier a |\<notin>| fmdom (ext_map res)"
  shows "xa_execute a q \<noteq> AddonErr \<and>
    fmlookup (ext_map exts) (xa_identifier a) =
      (case xa_execute a q of AddonData v \<Rightarrow> Some v | _ \<Rightarrow> None)"
  using assms
proof (induction as q res rule: addons_authorize.induct)
  case (2 ext as q res)
  show ?case
  proof (cases "a = ext")
    case True
    have "xa_identifier a \<notin> xa_identifier ` set as" using 2 True by auto
    then show ?thesis
      using 2 True by (auto simp: ext_lookup_set authorize_keeps fmdom_notD split: addon_result.splits)
  next
    case False
    then have "xa_identifier a \<noteq> xa_identifier ext" using "2.prems"(2,3) by (metis distinct_map_neq)
    then show ?thesis
      using 2 False by (auto simp: ext_set_def split: addon_result.splits)
  qed
qed simp

lemma redeem_executes:
  assumes "addons_redeem ts q data res = Ok exts" and "t \<in> set ts" and "distinct (map xt_identifier ts)"
  shows "xt_execute t q (fmlookup (ext_map data) (xt_identifier t)) \<noteq> AddonErr"
  using assms
proof (induction ts q data res rule: addons_redeem.induct)
  case (2 ext ts q data res)
  show ?case
  proof (cases "t = ext")
    case True
    then show ?thesis using 2 by (auto simp: ext_remove_def split: addon_result.splits)
  next
    case False
    then have "xt_identifier t \<noteq> xt_identifier ext" using "2.prems"(2,3) by (metis distinct_map_neq)
    then show ?thesis
      using 2 False by (auto simp: ext_remove_def split: addon_result.splits)
  qed
qed simp

section \<open>The contract of a code flow addon\<close>

text \<open>
  \<open>accepts q r\<close>: the token request \<open>r\<close> is acceptable after the authorization request \<open>q\<close>. The
  second half of the addon may only let a request pass that is acceptable, given the data the first
  half stored.
\<close>

definition stored_data :: "addon_result \<Rightarrow> ext_value option" where
  "stored_data r = (case r of AddonData v \<Rightarrow> Some v | _ \<Rightarrow> None)"

locale code_addon =
  fixes auth :: auth_addon
    and token :: token_addon
    and accepts :: "auth_request \<Rightarrow> at_request \<Rightarrow> bool"
  assumes same_identifier: "xt_identifier token = xa_identifier auth"
    and passes: "xa_execute auth q \<noteq> AddonErr \<Longrightarrow>
      xt_execute token r (stored_data (xa_execute auth q)) \<noteq> AddonErr \<Longrightarrow> accepts q r"
begin

lemma list_enforces:
  assumes "auth \<in> set as" and "distinct (map xa_identifier as)"
    and "token \<in> set ts" and "distinct (map xt_identifier ts)"
    and "addons_authorize as q extensions_new = Ok data" and "addons_redeem ts r data res = Ok exts"
  shows "accepts q r"
proof -
  have stored: "xa_execute auth q \<noteq> AddonErr"
      "fmlookup (ext_map data) (xt_identifier token) = stored_data (xa_execute auth q)"
    using authorize_stores [OF assms(5,1,2)]
    by (auto simp: extensions_new_def stored_data_def same_identifier)
  show ?thesis
    using passes [OF stored(1)] redeem_executes [OF assms(6,3,4)] stored(2) by simp
qed

end

section \<open>Proof keys obey the contract\<close>

text \<open>The key of a token request fits the challenge of the authorization request.\<close>

definition pkce_accepts :: "pkce_lib \<Rightarrow> pkce \<Rightarrow> auth_request \<Rightarrow> at_request \<Rightarrow> bool" where
  "pkce_accepts L p q r =
     (case aur_extension q ''code_challenge'' of
        None \<Rightarrow> \<not> pk_required p
      | Some challenge \<Rightarrow>
          (case atr_extension r ''code_verifier'' of
             None \<Rightarrow> False
           | Some verifier \<Rightarrow>
               (if aur_extension q ''code_challenge_method'' = Some ''S256''
                then challenge = pk_base64 L (pk_sha256 L (as_bytes verifier))
                else aur_extension q ''code_challenge_method'' \<in> {None, Some ''plain''} \<and>
                     pk_allow_plain p \<and> challenge = verifier)))"

lemma as_bytes_inj [simp]: "as_bytes s = as_bytes t \<longleftrightarrow> s = t"
proof
  assume "as_bytes s = as_bytes t"
  then have "map (\<lambda>b. char_of (unat b) :: char) (as_bytes s) = map (\<lambda>b. char_of (unat b)) (as_bytes t)"
    by simp
  then show "s = t" by (simp add: as_bytes_def comp_def unat_byte_of_char)
qed simp

lemma method_encode_roundtrip: "method_from_encoded (method_encode m) = Ok m"
  by (cases m) (simp_all add: method_from_encoded_def)

lemma pkce_verify_encoded:
  "pkce_verify L p (Some (Private (Some (method_encode m)))) (Some v) = method_verify L m v"
  by (simp add: pkce_verify_def into_private_value_def method_encode_roundtrip)

lemma method_verify_iff:
  "method_verify L m v = Ok () \<longleftrightarrow>
     (case m of Plain c \<Rightarrow> c = v | Sha256 c \<Rightarrow> c = pk_base64 L (pk_sha256 L (as_bytes v)))"
  by (cases m) (simp_all add: Let_def b64encode_def)

lemma assert_supported_Ok:
  "assert_supported_method m b = Ok n \<longleftrightarrow> n = m \<and> (b \<or> (\<exists>c. m = Sha256 c))"
  by (cases m; cases b) (auto simp: assert_supported_method_def)

lemma pkce_challenge_Ok:
  "pkce_challenge p method (Some c) = Ok (Some v) \<longleftrightarrow>
     (method = Some ''S256'' \<and> v = Private (Some (method_encode (Sha256 c))) \<or>
      method \<in> {None, Some ''plain''} \<and> pk_allow_plain p \<and> v = Private (Some (method_encode (Plain c))))"
  by (auto simp: pkce_challenge_def method_from_parameter_def assert_supported_Ok
      split: option.splits if_splits)

lemma pkce_challenge_Some_not_None: "pkce_challenge p method (Some c) \<noteq> Ok None"
  by (auto simp: pkce_challenge_def)

lemma pkce_auth_execute:
  "xa_execute (pkce_auth_addon p) q =
     (case aur_extension q ''code_challenge'' of
        None \<Rightarrow> if pk_required p then AddonErr else AddonOk
      | Some c \<Rightarrow>
          (if aur_extension q ''code_challenge_method'' = Some ''S256''
           then AddonData (Private (Some (method_encode (Sha256 c))))
           else if aur_extension q ''code_challenge_method'' \<in> {None, Some ''plain''} \<and> pk_allow_plain p
           then AddonData (Private (Some (method_encode (Plain c))))
           else AddonErr))"
proof (cases "aur_extension q ''code_challenge''")
  case (Some c)
  let ?m = "aur_extension q ''code_challenge_method''"
  show ?thesis
  proof (cases "\<exists>v. pkce_challenge p ?m (Some c) = Ok (Some v)")
    case True
    then obtain v where v: "pkce_challenge p ?m (Some c) = Ok (Some v)" by blast
    then have "xa_execute (pkce_auth_addon p) q = AddonData v"
      using Some by (simp add: pkce_auth_addon_def Let_def)
    then show ?thesis using v Some by (auto simp: pkce_challenge_Ok)
  next
    case False
    then have "xa_execute (pkce_auth_addon p) q = AddonErr"
      using Some pkce_challenge_Some_not_None [of p ?m c]
      by (auto simp: pkce_auth_addon_def Let_def split: outcome.splits option.splits)
    then show ?thesis using False Some by (auto simp: pkce_challenge_Ok)
  qed
qed (simp add: pkce_auth_addon_def Let_def pkce_challenge_def)

lemma pkce_token_execute:
  "xt_execute (pkce_token_addon L p) r data \<noteq> AddonErr \<longleftrightarrow>
     pkce_verify L p data (atr_extension r ''code_verifier'') = Ok ()"
  by (auto simp: pkce_token_addon_def Let_def split: outcome.splits)

interpretation pk: code_addon "pkce_auth_addon p" "pkce_token_addon L p" "pkce_accepts L p" for L p
proof unfold_locales
  show "xt_identifier (pkce_token_addon L p) = xa_identifier (pkce_auth_addon p)"
    by (simp add: pkce_token_addon_def pkce_auth_addon_def)
next
  fix q r
  assume ok: "xa_execute (pkce_auth_addon p) q \<noteq> AddonErr"
    and pass: "xt_execute (pkce_token_addon L p) r (stored_data (xa_execute (pkce_auth_addon p) q)) \<noteq> AddonErr"
  have none: "pkce_verify L p (Some v) None \<noteq> Ok ()" for v
    by (simp add: pkce_verify_def)
  show "pkce_accepts L p q r"
    using ok pass none unfolding pkce_auth_execute pkce_token_execute pkce_accepts_def
    by (auto simp: stored_data_def pkce_verify_encoded method_verify_iff b64encode_def simp del: method_encode.simps
        split: option.splits if_splits)
qed

section \<open>Properties\<close>

text \<open>
  A challenge and its verifier. A challenge is accepted exactly for the method \<open>S256\<close>, and for
  \<open>plain\<close> (also the default) only where plain challenges were enabled; it is stored as private data.
  Later verification against the stored data succeeds exactly for a verifier that hashes to the
  challenge, respectively is the challenge, and never without a verifier.
\<close>

lemma pkce_challenge_verify:
  "(\<exists>v. pkce_challenge p method (Some c) = Ok (Some v) \<and>
       (\<forall>verifier. pkce_verify L p' (Some v) verifier = Ok () \<longleftrightarrow>
          (case verifier of
             None \<Rightarrow> False
           | Some x \<Rightarrow> if method = Some ''S256'' then pk_base64 L (pk_sha256 L (as_bytes x)) = c else x = c)))
     \<longleftrightarrow> method = Some ''S256'' \<or> pk_allow_plain p \<and> method \<in> {None, Some ''plain''}"
proof -
  have none: "pkce_verify L p' (Some v) None \<noteq> Ok ()" for v
    by (simp add: pkce_verify_def)
  show ?thesis
    using none
    by (auto simp: pkce_challenge_Ok pkce_verify_encoded method_verify_iff b64encode_def simp del: method_encode.simps
        split: option.splits)
qed

text \<open>
  C20: proof keys across the flow. If an addon list contains the extension in both halves of the
  flow (with no two addons of the same name), and the authorization request \<open>q\<close> and later the token
  request \<open>r\<close> for the grant it produced both pass the list, then \<open>r\<close> carries the key that fits the
  challenge of \<open>q\<close>; and if the extension is required, \<open>q\<close> had a challenge.
\<close>

theorem pkce_enforced:
  assumes "pkce_auth_addon p \<in> set (al_authorization l)" and "distinct (map xa_identifier (al_authorization l))"
    and "pkce_token_addon L p \<in> set (al_access_token l)" and "distinct (map xt_identifier (al_access_token l))"
    and "addon_list_authorization l q w = (Ok data, w')"
    and "addon_list_access_token l r data v = (Ok exts, v')"
  shows "pkce_accepts L p q r"
  using pk.list_enforces [OF assms(1-4)] assms(5,6)
  by (auto simp: addon_list_authorization_def addon_list_access_token_def)

definition plain_pkce_lib :: pkce_lib where
  "plain_pkce_lib = \<lparr> pk_sha256 = rev, pk_base64 = map (\<lambda>b. char_of (unat b)) \<rparr>"

definition pkce_only :: addon_list where
  "pkce_only = push_code addon_list_new (pkce_auth_addon pkce_new_required)
     (pkce_token_addon plain_pkce_lib pkce_new_required)"

definition pkce_auth_request :: auth_request where
  "pkce_auth_request = example_auth_request\<lparr> aur_extension :=
     [''code_challenge_method'' \<mapsto> ''S256'', ''code_challenge'' \<mapsto> ''cba''] \<rparr>"

definition pkce_token_request :: "string option \<Rightarrow> at_request" where
  "pkce_token_request v = \<lparr> atr_valid = True, atr_code = Some ''code'', atr_authorization = None,
     atr_client_id = Some ''c'', atr_redirect_uri = Some ''https://b/'',
     atr_grant_type = Some ''authorization_code'', atr_extension = (\<lambda>k. if k = ''code_verifier'' then v else None),
     atr_allow_credentials_in_body = False \<rparr>"

lemma pkce_only_authorization:
  "addon_list_authorization pkce_only pkce_auth_request w =
     (Ok (ext_set extensions_new ''pkce'' (Private (Some ''cbaS''))), w)"
  by (simp add: addon_list_authorization_def pkce_only_def push_code_def addon_list_new_def
      pkce_auth_execute pkce_auth_request_def pkce_auth_addon_def pkce_identifier_def
      pkce_challenge_def method_from_parameter_def assert_supported_method_def pkce_new_required_def)

lemma pkce_only_redeem:
  "addon_list_access_token pkce_only (pkce_token_request (Some ''abc''))
     (ext_set extensions_new ''pkce'' (Private (Some ''cbaS''))) v = (Ok extensions_new, v)"
proof -
  have "pkce_verify plain_pkce_lib pkce_new_required (Some (Private (Some (method_encode (Sha256 ''cba'')))))
      (Some ''abc'') = Ok ()"
    unfolding pkce_verify_encoded method_verify_iff
    by (simp add: plain_pkce_lib_def) code_simp
  then show ?thesis
    by (simp add: addon_list_access_token_def pkce_only_def push_code_def addon_list_new_def
        pkce_token_addon_def pkce_token_request_def pkce_identifier_def ext_remove_def ext_set_def)
qed

theorem pkce_enforced_witness:
  "pkce_accepts plain_pkce_lib pkce_new_required pkce_auth_request (pkce_token_request (Some ''abc''))"
  by (rule pkce_enforced [OF _ _ _ _ pkce_only_authorization pkce_only_redeem])
    (simp_all add: pkce_only_def push_code_def addon_list_new_def)

end
