(* ===== verification/Endpoint.thy ===== *)
theory Endpoint
  imports Query Refresh Resource Token_Grant Pkce
begin

text \<open>
  The endpoint layer (\<open>oxide-auth/src/endpoint/\<close>): web requests and responses, the trait \<open>Endpoint\<close>
  that bundles the primitives, the four flows that translate web requests into the protocol
  machines and their results into responses, and the parsing of basic credentials. The properties
  say which response every protocol outcome produces.
\<close>

section \<open>Web requests and responses\<close>

text \<open>
  A request of the frontend (trait \<open>WebRequest\<close>), with its errors \<open>'e\<close> on the left: its query, its
  form body and its authorization header.
\<close>

record 'e web_request =
  wr_query :: "'e + query_object"
  wr_urlbody :: "'e + query_object"
  wr_authheader :: "'e + string option"

definition web_request_forward :: "'e web_request \<Rightarrow> 'e web_request" where
  "web_request_forward r = \<lparr> wr_query = wr_query r, wr_urlbody = wr_urlbody r, wr_authheader = wr_authheader r \<rparr>"

text \<open>The operations on a response \<open>'p\<close> (trait \<open>WebResponse\<close>).\<close>

record ('p, 'u, 'e) response_ops =
  ws_ok :: "'p \<Rightarrow> 'e + 'p"
  ws_redirect :: "'u \<Rightarrow> 'p \<Rightarrow> 'e + 'p"
  ws_client_error :: "'p \<Rightarrow> 'e + 'p"
  ws_unauthorized :: "string \<Rightarrow> 'p \<Rightarrow> 'e + 'p"
  ws_body_text :: "string \<Rightarrow> 'p \<Rightarrow> 'e + 'p"
  ws_body_json :: "string \<Rightarrow> 'p \<Rightarrow> 'e + 'p"

text \<open>The serialisation of \<open>serde_json\<close> and the decoder of \<open>base64\<close>.\<close>

record wire_lib =
  wl_token_json :: "token_response \<Rightarrow> string"
  wl_error_json :: "(string, string) fmap \<Rightarrow> string"
  wl_base64_decode :: "string \<Rightarrow> bytes option"

datatype oauth_error = DenySilently | OauthPrimitiveError | OauthBadRequest

primrec oauth_error_display :: "oauth_error \<Rightarrow> string" where
  "oauth_error_display DenySilently = ''OAuthError: Request should be silently denied''"
| "oauth_error_display OauthPrimitiveError = ''OAuthError: Server component failed''"
| "oauth_error_display OauthBadRequest = ''OAuthError: Bad request''"

section \<open>Templates\<close>

datatype inner_template =
    TmUnauthorized "resource_error option" "access_token_error option"
  | TmRedirect "authorization_error option"
  | TmBadRequest "access_token_error option"
  | TmOk

datatype response_status = StUnauthorized | StRedirect | StBadRequest | StOk

definition template_new_ok :: inner_template where
  "template_new_ok = TmOk"

definition template_new_bad :: "access_token_error option \<Rightarrow> inner_template" where
  "template_new_bad access_token_error = TmBadRequest access_token_error"

definition template_new_unauthorized ::
  "resource_error option \<Rightarrow> access_token_error option \<Rightarrow> inner_template" where
  "template_new_unauthorized error access_token_error = TmUnauthorized error access_token_error"

definition template_new_redirect :: "authorization_error option \<Rightarrow> inner_template" where
  "template_new_redirect authorization_error = TmRedirect authorization_error"

fun template_status :: "inner_template \<Rightarrow> response_status" where
  "template_status (TmUnauthorized _ _) = StUnauthorized"
| "template_status (TmRedirect _) = StRedirect"
| "template_status (TmBadRequest _) = StBadRequest"
| "template_status TmOk = StOk"

fun template_authorization_error :: "inner_template \<Rightarrow> authorization_error option" where
  "template_authorization_error (TmRedirect e) = e"
| "template_authorization_error _ = None"

fun template_access_token_error :: "inner_template \<Rightarrow> access_token_error option" where
  "template_access_token_error (TmUnauthorized _ e) = e"
| "template_access_token_error (TmBadRequest e) = e"
| "template_access_token_error _ = None"

section \<open>Endpoints\<close>

datatype ('p, 'e) owner_consent = Denied | InProgress 'p | Authorized string | ConsentError 'e

text \<open>A solicitor is code of the application: \<open>None\<close> says that it panicked.\<close>

type_synonym ('w, 'u, 'p, 'e) solicitor =
  "'e web_request \<Rightarrow> 'u solicitation \<Rightarrow> 'w \<Rightarrow> ('p, 'e) owner_consent option \<times> 'w"

type_synonym ('w, 'e) scopes_provider = "'e web_request \<Rightarrow> 'w \<Rightarrow> scope list \<times> 'w"

definition solicitation_new :: "'u pre_grant \<Rightarrow> 'u solicitation" where
  "solicitation_new grant = \<lparr> so_grant = grant, so_state = None \<rparr>"

definition with_state :: "'u solicitation \<Rightarrow> string \<Rightarrow> 'u solicitation" where
  "with_state s state = s\<lparr> so_state := Some state \<rparr>"

definition solicitation_into_owned :: "'u solicitation \<Rightarrow> 'u solicitation" where
  "solicitation_into_owned s = \<lparr> so_grant = so_grant s, so_state = map_option (\<lambda>state. state) (so_state s) \<rparr>"

definition solicitation_pre_grant :: "'u solicitation \<Rightarrow> 'u pre_grant" where
  "solicitation_pre_grant s = so_grant s"

definition solicitation_state :: "'u solicitation \<Rightarrow> string option" where
  "solicitation_state s = (case so_state s of None \<Rightarrow> None | Some state \<Rightarrow> Some state)"

text \<open>A slice or vector of scopes as a provider.\<close>

definition slice_scopes :: "scope list \<Rightarrow> ('w, 'e) scopes_provider" where
  "slice_scopes s request = (\<lambda>w. (s, w))"

record 'w extension_ops =
  xo_authorization :: "(auth_request \<Rightarrow> ('w, extensions, unit) action) option"
  xo_access_token :: "(at_request \<Rightarrow> extensions \<Rightarrow> ('w, extensions, unit) action) option"

definition extension_none :: "'w extension_ops" where
  "extension_none = \<lparr> xo_authorization = None, xo_access_token = None \<rparr>"

definition addon_list_extension :: "addon_list \<Rightarrow> 'w extension_ops" where
  "addon_list_extension l =
     \<lparr> xo_authorization = Some (addon_list_authorization l), xo_access_token = Some (addon_list_access_token l) \<rparr>"

text \<open>
  The trait \<open>Endpoint\<close> over a state \<open>'w\<close>, with errors \<open>'x\<close>. A response is created for a template
  whose error the implementation may amend: it returns the template with it.
\<close>

record ('w, 'u, 'p, 'e, 'x) endpoint =
  ep_registrar :: "'w \<Rightarrow> 'u registrar option"
  ep_authorizer :: "'w \<Rightarrow> ('w, 'u) authorizer_ops option"
  ep_issuer :: "'w \<Rightarrow> ('w, 'u) issuer_ops option"
  ep_owner_solicitor :: "'w \<Rightarrow> ('w, 'u, 'p, 'e) solicitor option"
  ep_scopes :: "'w \<Rightarrow> ('w, 'e) scopes_provider option"
  ep_response :: "'e web_request \<Rightarrow> inner_template \<Rightarrow> ('w, 'p \<times> inner_template, 'x) action"
  ep_error :: "oauth_error \<Rightarrow> 'w \<Rightarrow> 'x \<times> 'w"
  ep_web_error :: "'e \<Rightarrow> 'w \<Rightarrow> 'x \<times> 'w"
  ep_extension :: "'w \<Rightarrow> 'w extension_ops option"

definition endpoint_forward :: "('w, 'u, 'p, 'e, 'x) endpoint \<Rightarrow> ('w, 'u, 'p, 'e, 'x) endpoint" where
  "endpoint_forward E = \<lparr> ep_registrar = (\<lambda>w. ep_registrar E w), ep_authorizer = (\<lambda>w. ep_authorizer E w),
     ep_issuer = (\<lambda>w. ep_issuer E w), ep_owner_solicitor = (\<lambda>w. ep_owner_solicitor E w),
     ep_scopes = (\<lambda>w. ep_scopes E w), ep_response = (\<lambda>request kind. ep_response E request kind),
     ep_error = (\<lambda>err. ep_error E err), ep_web_error = (\<lambda>err. ep_web_error E err),
     ep_extension = (\<lambda>w. ep_extension E w) \<rparr>"

definition raise_oauth :: "('w, 'u, 'p, 'e, 'x) endpoint \<Rightarrow> oauth_error \<Rightarrow> ('w, 'a, 'x) action" where
  "raise_oauth E err = (\<lambda>w. case ep_error E err w of (x, w') \<Rightarrow> (Err x, w'))"

definition web_result :: "('w, 'u, 'p, 'e, 'x) endpoint \<Rightarrow> 'e + 'a \<Rightarrow> ('w, 'a, 'x) action" where
  "web_result E r = (case r of Inr a \<Rightarrow> ret a
     | Inl e \<Rightarrow> (\<lambda>w. case ep_web_error E e w of (x, w') \<Rightarrow> (Err x, w')))"

section \<open>Unwrapping the primitives\<close>

text \<open>\<open>unwrap\<close> on a missing primitive panics when the primitive is used.\<close>

definition panic_registrar :: "'u registrar" where
  "panic_registrar = \<lparr> rg_bound_redirect = (\<lambda>_. Panic), rg_negotiate = (\<lambda>_ _. Panic), rg_check = (\<lambda>_ _. Panic) \<rparr>"

definition unwrap_registrar :: "('w \<Rightarrow> 'u registrar option) \<Rightarrow> 'w \<Rightarrow> 'u registrar" where
  "unwrap_registrar f w = (case f w of Some r \<Rightarrow> r | None \<Rightarrow> panic_registrar)"

definition with_primitive ::
  "('w \<Rightarrow> 'a option) \<Rightarrow> ('a \<Rightarrow> ('w, 'b, 'e) action) \<Rightarrow> ('w, 'b, 'e) action" where
  "with_primitive f use = (\<lambda>w. case f w of Some a \<Rightarrow> use a w | None \<Rightarrow> (Panic, w))"

definition unwrap_authorizer :: "('w \<Rightarrow> ('w, 'u) authorizer_ops option) \<Rightarrow> ('w, 'u) authorizer_ops" where
  "unwrap_authorizer f =
     \<lparr> az_authorize = (\<lambda>g. with_primitive f (\<lambda>a. az_authorize a g)),
       az_extract = (\<lambda>c. with_primitive f (\<lambda>a. az_extract a c)) \<rparr>"

definition unwrap_issuer :: "('w \<Rightarrow> ('w, 'u) issuer_ops option) \<Rightarrow> ('w, 'u) issuer_ops" where
  "unwrap_issuer f =
     \<lparr> is_issue = (\<lambda>now g. with_primitive f (\<lambda>i. is_issue i now g)),
       is_refresh = (\<lambda>now t g. with_primitive f (\<lambda>i. is_refresh i now t g)),
       is_recover_token = (\<lambda>t. with_primitive f (\<lambda>i. is_recover_token i t)),
       is_recover_refresh = (\<lambda>t. with_primitive f (\<lambda>i. is_recover_refresh i t)) \<rparr>"

section \<open>The authorization flow\<close>

definition wrapped_authorization :: "('w, 'u, 'p, 'e, 'x) endpoint \<Rightarrow> ('w, 'u) auth_endpoint" where
  "wrapped_authorization E =
     \<lparr> aue_registrar = unwrap_registrar (ep_registrar E),
       aue_authorizer = unwrap_authorizer (ep_authorizer E),
       aue_extension = (\<lambda>request w.
         case Option.bind (ep_extension E w) xo_authorization of
           Some x \<Rightarrow> x request w | None \<Rightarrow> auth_no_extension request w),
       aue_issuer = unwrap_issuer (ep_issuer E) \<rparr>"

definition wrapped_query_request :: "bool \<Rightarrow> (string \<Rightarrow> string option) \<Rightarrow> auth_request" where
  "wrapped_query_request ok query =
     \<lparr> aur_valid = ok, aur_client_id = query ''client_id'', aur_scope = query ''scope'',
       aur_redirect_uri = query ''redirect_uri'', aur_state = query ''state'',
       aur_response_type = query ''response_type'', aur_extension = query, aur_user_id = query ''user_id'' \<rparr>"

definition wrapped_auth_request :: "'e web_request \<Rightarrow> auth_request" where
  "wrapped_auth_request request =
     (case wr_query request of
        Inr query \<Rightarrow> wrapped_query_request True (qo_unique_value query)
      | Inl err \<Rightarrow> wrapped_query_request False (np_unique_value np_new))"

definition authorization_prepare :: "('w, 'u, 'p, 'e, 'x) endpoint \<Rightarrow> ('w, unit, 'x) action" where
  "authorization_prepare E = (\<lambda>w.
     if ep_registrar E w = None then raise_oauth E OauthPrimitiveError w
     else if ep_authorizer E w = None then raise_oauth E OauthPrimitiveError w
     else (Ok (), w))"

definition amended :: "'a \<Rightarrow> 'a option \<Rightarrow> 'a" where
  "amended original x = (case x of Some e \<Rightarrow> e | None \<Rightarrow> original)"

definition authorization_error_response ::
  "'u url_lib \<Rightarrow> ('p, 'u, 'e) response_ops \<Rightarrow> ('w, 'u, 'p, 'e, 'x) endpoint \<Rightarrow> 'e web_request \<Rightarrow> 'u auth_error
    \<Rightarrow> ('w, 'p, 'x) action" where
  "authorization_error_response U R E request error =
     (case error of
        AuIgnore \<Rightarrow> raise_oauth E DenySilently
      | AuRedirect target \<Rightarrow>
          bind_ac (ep_response E request (TmRedirect (Some (error_url_description target)))) (\<lambda>(response, t).
          let target = target\<lparr> eu_error := amended (eu_error target) (template_authorization_error t) \<rparr> in
          web_result E (ws_redirect R (error_url_into U target) response))
      | AuPrimitiveError \<Rightarrow> raise_oauth E OauthPrimitiveError)"

definition token_error_response ::
  "wire_lib \<Rightarrow> ('p, 'u, 'e) response_ops \<Rightarrow> ('w, 'u, 'p, 'e, 'x) endpoint \<Rightarrow> 'e web_request \<Rightarrow> 'u at_error
    \<Rightarrow> ('w, 'p, 'x) action" where
  "token_error_response L R E request error =
     (case error of
        AtInvalid json \<Rightarrow>
          bind_ac (ep_response E request (TmBadRequest (Some json))) (\<lambda>(response, t).
          let json = amended json (template_access_token_error t) in
          bind_ac (web_result E (ws_client_error R response)) (\<lambda>response.
          web_result E (ws_body_json R (wl_error_json L (error_to_json json)) response)))
      | AtUnauthorized json scheme \<Rightarrow>
          bind_ac (ep_response E request (TmUnauthorized None (Some json))) (\<lambda>(response, t).
          let json = amended json (template_access_token_error t) in
          bind_ac (web_result E (ws_unauthorized R scheme response)) (\<lambda>response.
          web_result E (ws_body_json R (wl_error_json L (error_to_json json)) response)))
      | AtPrimitive _ \<Rightarrow> raise_oauth E OauthPrimitiveError)"

text \<open>Decimal digits, as \<open>format!\<close> writes an integer.\<close>

fun show_nat :: "nat \<Rightarrow> string" where
  "show_nat n = (if n < 10 then [char_of (48 + n)] else show_nat (n div 10) @ [char_of (48 + n mod 10)])"

declare show_nat.simps [simp del]

definition show_int :: "int \<Rightarrow> string" where
  "show_int i = (if i < 0 then ''-'' @ show_nat (nat (- i)) else show_nat (nat i))"

definition implicit_redirect_url :: "auth_request \<Rightarrow> bearer_token \<Rightarrow> time \<Rightarrow> string" where
  "implicit_redirect_url req token now =
     (case token of BearerToken t scope \<Rightarrow>
        (case aur_redirect_uri req of Some u \<Rightarrow> u | None \<Rightarrow> []) @ ''#access_token='' @ it_token t
        @ ''&token_type='' @ ''Bearer'' @ ''&expires_in='' @ show_int (num_seconds (it_until t - now))
        @ ''&scope='' @ scope @ ''&state='' @ (case aur_state req of Some s \<Rightarrow> s | None \<Rightarrow> []))"

definition convert_result ::
  "'u url_lib \<Rightarrow> ('p, 'u, 'e) response_ops \<Rightarrow> ('w, 'u, 'p, 'e, 'x) endpoint \<Rightarrow> 'e web_request
    \<Rightarrow> ('u, 'u auth_error) outcome \<Rightarrow> ('w, 'p, 'x) action" where
  "convert_result U R E request result =
     (case result of
        Ok url \<Rightarrow>
          bind_ac (ep_response E request (TmRedirect None)) (\<lambda>(response, _).
          web_result E (ws_redirect R url response))
      | Err err \<Rightarrow> authorization_error_response U R E request err
      | Panic \<Rightarrow> lift_oc Panic)"

text \<open>Asking the owner, and the three answers.\<close>

definition pending_finish ::
  "'u url_lib \<Rightarrow> ('p, 'u, 'e) response_ops \<Rightarrow> ('w, 'u, 'p, 'e, 'x) endpoint \<Rightarrow> 'e web_request \<Rightarrow> time
    \<Rightarrow> 'u pending \<Rightarrow> ('w, 'p, 'x) action" where
  "pending_finish U R E request now p = (\<lambda>w.
     case ep_owner_solicitor E w of
       None \<Rightarrow> (Panic, w)
     | Some solicitor \<Rightarrow>
         (case solicitor request (as_solicitation p) w of
            (None, w') \<Rightarrow> (Panic, w')
          | (Some Denied, w') \<Rightarrow> convert_result U R E request (pending_deny U p) w'
          | (Some (InProgress response), w') \<Rightarrow> (Ok response, w')
          | (Some (Authorized who), w') \<Rightarrow>
              (case pending_authorize U (wrapped_authorization E) now who p w' of
                 (result, w'') \<Rightarrow> convert_result U R E request result w'')
          | (Some (ConsentError err), w') \<Rightarrow> (case ep_web_error E err w' of (x, w'') \<Rightarrow> (Err x, w''))))"

text \<open>The flow: \<open>now\<close> is the time of the grant, \<open>inow\<close> the issuer's, \<open>rnow\<close> that of the response.\<close>

definition authorization_execute ::
  "'u url_lib \<Rightarrow> (string fset \<Rightarrow> string list) \<Rightarrow> wire_lib \<Rightarrow> ('p, 'u, 'e) response_ops
    \<Rightarrow> ('w, 'u, 'p, 'e, 'x) endpoint \<Rightarrow> 'e web_request \<Rightarrow> time \<Rightarrow> time \<Rightarrow> time \<Rightarrow> ('w, 'p, 'x) action" where
  "authorization_execute U it L R E request now inow rnow = (\<lambda>w.
     let req = wrapped_auth_request request in
     case aur_response_type req of
       None \<Rightarrow> token_error_response L R E request (at_invalid_with TeUnsupportedResponseType) w
     | Some response_type \<Rightarrow>
         if response_type = ''code'' then
           (case authorization_code U (wrapped_authorization E) (wrapped_auth_request request) w of
              (Err err, w') \<Rightarrow> authorization_error_response U R E request err w'
            | (Ok negotiated, w') \<Rightarrow> pending_finish U R E request now negotiated w'
            | (Panic, w') \<Rightarrow> (Panic, w'))
         else if response_type = ''token'' then
           (case authorization_token U it (wrapped_authorization E) req now inow w of
              (Err err, w') \<Rightarrow> token_error_response L R E request err w'
            | (Ok token, w') \<Rightarrow>
                bind_ac (ep_response E request (TmRedirect None)) (\<lambda>(response, _).
                  case url_parse U (implicit_redirect_url req token rnow) of
                    Some url \<Rightarrow> web_result E (ws_redirect R url response)
                  | None \<Rightarrow> token_error_response L R E request (at_invalid_with TeServerError)) w'
            | (Panic, w') \<Rightarrow> (Panic, w'))
         else token_error_response L R E request (at_invalid_with TeServerError) w)"

section \<open>The access token flow\<close>

record ('w, 'u, 'p, 'e, 'x) access_token_flow =
  atf_endpoint :: "('w, 'u, 'p, 'e, 'x) endpoint"
  atf_allow_credentials_in_body :: bool

definition access_token_prepare ::
  "('w, 'u, 'p, 'e, 'x) endpoint \<Rightarrow> ('w, ('w, 'u, 'p, 'e, 'x) access_token_flow, 'x) action" where
  "access_token_prepare E = (\<lambda>w.
     if ep_registrar E w = None then raise_oauth E OauthPrimitiveError w
     else if ep_authorizer E w = None then raise_oauth E OauthPrimitiveError w
     else if ep_issuer E w = None then raise_oauth E OauthPrimitiveError w
     else (Ok \<lparr> atf_endpoint = E, atf_allow_credentials_in_body = False \<rparr>, w))"

definition allow_credentials_in_body ::
  "('w, 'u, 'p, 'e, 'x) access_token_flow \<Rightarrow> bool \<Rightarrow> ('w, 'u, 'p, 'e, 'x) access_token_flow" where
  "allow_credentials_in_body flow allow = flow\<lparr> atf_allow_credentials_in_body := allow \<rparr>"

definition wrapped_token :: "('w, 'u, 'p, 'e, 'x) endpoint \<Rightarrow> ('w, 'u) at_endpoint" where
  "wrapped_token E =
     \<lparr> ate_registrar = unwrap_registrar (ep_registrar E),
       ate_authorizer = unwrap_authorizer (ep_authorizer E),
       ate_issuer = unwrap_issuer (ep_issuer E),
       ate_extension = (\<lambda>request data w.
         case Option.bind (ep_extension E w) xo_access_token of
           Some x \<Rightarrow> x request data w | None \<Rightarrow> at_no_extension request data w) \<rparr>"

text \<open>\<open>combined.splitn(2, ':')\<close>, and the credentials of a basic authorization header.\<close>

definition split_colon :: "bytes \<Rightarrow> bytes \<times> bytes option" where
  "split_colon combined =
     (case dropWhile (\<lambda>c. c \<noteq> 58) combined of
        [] \<Rightarrow> (combined, None)
      | _ # rest \<Rightarrow> (takeWhile (\<lambda>c. c \<noteq> 58) combined, Some rest))"

definition parse_header :: "wire_lib \<Rightarrow> string \<Rightarrow> (string \<times> bytes) option" where
  "parse_header L header =
     (if \<not> starts_with header ''Basic '' then None
      else case wl_base64_decode L (drop 6 header) of
             None \<Rightarrow> None
           | Some combined \<Rightarrow>
               (case split_colon combined of
                  (client_bin, None) \<Rightarrow> None
                | (client_bin, Some passwd) \<Rightarrow>
                    (case from_utf8 client_bin of None \<Rightarrow> None | Some client \<Rightarrow> Some (client, passwd))))"

datatype 'e fail_parse = FpInvalid | FpErr 'e

definition token_request_parts ::
  "wire_lib \<Rightarrow> 'e web_request \<Rightarrow> ((string \<times> bytes) option \<times> query_object, 'e fail_parse) outcome" where
  "token_request_parts L request =
     bind_oc (case wr_authheader request of
         Inl err \<Rightarrow> Err (FpErr err)
       | Inr (Some header) \<Rightarrow> map_ok Some (ok_or FpInvalid (parse_header L header))
       | Inr None \<Rightarrow> Ok None) (\<lambda>authorization.
     case wr_urlbody request of Inl err \<Rightarrow> Err (FpErr err) | Inr body \<Rightarrow> Ok (authorization, body))"

definition wrapped_body_request ::
  "bool \<Rightarrow> (string \<times> bytes) option \<Rightarrow> (string \<Rightarrow> string option) \<Rightarrow> bool \<Rightarrow> at_request" where
  "wrapped_body_request ok authorization body credentials =
     \<lparr> atr_valid = ok, atr_code = body ''code'', atr_authorization = authorization,
       atr_client_id = body ''client_id'', atr_redirect_uri = body ''redirect_uri'',
       atr_grant_type = body ''grant_type'', atr_extension = body,
       atr_allow_credentials_in_body = credentials \<rparr>"

definition wrapped_token_request :: "wire_lib \<Rightarrow> 'e web_request \<Rightarrow> bool \<Rightarrow> at_request" where
  "wrapped_token_request L request credentials =
     (case token_request_parts L request of
        Ok (authorization, body) \<Rightarrow> wrapped_body_request True authorization (qo_unique_value body) credentials
      | _ \<Rightarrow> wrapped_body_request False None (np_unique_value np_new) False)"

definition access_token_execute ::
  "'u url_lib \<Rightarrow> (string fset \<Rightarrow> string list) \<Rightarrow> wire_lib \<Rightarrow> ('p, 'u, 'e) response_ops
    \<Rightarrow> ('w, 'u, 'p, 'e, 'x) access_token_flow \<Rightarrow> 'e web_request \<Rightarrow> time \<Rightarrow> time \<Rightarrow> time \<Rightarrow> ('w, 'p, 'x) action" where
  "access_token_execute U it L R flow request rnow inow now = (\<lambda>w.
     let E = atf_endpoint flow in
     case access_token U it (wrapped_token E)
            (wrapped_token_request L request (atf_allow_credentials_in_body flow)) rnow inow w of
       (Err error, w') \<Rightarrow> token_error_response L R E request error w'
     | (Panic, w') \<Rightarrow> (Panic, w')
     | (Ok token, w') \<Rightarrow>
         bind_ac (ep_response E request TmOk) (\<lambda>(response, _).
           web_result E (ws_body_json R (wl_token_json L (bearer_to_json now token)) response)) w')"

section \<open>The refresh flow\<close>

definition refresh_prepare :: "('w, 'u, 'p, 'e, 'x) endpoint \<Rightarrow> ('w, unit, 'x) action" where
  "refresh_prepare E = (\<lambda>w.
     if ep_registrar E w = None then raise_oauth E OauthPrimitiveError w
     else if ep_issuer E w = None then raise_oauth E OauthPrimitiveError w
     else (Ok (), w))"

definition wrapped_refresh :: "('w, 'u, 'p, 'e, 'x) endpoint \<Rightarrow> ('w, 'u) rf_endpoint" where
  "wrapped_refresh E =
     \<lparr> rfe_registrar = unwrap_registrar (ep_registrar E), rfe_issuer = unwrap_issuer (ep_issuer E) \<rparr>"

datatype 'e init_error = Malformed | Internal 'e

definition refresh_parse_header :: "wire_lib \<Rightarrow> string \<Rightarrow> (string \<times> bytes, 'e init_error) outcome" where
  "refresh_parse_header L header =
     (if \<not> starts_with header ''Basic '' then Err Malformed
      else
        bind_oc (ok_or Malformed (wl_base64_decode L (drop 6 header))) (\<lambda>combined.
        case split_colon combined of
          (client_bin, None) \<Rightarrow> Err Malformed
        | (client_bin, Some passwd) \<Rightarrow>
            bind_oc (ok_or Malformed (from_utf8 client_bin)) (\<lambda>client. Ok (client, passwd))))"

definition refresh_request_parts ::
  "wire_lib \<Rightarrow> 'e web_request \<Rightarrow> ((string \<times> bytes) option \<times> query_object, 'e init_error) outcome" where
  "refresh_request_parts L request =
     bind_oc (case wr_authheader request of
         Inl err \<Rightarrow> Err (Internal err)
       | Inr (Some header) \<Rightarrow> map_ok Some (refresh_parse_header L header)
       | Inr None \<Rightarrow> Ok None) (\<lambda>authorization.
     case wr_urlbody request of Inl err \<Rightarrow> Err (Internal err) | Inr body \<Rightarrow> Ok (authorization, body))"

definition wrapped_refresh_body ::
  "bool \<Rightarrow> (string \<times> bytes) option \<Rightarrow> (string \<Rightarrow> string option) \<Rightarrow> rf_request" where
  "wrapped_refresh_body ok authorization body =
     \<lparr> rfr_valid = ok, rfr_refresh_token = body ''refresh_token'', rfr_scope = body ''scope'',
       rfr_grant_type = body ''grant_type'', rfr_authorization = authorization, rfr_extension = body \<rparr>"

definition wrapped_refresh_request :: "wire_lib \<Rightarrow> 'e web_request \<Rightarrow> rf_request" where
  "wrapped_refresh_request L request =
     (case refresh_request_parts L request of
        Ok (authorization, body) \<Rightarrow> wrapped_refresh_body True authorization (qo_unique_value body)
      | _ \<Rightarrow> wrapped_refresh_body False None (np_unique_value np_new))"

definition refresh_error_response ::
  "wire_lib \<Rightarrow> ('p, 'u, 'e) response_ops \<Rightarrow> ('w, 'u, 'p, 'e, 'x) endpoint \<Rightarrow> 'e web_request \<Rightarrow> rf_error
    \<Rightarrow> ('w, 'p, 'x) action" where
  "refresh_error_response L R E request error =
     (case error of
        RfInvalid json \<Rightarrow>
          bind_ac (ep_response E request (TmBadRequest (Some json))) (\<lambda>(response, t).
          let json = amended json (template_access_token_error t) in
          bind_ac (web_result E (ws_client_error R response)) (\<lambda>response.
          web_result E (ws_body_json R (wl_error_json L (error_to_json json)) response)))
      | RfUnauthorized json scheme \<Rightarrow>
          bind_ac (ep_response E request (TmUnauthorized None (Some json))) (\<lambda>(response, t).
          let json = amended json (template_access_token_error t) in
          bind_ac (web_result E (ws_unauthorized R scheme response)) (\<lambda>response.
          web_result E (ws_body_json R (wl_error_json L (error_to_json json)) response)))
      | RfPrimitive \<Rightarrow> raise_oauth E OauthPrimitiveError)"

text \<open>\<open>now\<close>, \<open>now'\<close> and \<open>inow\<close> are the times of the checks and of the issuer, \<open>jnow\<close> that of the response.\<close>

definition refresh_execute ::
  "(string fset \<Rightarrow> string list) \<Rightarrow> wire_lib \<Rightarrow> ('p, 'u, 'e) response_ops \<Rightarrow> ('w, 'u, 'p, 'e, 'x) endpoint
    \<Rightarrow> 'e web_request \<Rightarrow> time \<Rightarrow> time \<Rightarrow> time \<Rightarrow> time \<Rightarrow> ('w, 'p, 'x) action" where
  "refresh_execute it L R E request now now' inow jnow = (\<lambda>w.
     case refresh it (wrapped_refresh E) (wrapped_refresh_request L request) now now' inow w of
       (Err error, w') \<Rightarrow> refresh_error_response L R E request error w'
     | (Panic, w') \<Rightarrow> (Panic, w')
     | (Ok token, w') \<Rightarrow>
         bind_ac (ep_response E request TmOk) (\<lambda>(response, _).
           web_result E (ws_body_json R (wl_token_json L (rf_bearer_to_json jnow token)) response)) w')"

section \<open>The resource flow\<close>

definition resource_prepare :: "('w, 'u, 'p, 'e, 'x) endpoint \<Rightarrow> ('w, unit, 'x) action" where
  "resource_prepare E = (\<lambda>w.
     if ep_issuer E w = None then raise_oauth E OauthPrimitiveError w
     else if ep_scopes E w = None then raise_oauth E OauthPrimitiveError w
     else (Ok (), w))"

definition wrapped_resource_request :: "'e web_request \<Rightarrow> resource_request" where
  "wrapped_resource_request request =
     (case wr_authheader request of
        Inr token \<Rightarrow> \<lparr> rq_valid = True, rq_token = token \<rparr>
      | Inl error \<Rightarrow> \<lparr> rq_valid = False, rq_token = None \<rparr>)"

definition scoped_resource ::
  "('w, 'u, 'p, 'e, 'x) endpoint \<Rightarrow> 'e web_request \<Rightarrow> ('w, 'u) resource_endpoint" where
  "scoped_resource E request =
     \<lparr> re_scopes = (\<lambda>w. case ep_scopes E w of
           None \<Rightarrow> (None, w)
         | Some provider \<Rightarrow> (case provider request w of (scopes, w') \<Rightarrow> (Some scopes, w'))),
       re_issuer = unwrap_issuer (ep_issuer E) \<rparr>"

definition resource_denied ::
  "(string fset \<Rightarrow> string list) \<Rightarrow> ('p, 'u, 'e) response_ops \<Rightarrow> ('w, 'u, 'p, 'e, 'x) endpoint \<Rightarrow> 'e web_request
    \<Rightarrow> resource_error \<Rightarrow> ('w, 'p, 'x) action" where
  "resource_denied it R E request error =
     (let respond = (\<lambda>template.
        bind_ac (ep_response E request template) (\<lambda>(response, _).
        web_result E (ws_unauthorized R (www_authenticate it error) response)))
      in case error of
           AccessDenied _ _ \<Rightarrow> respond (TmUnauthorized None None)
         | NoAuthentication _ \<Rightarrow> respond (TmUnauthorized None None)
         | ResInvalidRequest _ \<Rightarrow> respond (TmBadRequest None)
         | ResPrimitiveError \<Rightarrow> raise_oauth E OauthPrimitiveError)"

text \<open>A refused access is an error that is again the result of building the response.\<close>

definition resource_execute ::
  "(string fset \<Rightarrow> string list) \<Rightarrow> ('p, 'u, 'e) response_ops \<Rightarrow> ('w, 'u, 'p, 'e, 'x) endpoint \<Rightarrow> 'e web_request
    \<Rightarrow> time \<Rightarrow> ('w, 'u grant, ('p, 'x) outcome) action" where
  "resource_execute it R E request now = (\<lambda>w.
     case protect (scoped_resource E request) (wrapped_resource_request request) now w of
       (Ok grant, w') \<Rightarrow> (Ok grant, w')
     | (Panic, w') \<Rightarrow> (Panic, w')
     | (Err err, w') \<Rightarrow>
         (case resource_denied it R E request err w' of
            (Panic, w'') \<Rightarrow> (Panic, w'')
          | (result, w'') \<Rightarrow> (Err result, w'')))"

section \<open>Credentials in headers\<close>

lemma split_colon_Some:
  "split_colon bs = (c, Some p) \<longleftrightarrow> bs = c @ 58 # p \<and> 58 \<notin> set c"
proof
  assume a: "split_colon bs = (c, Some p)"
  then obtain x rest where d: "dropWhile (\<lambda>c. c \<noteq> 58) bs = x # rest"
    by (auto simp: split_colon_def split: list.splits)
  then have "x = 58" using hd_dropWhile [of "\<lambda>c. c \<noteq> 58" bs] by simp
  then show "bs = c @ 58 # p \<and> 58 \<notin> set c"
    using a d takeWhile_dropWhile_id [of "\<lambda>c. c \<noteq> 58" bs] set_takeWhileD [of 58 "\<lambda>c. c \<noteq> 58" bs]
    by (auto simp: split_colon_def)
next
  assume a: "bs = c @ 58 # p \<and> 58 \<notin> set c"
  then have all: "\<And>x. x \<in> set c \<Longrightarrow> x \<noteq> 58" by blast
  have "dropWhile (\<lambda>c. c \<noteq> 58) bs = 58 # p" "takeWhile (\<lambda>c. c \<noteq> 58) bs = c"
    using a dropWhile_append2 [of c "\<lambda>c. c \<noteq> 58" "58 # p", OF all]
      takeWhile_append2 [of c "\<lambda>c. c \<noteq> 58" "58 # p", OF all] by simp_all
  then show "split_colon bs = (c, Some p)" by (simp add: split_colon_def)
qed

lemma from_utf8_Some: "from_utf8 bs = Some s \<longleftrightarrow> bs = as_bytes s \<and> utf8_valid (as_bytes s)"
  using as_bytes_from_utf8 [of bs s] from_utf8_as_bytes [of s] by (metis option.distinct(1))

lemma basic_prefix: "starts_with h ''Basic '' \<and> drop 6 h = body \<longleftrightarrow> h = ''Basic '' @ body"
  using append_prefix_iff [of "''Basic ''" 6 h body] by (auto simp: starts_with_take numeral_eq_Suc)

lemma parse_header_Some:
  "parse_header L h = Some (client, passwd) \<longleftrightarrow>
     (\<exists>body. h = ''Basic '' @ body \<and> wl_base64_decode L body = Some (as_bytes client @ 58 # passwd) \<and>
        58 \<notin> set (as_bytes client) \<and> utf8_valid (as_bytes client))"
proof -
  have "parse_header L h = Some (client, passwd) \<longleftrightarrow>
      (\<exists>body. starts_with h ''Basic '' \<and> drop 6 h = body \<and>
        (\<exists>combined cb. wl_base64_decode L body = Some combined \<and> split_colon combined = (cb, Some passwd) \<and>
           from_utf8 cb = Some client))"
    by (auto simp: parse_header_def split: option.splits prod.splits)
  then show ?thesis
    unfolding basic_prefix [symmetric] split_colon_Some from_utf8_Some by auto
qed

lemma refresh_parse_header_eq:
  "refresh_parse_header L h = ok_or Malformed (parse_header L h)"
  by (auto simp: refresh_parse_header_def parse_header_def split: option.splits prod.splits)

section \<open>Properties\<close>

text \<open>
  Basic credentials. A header yields a client and a password exactly if it is the word \<open>Basic\<close>,
  a space and the encoding of the client, a colon and the password, where the client is valid UTF-8
  without a colon; the password may contain colons and arbitrary bytes. The two copies of the parser,
  for token and for refresh requests, agree on every header.
\<close>

lemma basic_credentials_parsed:
  "(parse_header L h = Some (client, passwd) \<longleftrightarrow>
     (\<exists>body. h = ''Basic '' @ body \<and> wl_base64_decode L body = Some (as_bytes client @ 58 # passwd) \<and>
        58 \<notin> set (as_bytes client) \<and> utf8_valid (as_bytes client)))
   \<and> refresh_parse_header L h = ok_or Malformed (parse_header L h)"
  using parse_header_Some refresh_parse_header_eq by blast

end
