(* ===== verification/Async.thy ===== *)
theory Async
  imports Endpoint
begin

text \<open>
  The executors of the asynchronous crate (\<open>oxide-auth-async/src/code_grant.rs\<close>). They drive the
  protocol machines of the synchronous crate, but every call of a primitive is awaited: between two
  awaits other tasks may run. An executor is therefore a task that is polled: each poll runs one turn
  of the loop, up to the next await. \<open>drive\<close> polls a task until it is finished, \<open>polled\<close> lets the
  environment change the state before every poll.

  The primitives of the crate (\<open>primitives.rs\<close>) are the asynchronous forms of the traits, provided for
  every synchronous primitive by calling it; an awaited primitive is one atomic step here.
\<close>

section \<open>Tasks\<close>

datatype ('s, 'q, 'a, 'e) task = Awaiting 's 'q | Finished "('a, 'e) outcome"

text \<open>One turn of a loop: a result, or the next state with the next request to the endpoint.\<close>

type_synonym ('w, 's, 'q, 'a, 'e) turn = "'s \<Rightarrow> 'q \<Rightarrow> ('w, ('a, 'e) outcome + 's \<times> 'q, 'e) action"

fun poll :: "('w, 's, 'q, 'a, 'e) turn \<Rightarrow> ('s, 'q, 'a, 'e) task \<Rightarrow> 'w \<Rightarrow> ('s, 'q, 'a, 'e) task \<times> 'w" where
  "poll turn (Finished r) w = (Finished r, w)"
| "poll turn (Awaiting s q) w =
     (case turn s q w of
        (Ok (Inl r), w') \<Rightarrow> (Finished r, w')
      | (Ok (Inr (s', q')), w') \<Rightarrow> (Awaiting s' q', w')
      | (Err e, w') \<Rightarrow> (Finished (Err e), w')
      | (Panic, w') \<Rightarrow> (Finished Panic, w'))"

partial_function (option) drive ::
  "('w, 's, 'q, 'a, 'e) turn \<Rightarrow> ('s, 'q, 'a, 'e) task \<Rightarrow> 'w \<Rightarrow> (('a, 'e) outcome \<times> 'w) option" where
  "drive turn t w =
     (case t of
        Finished r \<Rightarrow> Some (r, w)
      | Awaiting s q \<Rightarrow> drive turn (fst (poll turn t w)) (snd (poll turn t w)))"

fun polled ::
  "('w, 's, 'q, 'a, 'e) turn \<Rightarrow> ('w \<Rightarrow> 'w) list \<Rightarrow> ('s, 'q, 'a, 'e) task \<Rightarrow> 'w \<Rightarrow> ('s, 'q, 'a, 'e) task \<times> 'w" where
  "polled turn [] t w = (t, w)"
| "polled turn (env # envs) t w = (case poll turn t (env w) of (t', w') \<Rightarrow> polled turn envs t' w')"

lemma drive_Finished [simp]: "drive turn (Finished r) w = Some (r, w)"
  by (simp add: drive.simps)

lemma drive_Awaiting:
  "drive turn (Awaiting s q) w = (case poll turn (Awaiting s q) w of (t, w') \<Rightarrow> drive turn t w')"
  by (subst drive.simps) (simp add: split_beta)

lemma polled_Finished [simp]: "fst (polled turn envs (Finished r) w) = Finished r"
  by (induction envs arbitrary: w) auto

lemma poll_Awaiting_iff:
  "poll turn (Awaiting s q) w = (Awaiting s' q', w') \<longleftrightarrow> turn s q w = (Ok (Inr (s', q')), w')"
  by (auto split: prod.splits outcome.splits sum.splits)

text \<open>
  The contract of a flow: every turn that does not finish makes progress, and the turns are those of
  a synchronous loop. Then the executor returns, however it is scheduled, and alone it computes what
  the loop computes.
\<close>

locale progressing =
  fixes turn :: "('w, 's, 'q, 'a, 'e) turn"
    and left :: "'s \<Rightarrow> 'q \<Rightarrow> nat"
  assumes progress: "turn s q w = (Ok (Inr (s', q')), w') \<Longrightarrow> left s' q' < left s q"
begin

lemma polled_finishes:
  "left s q < length envs \<Longrightarrow> \<exists>r. fst (polled turn envs (Awaiting s q) w) = Finished r"
proof (induction envs arbitrary: s q w)
  case (Cons env envs)
  obtain t w' where t: "poll turn (Awaiting s q) (env w) = (t, w')" by fastforce
  show ?case
  proof (cases t)
    case (Awaiting s' q')
    then have "left s' q' < left s q"
      using t progress by (simp only: poll_Awaiting_iff)
    then show ?thesis
      using Cons.IH [of s' q' w'] Cons.prems t Awaiting by simp
  next
    case (Finished r)
    then show ?thesis using t by simp
  qed
qed simp

end

locale looping = progressing turn left
  for turn :: "('w, 's, 'q, 'a, 'e) turn" and left :: "'s \<Rightarrow> 'q \<Rightarrow> nat" +
  fixes loop :: "'s \<Rightarrow> 'q \<Rightarrow> ('w, 'a, 'e) action"
  assumes loop_turn: "loop s q w =
    (case turn s q w of
       (Ok (Inl r), w') \<Rightarrow> (r, w')
     | (Ok (Inr (s', q')), w') \<Rightarrow> loop s' q' w'
     | (Err e, w') \<Rightarrow> (Err e, w')
     | (Panic, w') \<Rightarrow> (Panic, w'))"
begin

lemma drive_loop: "drive turn (Awaiting s q) w = Some (loop s q w)"
proof (induction "left s q" arbitrary: s q w rule: less_induct)
  case less
  obtain x w' where x: "turn s q w = (x, w')" by fastforce
  show ?case
  proof (cases x)
    case (Ok y)
    show ?thesis
    proof (cases y)
      case (Inr z)
      then show ?thesis
        using less.hyps [of "fst z" "snd z" w'] progress [of s q w "fst z" "snd z" w'] x Ok
        by (simp add: drive_Awaiting loop_turn [of s q] split_beta)
    qed (simp add: drive_Awaiting loop_turn [of s q] x Ok)
  qed (simp_all add: drive_Awaiting loop_turn [of s q] x)
qed

end

section \<open>Primitives\<close>

text \<open>Every synchronous primitive is an asynchronous one: each method calls the other and is ready at once.\<close>

definition async_authorizer :: "('w, 'u) authorizer_ops \<Rightarrow> ('w, 'u) authorizer_ops" where
  "async_authorizer a =
     \<lparr> az_authorize = (\<lambda>grant. az_authorize a grant), az_extract = (\<lambda>token. az_extract a token) \<rparr>"

definition async_issuer :: "('w, 'u) issuer_ops \<Rightarrow> ('w, 'u) issuer_ops" where
  "async_issuer i =
     \<lparr> is_issue = (\<lambda>now grant. is_issue i now grant),
       is_refresh = (\<lambda>now token grant. is_refresh i now token grant),
       is_recover_token = (\<lambda>token. is_recover_token i token),
       is_recover_refresh = (\<lambda>token. is_recover_refresh i token) \<rparr>"

definition async_registrar :: "'u registrar \<Rightarrow> 'u registrar" where
  "async_registrar r =
     \<lparr> rg_bound_redirect = (\<lambda>bound. rg_bound_redirect r bound),
       rg_negotiate = (\<lambda>client scope. rg_negotiate r client scope),
       rg_check = (\<lambda>client_id passphrase. rg_check r client_id passphrase) \<rparr>"

lemma async_primitives [simp]:
  "async_authorizer a = a" "async_issuer i = i" "async_registrar r = r"
  by (simp_all add: async_authorizer_def async_issuer_def async_registrar_def)

section \<open>The executors\<close>

text \<open>\<open>Result\<close> or request, as the last statement of each loop body.\<close>

definition next_turn :: "'s \<Rightarrow> ('a, 'e) outcome + 'q \<Rightarrow> ('a, 'e) outcome + 's \<times> 'q" where
  "next_turn s r = map_sum id (Pair s) r"

text \<open>Access tokens.\<close>

fun async_at_answer ::
  "('w, 'u) at_endpoint \<Rightarrow> at_request \<Rightarrow> time \<Rightarrow> 'u at_requested \<Rightarrow> ('w, 'u at_input, 'u at_error) action" where
  "async_at_answer E request now AtqNone = ret AtiNone"
| "async_at_answer E request now (AtqAuthenticate client passdata) = (\<lambda>w.
     (bind_oc (map_err (\<lambda>err. case err of Unspecified \<Rightarrow> at_unauthorized ''basic''
                  | RegPrimitiveError \<Rightarrow> AtPrimitive primitive_error_empty)
                (rg_check (ate_registrar E w) client passdata)) (\<lambda>_. Ok AtiAuthenticated), w))"
| "async_at_answer E request now (AtqRecover code) =
     bind_ac (err_ac (\<lambda>_. AtPrimitive primitive_error_empty) (az_extract (ate_authorizer E) code))
       (\<lambda>opt_grant. ret (AtiRecovered opt_grant))"
| "async_at_answer E request now (AtqExtend exts) =
     bind_ac (err_ac (\<lambda>_. at_invalid) (ate_extension E request exts))
       (\<lambda>access_extensions. ret (AtiExtended access_extensions))"
| "async_at_answer E request now (AtqIssue grant) =
     bind_ac (err_ac (\<lambda>_. AtPrimitive primitive_error_empty) (is_issue (ate_issuer E) now grant))
       (\<lambda>token. ret (AtiIssued token))"

fun async_at_request_of :: "'u at_output \<Rightarrow> (bearer_token, 'u at_error) outcome + 'u at_requested" where
  "async_at_request_of (AtoAuthenticate client passdata) = Inr (AtqAuthenticate client passdata)"
| "async_at_request_of (AtoRecover code) = Inr (AtqRecover code)"
| "async_at_request_of (AtoExtend exts) = Inr (AtqExtend exts)"
| "async_at_request_of (AtoIssue grant) = Inr (AtqIssue grant)"
| "async_at_request_of (AtoOk token) = Inl (Ok token)"
| "async_at_request_of (AtoErr e) = Inl (Err e)"

definition async_at_turn ::
  "(string fset \<Rightarrow> string list) \<Rightarrow> ('w, 'u) at_endpoint \<Rightarrow> at_request \<Rightarrow> time \<Rightarrow> time
    \<Rightarrow> ('w, 'u at_state, 'u at_requested, bearer_token, 'u at_error) turn" where
  "async_at_turn it E request rnow inow s requested =
     bind_ac (async_at_answer E request inow requested) (\<lambda>input.
       case at_advance it rnow s input of (s', out) \<Rightarrow> ret (next_turn s' (async_at_request_of out)))"

definition async_at_task ::
  "'u url_lib \<Rightarrow> at_request \<Rightarrow> ('u at_state, 'u at_requested, bearer_token, 'u at_error) task" where
  "async_at_task U request = Awaiting (at_new U request) AtqNone"

definition async_access_token ::
  "'u url_lib \<Rightarrow> (string fset \<Rightarrow> string list) \<Rightarrow> ('w, 'u) at_endpoint \<Rightarrow> at_request \<Rightarrow> time \<Rightarrow> time \<Rightarrow> 'w
    \<Rightarrow> ((bearer_token, 'u at_error) outcome \<times> 'w) option" where
  "async_access_token U it E request rnow inow =
     drive (async_at_turn it E request rnow inow) (async_at_task U request)"

text \<open>Refresh.\<close>

fun async_rf_answer ::
  "('w, 'u) rf_endpoint \<Rightarrow> rf_request \<Rightarrow> time \<Rightarrow> 'u rf_requested \<Rightarrow> ('w, 'u rf_input, rf_error) action" where
  "async_rf_answer E request inow RfqNone = ret RfiNone"
| "async_rf_answer E request inow (RfqRefresh token grant) =
     bind_ac (err_ac (\<lambda>_. RfPrimitive) (is_refresh (rfe_issuer E) inow token grant))
       (\<lambda>refreshed. ret (RfiRefreshed refreshed))"
| "async_rf_answer E request inow (RfqRecoverRefresh token) =
     bind_ac (err_ac (\<lambda>_. RfPrimitive) (is_recover_refresh (rfe_issuer E) token))
       (\<lambda>recovered. ret (RfiRecovered (rfr_scope request) recovered))"
| "async_rf_answer E request inow (RfqAuthenticate client pass) = (\<lambda>w.
     (bind_oc (map_err (\<lambda>err. case err of RegPrimitiveError \<Rightarrow> RfPrimitive
                  | Unspecified \<Rightarrow> rf_unauthorized ''basic'')
                (rg_check (rfe_registrar E w) client pass))
        (\<lambda>_. Ok (RfiAuthenticated (rfr_scope request))), w))"

fun async_rf_request_of :: "'u rf_output \<Rightarrow> (rf_bearer_token, rf_error) outcome + 'u rf_requested" where
  "async_rf_request_of (RfoErr error) = Inl (Err error)"
| "async_rf_request_of (RfoOk token) = Inl (Ok token)"
| "async_rf_request_of (RfoRefresh token grant) = Inr (RfqRefresh token grant)"
| "async_rf_request_of (RfoRecoverRefresh token) = Inr (RfqRecoverRefresh token)"
| "async_rf_request_of (RfoUnauthenticated client pass) = Inr (RfqAuthenticate client pass)"

definition async_rf_turn ::
  "(string fset \<Rightarrow> string list) \<Rightarrow> ('w, 'u) rf_endpoint \<Rightarrow> rf_request \<Rightarrow> time \<Rightarrow> time \<Rightarrow> time
    \<Rightarrow> ('w, 'u rf_state, 'u rf_requested, rf_bearer_token, rf_error) turn" where
  "async_rf_turn it E request now now' inow s requested =
     bind_ac (async_rf_answer E request inow requested) (\<lambda>input.
       case rf_advance it now now' s input of (s', out) \<Rightarrow> ret (next_turn s' (async_rf_request_of out)))"

definition async_refresh ::
  "(string fset \<Rightarrow> string list) \<Rightarrow> ('w, 'u) rf_endpoint \<Rightarrow> rf_request \<Rightarrow> time \<Rightarrow> time \<Rightarrow> time \<Rightarrow> 'w
    \<Rightarrow> ((rf_bearer_token, rf_error) outcome \<times> 'w) option" where
  "async_refresh it E request now now' inow =
     drive (async_rf_turn it E request now now' inow) (Awaiting (rf_new request) RfqNone)"

text \<open>Resources.\<close>

fun async_resource_answer ::
  "('w, 'u) resource_endpoint \<Rightarrow> resource_request \<Rightarrow> resource_requested
    \<Rightarrow> ('w, 'u resource_input, resource_error) action" where
  "async_resource_answer E req RrqNone = ret RiNone"
| "async_resource_answer E req RrqRequest = ret (RiRequest req)"
| "async_resource_answer E req RrqScopes = (\<lambda>w.
     case re_scopes E w of (Some scopes, w') \<Rightarrow> (Ok (RiScopes scopes), w') | (None, w') \<Rightarrow> (Panic, w'))"
| "async_resource_answer E req (RrqGrant token) =
     bind_ac (err_ac (\<lambda>_. ResPrimitiveError) (is_recover_token (re_issuer E) token))
       (\<lambda>grant. ret (RiRecovered grant))"

fun async_resource_request_of ::
  "'u resource_output \<Rightarrow> ('u grant, resource_error) outcome + resource_requested" where
  "async_resource_request_of (RoErr error) = Inl (Err error)"
| "async_resource_request_of (RoOk grant) = Inl (Ok grant)"
| "async_resource_request_of RoGetRequest = Inr RrqRequest"
| "async_resource_request_of RoDetermineScopes = Inr RrqScopes"
| "async_resource_request_of (RoRecover token) = Inr (RrqGrant token)"

definition async_resource_turn ::
  "('w, 'u) resource_endpoint \<Rightarrow> resource_request \<Rightarrow> time
    \<Rightarrow> ('w, resource_state, resource_requested, 'u grant, resource_error) turn" where
  "async_resource_turn E req now s requested =
     bind_ac (async_resource_answer E req requested) (\<lambda>input.
       case resource_advance now s input of (s', out) \<Rightarrow> ret (next_turn s' (async_resource_request_of out)))"

definition async_protect ::
  "('w, 'u) resource_endpoint \<Rightarrow> resource_request \<Rightarrow> time \<Rightarrow> 'w
    \<Rightarrow> (('u grant, resource_error) outcome \<times> 'w) option" where
  "async_protect E req now = drive (async_resource_turn E req now) (Awaiting RsNew RrqNone)"

text \<open>Authorization: the endpoint of the asynchronous crate has no issuer, and consent is valid for ten
  minutes.\<close>

record ('w, 'u) async_auth_endpoint =
  aae_registrar :: "'w \<Rightarrow> 'u registrar"
  aae_authorizer :: "('w, 'u) authorizer_ops"
  aae_extension :: "auth_request \<Rightarrow> ('w, extensions, unit) action"

fun async_auth_answer ::
  "'u url_lib \<Rightarrow> ('w, 'u) async_auth_endpoint \<Rightarrow> auth_request \<Rightarrow> 'u registered_url option \<Rightarrow> 'u auth_requested
    \<Rightarrow> ('w, 'u auth_input \<times> 'u registered_url option, 'u auth_error) action" where
  "async_auth_answer U E request uri AuqNone = ret (AuiNone, uri)"
| "async_auth_answer U E request uri (AuqBind client_id redirect_uri) = (\<lambda>w.
     (map_ok (\<lambda>bc. (AuiBound request bc, Some (bc_redirect_uri bc)))
       (map_err (\<lambda>e. case e of Unspecified \<Rightarrow> AuIgnore | RegPrimitiveError \<Rightarrow> AuPrimitiveError)
         (rg_bound_redirect (aae_registrar E w)
           \<lparr> cu_client_id = client_id, cu_redirect_uri = redirect_uri \<rparr>)), w))"
| "async_auth_answer U E request uri AuqExtend = (\<lambda>w.
     case aae_extension E request w of
       (Ok extension_data, w') \<Rightarrow> (Ok (AuiExtended extension_data, uri), w')
     | (Err _, w') \<Rightarrow>
         (bind_oc (expect uri) (\<lambda>r. bind_oc (registered_into_url U r) (\<lambda>url.
            Err (AuRedirect (error_url_with_request U request url AeInvalidRequest)))), w')
     | (Panic, w') \<Rightarrow> (Panic, w'))"
| "async_auth_answer U E request uri (AuqNegotiate client_id redirect_uri scope) = (\<lambda>w.
     (map_ok (\<lambda>pre_grant. (AuiNegotiated pre_grant (aur_state request), uri))
       (map_err (\<lambda>e. case e of
            RegPrimitiveError \<Rightarrow> AuPrimitiveError
          | Unspecified \<Rightarrow> AuRedirect (error_url_with_request U request redirect_uri AeInvalidScope))
         (rg_negotiate (aae_registrar E w)
           \<lparr> bc_client_id = client_id, bc_redirect_uri = Semantic redirect_uri \<rparr> scope)), w))"

fun async_auth_request_of ::
  "'u url_lib \<Rightarrow> 'u auth_output \<Rightarrow> ('u pending, 'u auth_error) outcome + 'u auth_requested" where
  "async_auth_request_of U (AuoBind client_id redirect_uri) = Inr (AuqBind client_id redirect_uri)"
| "async_auth_request_of U AuoExtend = Inr AuqExtend"
| "async_auth_request_of U (AuoNegotiate bound_client scope) =
     (case registered_to_url U (bc_redirect_uri bound_client) of
        Ok url \<Rightarrow> Inr (AuqNegotiate (bc_client_id bound_client) url scope)
      | Err e \<Rightarrow> Inl (Err e)
      | Panic \<Rightarrow> Inl Panic)"
| "async_auth_request_of U (AuoOk pre_grant state exts) =
     Inl (Ok \<lparr> pd_pre_grant = pre_grant, pd_state = state, pd_extensions = exts \<rparr>)"
| "async_auth_request_of U (AuoErr e) = Inl (Err e)"

definition async_auth_turn ::
  "'u url_lib \<Rightarrow> ('w, 'u) async_auth_endpoint \<Rightarrow> auth_request
    \<Rightarrow> ('w, 'u auth_machine \<times> 'u registered_url option, 'u auth_requested, 'u pending, 'u auth_error) turn" where
  "async_auth_turn U E request = (\<lambda>(m, uri) requested.
     bind_ac (async_auth_answer U E request uri requested) (\<lambda>(input, uri').
     bind_ac (lift_oc (auth_advance U m input)) (\<lambda>(m', out).
     ret (next_turn (m', uri') (async_auth_request_of U out)))))"

definition async_authorization_code ::
  "'u url_lib \<Rightarrow> ('w, 'u) async_auth_endpoint \<Rightarrow> auth_request \<Rightarrow> 'w
    \<Rightarrow> (('u pending, 'u auth_error) outcome \<times> 'w) option" where
  "async_authorization_code U E request =
     drive (async_auth_turn U E request) (Awaiting (auth_new U request, None) AuqNone)"

definition async_as_solicitation :: "'u pending \<Rightarrow> 'u solicitation" where
  "async_as_solicitation p =
     (let base = solicitation_new (pd_pre_grant p)
      in case pd_state p of None \<Rightarrow> base | Some state \<Rightarrow> with_state base state)"

definition async_pending_deny :: "'u url_lib \<Rightarrow> 'u pending \<Rightarrow> ('u, 'u auth_error) outcome" where
  "async_pending_deny U p =
     bind_oc (registered_into_url U (pg_redirect_uri (pd_pre_grant p))) (\<lambda>url.
       Err (AuRedirect (error_url_new U url (pd_state p) (ae_set_type ae_default AeAccessDenied))))"

definition minutes :: "int \<Rightarrow> int" where
  "minutes n = seconds (60 * n)"

definition async_pending_authorize ::
  "'u url_lib \<Rightarrow> ('w, 'u) async_auth_endpoint \<Rightarrow> time \<Rightarrow> string \<Rightarrow> 'u pending \<Rightarrow> ('w, 'u, 'u auth_error) action" where
  "async_pending_authorize U E now owner_id p =
     bind_ac (lift_oc (registered_to_url U (pg_redirect_uri (pd_pre_grant p)))) (\<lambda>url.
     bind_ac (lift_oc (registered_into_url U (pg_redirect_uri (pd_pre_grant p)))) (\<lambda>redirect_uri.
     bind_ac (err_ac (\<lambda>_. AuPrimitiveError)
       (az_authorize (aae_authorizer E)
          \<lparr> g_owner_id = owner_id, g_client_id = pg_client_id (pd_pre_grant p),
            g_scope = pg_scope (pd_pre_grant p), g_redirect_uri = redirect_uri,
            g_until = now + minutes 10, g_extensions = pd_extensions p \<rparr>)) (\<lambda>grant.
     ret (url_extend_pairs U url
       ((''code'', grant) # (case pd_state p of Some v \<Rightarrow> [(''state'', v)] | None \<Rightarrow> []))))))"

section \<open>The executors and the synchronous ones\<close>

lemma next_turn_simps [simp]:
  "next_turn s (Inl r) = Inl r" "next_turn s (Inr q) = Inr (s, q)"
  by (simp_all add: next_turn_def)

lemma next_turn_Inr_iff: "next_turn s r = Inr (s', q') \<longleftrightarrow> s' = s \<and> r = Inr q'"
  by (cases r) auto

lemma async_answers:
  "async_at_answer E q now req = at_answer E q now req"
  "async_rf_answer F qf now reqf = rf_answer F qf now reqf"
  "async_resource_answer G qr reqr = resource_answer G qr reqr"
  by (cases req; cases reqf; cases reqr; simp)+

lemma async_requests:
  "async_at_request_of out = at_request_of out"
  "async_rf_request_of outf = rf_request_of outf"
  "async_resource_request_of outr = resource_request_of outr"
  by (cases out; cases outf; cases outr; simp)+

lemmas async_agrees = async_answers async_requests

interpretation at_flow: looping "async_at_turn it E request rnow inow" at_measure
  "at_loop it E request rnow inow"
  for it E request rnow inow
proof
  show "at_measure s' q' < at_measure s q"
    if "async_at_turn it E request rnow inow s q w = (Ok (Inr (s', q')), w')" for s q w s' q' w'
    using that
    by (auto simp: async_at_turn_def async_agrees bind_ac_Ok_iff next_turn_Inr_iff split_beta
        intro: at_measure_decreases [OF _ surjective_pairing])
  show "at_loop it E request rnow inow s q w =
      (case async_at_turn it E request rnow inow s q w of
         (Ok (Inl r), w') \<Rightarrow> (r, w')
       | (Ok (Inr (s', q')), w') \<Rightarrow> at_loop it E request rnow inow s' q' w'
       | (Err e, w') \<Rightarrow> (Err e, w') | (Panic, w') \<Rightarrow> (Panic, w'))" for s q w
    by (subst at_loop.simps)
      (auto simp: async_at_turn_def async_agrees bind_ac_def next_turn_def split: prod.splits outcome.splits sum.splits)
qed

interpretation rf_flow: looping "async_rf_turn it E request now now' inow" rf_measure
  "rf_loop it E request now now' inow"
  for it E request now now' inow
proof
  show "rf_measure s' q' < rf_measure s q"
    if "async_rf_turn it E request now now' inow s q w = (Ok (Inr (s', q')), w')" for s q w s' q' w'
    using that
    by (auto simp: async_rf_turn_def async_agrees bind_ac_Ok_iff next_turn_Inr_iff split_beta
        intro: rf_measure_decreases [OF _ surjective_pairing])
  show "rf_loop it E request now now' inow s q w =
      (case async_rf_turn it E request now now' inow s q w of
         (Ok (Inl r), w') \<Rightarrow> (r, w')
       | (Ok (Inr (s', q')), w') \<Rightarrow> rf_loop it E request now now' inow s' q' w'
       | (Err e, w') \<Rightarrow> (Err e, w') | (Panic, w') \<Rightarrow> (Panic, w'))" for s q w
    by (subst rf_loop.simps)
      (auto simp: async_rf_turn_def async_agrees bind_ac_def next_turn_def split: prod.splits outcome.splits sum.splits)
qed

interpretation rs_flow: looping "async_resource_turn E req now" resource_measure
  "resource_loop E req now"
  for E req now
proof
  show "resource_measure s' q' < resource_measure s q"
    if "async_resource_turn E req now s q w = (Ok (Inr (s', q')), w')" for s q w s' q' w'
    using that
    by (auto simp: async_resource_turn_def async_agrees bind_ac_Ok_iff next_turn_Inr_iff split_beta
        intro: resource_measure_decreases [OF _ surjective_pairing])
  show "resource_loop E req now s q w =
      (case async_resource_turn E req now s q w of
         (Ok (Inl r), w') \<Rightarrow> (r, w')
       | (Ok (Inr (s', q')), w') \<Rightarrow> resource_loop E req now s' q' w'
       | (Err e, w') \<Rightarrow> (Err e, w') | (Panic, w') \<Rightarrow> (Panic, w'))" for s q w
    by (subst resource_loop.simps)
      (auto simp: async_resource_turn_def async_agrees bind_ac_def next_turn_def split: prod.splits outcome.splits sum.splits)
qed

definition async_auth_measure ::
  "'u auth_machine \<times> 'u registered_url option \<Rightarrow> 'u auth_requested \<Rightarrow> nat" where
  "async_auth_measure s requested = auth_measure (fst s) requested"

definition sync_auth_endpoint :: "('w, 'u) issuer_ops \<Rightarrow> ('w, 'u) async_auth_endpoint \<Rightarrow> ('w, 'u) auth_endpoint" where
  "sync_auth_endpoint I E =
     \<lparr> aue_registrar = aae_registrar E, aue_authorizer = aae_authorizer E, aue_extension = aae_extension E,
       aue_issuer = I \<rparr>"

lemma async_auth_agrees:
  "async_auth_answer U E q uri req = auth_answer U (sync_auth_endpoint I E) q uri req"
  "async_auth_request_of U out = auth_request_of U out"
  by (cases req; cases out; simp add: sync_auth_endpoint_def)+

lemma async_auth_turn_Inr:
  assumes "async_auth_turn U E request s q w = (Ok (Inr (s', q')), w')"
  shows "async_auth_measure s' q' < async_auth_measure s q"
proof -
  obtain m uri where s: "s = (m, uri)" by fastforce
  have "\<exists>input uri' m' out. auth_answer U (sync_auth_endpoint I E) request uri q w = (Ok (input, uri'), w') \<and>
      auth_advance U m input = Ok (m', out) \<and> auth_request_of U out = Inr q' \<and> s' = (m', uri')" for I
    using assms
    by (auto simp: async_auth_turn_def s async_auth_agrees(1) [where I = I] async_auth_agrees(2) bind_ac_Ok_iff next_turn_Inr_iff
        split: prod.split_asm)
  then show ?thesis
    using auth_measure_decreases [of U _ request uri q w] by (fastforce simp: async_auth_measure_def s)
qed

interpretation au_flow: looping "async_auth_turn U E request" async_auth_measure
  "\<lambda>s. auth_loop U (sync_auth_endpoint I E) request (snd s) (fst s)"
  for U E request I
proof
  show "async_auth_measure s' q' < async_auth_measure s q"
    if "async_auth_turn U E request s q w = (Ok (Inr (s', q')), w')" for s q w s' q' w'
    using that by (rule async_auth_turn_Inr)
  show "auth_loop U (sync_auth_endpoint I E) request (snd s) (fst s) q w =
      (case async_auth_turn U E request s q w of
         (Ok (Inl r), w') \<Rightarrow> (r, w')
       | (Ok (Inr (s', q')), w') \<Rightarrow> auth_loop U (sync_auth_endpoint I E) request (snd s') (fst s') q' w'
       | (Err e, w') \<Rightarrow> (Err e, w') | (Panic, w') \<Rightarrow> (Panic, w'))" for s q w
    by (subst auth_loop.simps)
      (auto simp: async_auth_turn_def async_auth_agrees(1) [where I = I] async_auth_agrees(2) bind_ac_def next_turn_def
        split: prod.splits outcome.splits sum.splits)
qed

text \<open>An asynchronous executor that runs undisturbed returns what the synchronous executor returns, with
  the same effects, errors and panics included.\<close>

lemma async_executors_sync:
  "async_access_token U it E q rnow inow w = Some (access_token U it E q rnow inow w)"
  "async_refresh it F qf now now' inow w = Some (refresh it F qf now now' inow w)"
  "async_protect G qr now w = Some (protect G qr now w)"
  by (simp_all add: async_access_token_def async_at_task_def access_token_def async_refresh_def refresh_def
      async_protect_def protect_def at_flow.drive_loop rf_flow.drive_loop rs_flow.drive_loop)

lemma async_authorization_sync:
  "async_authorization_code U H qa w = Some (authorization_code U (sync_auth_endpoint I H) qa w)"
  by (simp add: async_authorization_code_def authorization_code_def au_flow.drive_loop [where I = I])

section \<open>Properties\<close>

lemma flow_measures:
  "at_measure s q < 10" "rf_measure sf qf < 10" "resource_measure sr qr < 10" "async_auth_measure sa qa < 10"
proof -
  show "at_measure s q < 10" by (cases s) (simp_all add: at_measure_def)
  show "rf_measure sf qf < 10" by (cases sf) (simp_all add: rf_measure_def)
  show "resource_measure sr qr < 10" by (cases sr) (simp_all add: resource_measure_def)
  show "async_auth_measure sa qa < 10"
    by (cases "am_state (fst sa)") (simp_all add: async_auth_measure_def auth_measure_def)
qed

text \<open>
  C18: an asynchronous executor returns under every schedule. Whatever other tasks do to the shared state
  before each poll, a flow that is polled ten times is finished; no flow can be kept waiting by a
  changing state.
\<close>

theorem async_tasks_finish:
  assumes "10 \<le> length envs"
  shows "(\<exists>r. fst (polled (async_at_turn it E q rnow inow) envs (async_at_task U q) w) = Finished r) \<and>
    (\<exists>r. fst (polled (async_rf_turn it F qf now now' inow) envs (Awaiting (rf_new qf) RfqNone) w) = Finished r) \<and>
    (\<exists>r. fst (polled (async_resource_turn G qr now) envs (Awaiting RsNew RrqNone) w) = Finished r) \<and>
    (\<exists>r. fst (polled (async_auth_turn U H qa) envs (Awaiting (auth_new U qa, None) AuqNone) w) = Finished r)"
  unfolding async_at_task_def
  by (intro conjI at_flow.polled_finishes rf_flow.polled_finishes rs_flow.polled_finishes
      au_flow.polled_finishes; rule less_le_trans [OF _ assms], rule flow_measures)

theorem async_tasks_finish_witness:
  "\<exists>r. fst (polled (async_at_turn example_order example_at_endpoint example_at_request 3 4)
     (replicate 10 (\<lambda>_. [''code'' \<mapsto> example_grant])) (async_at_task url_identity example_at_request) Map.empty)
   = Finished r"
  by (rule async_tasks_finish [THEN conjunct1]) simp

end
