(* ===== verification/Simple.thy ===== *)
theory Simple
  imports Endpoint
begin

text \<open>
  The simple frontend (\<open>oxide-auth/src/frontends/simple/\<close>): owned requests and responses, the endpoint
  \<open>Generic\<close> made of exchangeable parts with the marker \<open>Vacant\<close> for missing ones, its wrappers, and
  the functions that build ad-hoc flows. The properties describe the complete exchange of a web
  request for a web response.
\<close>

section \<open>Requests and responses\<close>

record simple_request =
  sq_query :: "(string, string) fmap"
  sq_urlbody :: "(string, string) fmap"
  sq_auth :: "string option"

datatype simple_status = SsOk | SsRedirect | SsBadRequest | SsUnauthorized

datatype simple_body = BodyText string | BodyJson string

record 'u simple_response =
  sr_status :: simple_status
  sr_location :: "'u option"
  sr_www_authenticate :: "string option"
  sr_body :: "simple_body option"

definition status_default :: simple_status where
  "status_default = SsOk"

definition simple_response_default :: "'u simple_response" where
  "simple_response_default =
     \<lparr> sr_status = status_default, sr_location = None, sr_www_authenticate = None, sr_body = None \<rparr>"

fun body_as_str :: "simple_body \<Rightarrow> string" where
  "body_as_str (BodyText body) = body"
| "body_as_str (BodyJson body) = body"

text \<open>Neither has errors: the error type is arbitrary.\<close>

definition string_map_query :: "(string, string) fmap \<Rightarrow> query_object" where
  "string_map_query m =
     \<lparr> qo_unique_value = map_unique_value unique_str m, qo_normalize = map_normalize unique_str m \<rparr>"

definition simple_web_request :: "simple_request \<Rightarrow> 'e web_request" where
  "simple_web_request r =
     \<lparr> wr_query = Inr (string_map_query (sq_query r)), wr_urlbody = Inr (string_map_query (sq_urlbody r)),
       wr_authheader = Inr (sq_auth r) \<rparr>"

definition simple_response_ops :: "('u simple_response, 'u, 'e) response_ops" where
  "simple_response_ops = \<lparr>
     ws_ok = (\<lambda>p. Inr (p\<lparr> sr_status := SsOk, sr_location := None, sr_www_authenticate := None \<rparr>)),
     ws_redirect = (\<lambda>url p. Inr (p\<lparr> sr_status := SsRedirect, sr_location := Some url, sr_www_authenticate := None \<rparr>)),
     ws_client_error = (\<lambda>p. Inr (p\<lparr> sr_status := SsBadRequest, sr_location := None, sr_www_authenticate := None \<rparr>)),
     ws_unauthorized = (\<lambda>header p.
       Inr (p\<lparr> sr_status := SsUnauthorized, sr_location := None, sr_www_authenticate := Some header \<rparr>)),
     ws_body_text = (\<lambda>txt p. Inr (p\<lparr> sr_body := Some (BodyText txt) \<rparr>)),
     ws_body_json = (\<lambda>data p. Inr (p\<lparr> sr_body := Some (BodyJson data) \<rparr>)) \<rparr>"

text \<open>\<open>MapErr\<close> maps the errors of another request or response.\<close>

definition map_error :: "('e \<Rightarrow> 't) \<Rightarrow> 'e + 'a \<Rightarrow> 't + 'a" where
  "map_error f r = (case r of Inl e \<Rightarrow> Inl (f e) | Inr a \<Rightarrow> Inr a)"

definition map_err_request :: "('e \<Rightarrow> 't) \<Rightarrow> 'e web_request \<Rightarrow> 't web_request" where
  "map_err_request f r =
     \<lparr> wr_query = map_error f (wr_query r), wr_urlbody = map_error f (wr_urlbody r),
       wr_authheader = map_error f (wr_authheader r) \<rparr>"

definition map_err_response :: "('e \<Rightarrow> 't) \<Rightarrow> ('p, 'u, 'e) response_ops \<Rightarrow> ('p, 'u, 't) response_ops" where
  "map_err_response f R = \<lparr>
     ws_ok = (\<lambda>p. map_error f (ws_ok R p)),
     ws_redirect = (\<lambda>url p. map_error f (ws_redirect R url p)),
     ws_client_error = (\<lambda>p. map_error f (ws_client_error R p)),
     ws_unauthorized = (\<lambda>header p. map_error f (ws_unauthorized R header p)),
     ws_body_text = (\<lambda>txt p. map_error f (ws_body_text R txt p)),
     ws_body_json = (\<lambda>data p. map_error f (ws_body_json R data p)) \<rparr>"

section \<open>The generic endpoint\<close>

datatype 'e simple_error = SeWeb 'e | SeOAuth oauth_error

fun error_pack :: "('e \<Rightarrow> 't) \<Rightarrow> (oauth_error \<Rightarrow> 't) \<Rightarrow> 'e simple_error \<Rightarrow> 't" where
  "error_pack web oauth (SeWeb err) = web err"
| "error_pack web oauth (SeOAuth err) = oauth err"

record ('w, 'u, 'p, 'e) generic =
  gn_registrar :: "'w \<Rightarrow> 'u registrar option"
  gn_authorizer :: "'w \<Rightarrow> ('w, 'u) authorizer_ops option"
  gn_issuer :: "'w \<Rightarrow> ('w, 'u) issuer_ops option"
  gn_solicitor :: "('w, 'u, 'p, 'e) solicitor"
  gn_scopes :: "('w, 'e) scopes_provider"
  gn_response :: "'e web_request \<Rightarrow> inner_template \<Rightarrow> 'w \<Rightarrow> ('p \<times> inner_template) \<times> 'w"

definition generic_endpoint ::
  "('w, 'u, 'p, 'e) generic \<Rightarrow> ('w, 'u, 'p, 'e, 'e simple_error) endpoint" where
  "generic_endpoint G =
     \<lparr> ep_registrar = gn_registrar G, ep_authorizer = gn_authorizer G, ep_issuer = gn_issuer G,
       ep_owner_solicitor = (\<lambda>w. Some (gn_solicitor G)), ep_scopes = (\<lambda>w. Some (gn_scopes G)),
       ep_response = (\<lambda>request kind w. case gn_response G request kind w of (p, w') \<Rightarrow> (Ok p, w')),
       ep_error = (\<lambda>err w. (SeOAuth err, w)), ep_web_error = (\<lambda>err w. (SeWeb err, w)),
       ep_extension = (\<lambda>w. None) \<rparr>"

definition with_solicitor ::
  "('w, 'u, 'p, 'e) generic \<Rightarrow> ('w, 'u, 'p, 'e) solicitor \<Rightarrow> ('w, 'u, 'p, 'e) generic" where
  "with_solicitor G new_solicitor = G\<lparr> gn_solicitor := new_solicitor \<rparr>"

definition with_scopes ::
  "('w, 'u, 'p, 'e) generic \<Rightarrow> ('w, 'e) scopes_provider \<Rightarrow> ('w, 'u, 'p, 'e) generic" where
  "with_scopes G new_scopes = G\<lparr> gn_scopes := new_scopes \<rparr>"

text \<open>A provided primitive, and the vacant parts.\<close>

definition opt_primitive :: "('w \<Rightarrow> 'a) \<Rightarrow> 'w \<Rightarrow> 'a option" where
  "opt_primitive f w = Some (f w)"

definition vacant_primitive :: "'w \<Rightarrow> 'a option" where
  "vacant_primitive w = None"

definition vacant_solicitor :: "('w, 'u, 'p, 'e) solicitor" where
  "vacant_solicitor request solicitation = (\<lambda>w. (Some Denied, w))"

definition vacant_scopes :: "('w, 'e) scopes_provider" where
  "vacant_scopes request = (\<lambda>w. ([], w))"

definition vacant_response ::
  "'e web_request \<Rightarrow> inner_template \<Rightarrow> 'w \<Rightarrow> ('u simple_response \<times> inner_template) \<times> 'w" where
  "vacant_response request kind = (\<lambda>w. ((simple_response_default, kind), w))"

definition fn_response ::
  "('w \<Rightarrow> 'p \<times> 'w) \<Rightarrow> 'e web_request \<Rightarrow> inner_template \<Rightarrow> 'w \<Rightarrow> ('p \<times> inner_template) \<times> 'w" where
  "fn_response f request kind = (\<lambda>w. case f w of (p, w') \<Rightarrow> ((p, kind), w'))"

definition fn_solicitor :: "('w, 'u, 'p, 'e) solicitor \<Rightarrow> ('w, 'u, 'p, 'e) solicitor" where
  "fn_solicitor f request solicitation = f request solicitation"

record 'u approved_grant =
  ag_owner :: string
  ag_grant :: "'u pre_grant"

text \<open>The derived equality of pre-grants compares all three components; that of registered URLs is
  derived too.\<close>

definition approved_solicitor :: "'u approved_grant \<Rightarrow> ('w, 'u, 'p, 'e) solicitor" where
  "approved_solicitor a request solicitation = (\<lambda>w.
     (Some (if ag_grant a = solicitation_pre_grant solicitation then Authorized (ag_owner a) else Denied), w))"

section \<open>Wrappers of endpoints\<close>

definition error_into ::
  "('x \<Rightarrow> 'y) \<Rightarrow> ('w, 'u, 'p, 'e, 'x) endpoint \<Rightarrow> ('w, 'u, 'p, 'e, 'y) endpoint" where
  "error_into f E =
     \<lparr> ep_registrar = ep_registrar E, ep_authorizer = ep_authorizer E, ep_issuer = ep_issuer E,
       ep_owner_solicitor = ep_owner_solicitor E, ep_scopes = ep_scopes E,
       ep_response = (\<lambda>request kind. err_ac f (ep_response E request kind)),
       ep_error = (\<lambda>err w. case ep_error E err w of (x, w') \<Rightarrow> (f x, w')),
       ep_web_error = (\<lambda>err w. case ep_web_error E err w of (x, w') \<Rightarrow> (f x, w')),
       ep_extension = ep_extension E \<rparr>"

record ('w, 'u, 'p, 'e, 'x) extended =
  xd_inner :: "('w, 'u, 'p, 'e, 'x) endpoint"
  xd_addons :: "'w extension_ops"

definition extended_new :: "('w, 'u, 'p, 'e, 'x) endpoint \<Rightarrow> ('w, 'u, 'p, 'e, 'x) extended" where
  "extended_new inner = \<lparr> xd_inner = inner, xd_addons = addon_list_extension addon_list_new \<rparr>"

definition extend_with ::
  "('w, 'u, 'p, 'e, 'x) endpoint \<Rightarrow> 'w extension_ops \<Rightarrow> ('w, 'u, 'p, 'e, 'x) extended" where
  "extend_with inner extension = \<lparr> xd_inner = inner, xd_addons = extension \<rparr>"

definition extended_endpoint :: "('w, 'u, 'p, 'e, 'x) extended \<Rightarrow> ('w, 'u, 'p, 'e, 'x) endpoint" where
  "extended_endpoint X =
     \<lparr> ep_registrar = ep_registrar (xd_inner X), ep_authorizer = ep_authorizer (xd_inner X),
       ep_issuer = ep_issuer (xd_inner X), ep_owner_solicitor = ep_owner_solicitor (xd_inner X),
       ep_scopes = ep_scopes (xd_inner X), ep_response = ep_response (xd_inner X),
       ep_error = ep_error (xd_inner X), ep_web_error = ep_web_error (xd_inner X),
       ep_extension = (\<lambda>w. Some (xd_addons X)) \<rparr>"

section \<open>Ad-hoc flows\<close>

text \<open>\<open>match prepare(..) { Err(_) => unreachable!(), Ok(flow) => flow }\<close>.\<close>

definition prepared :: "('w, 'a, 'x) action \<Rightarrow> 'b \<Rightarrow> ('w, 'b, 'f) action" where
  "prepared m flow = (\<lambda>w. case m w of (Ok _, w') \<Rightarrow> (Ok flow, w') | (_, w') \<Rightarrow> (Panic, w'))"

definition generic_authorization_flow ::
  "('w, 'u, 'p, 'e) generic \<Rightarrow> ('w, ('w, 'u, 'p, 'e, 'e simple_error) endpoint, 'f) action" where
  "generic_authorization_flow G =
     (let E = generic_endpoint G in prepared (authorization_prepare E) E)"

definition generic_access_token_flow ::
  "('w, 'u, 'p, 'e) generic \<Rightarrow> ('w, ('w, 'u, 'p, 'e, 'e simple_error) access_token_flow, 'f) action" where
  "generic_access_token_flow G =
     (let E = generic_endpoint G
      in prepared (access_token_prepare E) \<lparr> atf_endpoint = E, atf_allow_credentials_in_body = False \<rparr>)"

definition generic_refresh_flow ::
  "('w, 'u, 'p, 'e) generic \<Rightarrow> ('w, ('w, 'u, 'p, 'e, 'e simple_error) endpoint, 'f) action" where
  "generic_refresh_flow G = (let E = generic_endpoint G in prepared (refresh_prepare E) E)"

definition generic_resource_flow ::
  "('w, 'u, 'p, 'e) generic \<Rightarrow> ('w, ('w, 'u, 'p, 'e, 'e simple_error) endpoint, 'f) action" where
  "generic_resource_flow G = (let E = generic_endpoint G in prepared (resource_prepare E) E)"

definition authorization_generic ::
  "('w \<Rightarrow> 'u registrar) \<Rightarrow> ('w, 'u) authorizer_ops \<Rightarrow> ('w, 'u, 'u simple_response, 'e) solicitor
    \<Rightarrow> ('w, 'u, 'u simple_response, 'e) generic" where
  "authorization_generic registrar authz solicitor =
     \<lparr> gn_registrar = opt_primitive registrar, gn_authorizer = opt_primitive (\<lambda>w. authz),
       gn_issuer = vacant_primitive, gn_solicitor = solicitor, gn_scopes = vacant_scopes,
       gn_response = vacant_response \<rparr>"

definition access_token_generic ::
  "('w \<Rightarrow> 'u registrar) \<Rightarrow> ('w, 'u) authorizer_ops \<Rightarrow> ('w, 'u) issuer_ops
    \<Rightarrow> ('w, 'u, 'u simple_response, 'e) generic" where
  "access_token_generic registrar authz issuer =
     \<lparr> gn_registrar = opt_primitive registrar, gn_authorizer = opt_primitive (\<lambda>w. authz),
       gn_issuer = opt_primitive (\<lambda>w. issuer), gn_solicitor = vacant_solicitor, gn_scopes = vacant_scopes,
       gn_response = vacant_response \<rparr>"

definition refresh_generic ::
  "('w \<Rightarrow> 'u registrar) \<Rightarrow> ('w, 'u) issuer_ops \<Rightarrow> ('w, 'u, 'u simple_response, 'e) generic" where
  "refresh_generic registrar issuer =
     \<lparr> gn_registrar = opt_primitive registrar, gn_authorizer = vacant_primitive,
       gn_issuer = opt_primitive (\<lambda>w. issuer), gn_solicitor = vacant_solicitor, gn_scopes = vacant_scopes,
       gn_response = vacant_response \<rparr>"

definition resource_generic ::
  "('w, 'u) issuer_ops \<Rightarrow> scope list \<Rightarrow> ('w, 'u, 'u simple_response, 'e) generic" where
  "resource_generic issuer scopes =
     \<lparr> gn_registrar = vacant_primitive, gn_authorizer = vacant_primitive,
       gn_issuer = opt_primitive (\<lambda>w. issuer), gn_solicitor = vacant_solicitor,
       gn_scopes = slice_scopes scopes, gn_response = vacant_response \<rparr>"

definition authorization_flow ::
  "('w \<Rightarrow> 'u registrar) \<Rightarrow> ('w, 'u) authorizer_ops \<Rightarrow> ('w, 'u, 'u simple_response, 'e) solicitor
    \<Rightarrow> ('w, ('w, 'u, 'u simple_response, 'e, 'e simple_error) endpoint, 'f) action" where
  "authorization_flow registrar authz solicitor =
     (let E = generic_endpoint (authorization_generic registrar authz solicitor)
      in prepared (authorization_prepare E) E)"

definition access_token_flow_of ::
  "('w \<Rightarrow> 'u registrar) \<Rightarrow> ('w, 'u) authorizer_ops \<Rightarrow> ('w, 'u) issuer_ops
    \<Rightarrow> ('w, ('w, 'u, 'u simple_response, 'e, 'e simple_error) access_token_flow, 'f) action" where
  "access_token_flow_of registrar authz issuer =
     (let E = generic_endpoint (access_token_generic registrar authz issuer)
      in prepared (access_token_prepare E) \<lparr> atf_endpoint = E, atf_allow_credentials_in_body = False \<rparr>)"

definition refresh_flow ::
  "('w \<Rightarrow> 'u registrar) \<Rightarrow> ('w, 'u) issuer_ops
    \<Rightarrow> ('w, ('w, 'u, 'u simple_response, 'e, 'e simple_error) endpoint, 'f) action" where
  "refresh_flow registrar issuer =
     (let E = generic_endpoint (refresh_generic registrar issuer) in prepared (refresh_prepare E) E)"

definition resource_flow ::
  "('w, 'u) issuer_ops \<Rightarrow> scope list
    \<Rightarrow> ('w, ('w, 'u, 'u simple_response, 'e, 'e simple_error) endpoint, 'f) action" where
  "resource_flow issuer scopes =
     (let E = generic_endpoint (resource_generic issuer scopes) in prepared (resource_prepare E) E)"

section \<open>Evaluating responses\<close>

lemmas simple_defs = generic_endpoint_def authorization_generic_def access_token_generic_def
  refresh_generic_def resource_generic_def vacant_response_def simple_response_default_def
  simple_response_ops_def status_default_def web_result_def raise_oauth_def amended_def

lemma unwrap_opt [simp]:
  "unwrap_registrar (opt_primitive f) = f"
  "unwrap_authorizer (opt_primitive (\<lambda>w. a)) = a"
  "unwrap_issuer (opt_primitive (\<lambda>w. i)) = i"
  by (simp_all add: fun_eq_iff unwrap_registrar_def unwrap_authorizer_def unwrap_issuer_def
      with_primitive_def opt_primitive_def)

lemma generic_response:
  "gn_response G = vacant_response \<Longrightarrow>
     bind_ac (ep_response (generic_endpoint G) request kind) f w = f (simple_response_default, kind) w"
  by (simp add: generic_endpoint_def bind_ac_def vacant_response_def)

text \<open>The replies to errors, for a generic endpoint with default responses.\<close>

fun token_error_reply ::
  "wire_lib \<Rightarrow> 'u at_error \<Rightarrow> ('u simple_response, 'e simple_error) outcome" where
  "token_error_reply L (AtInvalid json) =
     Ok \<lparr> sr_status = SsBadRequest, sr_location = None, sr_www_authenticate = None,
          sr_body = Some (BodyJson (wl_error_json L (error_to_json json))) \<rparr>"
| "token_error_reply L (AtUnauthorized json scheme) =
     Ok \<lparr> sr_status = SsUnauthorized, sr_location = None, sr_www_authenticate = Some scheme,
          sr_body = Some (BodyJson (wl_error_json L (error_to_json json))) \<rparr>"
| "token_error_reply L (AtPrimitive _) = Err (SeOAuth OauthPrimitiveError)"

lemma token_error_response_simple:
  assumes "gn_response G = vacant_response"
  shows "token_error_response L simple_response_ops (generic_endpoint G) request error w
    = (token_error_reply L error, w)"
  by (cases error)
    (simp_all add: token_error_response_def assms Let_def bind_ac_def simple_defs)

fun auth_error_reply ::
  "'u url_lib \<Rightarrow> 'u auth_error \<Rightarrow> ('u simple_response, 'e simple_error) outcome" where
  "auth_error_reply U AuIgnore = Err (SeOAuth DenySilently)"
| "auth_error_reply U (AuRedirect target) =
     Ok \<lparr> sr_status = SsRedirect, sr_location = Some (error_url_into U target),
          sr_www_authenticate = None, sr_body = None \<rparr>"
| "auth_error_reply U AuPrimitiveError = Err (SeOAuth OauthPrimitiveError)"

lemma auth_error_response_simple:
  assumes "gn_response G = vacant_response"
  shows "authorization_error_response U simple_response_ops (generic_endpoint G) request error w
    = (auth_error_reply U error, w)"
  by (cases error)
    (simp_all add: authorization_error_response_def assms Let_def bind_ac_def simple_defs
      error_url_description_def)

definition redirect_reply :: "'u \<Rightarrow> 'u simple_response" where
  "redirect_reply url =
     \<lparr> sr_status = SsRedirect, sr_location = Some url, sr_www_authenticate = None, sr_body = None \<rparr>"

lemma convert_result_simple:
  assumes "gn_response G = vacant_response"
  shows "convert_result U simple_response_ops (generic_endpoint G) request result w =
    ((case result of Ok url \<Rightarrow> Ok (redirect_reply url) | Err e \<Rightarrow> auth_error_reply U e | Panic \<Rightarrow> Panic), w)"
  by (cases result)
    (simp_all add: convert_result_def auth_error_response_simple [OF assms],
     simp add: assms bind_ac_def simple_defs redirect_reply_def)

lemma ok_response_simple:
  assumes "gn_response G = vacant_response"
  shows "bind_ac (ep_response (generic_endpoint G) request TmOk)
      (\<lambda>(response, _). web_result (generic_endpoint G) (ws_body_json simple_response_ops data response)) w
    = (Ok \<lparr> sr_status = SsOk, sr_location = None, sr_www_authenticate = None,
           sr_body = Some (BodyJson data) \<rparr>, w)"
  by (simp add: assms bind_ac_def simple_defs)

section \<open>Properties\<close>

text \<open>
  The exchange of a token request. The ad-hoc access token flow answers every request exactly as
  the protocol machine decides: a token as a 200 reply with the token in the body, a protocol error
  as 400, failed authentication as 401 with the scheme, both with the error in the body; only a
  failing primitive leaves the client without a reply. The flow itself adds no effect and no panic.
\<close>

lemma token_flow_replies:
  "bind_ac (access_token_flow_of registrar authz issuer)
     (\<lambda>flow. access_token_execute U it L simple_response_ops flow request rnow inow now) w =
   (case access_token U it
       \<lparr> ate_registrar = registrar, ate_authorizer = authz, ate_issuer = issuer,
         ate_extension = at_no_extension \<rparr> (wrapped_token_request L request False) rnow inow w of
      (Ok token, w') \<Rightarrow>
        (Ok \<lparr> sr_status = SsOk, sr_location = None, sr_www_authenticate = None,
              sr_body = Some (BodyJson (wl_token_json L (bearer_to_json now token))) \<rparr>, w')
    | (Err error, w') \<Rightarrow> (token_error_reply L error, w')
    | (Panic, w') \<Rightarrow> (Panic, w'))"
proof -
  let ?G = "access_token_generic registrar authz issuer"
  have G: "gn_response ?G = vacant_response" by (simp add: access_token_generic_def)
  have wrapped: "wrapped_token (generic_endpoint ?G) =
      \<lparr> ate_registrar = registrar, ate_authorizer = authz, ate_issuer = issuer, ate_extension = at_no_extension \<rparr>"
    by (simp add: wrapped_token_def generic_endpoint_def access_token_generic_def fun_eq_iff)
  have prep: "access_token_flow_of registrar authz issuer w =
      (Ok \<lparr> atf_endpoint = generic_endpoint ?G, atf_allow_credentials_in_body = False \<rparr>, w)"
    by (simp add: access_token_flow_of_def Let_def prepared_def access_token_prepare_def
        generic_endpoint_def access_token_generic_def opt_primitive_def)
  show ?thesis
    unfolding bind_ac_step(1) [of "access_token_flow_of registrar authz issuer", OF prep]
      access_token_execute_def access_token_flow.simps Let_def wrapped
    by (auto simp: token_error_response_simple [OF G] ok_response_simple [OF G]
        split: prod.splits outcome.splits)
qed

text \<open>The authorization flow of a generic endpoint with default responses, in terms of the protocol.\<close>

lemma authorization_flow_prepared:
  "authorization_flow registrar authz sol w = (Ok (generic_endpoint (authorization_generic registrar authz sol)), w)"
  by (simp add: authorization_flow_def Let_def prepared_def authorization_prepare_def
      generic_endpoint_def authorization_generic_def opt_primitive_def)

text \<open>The methods of \<open>Generic\<close> are statically known to have the primitives they look for: construction
  never reaches \<open>unreachable!\<close>.\<close>

lemma generic_flows_constructed:
  assumes "gn_registrar G = opt_primitive registrar" and "gn_issuer G = opt_primitive issuer"
    and "gn_authorizer G = opt_primitive authz"
  shows "generic_authorization_flow G w = (Ok (generic_endpoint G), w)"
    and "generic_access_token_flow G w =
      (Ok \<lparr> atf_endpoint = generic_endpoint G, atf_allow_credentials_in_body = False \<rparr>, w)"
    and "generic_refresh_flow G w = (Ok (generic_endpoint G), w)"
    and "generic_resource_flow G w = (Ok (generic_endpoint G), w)"
  by (simp_all add: generic_authorization_flow_def generic_access_token_flow_def generic_refresh_flow_def
      generic_resource_flow_def Let_def prepared_def authorization_prepare_def access_token_prepare_def
      refresh_prepare_def resource_prepare_def generic_endpoint_def assms opt_primitive_def)

lemma wrapped_authorization_simple:
  "wrapped_authorization (generic_endpoint (authorization_generic registrar authz sol)) =
     \<lparr> aue_registrar = registrar, aue_authorizer = authz, aue_extension = auth_no_extension,
       aue_issuer = unwrap_issuer vacant_primitive \<rparr>"
  by (simp add: wrapped_authorization_def generic_endpoint_def authorization_generic_def fun_eq_iff)

lemma pending_finish_simple:
  "pending_finish U simple_response_ops (generic_endpoint (authorization_generic registrar authz sol))
      request now p w =
     (case sol request (as_solicitation p) w of
        (None, w') \<Rightarrow> (Panic, w')
      | (Some Denied, w') \<Rightarrow> (case pending_deny U p of Err e \<Rightarrow> (auth_error_reply U e, w')
            | Ok url \<Rightarrow> (Ok (redirect_reply url), w') | Panic \<Rightarrow> (Panic, w'))
      | (Some (InProgress response), w') \<Rightarrow> (Ok response, w')
      | (Some (Authorized who), w') \<Rightarrow>
          (case pending_authorize U
              \<lparr> aue_registrar = registrar, aue_authorizer = authz, aue_extension = auth_no_extension,
                aue_issuer = unwrap_issuer vacant_primitive \<rparr> now who p w' of
             (Ok url, w'') \<Rightarrow> (Ok (redirect_reply url), w'')
           | (Err e, w'') \<Rightarrow> (auth_error_reply U e, w'')
           | (Panic, w'') \<Rightarrow> (Panic, w''))
      | (Some (ConsentError err), w') \<Rightarrow> (Err (SeWeb err), w'))"
proof -
  let ?G = "authorization_generic registrar authz sol"
  have G: "gn_response ?G = vacant_response" by (simp add: authorization_generic_def)
  have ep: "ep_owner_solicitor (generic_endpoint ?G) w = Some sol"
    "ep_web_error (generic_endpoint ?G) err v = (SeWeb err, v)" for err v
    by (simp_all add: generic_endpoint_def authorization_generic_def)
  show ?thesis
    by (auto simp: pending_finish_def ep wrapped_authorization_simple convert_result_simple [OF G]
        split: option.splits owner_consent.splits prod.splits outcome.splits)
qed

lemma code_execute_simple:
  assumes "aur_response_type (wrapped_auth_request request) = Some ''code''"
  shows "authorization_execute U it L simple_response_ops
      (generic_endpoint (authorization_generic registrar authz sol)) request now inow rnow w =
    (case authorization_code U
        \<lparr> aue_registrar = registrar, aue_authorizer = authz, aue_extension = auth_no_extension,
          aue_issuer = unwrap_issuer vacant_primitive \<rparr> (wrapped_auth_request request) w of
       (Err err, w') \<Rightarrow> (auth_error_reply U err, w')
     | (Ok p, w') \<Rightarrow> pending_finish U simple_response_ops
           (generic_endpoint (authorization_generic registrar authz sol)) request now p w'
     | (Panic, w') \<Rightarrow> (Panic, w'))"
proof -
  have G: "gn_response (authorization_generic registrar authz sol) = vacant_response"
    by (simp add: authorization_generic_def)
  show ?thesis
    using assms
    by (auto simp: authorization_execute_def Let_def wrapped_authorization_simple
        auth_error_response_simple [OF G] split: prod.splits outcome.splits)
qed

text \<open>A URL with groups of pairs appended to its query, one after the other.\<close>

definition url_appended :: "'u url_lib \<Rightarrow> (string \<times> string) list list \<Rightarrow> 'u \<Rightarrow> 'u" where
  "url_appended U groups url = fold (\<lambda>pairs u. url_extend_pairs U u pairs) groups url"

lemma url_appended_eqs:
  "url_extend_pairs U url a = url_appended U [a] url"
  "url_appended U gs (url_appended U hs url) = url_appended U (hs @ gs) url"
  by (simp_all add: url_appended_def)

text \<open>
  C28: the exchange of an authorization request. Whatever the parameters of the request, the answers
  of the owner and the errors of the store: if the ad-hoc flow with the client map as registrar sends
  the user agent anywhere (other than by a page of the solicitor), it is to a URL registered for the
  client the request names and matching the requested one, with pairs appended to its query.
\<close>

theorem code_flow_redirects_registered:
  assumes "aur_response_type (wrapped_auth_request request) = Some ''code''"
    and "\<And>q s v page v'. sol q s v \<noteq> (Some (InProgress page), v')"
    and "authorization_execute U it L simple_response_ops
      (generic_endpoint (authorization_generic (\<lambda>w. client_map_registrar U A (clients w)) authz sol))
      request now inow rnow w = (Ok response, w')"
  shows "\<exists>url groups. registered_target U (cm_registered (clients w)) (wrapped_auth_request request) url \<and>
    sr_status response = SsRedirect \<and> sr_location response = Some (url_appended U groups url)"
proof -
  let ?q = "wrapped_auth_request request"
  let ?E = "\<lparr> aue_registrar = (\<lambda>w. client_map_registrar U A (clients w)), aue_authorizer = authz,
      aue_extension = auth_no_extension, aue_issuer = unwrap_issuer vacant_primitive \<rparr>"
  let ?target = "registered_target U (cm_registered (clients w)) ?q"
  have E: "?E\<lparr> aue_registrar := \<lambda>w. client_map_registrar U A (clients w) \<rparr> = ?E" by simp
  note red = cm_server.request_redirect [where U = U and E = ?E and A = A and clients = clients and q = ?q
        and w = w, unfolded E]
    and pend = cm_server.request_pending [where U = U and E = ?E and A = A and clients = clients and q = ?q
        and w = w, unfolded E]
  obtain r w1 where run: "authorization_code U ?E ?q w = (r, w1)" by fastforce
  note ex = assms(3) [unfolded code_execute_simple [OF assms(1)] run]
  show ?thesis
  proof (cases r)
    case (Err e)
    then obtain target where t: "e = AuRedirect target" "sr_location response = Some (error_url_into U target)"
        "sr_status response = SsRedirect"
      using ex by (cases e) auto
    then obtain url et where "?target url" "target = error_url_with_request U ?q url et"
      using red [of target w1] run Err by (auto simp: authorization_code_request)
    then show ?thesis
      using t by (auto simp: error_url_into_def error_url_with_request_def error_url_new_def
          error_url_new_generic_def url_appended_eqs)
  next
    case (Ok p)
    then obtain url where url: "?target url" "pg_redirect_uri (pd_pre_grant p) = Semantic url"
      using pend [of p w1] run by (auto simp: authorization_code_request)
    have deny: "\<exists>e. pending_deny U p = Err (AuRedirect e) \<and>
        (\<exists>groups. error_url_into U e = url_appended U groups url)"
      using url(2) by (auto simp: pending_deny_def registered_into_url_def error_url_new_generic_def
          error_url_into_def url_appended_eqs)
    have "sr_status response = SsRedirect \<and>
      (\<exists>groups. sr_location response = Some (url_appended U groups url))"
      using ex Ok url(2) deny assms(2)
      by (auto simp: pending_finish_simple pending_authorize_def bind_ac_def err_ac_def redirect_reply_def
          registered_to_url_def registered_into_url_def map_err_Err_iff url_appended_eqs
          split: option.splits owner_consent.splits prod.splits outcome.splits)
    then show ?thesis using url(1) by blast
  qed (use ex in simp)
qed

text \<open>The code grant request of the earlier example as a web request.\<close>

definition simple_code_request :: "string \<Rightarrow> simple_request" where
  "simple_code_request response_type = \<lparr> sq_query = fmap_of_list [(''client_id'', ''c''),
       (''redirect_uri'', ''https://b/''), (''state'', ''xyz''), (''response_type'', response_type)],
     sq_urlbody = fmempty, sq_auth = None \<rparr>"

lemma simple_code_wrapped:
  "aur_valid (wrapped_auth_request (simple_web_request (simple_code_request t)))"
  "aur_client_id (wrapped_auth_request (simple_web_request (simple_code_request t))) = Some ''c''"
  "aur_redirect_uri (wrapped_auth_request (simple_web_request (simple_code_request t))) = Some ''https://b/''"
  "aur_state (wrapped_auth_request (simple_web_request (simple_code_request t))) = Some ''xyz''"
  "aur_scope (wrapped_auth_request (simple_web_request (simple_code_request t))) = None"
  "aur_response_type (wrapped_auth_request (simple_web_request (simple_code_request t))) = Some t"
  by (simp_all add: wrapped_auth_request_def wrapped_query_request_def simple_web_request_def
      string_map_query_def map_unique_value_def unique_str_def simple_code_request_def)

lemma simple_deny_run:
  "authorization_execute url_identity example_order L simple_response_ops
     (generic_endpoint (authorization_generic
        (\<lambda>w. client_map_registrar url_identity spell_argon2 example_client_map)
        (aue_authorizer example_auth_endpoint) vacant_solicitor))
     (simple_web_request (simple_code_request ''code'')) 0 0 0 w =
   (Ok (redirect_reply ''https://b/&state=xyz&error=access_denied''), w)"
  by (simp add: code_execute_simple simple_code_wrapped authorization_code_request code_request_def
      bind_ac_def auth_params_def url_identity_def client_map_registrar_def cm_bound_redirect_def
      cm_negotiate_def example_client_map_def registered_eq_exact_def exact_to_url_def
      auth_requested_scope_def registered_to_url_def registered_into_url_def auth_no_extension_def
      pending_finish_simple vacant_solicitor_def pending_deny_def error_url_new_generic_def
      error_url_into_def ae_into_iter_def ae_set_type_def ae_default_def redirect_reply_def)

theorem code_flow_redirects_registered_witness:
  "\<exists>url groups. registered_target url_identity (cm_registered example_client_map)
      (wrapped_auth_request (simple_web_request (simple_code_request ''code''))) url \<and>
    ''https://b/&state=xyz&error=access_denied'' = url_appended url_identity groups url"
  using code_flow_redirects_registered [where clients = "\<lambda>_. example_client_map" and A = spell_argon2
      and w = "Map.empty" and L = "\<lparr> wl_token_json = (\<lambda>_. []), wl_error_json = (\<lambda>_. []),
        wl_base64_decode = (\<lambda>_. None) \<rparr>", OF _ _ simple_deny_run]
  by (auto simp: simple_code_wrapped vacant_solicitor_def redirect_reply_def)

lemma vacant_issuer_panics: "is_issue (unwrap_issuer vacant_primitive) inow g v = (Panic, v)"
  by (simp add: unwrap_issuer_def with_primitive_def vacant_primitive_def)

text \<open>
  C37: the ad-hoc authorization flow can be made to panic. Building it always succeeds, but it has no
  issuer, and the preparation does not look for one: any request with \<open>response_type=token\<close> that names
  a registered client, with a redirect URL and a scope the registrar accepts, reaches the \<open>unwrap\<close>
  of the missing issuer.
\<close>

theorem adhoc_authorization_flow_panics:
  fixes U :: "'u url_lib"
  assumes "request = (simple_web_request r :: 'e web_request)"
    and "fmlookup (sq_query r) ''response_type'' = Some ''token''"
    and "fmlookup (sq_query r) ''client_id'' = Some client"
    and "fmlookup (sq_query r) ''redirect_uri'' = Some uri" and "url_parse U uri \<noteq> None"
    and "fmlookup (sq_query r) ''scope'' = None"
    and "rg_bound_redirect (registrar w)
      \<lparr> cu_client_id = client, cu_redirect_uri = Some (ExactUrl uri) \<rparr> = Ok bc"
    and "rg_negotiate (registrar w) bc None = Ok pg"
  shows "\<exists>E. authorization_flow registrar authz sol w = (Ok E, w) \<and>
    authorization_execute U it L simple_response_ops E request now inow rnow w = (Panic, w)"
proof -
  let ?E = "generic_endpoint (authorization_generic registrar authz sol)"
  let ?q = "wrapped_auth_request request"
  have q: "aur_client_id ?q = Some client" "aur_redirect_uri ?q = Some uri" "aur_scope ?q = None"
      "aur_response_type ?q = Some ''token''"
    using assms(1-4,6)
    by (simp_all add: wrapped_auth_request_def wrapped_query_request_def simple_web_request_def
        string_map_query_def map_unique_value_def unique_str_def)
  have "authorization_token U it (wrapped_authorization ?E) ?q now inow w = (Panic, w)"
    unfolding wrapped_authorization_simple authorization_token_def
    using assms(5,7,8)
    by (cases "registered_to_url U (pg_redirect_uri pg) :: ('u, 'u at_error) outcome")
      (auto simp: q bind_ac_def err_ac_def exact_from_str_def token_scope_def Let_def
        registered_into_url_eq vacant_issuer_panics)
  then show ?thesis
    by (intro exI [of _ ?E]) (simp add: authorization_flow_prepared authorization_execute_def Let_def q)
qed

theorem adhoc_authorization_flow_panics_witness:
  "\<exists>E. authorization_flow (\<lambda>_. client_map_registrar url_identity spell_argon2 example_client_map)
      (aue_authorizer example_auth_endpoint) vacant_solicitor Map.empty = (Ok E, Map.empty) \<and>
    authorization_execute url_identity example_order
      \<lparr> wl_token_json = (\<lambda>_. []), wl_error_json = (\<lambda>_. []), wl_base64_decode = (\<lambda>_. None) \<rparr> simple_response_ops E
      (simple_web_request (simple_code_request ''token'')) 0 0 0 Map.empty = (Panic, Map.empty)"
  by (rule adhoc_authorization_flow_panics [OF refl, where client = "''c''" and uri = "''https://b/''"
        and bc = "\<lparr> bc_client_id = ''c'', bc_redirect_uri = Exact (ExactUrl ''https://b/'') \<rparr>"
        and pg = "\<lparr> pg_client_id = ''c'', pg_redirect_uri = Exact (ExactUrl ''https://b/''),
          pg_scope = \<lparr> tokens = {|''read''|} \<rparr> \<rparr>"])
    (simp_all add: simple_code_request_def url_identity_def client_map_registrar_def cm_bound_redirect_def
      cm_negotiate_def example_client_map_def registered_eq_exact_def exact_to_url_def)

end
