(* ===== verification/Async_Endpoint.thy ===== *)
theory Async_Endpoint
  imports Async Simple
begin

text \<open>
  The flows of the asynchronous crate (\<open>oxide-auth-async/src/endpoint\<close>). They follow the flows of the
  synchronous crate with three differences: a request is copied into normalized parameters before it
  is looked at, the authorization flow knows only authorization codes, and it has no issuer. The
  endpoint has the methods of the synchronous trait; an awaited solicitor is one atomic step. A flow
  is \<open>None\<close> if its executor does not return.
\<close>

section \<open>The authorization flow\<close>

definition async_wrapped_authorization ::
  "('w, 'u, 'p, 'e, 'x) endpoint \<Rightarrow> ('w, 'u) async_auth_endpoint" where
  "async_wrapped_authorization E =
     \<lparr> aae_registrar = unwrap_registrar (ep_registrar E),
       aae_authorizer = unwrap_authorizer (ep_authorizer E),
       aae_extension = (\<lambda>request w.
         case Option.bind (ep_extension E w) xo_authorization of
           Some x \<Rightarrow> x request w | None \<Rightarrow> auth_no_extension request w) \<rparr>"

text \<open>The request type of this crate has no \<open>user_id\<close>.\<close>

definition async_query_request :: "bool \<Rightarrow> normalized_parameter \<Rightarrow> auth_request" where
  "async_query_request ok query =
     \<lparr> aur_valid = ok, aur_client_id = np_unique_value query ''client_id'',
       aur_scope = np_unique_value query ''scope'', aur_redirect_uri = np_unique_value query ''redirect_uri'',
       aur_state = np_unique_value query ''state'',
       aur_response_type = np_unique_value query ''response_type'',
       aur_extension = np_unique_value query, aur_user_id = None \<rparr>"

definition async_wrapped_auth_request :: "'e web_request \<Rightarrow> auth_request" where
  "async_wrapped_auth_request request =
     (case wr_query request of
        Inr query \<Rightarrow> async_query_request True (query_to_owned query)
      | Inl err \<Rightarrow> async_query_request False np_new)"

definition async_authorization_prepare :: "('w, 'u, 'p, 'e, 'x) endpoint \<Rightarrow> ('w, unit, 'x) action" where
  "async_authorization_prepare E = (\<lambda>w.
     if ep_registrar E w = None then raise_oauth E OauthPrimitiveError w
     else if ep_authorizer E w = None then raise_oauth E OauthPrimitiveError w
     else (Ok (), w))"

definition async_authorization_error ::
  "'u url_lib \<Rightarrow> ('p, 'u, 'e) response_ops \<Rightarrow> ('w, 'u, 'p, 'e, 'x) endpoint \<Rightarrow> 'e web_request \<Rightarrow> 'u auth_error
    \<Rightarrow> ('w, 'p, 'x) action" where
  "async_authorization_error U R E request error =
     (case error of
        AuIgnore \<Rightarrow> raise_oauth E DenySilently
      | AuRedirect target \<Rightarrow>
          bind_ac (ep_response E request (template_new_redirect (Some (error_url_description target))))
            (\<lambda>(response, t).
          let target = target\<lparr> eu_error := amended (eu_error target) (template_authorization_error t) \<rparr> in
          web_result E (ws_redirect R (error_url_into U target) response))
      | AuPrimitiveError \<Rightarrow> raise_oauth E OauthPrimitiveError)"

definition async_convert_result ::
  "'u url_lib \<Rightarrow> ('p, 'u, 'e) response_ops \<Rightarrow> ('w, 'u, 'p, 'e, 'x) endpoint \<Rightarrow> 'e web_request
    \<Rightarrow> ('u, 'u auth_error) outcome \<Rightarrow> ('w, 'p, 'x) action" where
  "async_convert_result U R E request result =
     (case result of
        Ok url \<Rightarrow>
          bind_ac (ep_response E request (template_new_redirect None)) (\<lambda>(response, _).
          web_result E (ws_redirect R url response))
      | Err err \<Rightarrow> async_authorization_error U R E request err
      | Panic \<Rightarrow> lift_oc Panic)"

definition async_pending_finish ::
  "'u url_lib \<Rightarrow> ('p, 'u, 'e) response_ops \<Rightarrow> ('w, 'u, 'p, 'e, 'x) endpoint \<Rightarrow> 'e web_request \<Rightarrow> time
    \<Rightarrow> 'u pending \<Rightarrow> ('w, 'p, 'x) action" where
  "async_pending_finish U R E request now p = (\<lambda>w.
     case ep_owner_solicitor E w of
       None \<Rightarrow> (Panic, w)
     | Some solicitor \<Rightarrow>
         (case solicitor request (async_as_solicitation p) w of
            (None, w') \<Rightarrow> (Panic, w')
          | (Some Denied, w') \<Rightarrow> async_convert_result U R E request (async_pending_deny U p) w'
          | (Some (InProgress response), w') \<Rightarrow> (Ok response, w')
          | (Some (Authorized who), w') \<Rightarrow>
              (case async_pending_authorize U (async_wrapped_authorization E) now who p w' of
                 (result, w'') \<Rightarrow> async_convert_result U R E request result w'')
          | (Some (ConsentError err), w') \<Rightarrow> (case ep_web_error E err w' of (x, w'') \<Rightarrow> (Err x, w''))))"

definition async_authorization_execute ::
  "'u url_lib \<Rightarrow> ('p, 'u, 'e) response_ops \<Rightarrow> ('w, 'u, 'p, 'e, 'x) endpoint \<Rightarrow> 'e web_request \<Rightarrow> time \<Rightarrow> 'w
    \<Rightarrow> (('p, 'x) outcome \<times> 'w) option" where
  "async_authorization_execute U R E request now w =
     map_option (\<lambda>(negotiated, w').
         case negotiated of
           Err err \<Rightarrow> async_authorization_error U R E request err w'
         | Ok negotiated \<Rightarrow> async_pending_finish U R E request now negotiated w'
         | Panic \<Rightarrow> (Panic, w'))
       (async_authorization_code U (async_wrapped_authorization E) (async_wrapped_auth_request request) w)"

section \<open>The access token flow\<close>

definition async_access_token_prepare ::
  "('w, 'u, 'p, 'e, 'x) endpoint \<Rightarrow> ('w, ('w, 'u, 'p, 'e, 'x) access_token_flow, 'x) action" where
  "async_access_token_prepare E = (\<lambda>w.
     if ep_registrar E w = None then raise_oauth E OauthPrimitiveError w
     else if ep_authorizer E w = None then raise_oauth E OauthPrimitiveError w
     else if ep_issuer E w = None then raise_oauth E OauthPrimitiveError w
     else (Ok \<lparr> atf_endpoint = E, atf_allow_credentials_in_body = False \<rparr>, w))"

definition async_wrapped_token :: "('w, 'u, 'p, 'e, 'x) endpoint \<Rightarrow> ('w, 'u) at_endpoint" where
  "async_wrapped_token E =
     \<lparr> ate_registrar = unwrap_registrar (ep_registrar E),
       ate_authorizer = unwrap_authorizer (ep_authorizer E),
       ate_issuer = unwrap_issuer (ep_issuer E),
       ate_extension = (\<lambda>request data w.
         case Option.bind (ep_extension E w) xo_access_token of
           Some x \<Rightarrow> x request data w | None \<Rightarrow> at_no_extension request data w) \<rparr>"

definition async_parse_header :: "wire_lib \<Rightarrow> string \<Rightarrow> (string \<times> bytes) option" where
  "async_parse_header L header =
     (if \<not> starts_with header ''Basic '' then None
      else Option.bind (wl_base64_decode L (drop 6 header)) (\<lambda>combined.
        case split_colon combined of
          (client_bin, None) \<Rightarrow> None
        | (client_bin, Some passwd) \<Rightarrow> map_option (\<lambda>client. (client, passwd)) (from_utf8 client_bin)))"

definition async_token_request_parts ::
  "wire_lib \<Rightarrow> 'e web_request \<Rightarrow> ((string \<times> bytes) option \<times> normalized_parameter, 'e fail_parse) outcome" where
  "async_token_request_parts L request =
     bind_oc (case wr_authheader request of
         Inl err \<Rightarrow> Err (FpErr err)
       | Inr (Some header) \<Rightarrow> map_ok Some (ok_or FpInvalid (async_parse_header L header))
       | Inr None \<Rightarrow> Ok None) (\<lambda>authorization.
     case wr_urlbody request of Inl err \<Rightarrow> Err (FpErr err) | Inr body \<Rightarrow> Ok (authorization, query_to_owned body))"

definition async_body_request ::
  "bool \<Rightarrow> (string \<times> bytes) option \<Rightarrow> normalized_parameter \<Rightarrow> bool \<Rightarrow> at_request" where
  "async_body_request ok authorization body credentials =
     \<lparr> atr_valid = ok, atr_code = np_unique_value body ''code'', atr_authorization = authorization,
       atr_client_id = np_unique_value body ''client_id'',
       atr_redirect_uri = np_unique_value body ''redirect_uri'',
       atr_grant_type = np_unique_value body ''grant_type'', atr_extension = np_unique_value body,
       atr_allow_credentials_in_body = credentials \<rparr>"

definition async_wrapped_token_request :: "wire_lib \<Rightarrow> 'e web_request \<Rightarrow> bool \<Rightarrow> at_request" where
  "async_wrapped_token_request L request credentials =
     (case async_token_request_parts L request of
        Ok (authorization, body) \<Rightarrow> async_body_request True authorization body credentials
      | _ \<Rightarrow> async_body_request False None np_new False)"

definition async_token_error ::
  "wire_lib \<Rightarrow> ('p, 'u, 'e) response_ops \<Rightarrow> ('w, 'u, 'p, 'e, 'x) endpoint \<Rightarrow> 'e web_request \<Rightarrow> 'u at_error
    \<Rightarrow> ('w, 'p, 'x) action" where
  "async_token_error L R E request error =
     (case error of
        AtInvalid json \<Rightarrow>
          bind_ac (ep_response E request (template_new_bad (Some json))) (\<lambda>(response, t).
          let json = amended json (template_access_token_error t) in
          bind_ac (web_result E (ws_client_error R response)) (\<lambda>response.
          web_result E (ws_body_json R (wl_error_json L (error_to_json json)) response)))
      | AtUnauthorized json scheme \<Rightarrow>
          bind_ac (ep_response E request (template_new_unauthorized None (Some json))) (\<lambda>(response, t).
          let json = amended json (template_access_token_error t) in
          bind_ac (web_result E (ws_unauthorized R scheme response)) (\<lambda>response.
          web_result E (ws_body_json R (wl_error_json L (error_to_json json)) response)))
      | AtPrimitive _ \<Rightarrow> raise_oauth E OauthPrimitiveError)"

definition async_access_token_execute ::
  "'u url_lib \<Rightarrow> (string fset \<Rightarrow> string list) \<Rightarrow> wire_lib \<Rightarrow> ('p, 'u, 'e) response_ops
    \<Rightarrow> ('w, 'u, 'p, 'e, 'x) access_token_flow \<Rightarrow> 'e web_request \<Rightarrow> time \<Rightarrow> time \<Rightarrow> time \<Rightarrow> 'w
    \<Rightarrow> (('p, 'x) outcome \<times> 'w) option" where
  "async_access_token_execute U it L R flow request rnow inow now w =
     (let E = atf_endpoint flow in
      map_option (\<lambda>(issued, w').
          case issued of
            Err error \<Rightarrow> async_token_error L R E request error w'
          | Panic \<Rightarrow> (Panic, w')
          | Ok token \<Rightarrow>
              bind_ac (ep_response E request template_new_ok) (\<lambda>(response, _).
                web_result E (ws_body_json R (wl_token_json L (bearer_to_json now token)) response)) w')
        (async_access_token U it (async_wrapped_token E)
           (async_wrapped_token_request L request (atf_allow_credentials_in_body flow)) rnow inow w))"

section \<open>The refresh flow\<close>

definition async_refresh_prepare :: "('w, 'u, 'p, 'e, 'x) endpoint \<Rightarrow> ('w, unit, 'x) action" where
  "async_refresh_prepare E = (\<lambda>w.
     if ep_registrar E w = None then raise_oauth E OauthPrimitiveError w
     else if ep_issuer E w = None then raise_oauth E OauthPrimitiveError w
     else (Ok (), w))"

definition async_wrapped_refresh :: "('w, 'u, 'p, 'e, 'x) endpoint \<Rightarrow> ('w, 'u) rf_endpoint" where
  "async_wrapped_refresh E =
     \<lparr> rfe_registrar = unwrap_registrar (ep_registrar E), rfe_issuer = unwrap_issuer (ep_issuer E) \<rparr>"

text \<open>A header that does not parse is the error \<open>None\<close>.\<close>

definition async_refresh_parse_header :: "wire_lib \<Rightarrow> string \<Rightarrow> (string \<times> bytes, 'e option) outcome" where
  "async_refresh_parse_header L header =
     (if \<not> starts_with header ''Basic '' then Err None
      else
        bind_oc (ok_or None (wl_base64_decode L (drop 6 header))) (\<lambda>combined.
        case split_colon combined of
          (client_bin, None) \<Rightarrow> Err None
        | (client_bin, Some passwd) \<Rightarrow>
            bind_oc (ok_or None (from_utf8 client_bin)) (\<lambda>client. Ok (client, passwd))))"

definition async_refresh_request_parts ::
  "wire_lib \<Rightarrow> 'e web_request \<Rightarrow> ((string \<times> bytes) option \<times> normalized_parameter, 'e option) outcome" where
  "async_refresh_request_parts L request =
     bind_oc (case wr_authheader request of
         Inl err \<Rightarrow> Err (Some err)
       | Inr (Some header) \<Rightarrow> map_ok Some (async_refresh_parse_header L header)
       | Inr None \<Rightarrow> Ok None) (\<lambda>authorization.
     case wr_urlbody request of Inl err \<Rightarrow> Err (Some err) | Inr body \<Rightarrow> Ok (authorization, query_to_owned body))"

definition async_refresh_body ::
  "bool \<Rightarrow> (string \<times> bytes) option \<Rightarrow> normalized_parameter \<Rightarrow> rf_request" where
  "async_refresh_body ok authorization body =
     \<lparr> rfr_valid = ok, rfr_refresh_token = np_unique_value body ''refresh_token'',
       rfr_scope = np_unique_value body ''scope'', rfr_grant_type = np_unique_value body ''grant_type'',
       rfr_authorization = authorization, rfr_extension = np_unique_value body \<rparr>"

definition async_wrapped_refresh_request :: "wire_lib \<Rightarrow> 'e web_request \<Rightarrow> rf_request" where
  "async_wrapped_refresh_request L request =
     (case async_refresh_request_parts L request of
        Ok (authorization, body) \<Rightarrow> async_refresh_body True authorization body
      | _ \<Rightarrow> async_refresh_body False None np_new)"

definition async_refresh_error ::
  "wire_lib \<Rightarrow> ('p, 'u, 'e) response_ops \<Rightarrow> ('w, 'u, 'p, 'e, 'x) endpoint \<Rightarrow> 'e web_request \<Rightarrow> rf_error
    \<Rightarrow> ('w, 'p, 'x) action" where
  "async_refresh_error L R E request error =
     (case error of
        RfInvalid json \<Rightarrow>
          bind_ac (ep_response E request (template_new_bad (Some json))) (\<lambda>(response, t).
          let json = amended json (template_access_token_error t) in
          bind_ac (web_result E (ws_client_error R response)) (\<lambda>response.
          web_result E (ws_body_json R (wl_error_json L (error_to_json json)) response)))
      | RfUnauthorized json scheme \<Rightarrow>
          bind_ac (ep_response E request (template_new_unauthorized None (Some json))) (\<lambda>(response, t).
          let json = amended json (template_access_token_error t) in
          bind_ac (web_result E (ws_unauthorized R scheme response)) (\<lambda>response.
          web_result E (ws_body_json R (wl_error_json L (error_to_json json)) response)))
      | RfPrimitive \<Rightarrow> raise_oauth E OauthPrimitiveError)"

definition async_refresh_execute ::
  "(string fset \<Rightarrow> string list) \<Rightarrow> wire_lib \<Rightarrow> ('p, 'u, 'e) response_ops \<Rightarrow> ('w, 'u, 'p, 'e, 'x) endpoint
    \<Rightarrow> 'e web_request \<Rightarrow> time \<Rightarrow> time \<Rightarrow> time \<Rightarrow> time \<Rightarrow> 'w \<Rightarrow> (('p, 'x) outcome \<times> 'w) option" where
  "async_refresh_execute it L R E request now now' inow jnow w =
     map_option (\<lambda>(refreshed, w').
         case refreshed of
           Err error \<Rightarrow> async_refresh_error L R E request error w'
         | Panic \<Rightarrow> (Panic, w')
         | Ok token \<Rightarrow>
             bind_ac (ep_response E request template_new_ok) (\<lambda>(response, _).
               web_result E (ws_body_json R (wl_token_json L (rf_bearer_to_json jnow token)) response)) w')
       (async_refresh it (async_wrapped_refresh E) (async_wrapped_refresh_request L request) now now' inow w)"

section \<open>The resource flow\<close>

definition async_resource_prepare :: "('w, 'u, 'p, 'e, 'x) endpoint \<Rightarrow> ('w, unit, 'x) action" where
  "async_resource_prepare E = (\<lambda>w.
     if ep_issuer E w = None then raise_oauth E OauthPrimitiveError w
     else if ep_scopes E w = None then raise_oauth E OauthPrimitiveError w
     else (Ok (), w))"

definition async_resource_request :: "'e web_request \<Rightarrow> resource_request" where
  "async_resource_request request =
     (case wr_authheader request of
        Inr (Some token) \<Rightarrow> \<lparr> rq_valid = True, rq_token = Some token \<rparr>
      | Inr None \<Rightarrow> \<lparr> rq_valid = True, rq_token = None \<rparr>
      | Inl error \<Rightarrow> \<lparr> rq_valid = False, rq_token = None \<rparr>)"

definition async_scoped_resource ::
  "('w, 'u, 'p, 'e, 'x) endpoint \<Rightarrow> 'e web_request \<Rightarrow> ('w, 'u) resource_endpoint" where
  "async_scoped_resource E request =
     \<lparr> re_scopes = (\<lambda>w. case ep_scopes E w of
           None \<Rightarrow> (None, w)
         | Some provider \<Rightarrow> (case provider request w of (scopes, w') \<Rightarrow> (Some scopes, w'))),
       re_issuer = unwrap_issuer (ep_issuer E) \<rparr>"

definition async_resource_denied ::
  "(string fset \<Rightarrow> string list) \<Rightarrow> ('p, 'u, 'e) response_ops \<Rightarrow> ('w, 'u, 'p, 'e, 'x) endpoint \<Rightarrow> 'e web_request
    \<Rightarrow> resource_error \<Rightarrow> ('w, 'p, 'x) action" where
  "async_resource_denied it R E request error =
     (let respond = (\<lambda>template.
        bind_ac (ep_response E request template) (\<lambda>(response, _).
        web_result E (ws_unauthorized R (www_authenticate it error) response)))
      in case error of
           AccessDenied _ _ \<Rightarrow> respond (template_new_unauthorized None None)
         | NoAuthentication _ \<Rightarrow> respond (template_new_unauthorized None None)
         | ResInvalidRequest _ \<Rightarrow> respond (template_new_bad None)
         | ResPrimitiveError \<Rightarrow> raise_oauth E OauthPrimitiveError)"

definition async_resource_execute ::
  "(string fset \<Rightarrow> string list) \<Rightarrow> ('p, 'u, 'e) response_ops \<Rightarrow> ('w, 'u, 'p, 'e, 'x) endpoint \<Rightarrow> 'e web_request
    \<Rightarrow> time \<Rightarrow> 'w \<Rightarrow> (('u grant, ('p, 'x) outcome) outcome \<times> 'w) option" where
  "async_resource_execute it R E request now w =
     map_option (\<lambda>(protected, w').
         case protected of
           Ok grant \<Rightarrow> (Ok grant, w')
         | Panic \<Rightarrow> (Panic, w')
         | Err err \<Rightarrow>
             (case async_resource_denied it R E request err w' of
                (Panic, w'') \<Rightarrow> (Panic, w'')
              | (result, w'') \<Rightarrow> (Err result, w'')))
       (async_protect (async_scoped_resource E request) (async_resource_request request) now w)"

section \<open>The two crates\<close>

text \<open>A parameter object that keeps the law of \<open>query_parameter\<close>, and a request all of whose parts do.\<close>

definition query_lawful :: "query_object \<Rightarrow> bool" where
  "query_lawful q \<longleftrightarrow> np_unique_value (qo_normalize q) = qo_unique_value q"

definition request_lawful :: "'e web_request \<Rightarrow> bool" where
  "request_lawful r \<longleftrightarrow> (\<forall>q. wr_query r = Inr q \<longrightarrow> query_lawful q) \<and> (\<forall>q. wr_urlbody r = Inr q \<longrightarrow> query_lawful q)"

lemmas template_constructors = template_new_ok_def template_new_bad_def template_new_unauthorized_def
  template_new_redirect_def

lemma async_parse_header_eq: "async_parse_header L h = parse_header L h"
  by (auto simp: async_parse_header_def parse_header_def split: option.splits prod.splits)

lemma async_token_request_eq:
  "request_lawful r \<Longrightarrow> async_wrapped_token_request L r credentials = wrapped_token_request L r credentials"
  by (cases "wr_urlbody r"; cases "wr_authheader r"; cases "projr (wr_authheader r)";
      cases "parse_header L (the (projr (wr_authheader r)))")
    (auto simp: async_wrapped_token_request_def wrapped_token_request_def async_token_request_parts_def
      token_request_parts_def async_parse_header_eq async_body_request_def wrapped_body_request_def
      request_lawful_def query_lawful_def query_to_owned_def
      split: option.splits)

lemma async_refresh_header_eq:
  "async_refresh_parse_header L h = ok_or None (parse_header L h)"
  by (auto simp: async_refresh_parse_header_def parse_header_def split: option.splits prod.splits)

lemma async_refresh_request_eq:
  "request_lawful r \<Longrightarrow> async_wrapped_refresh_request L r = wrapped_refresh_request L r"
  by (cases "wr_urlbody r"; cases "wr_authheader r"; cases "projr (wr_authheader r)";
      cases "parse_header L (the (projr (wr_authheader r)))")
    (auto simp: async_wrapped_refresh_request_def wrapped_refresh_request_def async_refresh_request_parts_def
      refresh_request_parts_def async_refresh_header_eq refresh_parse_header_eq async_refresh_body_def
      wrapped_refresh_body_def request_lawful_def query_lawful_def query_to_owned_def
      split: option.splits)

lemma async_auth_request_eq:
  "request_lawful r \<Longrightarrow> async_wrapped_auth_request r = (wrapped_auth_request r)\<lparr> aur_user_id := None \<rparr>"
  by (auto simp: async_wrapped_auth_request_def wrapped_auth_request_def async_query_request_def
      wrapped_query_request_def request_lawful_def query_lawful_def query_to_owned_def split: sum.splits)

lemma async_resource_request_eq: "async_resource_request r = wrapped_resource_request r"
  by (simp add: async_resource_request_def wrapped_resource_request_def split: sum.splits option.splits)

lemma async_wrapped_eqs:
  "async_wrapped_token E = wrapped_token E" "async_wrapped_refresh E = wrapped_refresh E"
  "async_scoped_resource E r = scoped_resource E r"
  "sync_auth_endpoint (unwrap_issuer (ep_issuer E)) (async_wrapped_authorization E) = wrapped_authorization E"
  by (simp_all add: async_wrapped_token_def wrapped_token_def async_wrapped_refresh_def wrapped_refresh_def
      async_scoped_resource_def scoped_resource_def sync_auth_endpoint_def async_wrapped_authorization_def
      wrapped_authorization_def)

lemma async_error_eqs:
  "async_token_error L R E r e = token_error_response L R E r e"
  "async_refresh_error L R E r ef = refresh_error_response L R E r ef"
  "async_resource_denied it R E r er = resource_denied it R E r er"
  "async_authorization_error U R E r ea = authorization_error_response U R E r ea"
  unfolding async_token_error_def token_error_response_def async_refresh_error_def
    refresh_error_response_def async_resource_denied_def resource_denied_def
    async_authorization_error_def authorization_error_response_def template_constructors
  by (rule refl)+

lemma async_convert_eq: "async_convert_result U R E r x = convert_result U R E r x"
  unfolding async_convert_result_def convert_result_def async_error_eqs template_constructors
  by (rule refl)

text \<open>Consent in the asynchronous crate is consent in the other one, given a day less ten minutes ago.\<close>

lemma async_pending_eqs:
  "async_as_solicitation p = as_solicitation p"
  "async_pending_deny U p = pending_deny U p"
  "async_pending_authorize U E now who p =
     pending_authorize U (sync_auth_endpoint I E) (now + minutes 10 - days 1) who p"
  by (simp_all add: async_as_solicitation_def as_solicitation_def solicitation_new_def with_state_def
      async_pending_deny_def pending_deny_def error_url_new_def async_pending_authorize_def
      pending_authorize_def sync_auth_endpoint_def Let_def split: option.splits)

lemma async_finish_eq:
  "async_pending_finish U R E r now p = pending_finish U R E r (now + minutes 10 - days 1) p"
  unfolding async_pending_finish_def pending_finish_def async_convert_eq async_pending_eqs(1,2)
    async_pending_eqs(3) [where I = "unwrap_issuer (ep_issuer E)"] async_wrapped_eqs
  by (rule refl)

section \<open>Properties\<close>

text \<open>
  C17: the flows of the two crates agree. For a request whose parameters are lawful, the asynchronous
  token, refresh and resource flows return, with the response and the effects of the synchronous
  flows. So does the authorization flow for a request for a code that carries no \<open>user_id\<close>, except that
  the code it grants expires after ten minutes where the synchronous flow grants a day: it is the
  synchronous flow with its clock set back by the difference.
\<close>

theorem async_flows_agree:
  assumes "request_lawful request"
  shows "async_access_token_execute U it L R flow request rnow inow now w =
      Some (access_token_execute U it L R flow request rnow inow now w) \<and>
    async_refresh_execute it L R E request now now' inow jnow w =
      Some (refresh_execute it L R E request now now' inow jnow w) \<and>
    async_resource_execute it R E request now w = Some (resource_execute it R E request now w) \<and>
    (aur_response_type (wrapped_auth_request request) = Some ''code'' \<and>
       aur_user_id (wrapped_auth_request request) = None \<longrightarrow>
     async_authorization_execute U R E request now w =
       Some (authorization_execute U it L R E request (now + minutes 10 - days 1) inow rnow w))"
proof (intro conjI impI)
  show "async_access_token_execute U it L R flow request rnow inow now w =
      Some (access_token_execute U it L R flow request rnow inow now w)"
    unfolding async_access_token_execute_def access_token_execute_def Let_def
    by (simp add: async_executors_sync async_wrapped_eqs async_token_request_eq assms async_error_eqs
        template_constructors split: prod.splits outcome.splits)
  show "async_refresh_execute it L R E request now now' inow jnow w =
      Some (refresh_execute it L R E request now now' inow jnow w)"
    unfolding async_refresh_execute_def refresh_execute_def
    by (simp add: async_executors_sync async_wrapped_eqs async_refresh_request_eq assms async_error_eqs
        template_constructors split: prod.splits outcome.splits)
  show "async_resource_execute it R E request now w = Some (resource_execute it R E request now w)"
    unfolding async_resource_execute_def resource_execute_def
    by (simp add: async_executors_sync async_wrapped_eqs async_resource_request_eq async_error_eqs
        split: prod.splits outcome.splits)
  assume code: "aur_response_type (wrapped_auth_request request) = Some ''code'' \<and>
      aur_user_id (wrapped_auth_request request) = None"
  then have "async_wrapped_auth_request request = wrapped_auth_request request"
    by (simp add: async_auth_request_eq assms)
  then show "async_authorization_execute U R E request now w =
      Some (authorization_execute U it L R E request (now + minutes 10 - days 1) inow rnow w)"
    unfolding async_authorization_execute_def authorization_execute_def
    using code
    by (simp add: async_authorization_sync [where I = "unwrap_issuer (ep_issuer E)"] async_wrapped_eqs
        async_error_eqs async_finish_eq Let_def split: prod.splits outcome.splits)
qed

lemma simple_request_lawful: "request_lawful (simple_web_request r)"
  by (auto simp: request_lawful_def simple_web_request_def query_lawful_def string_map_query_def fun_eq_iff
      hash_map.normal_agrees)

lemma simple_code_no_user:
  "aur_user_id (wrapped_auth_request (simple_web_request (simple_code_request t))) = None"
  by (simp add: wrapped_auth_request_def wrapped_query_request_def simple_web_request_def
      string_map_query_def map_unique_value_def simple_code_request_def)

theorem async_flows_agree_witness:
  "async_authorization_execute url_identity simple_response_ops
     (generic_endpoint (authorization_generic
        (\<lambda>w. client_map_registrar url_identity spell_argon2 example_client_map)
        (aue_authorizer example_auth_endpoint) vacant_solicitor))
     (simple_web_request (simple_code_request ''code'')) (days 1 - minutes 10) Map.empty =
   Some (Ok (redirect_reply ''https://b/&state=xyz&error=access_denied''), Map.empty)"
  by (subst async_flows_agree [where it = example_order and inow = 0 and rnow = 0 and L = "\<lparr>
          wl_token_json = (\<lambda>_. []), wl_error_json = (\<lambda>_. []), wl_base64_decode = (\<lambda>_. None) \<rparr>",
        OF simple_request_lawful, THEN conjunct2, THEN conjunct2, THEN conjunct2, THEN mp])
    (simp_all add: simple_code_wrapped simple_code_no_user simple_deny_run)

end
