(* ===== verification/Server.thy ===== *)
theory Server
  imports Async_Endpoint
begin

text \<open>
  A server put together from the parts the library provides: a client map, an \<open>AuthMap\<close> and a
  \<open>TokenMap\<close> behind one generic endpoint, as the servers of the repository do it (\<open>State\<close> of the actix
  example). The two maps keep their data in the same store, under different keys. Here it is shown
  that they do not disturb each other, that parallel token requests cannot redeem a code twice, and
  that an authorized request leads to a token that opens the resource.
\<close>

section \<open>The server\<close>

record ('g, 'h, 'u, 'r) server =
  sv_registrar :: "'u client_map"
  sv_authorizer :: "('g, 'u) auth_map"
  sv_issuer :: "('h, 'u) token_map"
  sv_scopes :: "scope list"
  sv_redis :: 'r

text \<open>The libraries below the server: URLs, passwords, the store, serialisation, taggers.\<close>

record ('g, 'h, 'u, 'r) server_lib =
  sl_url :: "'u url_lib"
  sl_argon2 :: argon2_lib
  sl_redis :: "'r redis_ops"
  sl_grant_codec :: "'u grant codec"
  sl_token_codec :: "'u token codec"
  sl_code_tagger :: "('g, 'u) tagger"
  sl_token_tagger :: "('h, 'u) tagger"
  sl_checks :: bool

text \<open>An operation of one map, run on the server: \<open>&mut self.authorizer\<close>, \<open>&mut self.issuer\<close>.\<close>

definition on_authorizer ::
  "(('g, 'u) auth_map \<times> 'r, 'a, 'e) action \<Rightarrow> (('g, 'h, 'u, 'r) server, 'a, 'e) action" where
  "on_authorizer m = (\<lambda>s. case m (sv_authorizer s, sv_redis s) of
     (x, (a, r)) \<Rightarrow> (x, s\<lparr> sv_authorizer := a, sv_redis := r \<rparr>))"

definition on_issuer ::
  "(('h, 'u) token_map \<times> 'r, 'a, 'e) action \<Rightarrow> (('g, 'h, 'u, 'r) server, 'a, 'e) action" where
  "on_issuer m = (\<lambda>s. case m (sv_issuer s, sv_redis s) of
     (x, (i, r)) \<Rightarrow> (x, s\<lparr> sv_issuer := i, sv_redis := r \<rparr>))"

definition server_registrar ::
  "('g, 'h, 'u, 'r) server_lib \<Rightarrow> ('g, 'h, 'u, 'r) server \<Rightarrow> 'u registrar" where
  "server_registrar L s = client_map_registrar (sl_url L) (sl_argon2 L) (sv_registrar s)"

definition server_authorizer ::
  "('g, 'h, 'u, 'r) server_lib \<Rightarrow> (('g, 'h, 'u, 'r) server, 'u) authorizer_ops" where
  "server_authorizer L =
     (let A = auth_map_authorizer (sl_redis L) (sl_grant_codec L) (sl_code_tagger L) (sl_checks L) in
      \<lparr> az_authorize = (\<lambda>g. on_authorizer (az_authorize A g)),
        az_extract = (\<lambda>c. on_authorizer (az_extract A c)) \<rparr>)"

definition server_issuer ::
  "('g, 'h, 'u, 'r) server_lib \<Rightarrow> (('g, 'h, 'u, 'r) server, 'u) issuer_ops" where
  "server_issuer L =
     (let I = token_map_issuer (sl_redis L) (sl_token_codec L) (sl_token_tagger L) (sl_checks L) in
      \<lparr> is_issue = (\<lambda>now g. on_issuer (is_issue I now g)),
        is_refresh = (\<lambda>now t g. on_issuer (is_refresh I now t g)),
        is_recover_token = (\<lambda>t. on_issuer (is_recover_token I t)),
        is_recover_refresh = (\<lambda>t. on_issuer (is_recover_refresh I t)) \<rparr>)"

definition server_generic ::
  "('g, 'h, 'u, 'r) server_lib \<Rightarrow> (('g, 'h, 'u, 'r) server, 'u, 'p, 'e) solicitor
    \<Rightarrow> ('e web_request \<Rightarrow> inner_template \<Rightarrow> ('g, 'h, 'u, 'r) server
          \<Rightarrow> ('p \<times> inner_template) \<times> ('g, 'h, 'u, 'r) server)
    \<Rightarrow> (('g, 'h, 'u, 'r) server, 'u, 'p, 'e) generic" where
  "server_generic L solicitor response =
     \<lparr> gn_registrar = opt_primitive (server_registrar L),
       gn_authorizer = opt_primitive (\<lambda>s. server_authorizer L),
       gn_issuer = opt_primitive (\<lambda>s. server_issuer L),
       gn_solicitor = solicitor, gn_scopes = (\<lambda>request s. (sv_scopes s, s)), gn_response = response \<rparr>"

lemma on_authorizer_iff:
  "on_authorizer m s = (x, s') \<longleftrightarrow>
     (\<exists>a r. m (sv_authorizer s, sv_redis s) = (x, (a, r)) \<and> s' = s\<lparr> sv_authorizer := a, sv_redis := r \<rparr>)"
  by (auto simp: on_authorizer_def split: prod.splits)

lemma on_issuer_iff:
  "on_issuer m s = (x, s') \<longleftrightarrow>
     (\<exists>i r. m (sv_issuer s, sv_redis s) = (x, (i, r)) \<and> s' = s\<lparr> sv_issuer := i, sv_redis := r \<rparr>)"
  by (auto simp: on_issuer_def split: prod.splits)

section \<open>The maps do not disturb each other\<close>

context redis_store
begin

text \<open>A row of the store stays as it is under every operation of the token map on its own rows.\<close>

definition row :: "string \<Rightarrow> (string \<Rightarrow> string option) \<Rightarrow> 'm \<times> 'r \<Rightarrow> bool" where
  "row key h s \<longleftrightarrow> hash (snd s) key = h"

lemma row_hash: "row key h (m, r) \<Longrightarrow> hash r' = hash r \<Longrightarrow> row key h (m', r')"
  by (simp add: row_def)

lemmas keeps_row_store = keeps_store [where I = "row _ _", OF row_hash]

lemma keeps_row_hset: "k \<noteq> key \<Longrightarrow> keeps (row key h) (hset_new R k f v)"
  by (rule keeps_hset_new) (auto simp: row_def hash_upd_row)

lemma keeps_row_hdel: "k \<noteq> key \<Longrightarrow> keeps (row key h) (hdel_one R k f)"
  by (rule keeps_hdel_one) (auto simp: row_def hash_upd_row)

lemma keeps_row_tag: "keeps (row key h) (tm_tag tag u g)"
  by (rule keeps_tm_tag) (simp add: row_def)

lemmas keeps_row = keeps_row_store keeps_row_tag keeps_tm_timed keeps_ret keeps_fail keeps_lift

lemma token_map_keeps_codes:
  "keeps (row ''oauth2:authmap'' h) (tm_issue R C tag checks now g)"
  "keeps (row ''oauth2:authmap'' h) (tm_do_refresh R C tag now t g)"
  unfolding tm_issue_def tm_do_refresh_def Let_def
  by (intro keeps_bind keeps_bind_lift keeps_row keeps_row_hset keeps_row_hdel; simp)+

lemma recover_keeps_codes: "keeps (row ''oauth2:authmap'' h) (recover_at R C key k)"
  by (rule keeps_pairI) (auto simp: row_def dest!: recover_at_cases)

end

section \<open>Parallel token requests\<close>

text \<open>
  A number of token requests that are served at the same time: each entry is a request with its task,
  and a step polls one of them, at any time of day. A task may also never be polled again (a dropped
  future).
\<close>

type_synonym 'u token_task = "('u at_state, 'u at_requested, bearer_token, 'u at_error) task"

inductive token_conc ::
  "(string fset \<Rightarrow> string list) \<Rightarrow> ('w, 'u) at_endpoint \<Rightarrow> (at_request \<times> 'u token_task) list \<times> 'w
    \<Rightarrow> (at_request \<times> 'u token_task) list \<times> 'w \<Rightarrow> bool" for it E where
  token_poll:
    "i < length ts \<Longrightarrow> ts ! i = (q, t) \<Longrightarrow> poll (async_at_turn it E q rnow inow) t w = (t', w') \<Longrightarrow>
     token_conc it E (ts, w) (ts[i := (q, t')], w')"

inductive_cases token_concE: "token_conc it E (ts, w) (us, w')"

definition token_tasks :: "'u url_lib \<Rightarrow> at_request list \<Rightarrow> (at_request \<times> 'u token_task) list" where
  "token_tasks U qs = map (\<lambda>q. (q, async_at_task U q)) qs"

text \<open>The requests for a code that were answered with a token.\<close>

fun answered :: "'u token_task \<Rightarrow> bool" where
  "answered (Finished (Ok _)) = True"
| "answered _ = False"

definition tokens_for :: "string \<Rightarrow> (at_request \<times> 'u token_task) list \<Rightarrow> nat" where
  "tokens_for c ts = length (filter (\<lambda>(q, t). atr_code q = Some c \<and> answered t) ts)"

text \<open>The requests that have taken a code, and what a task knows of the code of its request.\<close>

fun taken :: "'u token_task \<Rightarrow> bool" where
  "taken (Awaiting (AtsExtend _ _) _) = True"
| "taken (Awaiting (AtsIssue _) _) = True"
| "taken t = answered t"

definition takes :: "string \<Rightarrow> (at_request \<times> 'u token_task) list \<Rightarrow> nat" where
  "takes c ts = length (filter (\<lambda>(q, t). atr_code q = Some c \<and> taken t) ts)"

fun code_of :: "'u at_state \<Rightarrow> string option" where
  "code_of (AtsAuthenticate _ _ code _) = Some code"
| "code_of (AtsRecover _ code _) = Some code"
| "code_of _ = None"

fun coherent :: "at_request \<times> 'u token_task \<Rightarrow> bool" where
  "coherent (q, Finished r) = True"
| "coherent (q, Awaiting s req) =
     ((code_of s = None \<or> code_of s = atr_code q) \<and> (req = AtqNone \<or> at_request_of (at_out s) = Inr req))"

lemma answered_taken: "answered t \<Longrightarrow> taken t"
  by (cases t rule: answered.cases) auto

lemma tokens_le_takes: "tokens_for c ts \<le> takes c ts"
  unfolding tokens_for_def takes_def by (induction ts) (auto dest: answered_taken)

lemma filter_update:
  "i < length xs \<Longrightarrow> length (filter P (xs[i := y])) + (if P (xs ! i) then 1 else 0)
     = length (filter P xs) + (if P y then 1 else 0)"
proof (induction xs arbitrary: i)
  case (Cons x xs)
  then show ?case by (cases i) auto
qed simp

lemma coherent_start: "coherent (q, async_at_task U q)" "\<not> taken (async_at_task U q)"
  by (auto simp: async_at_task_def at_new_def unwrap_or_err_def at_validate_def bind_oc_Ok_iff
      split: outcome.splits option.splits if_splits)

text \<open>What a poll does, by the state of the task.\<close>

lemma poll_none:
  "poll (async_at_turn it E q rnow inow) (Awaiting s AtqNone) w =
     (case at_request_of (at_out s) of Inl r \<Rightarrow> Finished r | Inr req \<Rightarrow> Awaiting s req, w)"
  by (cases s) (simp_all add: async_at_turn_def at_advance_def bind_ac_def)

lemma poll_authenticate:
  "poll (async_at_turn it E q rnow inow) (Awaiting (AtsAuthenticate client pass code uri) (AtqAuthenticate client pass)) w
     = (t', w') \<Longrightarrow>
   w' = w \<and> (t' = Awaiting (AtsRecover client code uri) (AtqRecover code) \<or> (\<exists>r. t' = Finished r \<and> \<not> answered t'))"
  by (cases "rg_check (ate_registrar E w) client pass")
    (auto simp: async_at_turn_def at_advance_def bind_ac_def)

lemma poll_recover:
  assumes "poll (async_at_turn it E q rnow inow) (Awaiting (AtsRecover client code uri) (AtqRecover code)) w = (t', w')"
  shows "\<exists>x. az_extract (ate_authorizer E) code w = (x, w') \<and>
    ((\<exists>g exts g'. x = Ok (Some g) \<and> t' = Awaiting (AtsExtend g' exts) (AtqExtend exts)) \<or>
     (\<exists>r. t' = Finished r \<and> \<not> answered t'))"
  using assms
  by (cases "az_extract (ate_authorizer E) code w"; cases "fst (az_extract (ate_authorizer E) code w)")
    (auto simp: async_at_turn_def at_advance_def bind_ac_def at_recovered_def unwrap_or_err_def err_ac_def
      split: option.splits if_splits)

lemma poll_extend:
  assumes "poll (async_at_turn it E q rnow inow) (Awaiting (AtsExtend g exts) (AtqExtend exts)) w = (t', w')"
  shows "\<exists>x. ate_extension E q exts w = (x, w') \<and>
    ((\<exists>g'. t' = Awaiting (AtsIssue g') (AtqIssue g')) \<or> (\<exists>r. t' = Finished r))"
  using assms
  by (cases "ate_extension E q exts w"; cases "fst (ate_extension E q exts w)")
    (auto simp: async_at_turn_def at_advance_def bind_ac_def at_issue_def err_ac_def)

lemma poll_issue:
  assumes "poll (async_at_turn it E q rnow inow) (Awaiting (AtsIssue g) (AtqIssue g)) w = (t', w')"
  shows "\<exists>x r. is_issue (ate_issuer E) inow g w = (x, w') \<and> t' = Finished r"
  using assms
  by (cases "is_issue (ate_issuer E) inow g w"; cases "fst (is_issue (ate_issuer E) inow g w)")
    (auto simp: async_at_turn_def at_advance_def bind_ac_def err_ac_def)

text \<open>
  The contract of an endpoint that redeems codes: its authorizer keeps the contract of authorizers
  for the outstanding codes, and neither the issuer nor the extension touches these.
\<close>

locale code_server = authorizer "ate_authorizer E" codes
  for E :: "('w, 'u) at_endpoint" and codes :: "'w \<Rightarrow> string \<rightharpoonup> 'u grant" +
  assumes issue_codes: "is_issue (ate_issuer E) now g w = (x, w') \<Longrightarrow> codes w' = codes w"
    and extend_codes: "ate_extension E q exts w = (y, w') \<Longrightarrow> codes w' = codes w"
begin

lemma poll_counts:
  assumes "coherent (q, t)" and "poll (async_at_turn it E q rnow inow) t w = (t', w')"
  shows "coherent (q, t') \<and>
    (if atr_code q = Some c \<and> taken t' then 1 else 0) + outstanding (codes w') c \<le>
    (if atr_code q = Some c \<and> taken t then 1 else 0) + outstanding (codes w) c"
proof (cases t)
  case (Awaiting s req)
  show ?thesis
  proof (cases "req = AtqNone")
    case True
    then have "t' = (case at_request_of (at_out s) of Inl r \<Rightarrow> Finished r | Inr req \<Rightarrow> Awaiting s req)" "w' = w"
      using assms(2) unfolding Awaiting True poll_none by simp_all
    then show ?thesis using assms(1) Awaiting by (cases s) auto
  next
    case False
    then have req: "at_request_of (at_out s) = Inr req" and code: "code_of s = None \<or> code_of s = atr_code q"
      using assms(1) Awaiting by auto
    show ?thesis
    proof (cases s)
      case (AtsAuthenticate client pass code uri)
      then show ?thesis
        using poll_authenticate [of it E q rnow inow client pass code uri w t' w'] assms Awaiting req code by auto
    next
      case (AtsRecover client d uri)
      then obtain x where x: "az_extract (ate_authorizer E) d w = (x, w')"
        and t': "(\<exists>g exts g'. x = Ok (Some g) \<and> t' = Awaiting (AtsExtend g' exts) (AtqExtend exts)) \<or>
          (\<exists>r. t' = Finished r \<and> \<not> answered t')"
        using poll_recover [of it E q rnow inow client d uri w t' w'] assms(2) Awaiting req by auto
      show ?thesis
        using t' extract_counts [OF x, of c] AtsRecover Awaiting code by (auto split: if_splits)
    next
      case (AtsExtend g exts)
      then show ?thesis
        using poll_extend [of it E q rnow inow g exts w t' w'] extend_codes [of q exts w _ w'] assms Awaiting req
        by auto
    next
      case (AtsIssue g)
      then show ?thesis
        using poll_issue [of it E q rnow inow g w t' w'] issue_codes [of inow g w _ w'] assms Awaiting req
        by auto
    qed (use req in auto)
  qed
next
  case (Finished r)
  then show ?thesis using assms by auto
qed

lemma conc_counts:
  assumes "token_conc it E (ts, w) (us, w')" and "\<forall>p\<in>set ts. coherent p"
  shows "(\<forall>p\<in>set us. coherent p) \<and>
    takes c us + outstanding (codes w') c \<le> takes c ts + outstanding (codes w) c"
  using assms(1)
proof (elim token_concE)
  fix i q t rnow inow t'
  assume us: "us = ts[i := (q, t')]" and i: "i < length ts" "ts ! i = (q, t)"
    and p: "poll (async_at_turn it E q rnow inow) t w = (t', w')"
  have "coherent (q, t)" using assms(2) i by (metis nth_mem)
  note step = poll_counts [OF this p, of c]
  have "\<forall>p\<in>set us. coherent p"
    using assms(2) step us set_update_subset_insert [of ts i "(q, t')"] by auto
  then show ?thesis
    using step filter_update [of i ts "\<lambda>(q, t). atr_code q = Some c \<and> taken t" "(q, t')"] i us
    by (simp add: takes_def)
qed

lemma conc_star_counts:
  "(token_conc it E)\<^sup>*\<^sup>* (ts, w) (us, w') \<Longrightarrow> \<forall>p\<in>set ts. coherent p \<Longrightarrow>
     (\<forall>p\<in>set us. coherent p) \<and> takes c us + outstanding (codes w') c \<le> takes c ts + outstanding (codes w) c"
proof (induction "(us, w')" arbitrary: us w' rule: rtranclp_induct)
  case (step y)
  obtain vs v where y: "y = (vs, v)" by fastforce
  then show ?case
    using step.hyps(3) [OF y step.prems] conc_counts [of it vs v us w' c] step.hyps(2) by auto
qed simp

lemma parallel_tokens:
  assumes "(token_conc it E)\<^sup>*\<^sup>* (token_tasks U qs, w) (us, w')"
  shows "tokens_for c us \<le> outstanding (codes w) c"
proof -
  have "\<forall>p\<in>set (token_tasks U qs). coherent p" "takes c (token_tasks U qs) = 0"
    by (simp_all add: token_tasks_def takes_def comp_def coherent_start)
  then show ?thesis
    using conc_star_counts [OF assms, of c] tokens_le_takes [of c us] by simp
qed

end

section \<open>The server redeems codes\<close>

definition server_codes ::
  "('r \<Rightarrow> string \<Rightarrow> string \<Rightarrow> string option) \<Rightarrow> ('g, 'h, 'u, 'r) server_lib \<Rightarrow> ('g, 'h, 'u, 'r) server
    \<Rightarrow> string \<rightharpoonup> 'u grant" where
  "server_codes hash L s = auth_codes hash (sl_grant_codec L) (sv_authorizer s, sv_redis s)"

lemma server_codes_redis:
  "hash (sv_redis s') ''oauth2:authmap'' = hash (sv_redis s) ''oauth2:authmap'' \<Longrightarrow>
     server_codes hash L s' = server_codes hash L s"
  by (simp add: server_codes_def auth_codes_def fun_eq_iff)

lemma server_authorizer_contract:
  assumes "authorizer (auth_map_authorizer (sl_redis L) (sl_grant_codec L) (sl_code_tagger L) (sl_checks L))
     (auth_codes hash (sl_grant_codec L))"
  shows "authorizer (server_authorizer L) (server_codes hash L)"
proof
  note A = authorizer.authorize_Ok [OF assms] authorizer.authorize_fail [OF assms]
    authorizer.extract_Some [OF assms] authorizer.extract_other [OF assms]
  note on = server_authorizer_def Let_def on_authorizer_iff server_codes_def
  fix g s c s'
  show "az_authorize (server_authorizer L) g s = (Ok c, s') \<Longrightarrow>
      server_codes hash L s c = None \<and> server_codes hash L s' = (server_codes hash L s)(c \<mapsto> g)"
    by (auto simp: on dest: A(1))
  show "az_extract (server_authorizer L) c s = (Ok (Some g), s') \<Longrightarrow>
      server_codes hash L s c = Some g \<and> server_codes hash L s' = (server_codes hash L s)(c := None)"
    by (auto simp: on dest: A(3))
  show "az_authorize (server_authorizer L) g s = (x, s') \<Longrightarrow> server_codes hash L s' = server_codes hash L s \<or>
      (\<exists>c. server_codes hash L s' = (server_codes hash L s)(c \<mapsto> g))" for x
    by (clarsimp simp: on) (drule A(2), simp)
  show "az_extract (server_authorizer L) c s = (y, s') \<Longrightarrow> server_codes hash L s' = server_codes hash L s \<or>
      server_codes hash L s' = (server_codes hash L s)(c := None)" for y
    by (auto simp: on dest: A(4))
qed

text \<open>What the token flow sees of the server.\<close>

definition server_token_endpoint ::
  "('g, 'h, 'u, 'r) server_lib \<Rightarrow> (('g, 'h, 'u, 'r) server, 'u) at_endpoint" where
  "server_token_endpoint L =
     \<lparr> ate_registrar = server_registrar L, ate_authorizer = server_authorizer L,
       ate_issuer = server_issuer L, ate_extension = at_no_extension \<rparr>"

lemma wrapped_token_server:
  "wrapped_token (generic_endpoint (server_generic L solicitor response)) = server_token_endpoint L"
  by (simp add: wrapped_token_def generic_endpoint_def server_generic_def server_token_endpoint_def fun_eq_iff)

locale server_store = redis_store "sl_redis L" hash num healthy
  for L :: "('g, 'h, 'u, 'r) server_lib" and hash num healthy +
  assumes grants: "codec_ok (sl_grant_codec L)" and tokens: "codec_ok (sl_token_codec L)"

sublocale server_store \<subseteq> code_server "server_token_endpoint L" "server_codes hash L"
proof (rule code_server.intro)
  show "authorizer (ate_authorizer (server_token_endpoint L)) (server_codes hash L)"
    unfolding server_token_endpoint_def at_endpoint.simps
    by (rule server_authorizer_contract, rule auth_map_is_authorizer) (unfold_locales, rule grants)
  have issue: "server_codes hash L w' = server_codes hash L w"
    if run: "is_issue (server_issuer L) now g w = (x, w')" for now g w x w'
  proof -
    obtain i r where "tm_issue (sl_redis L) (sl_token_codec L) (sl_token_tagger L) (sl_checks L) now g
        (sv_issuer w, sv_redis w) = (x, (i, r))" "w' = w\<lparr> sv_issuer := i, sv_redis := r \<rparr>"
      using run by (auto simp: server_issuer_def Let_def on_issuer_iff token_map_issuer_def)
    then show ?thesis
      using keepsD [OF token_map_keeps_codes(1)] by (intro server_codes_redis) (fastforce simp: row_def)
  qed
  show "code_server_axioms (server_token_endpoint L) (server_codes hash L)"
    by unfold_locales (auto simp: server_token_endpoint_def at_no_extension_def dest: issue)
qed

interpretation mem_server: server_store
  "\<lparr> sl_url = url_identity, sl_argon2 = spell_argon2, sl_redis = mem_ops, sl_grant_codec = grant_codec,
     sl_token_codec = token_codec, sl_code_tagger = tag, sl_token_tagger = tag', sl_checks = checks \<rparr>"
  mr_hash mr_num mem_healthy
  for tag tag' checks
  by (rule server_store.intro)
    (simp_all add: mem_redis_store server_store_axioms_def grant_codec_ok token_codec_ok)

context server_store
begin

lemma is_code_server: "code_server (server_token_endpoint L) (server_codes hash L)"
  by (rule code_server_axioms)

end

section \<open>From consent to access\<close>

text \<open>The taggers find a token that is not in use.\<close>

definition fresh_codes ::
  "('r \<Rightarrow> string \<Rightarrow> string \<Rightarrow> string option) \<Rightarrow> ('g, 'h, 'u, 'r) server_lib \<Rightarrow> 'r \<Rightarrow> bool" where
  "fresh_codes hash L r \<longleftrightarrow>
     (\<forall>n g st. \<exists>c st'. sl_code_tagger L n g st = (Ok c, st') \<and> hash r ''oauth2:authmap'' c = None)"

definition fresh_tokens ::
  "('r \<Rightarrow> string \<Rightarrow> string \<Rightarrow> string option) \<Rightarrow> ('g, 'h, 'u, 'r) server_lib \<Rightarrow> 'r \<Rightarrow> bool" where
  "fresh_tokens hash L r \<longleftrightarrow>
     (\<forall>n g st. \<exists>t st'. sl_token_tagger L n g st = (Ok t, st') \<and> t \<noteq> [] \<and>
        hash r ''oauth2:tokenmap_access'' t = None \<and> hash r ''oauth2:tokenmap_refresh'' t = None)"

lemma word_Suc_less_one: "(n :: u64) + 1 < 1 \<longleftrightarrow> n = - 1"
  by (metis add.commute add_eq_0_iff word_less_1 word_gt_0 not_less_iff_gr_or_eq)

context server_store
begin

lemma server_authorize_up:
  assumes "healthy (sv_redis s)" and "num (sv_redis s) ''oauth2:authmap_usage'' \<noteq> Some (- 1)"
    and "fresh_codes hash L (sv_redis s)"
  obtains c a r v where
    "az_authorize (server_authorizer L) g s = (Ok c, s\<lparr> sv_authorizer := a, sv_redis := r \<rparr>)" "healthy r"
    "hash r = hash_upd (hash (sv_redis s)) ''oauth2:authmap'' c (Some v)" "dec (sl_grant_codec L) v = Some g"
proof -
  define n where "n = (case num (sv_redis s) ''oauth2:authmap_usage'' of Some n \<Rightarrow> n | None \<Rightarrow> 0)"
  obtain c st' where c: "sl_code_tagger L n g (am_tagger (sv_authorizer s)) = (Ok c, st')"
    "hash (sv_redis s) ''oauth2:authmap'' c = None"
    using assms(3) unfolding fresh_codes_def by blast
  have "n \<noteq> - 1" using assms(2) by (auto simp: n_def split: option.splits)
  then have "\<not> (sl_checks L \<and> n + 1 < 1)" using word_Suc_less_one by blast
  then obtain v r where
    "authorize (sl_redis L) (sl_grant_codec L) (sl_code_tagger L) (sl_checks L) g (sv_authorizer s, sv_redis s)
       = (Ok c, ((sv_authorizer s)\<lparr> am_tagger := st' \<rparr>, r))" "healthy r"
    "hash r = hash_upd (hash (sv_redis s)) ''oauth2:authmap'' c (Some v)" "dec (sl_grant_codec L) v = Some g"
    by (rule authorize_up [where tag = "sl_code_tagger L", OF assms(1) grants n_def _ c])
  then show thesis
    using that by (simp add: server_authorizer_def Let_def auth_map_authorizer_def on_authorizer_def)
qed

lemma server_extract_up:
  assumes "healthy (sv_redis s)" and "hash (sv_redis s) ''oauth2:authmap'' c = Some v"
    and "dec (sl_grant_codec L) v = Some g"
  obtains r where "az_extract (server_authorizer L) c s = (Ok (Some g), s\<lparr> sv_redis := r \<rparr>)" "healthy r"
    "hash r = hash_upd (hash (sv_redis s)) ''oauth2:authmap'' c None"
proof -
  obtain r where "extract_code (sl_redis L) (sl_grant_codec L) c (sv_authorizer s, sv_redis s)
      = (Ok (Some g), (sv_authorizer s, r))" "healthy r"
    "hash r = hash_upd (hash (sv_redis s)) ''oauth2:authmap'' c None"
    by (rule extract_up [OF assms])
  then show thesis
    using that [of r] by (simp add: server_authorizer_def Let_def auth_map_authorizer_def on_authorizer_def)
qed

lemma server_issue_up:
  assumes "healthy (sv_redis s)" and "fresh_tokens hash L (sv_redis s)"
  obtains t i r v where
    "is_issue (server_issuer L) inow g s = (Ok t, s\<lparr> sv_issuer := i, sv_redis := r \<rparr>)" "healthy r"
    "hash r ''oauth2:tokenmap_access'' (it_token t) = Some v"
    "map_option tk_grant (dec (sl_token_codec L) v) = Some (set_duration inow (sv_issuer s) g)"
proof -
  let ?m = "sv_issuer s" and ?r = "sv_redis s"
  define u where "u = (case num ?r ''oauth2:tokenmap_usage'' of Some n \<Rightarrow> n | None \<Rightarrow> 0)"
  define g' where "g' = set_duration inow ?m g"
  obtain a gt where a: "sl_token_tagger L u g' (tm_generator ?m) = (Ok a, gt)" "a \<noteq> []"
    "hash ?r ''oauth2:tokenmap_access'' a = None"
    using assms(2) unfolding fresh_tokens_def by blast
  obtain f gt' where f: "sl_token_tagger L (u + 1) g' gt = (Ok f, gt')" "f \<noteq> []"
    "hash ?r ''oauth2:tokenmap_refresh'' f = None"
    using assms(2) unfolding fresh_tokens_def by blast
  obtain v r where
    "tm_issue (sl_redis L) (sl_token_codec L) (sl_token_tagger L) (sl_checks L) inow g (?m, ?r) =
       (Ok \<lparr> it_token = a, it_refresh = Some f, it_until = g_until g', it_token_type = Bearer \<rparr>,
        (?m\<lparr> tm_generator := gt' \<rparr>, r))" "healthy r"
    "hash r = hash_upd (hash_upd (hash ?r) ''oauth2:tokenmap_access'' a (Some v)) ''oauth2:tokenmap_refresh'' f (Some v)"
    "dec (sl_token_codec L) v = Some (token_from_refresh a f g')"
    by (rule tm_issue_up [where tag = "sl_token_tagger L", OF assms(1) tokens u_def g'_def a(1) f(1) a(3) f(3) a(2) f(2)])
  then show thesis
    using that [of "\<lparr> it_token = a, it_refresh = Some f, it_until = g_until g', it_token_type = Bearer \<rparr>"]
    by (simp add: server_issuer_def Let_def token_map_issuer_def on_issuer_def token_from_refresh_def g'_def)
qed

lemma server_recover_up:
  assumes "healthy (sv_redis s)" and "hash (sv_redis s) ''oauth2:tokenmap_access'' k = Some v"
    and "map_option tk_grant (dec (sl_token_codec L) v) = Some g"
  obtains r where "is_recover_token (server_issuer L) k s = (Ok (Some g), s\<lparr> sv_redis := r \<rparr>)"
proof -
  obtain r where "recover_at (sl_redis L) (sl_token_codec L) ''oauth2:tokenmap_access'' k (sv_issuer s, sv_redis s)
      = (Ok (stored_grant hash (sl_token_codec L) ''oauth2:tokenmap_access'' (sv_issuer s, sv_redis s) k),
         (sv_issuer s, r))"
    by (rule recover_at_up [OF assms(1), of "''oauth2:tokenmap_access''" k "sl_token_codec L" "sv_issuer s"])
      (use assms(2,3) in auto)
  then show thesis
    using that [of r] assms(2,3)
    by (simp add: server_issuer_def Let_def token_map_issuer_def on_issuer_def recover_at_eqs stored_grant_def)
qed

text \<open>The exchange and the access, with each primitive at its result.\<close>

lemma server_exchange:
  assumes "at_check_params (sl_url L) q = Ok (client, pass, c, uri)"
    and "rg_check (server_registrar L s1) client pass = Ok ()"
    and "az_extract (server_authorizer L) c s1 = (Ok (Some g), s2)"
    and "g_client_id g = client" "g_redirect_uri g = uri" "rnow \<le> g_until g"
    and "is_issue (server_issuer L) inow (g\<lparr> g_extensions := extensions_new \<rparr>) s2 = (Ok t, s3)"
  shows "access_token (sl_url L) it (server_token_endpoint L) q rnow inow s1 =
    (Ok (BearerToken t (scope_to_string it (g_scope g))), s3)"
  using assms
  by (simp add: access_token_exchange code_exchange_def server_token_endpoint_def bind_ac_def err_ac_def
      redeemable_def at_no_extension_def)

lemma server_access:
  assumes "is_recover_token (server_issuer L) token s = (Ok (Some g), s')" and "now \<le> g_until g"
    and "list_ex (\<lambda>sc. allow_access (g_scope g) sc) (sv_scopes s)"
  shows "protect (scoped_resource (generic_endpoint (server_generic L solicitor response)) request)
    \<lparr> rq_valid = True, rq_token = Some (''Bearer '' @ token) \<rparr> now s = (Ok g, s')"
proof -
  have "List.find (allow_access (g_scope g)) (sv_scopes s) \<noteq> None"
    unfolding find_None_iff using assms(3) by (auto simp: list_ex_iff)
  then show ?thesis
    using assms(1,2)
    by (simp add: protect_guard guard_resource_def bind_ac_def bearer_token_of_def determine_scopes_def
        scoped_resource_def generic_endpoint_def server_generic_def err_ac_def resource_recovered_def)
qed

lemma consent_to_access:
  assumes "healthy (sv_redis s)" and "num (sv_redis s) ''oauth2:authmap_usage'' \<noteq> Some (- 1)"
    and "fresh_codes hash L (sv_redis s)" and "fresh_tokens hash L (sv_redis s)"
    and uri: "registered_to_url (sl_url L) (pg_redirect_uri (pd_pre_grant p)) = (Ok uri :: ('u, 'u auth_error) outcome)"
    and q: "\<And>c. at_check_params (sl_url L) (q c) = Ok (pg_client_id (pd_pre_grant p), pass, c, uri)"
    and check: "rg_check (server_registrar L s) (pg_client_id (pd_pre_grant p)) pass = Ok ()"
    and "rnow \<le> now + days 1"
    and until: "until = (case tm_duration (sv_issuer s) of Some d \<Rightarrow> inow + d | None \<Rightarrow> now + days 1)" "pnow \<le> until"
    and scope: "list_ex (\<lambda>sc. allow_access (pg_scope (pd_pre_grant p)) sc) (sv_scopes s)"
    and E: "E = generic_endpoint (server_generic L solicitor response)"
  shows "\<exists>c t s1 s2 s3.
    pending_authorize (sl_url L) (wrapped_authorization E) now owner p s =
      (Ok (url_extend_pairs (sl_url L) uri
         ((''code'', c) # (case pd_state p of Some v \<Rightarrow> [(''state'', v)] | None \<Rightarrow> []))), s1) \<and>
    access_token (sl_url L) it (wrapped_token E) (q c) rnow inow s1 =
      (Ok (BearerToken t (scope_to_string it (pg_scope (pd_pre_grant p)))), s2) \<and>
    protect (scoped_resource E request) \<lparr> rq_valid = True, rq_token = Some (''Bearer '' @ it_token t) \<rparr> pnow s2 =
      (Ok \<lparr> g_owner_id = owner, g_client_id = pg_client_id (pd_pre_grant p), g_scope = pg_scope (pd_pre_grant p),
             g_redirect_uri = uri, g_until = until, g_extensions = extensions_new \<rparr>, s3)"
proof -
  let ?pg = "pd_pre_grant p"
  define g where "g = \<lparr> g_owner_id = owner, g_client_id = pg_client_id ?pg, g_scope = pg_scope ?pg,
    g_redirect_uri = uri, g_until = now + days 1, g_extensions = pd_extensions p \<rparr>"
  obtain c a r v where 1: "az_authorize (server_authorizer L) g s = (Ok c, s\<lparr> sv_authorizer := a, sv_redis := r \<rparr>)"
    "healthy r" "hash r = hash_upd (hash (sv_redis s)) ''oauth2:authmap'' c (Some v)" "dec (sl_grant_codec L) v = Some g"
    by (rule server_authorize_up [OF assms(1-3)])
  let ?s1 = "s\<lparr> sv_authorizer := a, sv_redis := r \<rparr>"
  obtain r2 where 2: "az_extract (server_authorizer L) c ?s1 = (Ok (Some g), ?s1\<lparr> sv_redis := r2 \<rparr>)" "healthy r2"
    "hash r2 = hash_upd (hash (sv_redis ?s1)) ''oauth2:authmap'' c None"
    by (rule server_extract_up [of ?s1 c v g]) (use 1 in simp_all)
  let ?s2 = "?s1\<lparr> sv_redis := r2 \<rparr>" and ?g = "g\<lparr> g_extensions := extensions_new \<rparr>"
  have fresh: "fresh_tokens hash L (sv_redis ?s2)" using assms(4) 1(3) 2(3) by (simp add: fresh_tokens_def)
  obtain t i r3 w where 3: "is_issue (server_issuer L) inow ?g ?s2 = (Ok t, ?s2\<lparr> sv_issuer := i, sv_redis := r3 \<rparr>)"
    "healthy r3" "hash r3 ''oauth2:tokenmap_access'' (it_token t) = Some w"
    "map_option tk_grant (dec (sl_token_codec L) w) = Some (set_duration inow (sv_issuer ?s2) ?g)"
    by (rule server_issue_up [of ?s2 inow ?g, OF _ fresh]) (use 2(2) in simp_all)
  let ?s3 = "?s2\<lparr> sv_issuer := i, sv_redis := r3 \<rparr>" and ?h = "set_duration inow (sv_issuer s) ?g"
  obtain r4 where 4: "is_recover_token (server_issuer L) (it_token t) ?s3 = (Ok (Some ?h), ?s3\<lparr> sv_redis := r4 \<rparr>)"
    by (rule server_recover_up [of ?s3 "it_token t" w ?h]) (use 3 in simp_all)
  have h: "?h = \<lparr> g_owner_id = owner, g_client_id = pg_client_id ?pg, g_scope = pg_scope ?pg,
      g_redirect_uri = uri, g_until = until, g_extensions = extensions_new \<rparr>"
    by (simp add: set_duration_def until g_def split: option.splits)
  have auth: "wrapped_authorization E = \<lparr> aue_registrar = server_registrar L, aue_authorizer = server_authorizer L,
      aue_extension = auth_no_extension, aue_issuer = server_issuer L \<rparr>"
    by (simp add: E wrapped_authorization_def generic_endpoint_def server_generic_def fun_eq_iff)
  have "pending_authorize (sl_url L) (wrapped_authorization E) now owner p s =
      (Ok (url_extend_pairs (sl_url L) uri
         ((''code'', c) # (case pd_state p of Some v \<Rightarrow> [(''state'', v)] | None \<Rightarrow> []))), ?s1)"
    using 1(1) uri by (simp add: pending_authorize_def auth registered_into_url_eq bind_ac_def err_ac_def g_def)
  moreover have "access_token (sl_url L) it (wrapped_token E) (q c) rnow inow ?s1 =
      (Ok (BearerToken t (scope_to_string it (pg_scope ?pg))), ?s3)"
    using server_exchange [OF q [of c] _ 2(1) _ _ _ 3(1), of rnow] assms(8) check
    by (simp add: E wrapped_token_server g_def server_registrar_def)
  moreover have "protect (scoped_resource E request)
      \<lparr> rq_valid = True, rq_token = Some (''Bearer '' @ it_token t) \<rparr> pnow ?s3 = (Ok ?h, ?s3\<lparr> sv_redis := r4 \<rparr>)"
    unfolding E by (rule server_access [OF 4]) (use until(2) scope in \<open>simp_all add: h\<close>)
  ultimately show ?thesis unfolding h by blast
qed

end

section \<open>Properties\<close>

text \<open>
  C3: parallel token requests. However the asynchronous executors of any number of token requests to
  the server interleave at their awaits, at whatever times they run and whichever of them are dropped
  on the way, at most one of the requests for a code is answered with a token, and none if the code
  is not outstanding; the issuer, which writes to the same store, does not bring codes back.
\<close>

theorem parallel_requests_single_token:
  assumes "redis_store (sl_redis L) hash num healthy" and "codec_ok (sl_grant_codec L)"
    and "codec_ok (sl_token_codec L)"
    and "(token_conc it (wrapped_token (generic_endpoint (server_generic L solicitor response))))\<^sup>*\<^sup>*
      (token_tasks (sl_url L) qs, s) (us, s')"
  shows "tokens_for c us \<le> outstanding (auth_codes hash (sl_grant_codec L) (sv_authorizer s, sv_redis s)) c \<and>
    tokens_for c us \<le> 1"
proof -
  have "code_server (server_token_endpoint L) (server_codes hash L)"
    by (rule server_store.is_code_server [of L hash num healthy])
      (simp add: server_store_def server_store_axioms_def assms)
  from code_server.parallel_tokens [OF this assms(4) [unfolded wrapped_token_server], of c]
  have "tokens_for c us \<le> outstanding (server_codes hash L s) c" .
  then show ?thesis by (auto simp: server_codes_def outstanding_def split: if_splits)
qed

text \<open>A schedule of polls, executed.\<close>

fun token_run ::
  "(string fset \<Rightarrow> string list) \<Rightarrow> ('w, 'u) at_endpoint \<Rightarrow> time \<Rightarrow> nat list
    \<Rightarrow> (at_request \<times> 'u token_task) list \<times> 'w \<Rightarrow> (at_request \<times> 'u token_task) list \<times> 'w" where
  "token_run it E now [] c = c"
| "token_run it E now (i # is) (ts, w) =
     (if i < length ts
      then case poll (async_at_turn it E (fst (ts ! i)) now now) (snd (ts ! i)) w of
             (t', w') \<Rightarrow> token_run it E now is (ts[i := (fst (ts ! i), t')], w')
      else token_run it E now is (ts, w))"

lemma token_run_conc: "(token_conc it E)\<^sup>*\<^sup>* c (token_run it E now is c)"
proof (induction it E now "is" c rule: token_run.induct)
  case (2 it E now i "is" ts w)
  show ?case
  proof (cases "i < length ts")
    case True
    obtain t' w' where t': "poll (async_at_turn it E (fst (ts ! i)) now now) (snd (ts ! i)) w = (t', w')"
      by fastforce
    have "token_conc it E (ts, w) (ts[i := (fst (ts ! i), t')], w')"
      by (rule token_poll [OF True _ t']) simp
    then show ?thesis
      using True t' 2(1) [OF True t' [symmetric]] by (auto intro: converse_rtranclp_into_rtranclp)
  qed (use 2 in simp)
qed simp

definition example_server_lib :: "(unit, unit, string, mem_redis) server_lib" where
  "example_server_lib =
     \<lparr> sl_url = url_identity, sl_argon2 = spell_argon2, sl_redis = mem_ops, sl_grant_codec = grant_codec,
       sl_token_codec = token_codec, sl_code_tagger = unary_tagger, sl_token_tagger = unary_tagger,
       sl_checks = True \<rparr>"

definition example_server :: "(unit, unit, string, mem_redis) server" where
  "example_server =
     \<lparr> sv_registrar = example_client_map, sv_authorizer = auth_map_new (), sv_issuer = token_map_new (),
       sv_scopes = [\<lparr> tokens = {|''read''|} \<rparr>], sv_redis = example_stored \<rparr>"

definition example_parallel :: "(at_request \<times> string token_task) list \<times> (unit, unit, string, mem_redis) server" where
  "example_parallel = token_run example_order (server_token_endpoint example_server_lib) 4 [0, 1, 0, 1, 1, 0, 1, 1]
     (token_tasks url_identity (replicate 2 (example_at_request\<lparr> atr_code := Some ''t'' \<rparr>)), example_server)"

theorem parallel_requests_single_token_witness:
  "tokens_for ''t'' (fst example_parallel) \<le> 1 \<and> map (answered \<circ> snd) (fst example_parallel) = [False, True]"
proof
  have "(token_conc example_order (wrapped_token (generic_endpoint (server_generic example_server_lib
        (\<lambda>_ _ s. (Some (Denied :: (unit, unit) owner_consent), s)) (\<lambda>_ k s. (((), k), s))))))\<^sup>*\<^sup>*
      (token_tasks url_identity (replicate 2 (example_at_request\<lparr> atr_code := Some ''t'' \<rparr>)),
       example_server) (fst example_parallel, snd example_parallel)"
    unfolding prod.collapse wrapped_token_server example_parallel_def by (rule token_run_conc)
  then have "(token_conc example_order (wrapped_token (generic_endpoint (server_generic example_server_lib
        (\<lambda>_ _ s. (Some (Denied :: (unit, unit) owner_consent), s)) (\<lambda>_ k s. (((), k), s))))))\<^sup>*\<^sup>*
      (token_tasks (sl_url example_server_lib) (replicate 2 (example_at_request\<lparr> atr_code := Some ''t'' \<rparr>)),
       example_server) (fst example_parallel, snd example_parallel)"
    unfolding example_server_lib_def server_lib.simps .
  from parallel_requests_single_token [OF _ _ _ this, of mr_hash mr_num mem_healthy "''t''"]
  show "tokens_for ''t'' (fst example_parallel) \<le> 1"
    by (simp add: example_server_lib_def mem_redis_store grant_codec_ok token_codec_ok)
  show "map (answered \<circ> snd) (fst example_parallel) = [False, True]" by code_simp
qed

text \<open>
  C9: from consent to access. Let the store be healthy, the counter of codes not exhausted and the
  taggers find unused tokens. When the owner consents to a pending request, the client is redirected
  with a code; a token request with this code, the client's accepted credentials and the redirect URL,
  within a day, is answered with a token; and this token opens every resource one of whose scopes
  contains the granted scope, as long as it is valid, for the owner who consented.
\<close>

theorem consent_leads_to_access:
  fixes L :: "('g, 'h, 'u, 'r) server_lib"
  assumes "redis_store (sl_redis L) hash num healthy" and "codec_ok (sl_grant_codec L)"
    and "codec_ok (sl_token_codec L)"
    and "healthy (sv_redis s)" and "num (sv_redis s) ''oauth2:authmap_usage'' \<noteq> Some (- 1)"
    and "fresh_codes hash L (sv_redis s)" and "fresh_tokens hash L (sv_redis s)"
    and "registered_to_url (sl_url L) (pg_redirect_uri (pd_pre_grant p)) = (Ok uri :: ('u, 'u auth_error) outcome)"
    and "\<And>c. at_check_params (sl_url L) (q c) = Ok (pg_client_id (pd_pre_grant p), pass, c, uri)"
    and "rg_check (server_registrar L s) (pg_client_id (pd_pre_grant p)) pass = Ok ()"
    and "rnow \<le> now + days 1"
    and "until = (case tm_duration (sv_issuer s) of Some d \<Rightarrow> inow + d | None \<Rightarrow> now + days 1)" and "pnow \<le> until"
    and "list_ex (\<lambda>sc. allow_access (pg_scope (pd_pre_grant p)) sc) (sv_scopes s)"
    and "E = generic_endpoint (server_generic L solicitor response)"
  shows "\<exists>c t s1 s2 s3.
    pending_authorize (sl_url L) (wrapped_authorization E) now owner p s =
      (Ok (url_extend_pairs (sl_url L) uri
         ((''code'', c) # (case pd_state p of Some v \<Rightarrow> [(''state'', v)] | None \<Rightarrow> []))), s1) \<and>
    access_token (sl_url L) it (wrapped_token E) (q c) rnow inow s1 =
      (Ok (BearerToken t (scope_to_string it (pg_scope (pd_pre_grant p)))), s2) \<and>
    protect (scoped_resource E request) \<lparr> rq_valid = True, rq_token = Some (''Bearer '' @ it_token t) \<rparr> pnow s2 =
      (Ok \<lparr> g_owner_id = owner, g_client_id = pg_client_id (pd_pre_grant p), g_scope = pg_scope (pd_pre_grant p),
             g_redirect_uri = uri, g_until = until, g_extensions = extensions_new \<rparr>, s3)"
  by (rule server_store.consent_to_access [of L hash num healthy, OF _ assms(4-15)])
    (simp add: server_store_def server_store_axioms_def assms(1-3))

definition example_consent :: "string pending" where
  "example_consent = \<lparr> pd_pre_grant = \<lparr> pg_client_id = ''c'', pg_redirect_uri = Semantic ''https://a/'',
     pg_scope = \<lparr> tokens = {|''read''|} \<rparr> \<rparr>, pd_state = Some ''xyz'', pd_extensions = extensions_new \<rparr>"

definition example_generic ::
  "((unit, unit, string, mem_redis) server, string, unit, unit) generic" where
  "example_generic = server_generic example_server_lib (\<lambda>_ _ s. (Some Denied, s)) (\<lambda>_ k s. (((), k), s))"

lemma example_lib_simps [simp]:
  "sl_url example_server_lib = url_identity" "sl_argon2 example_server_lib = spell_argon2"
  "sl_redis example_server_lib = mem_ops" "sl_grant_codec example_server_lib = grant_codec"
  "sl_token_codec example_server_lib = token_codec"
  by (simp_all add: example_server_lib_def)

lemma example_parts [simp]:
  "pg_client_id (pd_pre_grant example_consent) = ''c''"
  "pg_redirect_uri (pd_pre_grant example_consent) = Semantic ''https://a/''"
  "pg_scope (pd_pre_grant example_consent) = \<lparr> tokens = {|''read''|} \<rparr>"
  "pd_state example_consent = Some ''xyz''"
  "tm_duration (sv_issuer example_server) = None" "sv_scopes example_server = [\<lparr> tokens = {|''read''|} \<rparr>]"
  by (simp_all add: example_consent_def example_server_def token_map_new_def)

lemma example_fresh:
  "fresh_codes mr_hash example_server_lib mem_empty" "fresh_tokens mr_hash example_server_lib mem_empty"
  by (simp_all add: fresh_codes_def fresh_tokens_def example_server_lib_def unary_tagger_def mem_empty_def)

lemma example_consent_request:
  "at_check_params url_identity (example_at_request\<lparr> atr_code := Some c \<rparr>) = Ok (''c'', None, c, ''https://a/'')"
  "rg_check (server_registrar example_server_lib (example_server\<lparr> sv_redis := r \<rparr>)) ''c'' None = Ok ()"
  by (simp_all add: at_check_params_def at_params_def at_credentials_def cred_unauthenticated_def cred_add_def
      example_at_request_def url_identity_def server_registrar_def example_server_def client_map_registrar_def
      cm_check_def example_client_map_def check_authentication_def)

theorem consent_leads_to_access_witness:
  "\<exists>c t s1 s2 s3.
    pending_authorize url_identity (wrapped_authorization (generic_endpoint example_generic)) 7 ''owner''
      example_consent (example_server\<lparr> sv_redis := mem_empty \<rparr>) =
      (Ok (url_extend_pairs url_identity ''https://a/'' [(''code'', c), (''state'', ''xyz'')]), s1) \<and>
    access_token url_identity example_order (wrapped_token (generic_endpoint example_generic))
      (example_at_request\<lparr> atr_code := Some c \<rparr>) 8 9 s1 =
      (Ok (BearerToken t (scope_to_string example_order \<lparr> tokens = {|''read''|} \<rparr>)), s2) \<and>
    protect (scoped_resource (generic_endpoint example_generic) (simple_web_request (simple_code_request ''code'')))
      \<lparr> rq_valid = True, rq_token = Some (''Bearer '' @ it_token t) \<rparr> 10 s2 =
      (Ok \<lparr> g_owner_id = ''owner'', g_client_id = ''c'', g_scope = \<lparr> tokens = {|''read''|} \<rparr>,
             g_redirect_uri = ''https://a/'', g_until = 7 + days 1, g_extensions = extensions_new \<rparr>, s3)"
proof -
  have "10 \<le> 7 + days 1" by (simp add: days_def seconds_def)
  then show ?thesis
    using consent_leads_to_access [where L = example_server_lib and p = example_consent and pass = None
      and q = "\<lambda>c. example_at_request\<lparr> atr_code := Some c \<rparr>" and uri = "''https://a/''" and now = 7 and rnow = 8
      and inow = 9 and pnow = 10 and s = "example_server\<lparr> sv_redis := mem_empty \<rparr>"
      and E = "generic_endpoint example_generic" and it = example_order and until = "7 + days 1"
      and owner = "''owner''" and request = "simple_web_request (simple_code_request ''code'')"
      and hash = mr_hash and num = mr_num and healthy = mem_healthy,
      OF _ _ _ _ _ _ _ _ _ _ _ _ _ _ arg_cong [OF example_generic_def]]
    by (simp add: mem_redis_store grant_codec_ok token_codec_ok example_fresh example_consent_request
        registered_to_url_def mem_empty_def [THEN arg_cong, where f = mr_num])
qed

end
