(* ===== verification/Db_Registrar.thy ===== *)
theory Db_Registrar
  imports Registrar Codec
begin

text \<open>
  The registrar backed by a database (crate \<open>oxide-auth-db\<close>): the stored form of a client
  (\<open>client_data.rs\<close>), the five data sources of \<open>db_service\<close> and the registrar over them
  (\<open>db_registrar.rs\<close>). The Redis and Scylla drivers are parameters, one function per command the
  sources issue, threading the state \<open>'d\<close> of both servers; \<open>serde_json\<close> is a codec. What is
  relied on is the locale \<open>client_db\<close>; the interface a registrar needs of a data source is the
  locale \<open>client_lookup\<close>, provided by every source that can answer.
\<close>

section \<open>Stored clients\<close>

record stringfied_client =
  sc_client_id :: string
  sc_client_secret :: "string option"
  sc_redirect_uri :: "string option"
  sc_additional_redirect_uris :: "string list option"
  sc_default_scope :: "string option"

text \<open>\<open>Result::unwrap\<close> and \<open>Option::unwrap_or_default\<close>.\<close>

fun unwrap_oc :: "('a, 'e) outcome \<Rightarrow> ('a, 'f) outcome" where
  "unwrap_oc (Ok x) = Ok x"
| "unwrap_oc (Err e) = Panic"
| "unwrap_oc Panic = Panic"

definition unwrap_or :: "'a \<Rightarrow> 'a option \<Rightarrow> 'a" where
  [model_defs]: "unwrap_or x m = (case m of None \<Rightarrow> x | Some y \<Rightarrow> y)"

fun push_registered ::
  "'u url_lib \<Rightarrow> string list \<Rightarrow> 'u registered_url list \<Rightarrow> ('u registered_url list, unit) outcome" where
  "push_registered U [] us = Ok us"
| "push_registered U (u # uris) us =
     bind_oc (unwrap_oc (exact_from_str U u)) (\<lambda>e. push_registered U uris (us @ [Exact e]))"

definition to_encoded_client ::
  "'u url_lib \<Rightarrow> stringfied_client \<Rightarrow> ('u encoded_client, unit) outcome" where
  "to_encoded_client U self =
     bind_oc (exact_from_str U (unwrap_or [] (sc_redirect_uri self))) (\<lambda>redirect_uri.
     bind_oc (push_registered U (unwrap_or [] (sc_additional_redirect_uris self)) []) (\<lambda>additional.
     bind_oc (unwrap_oc (scope_from_str (unwrap_or [] (sc_default_scope self)))) (\<lambda>default_scope.
       Ok \<lparr> ec_client_id = sc_client_id self, ec_redirect_uri = Exact redirect_uri,
            ec_additional_redirect_uris = additional, ec_default_scope = default_scope,
            ec_encoded_client = (case sc_client_secret self of
                None \<Rightarrow> PublicClient
              | Some secret \<Rightarrow> Confidential (as_bytes secret)) \<rparr>)))"

definition from_encoded_client ::
  "(string fset \<Rightarrow> string list) \<Rightarrow> 'u url_lib \<Rightarrow> 'u encoded_client \<Rightarrow> (stringfied_client, unit) outcome" where
  "from_encoded_client it U e =
     bind_oc (case ec_encoded_client e of
                PublicClient \<Rightarrow> Ok None
              | Confidential passdata \<Rightarrow> map_ok Some (expect (from_utf8 passdata)))
       (\<lambda>client_secret.
          Ok \<lparr> sc_client_id = ec_client_id e, sc_client_secret = client_secret,
               sc_redirect_uri = Some (registered_as_str U (ec_redirect_uri e)),
               sc_additional_redirect_uris =
                 (if ec_additional_redirect_uris e = [] then None
                  else Some (map (registered_as_str U) (ec_additional_redirect_uris e))),
               sc_default_scope = Some (scope_to_string it (ec_default_scope e)) \<rparr>)"

section \<open>The servers\<close>

text \<open>
  Replies of the drivers: \<open>False\<close> or \<open>None\<close> is an error (for \<open>get\<close> and \<open>hget\<close> also a missing value).
  A query ends with an error, with its rows (\<open>None\<close> for a result without rows, and \<open>None\<close> for a row
  that does not have the columns of a stored client), or not within the second the caller waits.
  \<open>cql_runtime\<close> says whether the caller runs inside a tokio runtime.
\<close>

datatype cql_answer =
    CqlFailed
  | CqlRows "stringfied_client option list option"
  | CqlTimeout

record 'd db_ops =
  db_connect :: "'d \<Rightarrow> bool \<times> 'd"
  db_set_read_timeout :: "nat \<Rightarrow> 'd \<Rightarrow> bool \<times> 'd"
  db_get :: "string \<Rightarrow> 'd \<Rightarrow> string option \<times> 'd"
  db_set_ex :: "string \<Rightarrow> string \<Rightarrow> nat \<Rightarrow> 'd \<Rightarrow> bool \<times> 'd"
  db_del :: "string \<Rightarrow> 'd \<Rightarrow> bool \<times> 'd"
  db_keys :: "string \<Rightarrow> 'd \<Rightarrow> string list option \<times> 'd"
  db_hget :: "string \<Rightarrow> string \<Rightarrow> 'd \<Rightarrow> string option \<times> 'd"
  db_hset :: "string \<Rightarrow> string \<Rightarrow> string \<Rightarrow> 'd \<Rightarrow> bool \<times> 'd"
  cql_runtime :: bool
  cql_query :: "string \<Rightarrow> 'd \<Rightarrow> cql_answer \<times> 'd"

text \<open>Running a command, with the \<open>?\<close> operator on its reply, or with the reply as a value.\<close>

definition db_do :: "('d \<Rightarrow> 'a \<times> 'd) \<Rightarrow> ('d, 'a, unit) action" where
  "db_do f = (\<lambda>d. case f d of (x, d') \<Rightarrow> (Ok x, d'))"

definition db_need :: "('d \<Rightarrow> bool \<times> 'd) \<Rightarrow> ('d, unit, unit) action" where
  "db_need f = bind_ac (db_do f) (\<lambda>b. if b then ret () else fail ())"

definition db_ask :: "('d \<Rightarrow> 'a option \<times> 'd) \<Rightarrow> ('d, 'a, unit) action" where
  "db_ask f = bind_ac (db_do f) (\<lambda>x. lift_oc (ok_or () x))"

definition select_client :: "string \<Rightarrow> string \<Rightarrow> string \<Rightarrow> string" where
  "select_client db_name table_name ident =
     ''SELECT client_id, client_secret, redirect_uri, additional_redirect_uris'' @ [CHR 0x0A] @
     ''                    , scopes as default_scope FROM '' @ db_name @ ''.'' @ table_name @
     '' where client_id = '' @ [CHR 0x27] @ ident @ [CHR 0x27]"

text \<open>
  The query runs in a task of its own that answers over a channel. A panic in the task (a result
  without rows) closes the channel, which the waiting caller sees as an error.
\<close>

definition get_client ::
  "'d db_ops \<Rightarrow> string \<Rightarrow> string \<Rightarrow> string \<Rightarrow> ('d, stringfied_client, unit) action" where
  "get_client D db_name table_name ident =
     (if \<not> cql_runtime D then lift_oc Panic
      else bind_ac (db_do (cql_query D (select_client db_name table_name ident))) (\<lambda>answer.
        case answer of
          CqlFailed \<Rightarrow> fail ()
        | CqlTimeout \<Rightarrow> fail ()
        | CqlRows None \<Rightarrow> fail ()
        | CqlRows (Some rows) \<Rightarrow>
            (case rows of
               [] \<Rightarrow> fail ()
             | row # _ \<Rightarrow> (case row of Some client \<Rightarrow> ret client | None \<Rightarrow> fail ()))))"

section \<open>Data sources\<close>

text \<open>The trait \<open>OauthClientDBRepository\<close>.\<close>

record ('d, 'u) client_repo =
  cr_list :: "('d, 'u encoded_client list, unit) action"
  cr_find_client_by_id :: "string \<Rightarrow> ('d, 'u encoded_client, unit) action"
  cr_regist_from_encoded_client :: "'u encoded_client \<Rightarrow> ('d, unit, unit) action"

text \<open>The loop of \<open>list\<close> over the keys of the store, the same in every source with a Redis part.\<close>

fun list_keys ::
  "'d db_ops \<Rightarrow> stringfied_client codec \<Rightarrow> 'u url_lib \<Rightarrow> string list \<Rightarrow> 'u encoded_client list \<Rightarrow>
     ('d, 'u encoded_client list, unit) action" where
  "list_keys D K U [] acc = ret acc"
| "list_keys D K U (key # keys) acc =
     bind_ac (db_ask (db_get D key)) (\<lambda>clients_str.
     bind_ac (lift_oc (ok_or () (dec K clients_str))) (\<lambda>stringfied.
     bind_ac (lift_oc (to_encoded_client U stringfied)) (\<lambda>e.
       list_keys D K U keys (acc @ [e]))))"

subsection \<open>A single Redis server\<close>

record redis_data_source =
  rds_redis_prefix :: string

definition rds_regist_to_cache ::
  "'d db_ops \<Rightarrow> stringfied_client codec \<Rightarrow> redis_data_source \<Rightarrow> stringfied_client \<Rightarrow> ('d, unit, unit) action" where
  "rds_regist_to_cache D K self detail =
     bind_ac (db_need (db_connect D)) (\<lambda>_.
     bind_ac (lift_oc (ok_or () (enc K detail))) (\<lambda>client_str.
       db_need (db_set_ex D (rds_redis_prefix self @ sc_client_id detail) client_str 3600)))"

definition rds_delete_from_cache ::
  "'d db_ops \<Rightarrow> redis_data_source \<Rightarrow> string \<Rightarrow> ('d, unit, unit) action" where
  "rds_delete_from_cache D self client_id =
     bind_ac (db_need (db_connect D)) (\<lambda>_. db_need (db_del D (rds_redis_prefix self @ client_id)))"

definition rds_list ::
  "'d db_ops \<Rightarrow> stringfied_client codec \<Rightarrow> 'u url_lib \<Rightarrow> redis_data_source \<Rightarrow>
     ('d, 'u encoded_client list, unit) action" where
  "rds_list D K U self =
     bind_ac (db_need (db_connect D)) (\<lambda>_.
     bind_ac (db_ask (db_keys D (rds_redis_prefix self))) (\<lambda>keys. list_keys D K U keys []))"

definition rds_find_client_by_id ::
  "'d db_ops \<Rightarrow> stringfied_client codec \<Rightarrow> 'u url_lib \<Rightarrow> redis_data_source \<Rightarrow> string \<Rightarrow>
     ('d, 'u encoded_client, unit) action" where
  "rds_find_client_by_id D K U self ident =
     bind_ac (db_need (db_connect D)) (\<lambda>_.
     bind_ac (db_ask (db_get D (rds_redis_prefix self @ ident))) (\<lambda>client_str.
     bind_ac (lift_oc (ok_or () (dec K client_str))) (\<lambda>stringfied.
       lift_oc (to_encoded_client U stringfied))))"

definition rds_regist_from_encoded_client ::
  "(string fset \<Rightarrow> string list) \<Rightarrow> 'd db_ops \<Rightarrow> stringfied_client codec \<Rightarrow> 'u url_lib \<Rightarrow>
     redis_data_source \<Rightarrow> 'u encoded_client \<Rightarrow> ('d, unit, unit) action" where
  "rds_regist_from_encoded_client it D K U self e =
     bind_ac (lift_oc (from_encoded_client it U e)) (rds_regist_to_cache D K self)"

definition redis_repo ::
  "(string fset \<Rightarrow> string list) \<Rightarrow> 'd db_ops \<Rightarrow> stringfied_client codec \<Rightarrow> 'u url_lib \<Rightarrow>
     redis_data_source \<Rightarrow> ('d, 'u) client_repo" where
  "redis_repo it D K U self =
     \<lparr> cr_list = rds_list D K U self, cr_find_client_by_id = rds_find_client_by_id D K U self,
       cr_regist_from_encoded_client = rds_regist_from_encoded_client it D K U self \<rparr>"

subsection \<open>A Redis cluster\<close>

record redis_cluster_data_source =
  rcd_redis_prefix :: string

definition rcd_regist_to_cache ::
  "'d db_ops \<Rightarrow> stringfied_client codec \<Rightarrow> redis_cluster_data_source \<Rightarrow> stringfied_client \<Rightarrow>
     ('d, unit, unit) action" where
  "rcd_regist_to_cache D K self detail =
     bind_ac (db_need (db_connect D)) (\<lambda>_.
     bind_ac (lift_oc (ok_or () (enc K detail))) (\<lambda>client_str.
       db_need (db_set_ex D (rcd_redis_prefix self @ sc_client_id detail) client_str 3600)))"

definition rcd_delete_from_cache ::
  "'d db_ops \<Rightarrow> redis_cluster_data_source \<Rightarrow> string \<Rightarrow> ('d, unit, unit) action" where
  "rcd_delete_from_cache D self client_id =
     bind_ac (db_need (db_connect D)) (\<lambda>_. db_need (db_del D (rcd_redis_prefix self @ client_id)))"

definition rcd_list ::
  "'d db_ops \<Rightarrow> stringfied_client codec \<Rightarrow> 'u url_lib \<Rightarrow> redis_cluster_data_source \<Rightarrow>
     ('d, 'u encoded_client list, unit) action" where
  "rcd_list D K U self =
     bind_ac (db_need (db_connect D)) (\<lambda>_.
     bind_ac (db_need (db_set_read_timeout D 5)) (\<lambda>_.
     bind_ac (db_ask (db_keys D (rcd_redis_prefix self))) (\<lambda>keys. list_keys D K U keys [])))"

text \<open>Here the connection is unwrapped.\<close>

definition rcd_find_client_by_id ::
  "'d db_ops \<Rightarrow> stringfied_client codec \<Rightarrow> 'u url_lib \<Rightarrow> redis_cluster_data_source \<Rightarrow> string \<Rightarrow>
     ('d, 'u encoded_client, unit) action" where
  "rcd_find_client_by_id D K U self ident =
     bind_ac (db_do (db_connect D)) (\<lambda>b. if \<not> b then lift_oc Panic else
     bind_ac (db_need (db_set_read_timeout D 5)) (\<lambda>_.
     bind_ac (db_ask (db_get D (rcd_redis_prefix self @ ident))) (\<lambda>client_str.
     bind_ac (lift_oc (ok_or () (dec K client_str))) (\<lambda>stringfied.
       lift_oc (to_encoded_client U stringfied)))))"

definition rcd_regist_from_encoded_client ::
  "(string fset \<Rightarrow> string list) \<Rightarrow> 'd db_ops \<Rightarrow> stringfied_client codec \<Rightarrow> 'u url_lib \<Rightarrow>
     redis_cluster_data_source \<Rightarrow> 'u encoded_client \<Rightarrow> ('d, unit, unit) action" where
  "rcd_regist_from_encoded_client it D K U self e =
     bind_ac (lift_oc (from_encoded_client it U e)) (rcd_regist_to_cache D K self)"

definition redis_cluster_repo ::
  "(string fset \<Rightarrow> string list) \<Rightarrow> 'd db_ops \<Rightarrow> stringfied_client codec \<Rightarrow> 'u url_lib \<Rightarrow>
     redis_cluster_data_source \<Rightarrow> ('d, 'u) client_repo" where
  "redis_cluster_repo it D K U self =
     \<lparr> cr_list = rcd_list D K U self, cr_find_client_by_id = rcd_find_client_by_id D K U self,
       cr_regist_from_encoded_client = rcd_regist_from_encoded_client it D K U self \<rparr>"

subsection \<open>A Scylla cluster\<close>

record scylla_data_source =
  sds_db_name :: string
  sds_table_name :: string

definition sds_regist :: "scylla_data_source \<Rightarrow> 'u encoded_client \<Rightarrow> ('d, unit, unit) action" where
  "sds_regist self client = ret ()"

definition sds_list :: "scylla_data_source \<Rightarrow> ('d, 'u encoded_client list, unit) action" where
  "sds_list self = fail ()"

definition sds_find_client_by_id ::
  "'d db_ops \<Rightarrow> 'u url_lib \<Rightarrow> scylla_data_source \<Rightarrow> string \<Rightarrow> ('d, 'u encoded_client, unit) action" where
  "sds_find_client_by_id D U self ident =
     bind_ac (get_client D (sds_db_name self) (sds_table_name self) ident) (\<lambda>client.
       lift_oc (to_encoded_client U client))"

definition sds_regist_from_encoded_client ::
  "scylla_data_source \<Rightarrow> 'u encoded_client \<Rightarrow> ('d, unit, unit) action" where
  "sds_regist_from_encoded_client self client = sds_regist self client"

definition scylla_repo :: "'d db_ops \<Rightarrow> 'u url_lib \<Rightarrow> scylla_data_source \<Rightarrow> ('d, 'u) client_repo" where
  "scylla_repo D U self =
     \<lparr> cr_list = sds_list self, cr_find_client_by_id = sds_find_client_by_id D U self,
       cr_regist_from_encoded_client = sds_regist_from_encoded_client self \<rparr>"

subsection \<open>Redis in front of Scylla\<close>

text \<open>
  The structs \<open>RedisIsolateScyllaCluster\<close> and \<open>RedisClusterScyllaCluster\<close> have the same fields, apart
  from the kind of Redis client, and the same operations. The second is the crate's \<open>DataSource\<close>.
\<close>

record redis_scylla_source =
  rs_redis_prefix :: string
  rs_db_name :: string
  rs_db_table :: string

definition ris_regist_to_cache ::
  "'d db_ops \<Rightarrow> stringfied_client codec \<Rightarrow> redis_scylla_source \<Rightarrow> stringfied_client \<Rightarrow> ('d, unit, unit) action" where
  "ris_regist_to_cache D K self detail =
     bind_ac (db_need (db_connect D)) (\<lambda>_.
     bind_ac (lift_oc (ok_or () (enc K detail))) (\<lambda>client_str.
       db_need (db_set_ex D (rs_redis_prefix self @ sc_client_id detail) client_str 3600)))"

definition ris_delete_from_cache ::
  "'d db_ops \<Rightarrow> redis_scylla_source \<Rightarrow> string \<Rightarrow> ('d, unit, unit) action" where
  "ris_delete_from_cache D self client_id =
     bind_ac (db_need (db_connect D)) (\<lambda>_. db_need (db_del D (rs_redis_prefix self @ client_id)))"

definition ris_list ::
  "'d db_ops \<Rightarrow> stringfied_client codec \<Rightarrow> 'u url_lib \<Rightarrow> redis_scylla_source \<Rightarrow>
     ('d, 'u encoded_client list, unit) action" where
  "ris_list D K U self =
     bind_ac (db_need (db_connect D)) (\<lambda>_.
     bind_ac (db_ask (db_keys D (rs_redis_prefix self))) (\<lambda>keys. list_keys D K U keys []))"

definition ris_find_client_by_id ::
  "'d db_ops \<Rightarrow> stringfied_client codec \<Rightarrow> 'u url_lib \<Rightarrow> redis_scylla_source \<Rightarrow> string \<Rightarrow>
     ('d, 'u encoded_client, unit) action" where
  "ris_find_client_by_id D K U self ident =
     bind_ac (db_need (db_connect D)) (\<lambda>_.
     bind_ac (db_do (db_hget D (rs_redis_prefix self @ ''clients'') ident)) (\<lambda>reply.
     let client_str = unwrap_or [] reply in
     if client_str = [] then
       bind_ac (get_client D (rs_db_name self) (rs_db_table self) ident) (\<lambda>client.
       bind_ac (lift_oc (ok_or () (enc K client))) (\<lambda>client_str.
       bind_ac (db_need (db_hset D (rs_redis_prefix self @ ''clients'') ident client_str)) (\<lambda>_.
         lift_oc (to_encoded_client U client))))
     else
       bind_ac (lift_oc (ok_or () (dec K client_str))) (\<lambda>stringfied.
         lift_oc (to_encoded_client U stringfied))))"

definition ris_regist_from_encoded_client ::
  "(string fset \<Rightarrow> string list) \<Rightarrow> 'd db_ops \<Rightarrow> stringfied_client codec \<Rightarrow> 'u url_lib \<Rightarrow>
     redis_scylla_source \<Rightarrow> 'u encoded_client \<Rightarrow> ('d, unit, unit) action" where
  "ris_regist_from_encoded_client it D K U self e =
     bind_ac (lift_oc (from_encoded_client it U e)) (ris_regist_to_cache D K self)"

definition rcs_regist_to_cache ::
  "'d db_ops \<Rightarrow> stringfied_client codec \<Rightarrow> redis_scylla_source \<Rightarrow> stringfied_client \<Rightarrow> ('d, unit, unit) action" where
  "rcs_regist_to_cache D K self detail =
     bind_ac (db_need (db_connect D)) (\<lambda>_.
     bind_ac (lift_oc (ok_or () (enc K detail))) (\<lambda>client_str.
       db_need (db_set_ex D (rs_redis_prefix self @ sc_client_id detail) client_str 3600)))"

definition rcs_delete_from_cache ::
  "'d db_ops \<Rightarrow> redis_scylla_source \<Rightarrow> string \<Rightarrow> ('d, unit, unit) action" where
  "rcs_delete_from_cache D self client_id =
     bind_ac (db_need (db_connect D)) (\<lambda>_. db_need (db_del D (rs_redis_prefix self @ client_id)))"

definition rcs_list ::
  "'d db_ops \<Rightarrow> stringfied_client codec \<Rightarrow> 'u url_lib \<Rightarrow> redis_scylla_source \<Rightarrow>
     ('d, 'u encoded_client list, unit) action" where
  "rcs_list D K U self =
     bind_ac (db_need (db_connect D)) (\<lambda>_.
     bind_ac (db_ask (db_keys D (rs_redis_prefix self))) (\<lambda>keys. list_keys D K U keys []))"

definition rcs_find_client_by_id ::
  "'d db_ops \<Rightarrow> stringfied_client codec \<Rightarrow> 'u url_lib \<Rightarrow> redis_scylla_source \<Rightarrow> string \<Rightarrow>
     ('d, 'u encoded_client, unit) action" where
  "rcs_find_client_by_id D K U self ident =
     bind_ac (db_need (db_connect D)) (\<lambda>_.
     bind_ac (db_do (db_hget D (rs_redis_prefix self @ ''clients'') ident)) (\<lambda>reply.
     let client_str = unwrap_or [] reply in
     if client_str = [] then
       bind_ac (get_client D (rs_db_name self) (rs_db_table self) ident) (\<lambda>client.
       bind_ac (lift_oc (ok_or () (enc K client))) (\<lambda>client_str.
       bind_ac (db_need (db_hset D (rs_redis_prefix self @ ''clients'') ident client_str)) (\<lambda>_.
         lift_oc (to_encoded_client U client))))
     else
       bind_ac (lift_oc (ok_or () (dec K client_str))) (\<lambda>client.
         lift_oc (to_encoded_client U client))))"

definition rcs_regist_from_encoded_client ::
  "(string fset \<Rightarrow> string list) \<Rightarrow> 'd db_ops \<Rightarrow> stringfied_client codec \<Rightarrow> 'u url_lib \<Rightarrow>
     redis_scylla_source \<Rightarrow> 'u encoded_client \<Rightarrow> ('d, unit, unit) action" where
  "rcs_regist_from_encoded_client it D K U self e =
     bind_ac (lift_oc (from_encoded_client it U e)) (rcs_regist_to_cache D K self)"

definition data_source_repo ::
  "(string fset \<Rightarrow> string list) \<Rightarrow> 'd db_ops \<Rightarrow> stringfied_client codec \<Rightarrow> 'u url_lib \<Rightarrow>
     redis_scylla_source \<Rightarrow> ('d, 'u) client_repo" where
  "data_source_repo it D K U self =
     \<lparr> cr_list = rcs_list D K U self, cr_find_client_by_id = rcs_find_client_by_id D K U self,
       cr_regist_from_encoded_client = rcs_regist_from_encoded_client it D K U self \<rparr>"

lemma ris_regist_is_rcs: "ris_regist_to_cache = rcs_regist_to_cache"
  by (simp add: fun_eq_iff ris_regist_to_cache_def rcs_regist_to_cache_def)

lemma isolate_is_cluster:
  "ris_delete_from_cache = rcs_delete_from_cache"
  "ris_list D K U = rcs_list D K U"
  "ris_find_client_by_id D K U = rcs_find_client_by_id D K U"
  "ris_regist_from_encoded_client it D K U = rcs_regist_from_encoded_client it D K U"
  by (simp_all add: fun_eq_iff ris_delete_from_cache_def rcs_delete_from_cache_def ris_list_def
      rcs_list_def ris_find_client_by_id_def rcs_find_client_by_id_def
      ris_regist_from_encoded_client_def rcs_regist_from_encoded_client_def ris_regist_is_rcs)

section \<open>The registrar\<close>

record ('d, 'u) db_registrar =
  dr_repo :: "('d, 'u) client_repo"
  dr_password_policy :: "policy option"

definition db_registrar_new :: "('d, 'u) client_repo \<Rightarrow> ('d, 'u) db_registrar" where
  "db_registrar_new repo = \<lparr> dr_repo = repo, dr_password_policy = None \<rparr>"

definition dr_current_policy :: "argon2_lib \<Rightarrow> policy option \<Rightarrow> policy" where
  "dr_current_policy A p = (case p of Some boxed \<Rightarrow> boxed | None \<Rightarrow> argon2_policy A)"

definition dr_set_password_policy :: "('d, 'u) db_registrar \<Rightarrow> policy \<Rightarrow> ('d, 'u) db_registrar" where
  "dr_set_password_policy self new_policy = self\<lparr> dr_password_policy := Some new_policy \<rparr>"

definition dr_register_client ::
  "argon2_lib \<Rightarrow> bytes \<Rightarrow> ('d, 'u) db_registrar \<Rightarrow> 'u client \<Rightarrow> ('d, unit, registrar_error) action" where
  "dr_register_client A salt self client =
     bind_ac (lift_oc (client_encode salt (dr_current_policy A (dr_password_policy self)) client))
       (\<lambda>encoded. err_ac (\<lambda>_. Unspecified) (cr_regist_from_encoded_client (dr_repo self) encoded))"

text \<open>\<open>extend\<close> drops the result of every registration; only a panic ends it early.\<close>

fun dr_extend ::
  "argon2_lib \<Rightarrow> ('d, 'u) db_registrar \<Rightarrow> (bytes \<times> 'u client) list \<Rightarrow> ('d, unit, registrar_error) action" where
  "dr_extend A self [] = ret ()"
| "dr_extend A self ((salt, client) # cs) = (\<lambda>d.
     case dr_register_client A salt self client d of
       (Panic, d') \<Rightarrow> (Panic, d')
     | (_, d') \<Rightarrow> dr_extend A self cs d')"

definition dr_bound_redirect ::
  "'u url_lib \<Rightarrow> ('d, 'u) db_registrar \<Rightarrow> client_url \<Rightarrow> ('d, 'u bound_client, registrar_error) action" where
  "dr_bound_redirect U self bound =
     bind_ac (err_ac (\<lambda>_. Unspecified) (cr_find_client_by_id (dr_repo self) (cu_client_id bound)))
       (\<lambda>client. lift_oc
         (bind_oc
            (case cu_redirect_uri bound of
               None \<Rightarrow> Ok (ec_redirect_uri client)
             | Some url \<Rightarrow>
                 bind_oc (find_registered U
                     (ec_redirect_uri client # ec_additional_redirect_uris client) url)
                   (\<lambda>found. case found of Some registered \<Rightarrow> Ok registered | None \<Rightarrow> Err Unspecified))
            (\<lambda>registered_url.
               Ok \<lparr> bc_client_id = cu_client_id bound, bc_redirect_uri = registered_url \<rparr>)))"

definition dr_negotiate ::
  "('d, 'u) db_registrar \<Rightarrow> 'u bound_client \<Rightarrow> scope option \<Rightarrow> ('d, 'u pre_grant, registrar_error) action" where
  "dr_negotiate self bound scope =
     bind_ac (err_ac (\<lambda>_. Unspecified) (cr_find_client_by_id (dr_repo self) (bc_client_id bound)))
       (\<lambda>client. ret \<lparr> pg_client_id = bc_client_id bound, pg_redirect_uri = bc_redirect_uri bound,
                       pg_scope = ec_default_scope client \<rparr>)"

definition dr_check ::
  "argon2_lib \<Rightarrow> ('d, 'u) db_registrar \<Rightarrow> string \<Rightarrow> bytes option \<Rightarrow> ('d, unit, registrar_error) action" where
  "dr_check A self client_id passphrase =
     bind_ac (err_ac (\<lambda>_. Unspecified) (cr_find_client_by_id (dr_repo self) client_id))
       (\<lambda>client. lift_oc (check_authentication
          (dr_current_policy A (dr_password_policy self)) client passphrase))"

lemma dr_current_policy_eq: "dr_current_policy = current_policy"
  by (simp add: fun_eq_iff dr_current_policy_def current_policy_def)

section \<open>The stored form\<close>

lemma unwrap_oc_Ok_iff [simp]: "unwrap_oc m = Ok x \<longleftrightarrow> m = Ok x"
  by (cases m) auto

lemma unwrap_oc_not_Err [simp]: "unwrap_oc m \<noteq> Err e"
  by (cases m) auto

lemma push_registered_all:
  assumes "\<forall>u\<in>set uris. url_parse U u \<noteq> None"
  shows "push_registered U uris us = Ok (us @ map (\<lambda>u. Exact (ExactUrl u)) uris)"
  using assms by (induction uris arbitrary: us) (auto simp: exact_from_str_def)

lemma push_registered_not_Err [simp]: "push_registered U uris us \<noteq> Err e"
  by (induction uris arbitrary: us) (auto simp: bind_oc_Err_iff)

text \<open>What a client turns into by being stored: every URL is compared textually from then on.\<close>

definition exactified :: "'u url_lib \<Rightarrow> 'u encoded_client \<Rightarrow> 'u encoded_client" where
  "exactified U e = e\<lparr>
     ec_redirect_uri := Exact (ExactUrl (registered_as_str U (ec_redirect_uri e))),
     ec_additional_redirect_uris :=
       map (\<lambda>r. Exact (ExactUrl (registered_as_str U r))) (ec_additional_redirect_uris e) \<rparr>"

text \<open>A client that can be stored: its URLs print to text that parses, its scope is one that parsing
  can yield, and its password data is text.\<close>

definition storable :: "'u url_lib \<Rightarrow> 'u encoded_client \<Rightarrow> bool" where
  "storable U e \<longleftrightarrow>
     (\<forall>r\<in>set (ec_redirect_uri e # ec_additional_redirect_uris e).
        url_parse U (registered_as_str U r) \<noteq> None) \<and>
     scope_wf (ec_default_scope e) \<and>
     (case ec_encoded_client e of PublicClient \<Rightarrow> True | Confidential p \<Rightarrow> utf8_valid p)"

lemma from_utf8_valid: "utf8_valid bs \<Longrightarrow> \<exists>s. from_utf8 bs = Some s \<and> as_bytes s = bs"
  using as_bytes_from_utf8 [of bs] by (auto simp: from_utf8_def)

lemma stored_form:
  assumes "iter_order it" and "storable U e"
  obtains s where "from_encoded_client it U e = Ok s" "sc_client_id s = ec_client_id e"
    "to_encoded_client U s = Ok (exactified U e)"
proof (cases "ec_encoded_client e")
  case PublicClient
  with assms that show ?thesis
    by (auto simp: from_encoded_client_def to_encoded_client_def storable_def exactified_def
        exact_from_str_def unwrap_or_def push_registered_all scope_roundtrip ok_or_Ok_iff
        comp_def split: if_splits)
next
  case (Confidential p)
  obtain pw where "from_utf8 p = Some pw" "as_bytes pw = p"
    using assms(2) Confidential from_utf8_valid [of p] by (auto simp: storable_def)
  with Confidential assms that show ?thesis
    by (auto simp: from_encoded_client_def to_encoded_client_def storable_def exactified_def
        exact_from_str_def unwrap_or_def push_registered_all scope_roundtrip ok_or_Ok_iff
        comp_def split: if_splits)
qed

section \<open>What the registrar needs of a data source\<close>

text \<open>The clients a table of stored forms stands for, as a client map.\<close>

definition table_clients ::
  "'u url_lib \<Rightarrow> policy option \<Rightarrow> (string \<Rightarrow> stringfied_client option) \<Rightarrow> 'u client_map" where
  "table_clients U p t = \<lparr>
     cm_clients = (\<lambda>ident. case t ident of
         None \<Rightarrow> None
       | Some c \<Rightarrow> (case to_encoded_client U c of Ok e \<Rightarrow> Some e | _ \<Rightarrow> None)),
     cm_password_policy = p \<rparr>"

definition lookup_result ::
  "'u url_lib \<Rightarrow> stringfied_client option \<Rightarrow> ('u encoded_client, unit) outcome" where
  "lookup_result U row = (case row of None \<Rightarrow> Err () | Some c \<Rightarrow> to_encoded_client U c)"

lemma table_clients_simps [simp]:
  "cm_password_policy (table_clients U p t) = p"
  "lookup_result U (t i) \<noteq> Panic \<Longrightarrow> cm_clients (table_clients U p t) i =
     (case lookup_result U (t i) of Ok e \<Rightarrow> Some e | _ \<Rightarrow> None)"
  by (auto simp: table_clients_def lookup_result_def split: option.splits outcome.splits)

locale client_lookup =
  fixes U :: "'u url_lib"
    and repo :: "('d, 'u) client_repo"
    and inv :: "'d \<Rightarrow> bool"
    and good_id :: "string \<Rightarrow> bool"
    and tab :: "'d \<Rightarrow> string \<Rightarrow> stringfied_client option"
  assumes find_law: "inv d \<Longrightarrow> good_id i \<Longrightarrow>
      \<exists>d'. cr_find_client_by_id repo i d = (lookup_result U (tab d i), d') \<and> inv d' \<and> tab d' = tab d"
begin

lemma bound_redirect_as_map:
  assumes "inv d" and "good_id (cu_client_id cu)" and "dr_repo reg = repo"
    and "lookup_result U (tab d (cu_client_id cu)) \<noteq> Panic"
  shows "\<exists>d'. dr_bound_redirect U reg cu d = (cm_bound_redirect U (table_clients U p (tab d)) cu, d') \<and>
    inv d' \<and> tab d' = tab d"
  using find_law [OF assms(1,2)] assms(3,4)
  by (cases "lookup_result U (tab d (cu_client_id cu))")
    (auto simp: dr_bound_redirect_def cm_bound_redirect_def bind_ac_def err_ac_def)

lemma check_as_map:
  assumes "inv d" and "good_id i" and "dr_repo reg = repo"
    and "lookup_result U (tab d i) \<noteq> Panic"
  shows "\<exists>d'. dr_check A reg i pw d =
      (cm_check A (table_clients U (dr_password_policy reg) (tab d)) i pw, d') \<and>
    inv d' \<and> tab d' = tab d"
  using find_law [OF assms(1,2)] assms(3,4)
  by (cases "lookup_result U (tab d i)")
    (auto simp: dr_check_def cm_check_def bind_ac_def err_ac_def dr_current_policy_eq)

lemma negotiate_as_map:
  assumes "inv d" and "good_id (bc_client_id bc)" and "dr_repo reg = repo"
    and "lookup_result U (tab d (bc_client_id bc)) \<noteq> Panic"
  shows "\<exists>d'. dr_negotiate reg bc sc d =
      ((if cm_clients (table_clients U p (tab d)) (bc_client_id bc) = None then Err Unspecified
        else cm_negotiate (table_clients U p (tab d)) bc sc), d') \<and>
    inv d' \<and> tab d' = tab d"
  using find_law [OF assms(1,2)] assms(3,4)
  by (cases "lookup_result U (tab d (bc_client_id bc))")
    (auto simp: dr_negotiate_def cm_negotiate_def bind_ac_def err_ac_def)

end

text \<open>Sequencing after a command, and the decoding that ends a lookup.\<close>

lemma command_steps:
  "f d = (x, d') \<Longrightarrow> bind_ac (db_do f) g d = g x d'"
  "h d = (True, d') \<Longrightarrow> bind_ac (db_need h) k d = k () d'"
  "h d = (False, d') \<Longrightarrow> bind_ac (db_need h) k d = (Err (), d')"
  "q d = (v, d') \<Longrightarrow> bind_ac (db_ask q) r d = bind_ac (lift_oc (ok_or () v)) r d'"
  by (simp_all add: bind_ac_def db_need_def db_ask_def db_do_def)

lemma stored_decode:
  "bind_ac (lift_oc (ok_or () x)) (\<lambda>s. bind_ac (lift_oc (ok_or () (dec K s)))
      (\<lambda>c. lift_oc (to_encoded_client U c))) d = (lookup_result U (Option.bind x (dec K)), d)"
  by (cases x; cases "Option.bind x (dec K)") (auto simp: bind_ac_def lookup_result_def)

section \<open>What is relied on of the servers\<close>

text \<open>
  The state is seen as the strings and the hashes of the Redis server and the table of the database.
  A key holds a string or a hash: setting a string replaces a hash, and hash commands fail on a
  string. A reply that reports success implies the documented effect; an error may or may not have
  had it; a healthy state gives no errors but those the commands are documented to give. A select
  finds the row of an identifier provided the identifier cannot end the quoted literal it is pasted
  into; \<open>keys\<close> is only described for patterns without special characters.
\<close>

definition plain_id :: "string \<Rightarrow> bool" where
  "plain_id i \<longleftrightarrow> CHR 0x27 \<notin> set i"

definition plain_pattern :: "string \<Rightarrow> bool" where
  "plain_pattern p \<longleftrightarrow> set p \<inter> {CHR ''*'', CHR ''?'', CHR ''['', CHR 0x5C} = {}"

definition first_row :: "cql_answer \<Rightarrow> stringfied_client option" where
  "first_row a = (case a of CqlRows (Some (row # _)) \<Rightarrow> row | _ \<Rightarrow> None)"

locale client_db =
  fixes D :: "'d db_ops"
    and db_name table_name :: string
    and strs :: "'d \<Rightarrow> string \<Rightarrow> string option"
    and hash :: "'d \<Rightarrow> string \<Rightarrow> string \<Rightarrow> string option"
    and table :: "'d \<Rightarrow> string \<Rightarrow> stringfied_client option"
    and healthy :: "'d \<Rightarrow> bool"
  assumes connect: "db_connect D d = (b, d') \<Longrightarrow>
        strs d' = strs d \<and> hash d' = hash d \<and> table d' = table d \<and> (healthy d \<longrightarrow> b \<and> healthy d')"
    and read_timeout: "db_set_read_timeout D n d = (b, d') \<Longrightarrow>
        strs d' = strs d \<and> hash d' = hash d \<and> table d' = table d \<and> (healthy d \<longrightarrow> b \<and> healthy d')"
    and get: "db_get D k d = (v, d') \<Longrightarrow>
        strs d' = strs d \<and> hash d' = hash d \<and> table d' = table d \<and>
        (v \<noteq> None \<longrightarrow> v = strs d k) \<and> (healthy d \<longrightarrow> v = strs d k \<and> healthy d')"
    and set_ex: "db_set_ex D k w n d = (b, d') \<Longrightarrow> table d' = table d \<and>
        (strs d' = strs d \<and> hash d' = hash d \<and> \<not> b \<or>
         strs d' = (strs d)(k \<mapsto> w) \<and> hash d' = (hash d)(k := Map.empty)) \<and>
        (healthy d \<longrightarrow> b \<and> healthy d')"
    and del: "db_del D k d = (b, d') \<Longrightarrow> table d' = table d \<and>
        (strs d' = strs d \<and> hash d' = hash d \<and> \<not> b \<or>
         strs d' = (strs d)(k := None) \<and> hash d' = (hash d)(k := Map.empty)) \<and>
        (healthy d \<longrightarrow> b \<and> healthy d')"
    and keys: "db_keys D p d = (ks, d') \<Longrightarrow>
        strs d' = strs d \<and> hash d' = hash d \<and> table d' = table d \<and>
        (healthy d \<longrightarrow> ks \<noteq> None \<and> healthy d') \<and>
        (plain_pattern p \<longrightarrow> ks \<noteq> None \<longrightarrow>
           ks = Some (if strs d p = None \<and> hash d p = Map.empty then [] else [p]))"
    and hget: "db_hget D k f d = (v, d') \<Longrightarrow>
        strs d' = strs d \<and> hash d' = hash d \<and> table d' = table d \<and>
        (v \<noteq> None \<longrightarrow> v = hash d k f) \<and>
        (healthy d \<longrightarrow> (strs d k = None \<longrightarrow> v = hash d k f) \<and> healthy d') \<and>
        (strs d k \<noteq> None \<longrightarrow> v = None)"
    and hset: "db_hset D k f w d = (b, d') \<Longrightarrow> table d' = table d \<and> strs d' = strs d \<and>
        (hash d' = hash d \<and> \<not> b \<or> hash d' = hash_upd (hash d) k f (Some w)) \<and>
        (healthy d \<longrightarrow> (strs d k = None \<longrightarrow> b) \<and> healthy d') \<and>
        (strs d k \<noteq> None \<longrightarrow> \<not> b \<and> hash d' = hash d)"
    and query: "cql_query D (select_client db_name table_name i) d = (a, d') \<Longrightarrow> plain_id i \<Longrightarrow>
        strs d' = strs d \<and> hash d' = hash d \<and> table d' = table d \<and>
        (first_row a \<noteq> None \<longrightarrow> first_row a = table d i) \<and>
        (healthy d \<longrightarrow> first_row a = table d i \<and> healthy d')"
begin

lemma get_client_result:
  assumes "cql_runtime D" and "plain_id i"
    and "get_client D db_name table_name i d = (x, d')"
  shows "strs d' = strs d \<and> hash d' = hash d \<and> table d' = table d \<and>
    (\<forall>c. x = Ok c \<longrightarrow> table d i = Some c) \<and> x \<noteq> Panic \<and>
    (healthy d \<longrightarrow> x = ok_or () (table d i) \<and> healthy d')"
proof -
  obtain a d1 where q: "cql_query D (select_client db_name table_name i) d = (a, d1)"
    by fastforce
  have "x = ok_or () (first_row a) \<and> d' = d1"
    using assms(1,3) q
    by (auto simp: get_client_def bind_ac_def db_do_def first_row_def
        split: cql_answer.splits option.splits list.splits)
  then show ?thesis
    using query [OF q assms(2)] by (cases "first_row a"; cases "table d i") auto
qed

lemma delete_up:
  assumes "healthy d"
  shows "\<exists>d'. rds_delete_from_cache D self i d = (Ok (), d') \<and> healthy d' \<and>
    strs d' (rds_redis_prefix self @ i) = None"
proof -
  obtain b d1 where c: "db_connect D d = (b, d1)" by fastforce
  obtain b' d2 where k: "db_del D (rds_redis_prefix self @ i) d1 = (b', d2)" by fastforce
  have "b" "b'" "healthy d2" "strs d2 (rds_redis_prefix self @ i) = None"
    using connect [OF c] del [OF k] assms by auto
  then show ?thesis
    using c k by (auto simp: rds_delete_from_cache_def command_steps db_need_def bind_ac_def db_do_def)
qed

end

text \<open>The cache of a source with both parts: each entry, if not empty, is the row of the database.\<close>

definition cache_key :: "redis_scylla_source \<Rightarrow> string" where
  "cache_key src = rs_redis_prefix src @ ''clients''"

definition cache_coherent ::
  "stringfied_client codec \<Rightarrow> (string \<Rightarrow> string option) \<Rightarrow> (string \<Rightarrow> stringfied_client option) \<Rightarrow> bool" where
  "cache_coherent K h t \<longleftrightarrow>
     (\<forall>i s. h i = Some s \<longrightarrow> s = [] \<or> (\<exists>c. dec K s = Some c \<and> t i = Some c))"

lemma coherent_empty: "cache_coherent K Map.empty t"
  by (simp add: cache_coherent_def)

lemma cache_coherent_upd:
  "cache_coherent K h t \<Longrightarrow> dec K s = Some c \<Longrightarrow> t i = Some c \<Longrightarrow> cache_coherent K (h(i \<mapsto> s)) t"
  by (auto simp: cache_coherent_def)

definition db_ready ::
  "stringfied_client codec \<Rightarrow> redis_scylla_source \<Rightarrow> ('d \<Rightarrow> string \<Rightarrow> string option) \<Rightarrow>
     ('d \<Rightarrow> string \<Rightarrow> string \<Rightarrow> string option) \<Rightarrow> ('d \<Rightarrow> string \<Rightarrow> stringfied_client option) \<Rightarrow>
     ('d \<Rightarrow> bool) \<Rightarrow> 'd \<Rightarrow> bool" where
  "db_ready K src strs hash table healthy d \<longleftrightarrow> healthy d \<and> strs d (cache_key src) = None \<and>
     cache_coherent K (hash d (cache_key src)) (table d)"

locale stored_db = client_db D "rs_db_name src" "rs_db_table src" strs hash table healthy
  for D :: "'d db_ops" and src :: redis_scylla_source and strs hash table healthy +
  fixes K :: "stringfied_client codec"
    and U :: "'u url_lib"
    and it :: "string fset \<Rightarrow> string list"
  assumes codec: "codec_ok K"
begin

lemma encode_total: "ok_or () (enc K c) = Ok (the (enc K c))" "dec K (the (enc K c)) = Some c"
  using codec_enc [OF codec, of c] by auto

end

locale cached_db = stored_db D src strs hash table healthy K U it
  for D :: "'d db_ops" and src :: redis_scylla_source and strs hash table healthy
    and K :: "stringfied_client codec" and U :: "'u url_lib" and it +
  assumes runtime: "cql_runtime D"
begin

text \<open>The two branches of a lookup, after the cache was asked.\<close>

lemma find_miss:
  assumes "db_connect D d = (True, d1)" and "db_hget D (cache_key src) i d1 = (v, d2)"
    and "unwrap_or [] v = []" and "get_client D (rs_db_name src) (rs_db_table src) i d2 = (y, d3)"
  shows "rcs_find_client_by_id D K U src i d =
    (case y of
       Ok c \<Rightarrow> (case db_hset D (cache_key src) i (the (enc K c)) d3 of
                 (b, d4) \<Rightarrow> (if b then to_encoded_client U c else Err (), d4))
     | Err e \<Rightarrow> (Err (), d3)
     | Panic \<Rightarrow> (Panic, d3))"
  using assms
  by (auto simp: encode_total rcs_find_client_by_id_def cache_key_def bind_ac_def db_need_def db_do_def
      lift_oc_def ret_def fail_def split: outcome.splits prod.splits)

lemma find_hit:
  assumes "db_connect D d = (True, d1)" and "db_hget D (cache_key src) i d1 = (v, d2)"
    and "unwrap_or [] v = s" and "s \<noteq> []"
  shows "rcs_find_client_by_id D K U src i d =
    ((case dec K s of None \<Rightarrow> Err () | Some c \<Rightarrow> to_encoded_client U c), d2)"
  using assms
  by (auto simp: rcs_find_client_by_id_def cache_key_def bind_ac_def db_need_def db_do_def
      lift_oc_def ret_def fail_def split: option.splits outcome.splits)

lemma find_offline:
  assumes "db_connect D d = (False, d1)"
  shows "rcs_find_client_by_id D K U src i d = (Err (), d1)"
  using assms by (simp add: rcs_find_client_by_id_def bind_ac_def db_need_def db_do_def)

text \<open>One lookup, whatever the servers report.\<close>

lemma find_step:
  assumes "plain_id i" and "cache_coherent K (hash d (cache_key src)) (table d)"
    and "rcs_find_client_by_id D K U src i d = (x, d')"
  shows "table d' = table d \<and> strs d' = strs d \<and>
    cache_coherent K (hash d' (cache_key src)) (table d') \<and>
    (\<forall>e. x = Ok e \<longrightarrow> lookup_result U (table d i) = Ok e) \<and>
    (strs d (cache_key src) \<noteq> None \<longrightarrow> x = Err ()) \<and>
    (healthy d \<longrightarrow> healthy d' \<and>
       (strs d (cache_key src) = None \<longrightarrow> x = lookup_result U (table d i)))"
proof -
  obtain b d1 where c: "db_connect D d = (b, d1)" by fastforce
  obtain v d2 where g: "db_hget D (cache_key src) i d1 = (v, d2)" by fastforce
  obtain y d3 where q: "get_client D (rs_db_name src) (rs_db_table src) i d2 = (y, d3)" by fastforce
  note frames = connect [OF c] hget [OF g] get_client_result [OF runtime assms(1) q]
  consider (offline) "\<not> b" | (hit) "b" "unwrap_or [] v \<noteq> []" | (miss) "b" "unwrap_or [] v = []"
    by blast
  then show ?thesis
  proof cases
    case offline
    then show ?thesis using find_offline [of d d1 i] c assms(2,3) frames(1) by auto
  next
    case hit
    then obtain s where "v = Some s" "s \<noteq> []" "hash d (cache_key src) i = Some s"
      "strs d (cache_key src) = None"
      using frames(1,2) by (cases v) (auto simp: unwrap_or_def)
    moreover from this obtain cl where "dec K s = Some cl" "table d i = Some cl"
      using assms(2) by (auto simp: cache_coherent_def)
    ultimately show ?thesis
      using find_hit [of d d1 i v d2 s] hit(1) c g assms(2,3) frames(1,2)
      by (auto simp: unwrap_or_def lookup_result_def)
  next
    case miss
    then have run: "(x, d') = (case y of
        Ok cl \<Rightarrow> (case db_hset D (cache_key src) i (the (enc K cl)) d3 of
                  (b, d4) \<Rightarrow> (if b then to_encoded_client U cl else Err (), d4))
      | Err e \<Rightarrow> (Err (), d3) | Panic \<Rightarrow> (Panic, d3))"
      using find_miss [of d d1 i v d2 y d3] c g q assms(3) by simp
    have kept2: "table d2 = table d" "strs d2 = strs d" "hash d2 = hash d" "healthy d \<longrightarrow> healthy d2"
      using frames(1,2) by metis+
    have kept: "table d3 = table d" "strs d3 = strs d" "hash d3 = hash d"
      "healthy d \<longrightarrow> healthy d3 \<and> y = ok_or () (table d i)"
      using frames(3) kept2 by metis+
    show ?thesis
    proof (cases y)
      case (Ok cl)
      then have row: "table d i = Some cl" using frames(3) kept2(1) by metis
      obtain ok d4 where h: "db_hset D (cache_key src) i (the (enc K cl)) d3 = (ok, d4)" by fastforce
      have out: "x = (if ok then to_encoded_client U cl else Err ())" "d' = d4"
        using run Ok h by auto
      have "cache_coherent K (hash d4 (cache_key src)) (table d)"
        using hset [OF h] kept assms(2) cache_coherent_upd [OF assms(2) encode_total(2) row]
        by (auto simp: hash_upd_row)
      then show ?thesis
        using hset [OF h] unfolding out kept lookup_result_def row option.case
        by (cases ok) (use kept in force)+
    next
      case (Err e)
      then have "x = Err ()" "d' = d3" using run by auto
      moreover have "healthy d \<longrightarrow> lookup_result U (table d i) = Err ()"
        using Err kept(4) by (cases "table d i") (auto simp: lookup_result_def)
      ultimately show ?thesis using kept assms(2) by simp
    next
      case Panic
      then show ?thesis using frames(3) by blast
    qed
  qed
qed

end

text \<open>Every kind of source provides the interface of the registrar; those with a database part for
  identifiers that cannot end the literal in the query.\<close>

sublocale cached_db \<subseteq> cached: client_lookup U "data_source_repo it D K U src"
  "db_ready K src strs hash table healthy" plain_id table
proof
  fix d i
  assume ready: "db_ready K src strs hash table healthy d" and i: "plain_id i"
  obtain x d' where run: "rcs_find_client_by_id D K U src i d = (x, d')" by fastforce
  have "x = lookup_result U (table d i) \<and> table d' = table d \<and>
      db_ready K src strs hash table healthy d'"
    using find_step [OF i _ run] ready unfolding db_ready_def by metis
  with run show "\<exists>d'. cr_find_client_by_id (data_source_repo it D K U src) i d =
      (lookup_result U (table d i), d') \<and> db_ready K src strs hash table healthy d' \<and> table d' = table d"
    by (auto simp: data_source_repo_def)
qed

sublocale cached_db \<subseteq> database: client_lookup U
  "scylla_repo D U \<lparr> sds_db_name = rs_db_name src, sds_table_name = rs_db_table src \<rparr>"
  healthy plain_id table
proof
  fix d i
  assume up: "healthy d" and i: "plain_id i"
  obtain y d' where q: "get_client D (rs_db_name src) (rs_db_table src) i d = (y, d')" by fastforce
  have step: "y = ok_or () (table d i)" "healthy d'" "table d' = table d"
    using get_client_result [OF runtime i q] up by metis+
  show "\<exists>d'. cr_find_client_by_id
        (scylla_repo D U \<lparr> sds_db_name = rs_db_name src, sds_table_name = rs_db_table src \<rparr>) i d =
      (lookup_result U (table d i), d') \<and> healthy d' \<and> table d' = table d"
    using step q
    by (cases "table d i")
      (simp_all add: scylla_repo_def sds_find_client_by_id_def bind_ac_def lookup_result_def)
qed

sublocale stored_db \<subseteq> single: client_lookup U
  "redis_repo it D K U \<lparr> rds_redis_prefix = rs_redis_prefix src \<rparr>"
  healthy "\<lambda>_. True" "\<lambda>d i. Option.bind (strs d (rs_redis_prefix src @ i)) (dec K)"
proof
  fix d i
  assume up: "healthy d"
  obtain b d1 where c: "db_connect D d = (b, d1)" by fastforce
  obtain v d2 where g: "db_get D (rs_redis_prefix src @ i) d1 = (v, d2)" by fastforce
  have "b" "v = strs d (rs_redis_prefix src @ i)" "healthy d2" "strs d2 = strs d"
    using connect [OF c] get [OF g] up by auto
  then show "\<exists>d'. cr_find_client_by_id
        (redis_repo it D K U \<lparr> rds_redis_prefix = rs_redis_prefix src \<rparr>) i d =
      (lookup_result U (Option.bind (strs d (rs_redis_prefix src @ i)) (dec K)), d') \<and> healthy d' \<and>
      (\<lambda>i. Option.bind (strs d' (rs_redis_prefix src @ i)) (dec K)) =
      (\<lambda>i. Option.bind (strs d (rs_redis_prefix src @ i)) (dec K))"
    using c g by (simp add: redis_repo_def rds_find_client_by_id_def command_steps stored_decode)
qed

sublocale stored_db \<subseteq> cluster: client_lookup U
  "redis_cluster_repo it D K U \<lparr> rcd_redis_prefix = rs_redis_prefix src \<rparr>"
  healthy "\<lambda>_. True" "\<lambda>d i. Option.bind (strs d (rs_redis_prefix src @ i)) (dec K)"
proof
  fix d i
  assume up: "healthy d"
  obtain b d1 where c: "db_connect D d = (b, d1)" by fastforce
  obtain b' d2 where t: "db_set_read_timeout D 5 d1 = (b', d2)" by fastforce
  obtain v d3 where g: "db_get D (rs_redis_prefix src @ i) d2 = (v, d3)" by fastforce
  have "b" "b'" "v = strs d (rs_redis_prefix src @ i)" "healthy d3" "strs d3 = strs d"
    using connect [OF c] read_timeout [OF t] get [OF g] up by auto
  then show "\<exists>d'. cr_find_client_by_id
        (redis_cluster_repo it D K U \<lparr> rcd_redis_prefix = rs_redis_prefix src \<rparr>) i d =
      (lookup_result U (Option.bind (strs d (rs_redis_prefix src @ i)) (dec K)), d') \<and> healthy d' \<and>
      (\<lambda>i. Option.bind (strs d' (rs_redis_prefix src @ i)) (dec K)) =
      (\<lambda>i. Option.bind (strs d (rs_redis_prefix src @ i)) (dec K))"
    using c t g by (simp add: redis_cluster_repo_def rcd_find_client_by_id_def command_steps stored_decode)
qed

section \<open>Registration\<close>

lemma keeps_commands:
  assumes "\<And>d x d'. I d \<Longrightarrow> f d = (x, d') \<Longrightarrow> I d'"
  shows "keeps I (db_do f)"
  using assms by (auto simp: keeps_def db_do_def split: prod.splits)

lemma keeps_need:
  assumes "\<And>d x d'. I d \<Longrightarrow> f d = (x, d') \<Longrightarrow> I d'"
  shows "keeps I (db_need f)"
  unfolding db_need_def by (intro keeps_bind keeps_commands) (auto intro: assms)

lemma keeps_ask:
  assumes "\<And>d x d'. I d \<Longrightarrow> f d = (x, d') \<Longrightarrow> I d'"
  shows "keeps I (db_ask f)"
  unfolding db_ask_def by (intro keeps_bind keeps_commands) (auto intro: assms)

lemma keeps_list_keys:
  assumes "\<And>k. keeps I (db_ask (db_get D k))"
  shows "keeps I (list_keys D K U ks acc)"
  by (induction ks arbitrary: acc) (simp_all add: keeps_bind assms)

lemma single_is_cached:
  "rds_regist_from_encoded_client it D K U \<lparr> rds_redis_prefix = rs_redis_prefix src \<rparr> =
     rcs_regist_from_encoded_client it D K U src"
  "rds_delete_from_cache D \<lparr> rds_redis_prefix = rs_redis_prefix src \<rparr> = rcs_delete_from_cache D src"
  by (auto simp: fun_eq_iff rds_regist_from_encoded_client_def rcs_regist_from_encoded_client_def
      rds_regist_to_cache_def [abs_def] rcs_regist_to_cache_def [abs_def] rds_delete_from_cache_def
      rcs_delete_from_cache_def)

context stored_db
begin

lemma single_lookup: "client_lookup U
    (redis_repo it D K U \<lparr> rds_redis_prefix = rs_redis_prefix src \<rparr>) healthy (\<lambda>_. True)
    (\<lambda>d i. Option.bind (strs d (rs_redis_prefix src @ i)) (dec K))"
  by unfold_locales

lemma register_up:
  assumes "iter_order it" and "storable U e" and "healthy d"
  obtains s w d' where "to_encoded_client U s = Ok (exactified U e)" "dec K w = Some s"
    "rcs_regist_from_encoded_client it D K U src e d = (Ok (), d')" "healthy d'" "table d' = table d"
    "strs d' = (strs d)(rs_redis_prefix src @ ec_client_id e \<mapsto> w)"
    "hash d' = (hash d)(rs_redis_prefix src @ ec_client_id e := Map.empty)"
proof -
  obtain s where s: "from_encoded_client it U e = Ok s" "sc_client_id s = ec_client_id e"
    "to_encoded_client U s = Ok (exactified U e)"
    using stored_form [OF assms(1,2)] by blast
  obtain b d1 where c: "db_connect D d = (b, d1)" by fastforce
  let ?k = "rs_redis_prefix src @ ec_client_id e" and ?w = "the (enc K s)"
  obtain b' d2 where p: "db_set_ex D ?k ?w 3600 d1 = (b', d2)" by fastforce
  have up: "b" "healthy d1" "strs d1 = strs d" "hash d1 = hash d" "table d1 = table d"
    using connect [OF c] assms(3) by auto
  then have put: "b'" "healthy d2" "table d2 = table d" "strs d2 = (strs d)(?k \<mapsto> ?w)"
    "hash d2 = (hash d)(?k := Map.empty)"
    using set_ex [OF p] by auto
  have "rcs_regist_from_encoded_client it D K U src e d = (Ok (), d2)"
    using c p up(1) put(1) s(1,2)
    by (simp add: rcs_regist_from_encoded_client_def rcs_regist_to_cache_def bind_ac_def db_need_def
        db_do_def encode_total lift_oc_def)
  then show ?thesis using that s(3) encode_total(2) put(2-5) by blast
qed

end

context cached_db
begin

lemma cached_lookup: "client_lookup U (data_source_repo it D K U src)
    (db_ready K src strs hash table healthy) plain_id table"
  by unfold_locales

abbreviation coherent_with :: "(string \<Rightarrow> stringfied_client option) \<Rightarrow> 'd \<Rightarrow> bool" where
  "coherent_with t d \<equiv> table d = t \<and> cache_coherent K (hash d (cache_key src)) t"

lemma keeps_coherent:
  "keeps (coherent_with t) (db_need (db_connect D))"
  "keeps (coherent_with t) (db_need (db_set_ex D k w n))"
  "keeps (coherent_with t) (db_need (db_del D k))"
  "keeps (coherent_with t) (db_ask (db_get D k))"
  "keeps (coherent_with t) (db_ask (db_keys D p))"
  subgoal by (rule keeps_need) (drule connect, simp)
  subgoal by (rule keeps_need) (drule set_ex, auto simp: coherent_empty)
  subgoal by (rule keeps_need) (drule del, auto simp: coherent_empty)
  subgoal by (rule keeps_ask) (drule get, simp)
  subgoal by (rule keeps_ask) (drule keys, simp)
  done

lemma operations_keep_coherence:
  "keeps (coherent_with t) (rcs_regist_from_encoded_client it D K U src e)"
  "keeps (coherent_with t) (rcs_delete_from_cache D src i)"
  "keeps (coherent_with t) (rcs_list D K U src)"
  subgoal unfolding rcs_regist_from_encoded_client_def rcs_regist_to_cache_def [abs_def]
    by (intro keeps_bind keeps_lift keeps_coherent)
  subgoal unfolding rcs_delete_from_cache_def by (intro keeps_bind keeps_coherent)
  subgoal unfolding rcs_list_def by (intro keeps_bind keeps_coherent keeps_list_keys)
  done

lemma find_keeps_coherence:
  assumes "plain_id i"
  shows "keeps (coherent_with t) (rcs_find_client_by_id D K U src i)"
proof
  fix d x d'
  assume "coherent_with t d" and run: "rcs_find_client_by_id D K U src i d = (x, d')"
  then have "cache_coherent K (hash d (cache_key src)) (table d)" "table d = t" by simp_all
  with find_step [OF assms this(1) run] show "coherent_with t d'" by metis
qed

end

context cached_db
begin

lemma find_after_register:
  assumes "iter_order it" and "storable U e" and "db_ready K src strs hash table healthy d"
  obtains d' where "rcs_regist_from_encoded_client it D K U src e d = (Ok (), d')"
    and "\<And>i. plain_id i \<Longrightarrow> ec_client_id e = ''clients'' \<or> table d i = None \<Longrightarrow>
      fst (rcs_find_client_by_id D K U src i d') = Err ()"
proof -
  obtain s w d' where reg: "rcs_regist_from_encoded_client it D K U src e d = (Ok (), d')"
    and up: "healthy d'" "table d' = table d"
    and st: "strs d' = (strs d)(rs_redis_prefix src @ ec_client_id e \<mapsto> w)"
      "hash d' = (hash d)(rs_redis_prefix src @ ec_client_id e := Map.empty)"
    using register_up [OF assms(1,2)] assms(3) unfolding db_ready_def by metis
  have coh: "cache_coherent K (hash d' (cache_key src)) (table d')"
    using assms(3) unfolding db_ready_def st up by (auto simp: coherent_empty)
  have "fst (rcs_find_client_by_id D K U src i d') = Err ()"
    if i: "plain_id i" "ec_client_id e = ''clients'' \<or> table d i = None" for i
  proof -
    obtain x d2 where run: "rcs_find_client_by_id D K U src i d' = (x, d2)" by fastforce
    have "strs d' (cache_key src) \<noteq> None \<or> table d' i = None"
      using i(2) by (auto simp: st up cache_key_def)
    then have "x = Err ()"
      using find_step [OF i(1) coh run] up(1) by (metis lookup_result_def option.case(1))
    then show ?thesis using run by simp
  qed
  then show ?thesis using that reg by blast
qed

end

section \<open>Executable servers\<close>

text \<open>
  Both servers in memory, with a list that says which of the next commands fail (a failing command
  has no effect). The query is answered by cutting the identifier out of the statement.
\<close>

record mem_db =
  md_strs :: "string \<Rightarrow> string option"
  md_hash :: "string \<Rightarrow> (string \<times> string) list"
  md_table :: "string \<Rightarrow> stringfied_client option"
  md_faults :: "bool list"

definition md_cmd :: "'a \<Rightarrow> (mem_db \<Rightarrow> 'a \<times> mem_db) \<Rightarrow> mem_db \<Rightarrow> 'a \<times> mem_db" where
  "md_cmd err f d = (let d' = d\<lparr> md_faults := drop 1 (md_faults d) \<rparr> in
     if md_faults d \<noteq> [] \<and> hd (md_faults d) then (err, d') else f d')"

definition selected :: "string \<Rightarrow> string \<Rightarrow> string \<Rightarrow> string" where
  "selected db_name table_name stmt =
     takeWhile (\<lambda>c. c \<noteq> CHR 0x27) (drop (length (select_client db_name table_name []) - 1) stmt)"

definition mem_db_ops :: "string \<Rightarrow> string \<Rightarrow> mem_db db_ops" where
  "mem_db_ops db_name table_name = \<lparr>
     db_connect = md_cmd False (Pair True),
     db_set_read_timeout = (\<lambda>n. md_cmd False (Pair True)),
     db_get = (\<lambda>k. md_cmd None (\<lambda>d. (md_strs d k, d))),
     db_set_ex = (\<lambda>k w n. md_cmd False (\<lambda>d.
       (True, d\<lparr> md_strs := (md_strs d)(k \<mapsto> w), md_hash := (md_hash d)(k := []) \<rparr>))),
     db_del = (\<lambda>k. md_cmd False (\<lambda>d.
       (True, d\<lparr> md_strs := (md_strs d)(k := None), md_hash := (md_hash d)(k := []) \<rparr>))),
     db_keys = (\<lambda>p. md_cmd None (\<lambda>d.
       (Some (if md_strs d p = None \<and> md_hash d p = [] then [] else [p]), d))),
     db_hget = (\<lambda>k f. md_cmd None (\<lambda>d.
       (if md_strs d k = None then map_of (md_hash d k) f else None, d))),
     db_hset = (\<lambda>k f w. md_cmd False (\<lambda>d.
       if md_strs d k = None then (True, d\<lparr> md_hash := (md_hash d)(k := (f, w) # md_hash d k) \<rparr>)
       else (False, d))),
     cql_runtime = True,
     cql_query = (\<lambda>stmt. md_cmd CqlFailed (\<lambda>d.
       (CqlRows (Some (case md_table d (selected db_name table_name stmt) of
          None \<Rightarrow> [] | Some c \<Rightarrow> [Some c])), d))) \<rparr>"

definition md_view :: "mem_db \<Rightarrow> string \<Rightarrow> string \<Rightarrow> string option" where
  "md_view d k = map_of (md_hash d k)"

definition md_healthy :: "mem_db \<Rightarrow> bool" where
  "md_healthy d \<longleftrightarrow> True \<notin> set (md_faults d)"

lemma fault_in_list: "xs \<noteq> [] \<Longrightarrow> hd xs \<Longrightarrow> True \<in> set xs"
  by (cases xs) auto

lemma no_entries_iff: "(\<forall>x. map_of xs x = None) \<longleftrightarrow> xs = []"
  by (metis map_of_eq_empty_iff fun_eq_iff)

lemma select_client_split: "\<exists>pre. \<forall>i. select_client db_name table_name i = pre @ i @ [CHR 0x27]"
  unfolding select_client_def
  by (rule exI [of _ "''SELECT client_id, client_secret, redirect_uri, additional_redirect_uris'' @
      [CHR 0x0A] @ ''                    , scopes as default_scope FROM '' @ db_name @ ''.'' @
      table_name @ '' where client_id = '' @ [CHR 0x27]"]) simp

lemma selected_plain:
  assumes "plain_id i"
  shows "selected db_name table_name (select_client db_name table_name i) = i"
proof -
  obtain pre where "\<And>i. select_client db_name table_name i = pre @ i @ [CHR 0x27]"
    using select_client_split by metis
  moreover have "takeWhile (\<lambda>c. c \<noteq> CHR 0x27) (i @ [CHR 0x27]) = i"
    using assms by (subst takeWhile_append2) (auto simp: plain_id_def)
  ultimately show ?thesis by (simp add: selected_def)
qed

lemma first_row_simps [simp]:
  "first_row CqlFailed = None"
  "first_row (CqlRows (Some [])) = None"
  "first_row (CqlRows (Some (r # rs))) = r"
  "first_row (CqlRows (Some (case x of None \<Rightarrow> [] | Some c \<Rightarrow> [Some c]))) = x"
  by (auto simp: first_row_def split: option.splits)

lemmas mem_db_law_simps = mem_db_ops_def md_cmd_def Let_def md_view_def hash_upd_def

lemma mem_client_db:
  "client_db (mem_db_ops db_name table_name) db_name table_name md_strs md_view md_table md_healthy"
  by unfold_locales
    (auto simp: mem_db_law_simps selected_plain fun_eq_iff no_entries_iff md_healthy_def
      split: if_splits dest: in_set_dropD fault_in_list)

text \<open>An executable serialisation of stored clients.\<close>

definition stored_text :: "stringfied_client \<Rightarrow> string" where
  "stored_text c = quote_list [sc_client_id c, opt_text (sc_client_secret c),
     opt_text (sc_redirect_uri c), opt_text (map_option quote_list (sc_additional_redirect_uris c)),
     opt_text (sc_default_scope c)]"

definition text_stored :: "string \<Rightarrow> stringfied_client option" where
  "text_stored s = (case unquoted s of
       Some [i, secret, uri, additional, scope] \<Rightarrow>
         Some \<lparr> sc_client_id = i, sc_client_secret = text_opt secret, sc_redirect_uri = text_opt uri,
                sc_additional_redirect_uris = map_option (\<lambda>t. the (unquoted t)) (text_opt additional),
                sc_default_scope = text_opt scope \<rparr>
     | _ \<Rightarrow> None)"

definition stored_codec :: "stringfied_client codec" where
  "stored_codec = \<lparr> enc = (\<lambda>c. Some (stored_text c)), dec = text_stored \<rparr>"

lemma stored_codec_ok: "codec_ok stored_codec"
  by (simp add: codec_ok_def stored_codec_def text_stored_def stored_text_def option.map_comp comp_def
      option.map_ident)

interpretation mem_db: cached_db "mem_db_ops (rs_db_name src) (rs_db_table src)" src
  md_strs md_view md_table md_healthy stored_codec U it
  for src :: redis_scylla_source and U :: "'u url_lib" and it
  by (intro cached_db.intro stored_db.intro stored_db_axioms.intro cached_db_axioms.intro mem_client_db
      stored_codec_ok) (simp add: mem_db_ops_def)

section \<open>The cache and the database\<close>

lemma stored_dbI:
  "client_db D (rs_db_name src) (rs_db_table src) strs hash table healthy \<Longrightarrow> codec_ok K \<Longrightarrow>
     stored_db D src strs hash table healthy K"
  by (intro stored_db.intro stored_db_axioms.intro)

lemma cached_dbI:
  "client_db D (rs_db_name src) (rs_db_table src) strs hash table healthy \<Longrightarrow> codec_ok K \<Longrightarrow>
     cql_runtime D \<Longrightarrow> cached_db D src strs hash table healthy K"
  by (intro cached_db.intro stored_dbI cached_db_axioms.intro)

text \<open>
  C26: the cache never shows a client the database does not have. Whatever errors the servers report,
  registering, deleting, listing and looking up clients keep every cache entry equal to the row of
  the database (so long as the database itself does not change), and a client that a lookup returns
  is the stored row of its identifier.
\<close>

theorem found_client_in_database:
  assumes "client_db D (rs_db_name src) (rs_db_table src) strs hash table healthy"
    and "codec_ok K" and "cql_runtime D" and "plain_id i"
  shows "keeps (\<lambda>d. table d = t \<and> cache_coherent K (hash d (cache_key src)) t)
      (rcs_find_client_by_id D K U src i) \<and>
    keeps (\<lambda>d. table d = t \<and> cache_coherent K (hash d (cache_key src)) t)
      (rcs_regist_from_encoded_client it D K U src e) \<and>
    keeps (\<lambda>d. table d = t \<and> cache_coherent K (hash d (cache_key src)) t)
      (rcs_delete_from_cache D src j) \<and>
    keeps (\<lambda>d. table d = t \<and> cache_coherent K (hash d (cache_key src)) t)
      (rcs_list D K U src) \<and>
    (table d = t \<and> cache_coherent K (hash d (cache_key src)) t \<and>
     rcs_find_client_by_id D K U src i d = (Ok client, d') \<longrightarrow>
       (\<exists>row. t i = Some row \<and> to_encoded_client U row = Ok client))"
proof -
  have db: "cached_db D src strs hash table healthy K"
    by (rule cached_dbI [OF assms(1-3)])
  have "\<exists>row. t i = Some row \<and> to_encoded_client U row = Ok client"
    if "table d = t" "cache_coherent K (hash d (cache_key src)) t"
      "rcs_find_client_by_id D K U src i d = (Ok client, d')"
    using cached_db.find_step [OF db assms(4) _ that(3)] that(1,2)
    by (auto simp: lookup_result_def split: option.splits)
  then show ?thesis
    using cached_db.operations_keep_coherence [OF db] cached_db.find_keeps_coherence [OF db assms(4)]
    by blast
qed

text \<open>
  C25: on servers that work, the registrar over the crate's data source is the in-memory registrar
  over the clients of the database: binding a redirect URL and checking credentials give the same
  results, and negotiation does except that an unknown client is an error instead of a panic. The
  state stays ready for the next call. The identifiers are free of quotes, which would end the
  literal in the query, and the stored row is free of the defects that make decoding panic.
\<close>

theorem db_registrar_refines_client_map:
  assumes "client_db D (rs_db_name src) (rs_db_table src) strs hash table healthy"
    and "codec_ok K" and "cql_runtime D"
    and "dr_repo reg = data_source_repo it D K U src"
    and "db_ready K src strs hash table healthy d"
    and "plain_id i" and "lookup_result U (table d i) \<noteq> Panic"
    and "cu_client_id cu = i" and "bc_client_id bc = i"
  shows "let m = table_clients U (dr_password_policy reg) (table d) in
    (\<exists>d'. dr_bound_redirect U reg cu d = (cm_bound_redirect U m cu, d') \<and>
       db_ready K src strs hash table healthy d' \<and> table d' = table d) \<and>
    (\<exists>d'. dr_negotiate reg bc sc d =
         ((if cm_clients m i = None then Err Unspecified else cm_negotiate m bc sc), d') \<and>
       db_ready K src strs hash table healthy d' \<and> table d' = table d) \<and>
    (\<exists>d'. dr_check A reg i pw d = (cm_check A m i pw, d') \<and>
       db_ready K src strs hash table healthy d' \<and> table d' = table d)"
proof -
  have db: "cached_db D src strs hash table healthy K"
    by (rule cached_dbI [OF assms(1-3)])
  note find = cached_db.cached_lookup [OF db]
  show ?thesis
    unfolding Let_def
    using client_lookup.bound_redirect_as_map [OF find, of d cu reg] assms(4-9)
      client_lookup.negotiate_as_map [OF find, of d bc reg]
      client_lookup.check_as_map [OF find, of d i reg]
    by (metis (no_types, lifting))
qed

text \<open>
  C27: registering a client with the registrar over the crate's data source reports success and does
  not register it. The stored form goes to a string key of its own while lookups read a hash and then
  the database, so a client the database does not have stays unknown. A client of the name
  \<open>clients\<close> moreover replaces the hash: from then on every lookup of every client fails.
\<close>

theorem db_registration_not_found:
  assumes "client_db D (rs_db_name src) (rs_db_table src) strs hash table healthy"
    and "codec_ok K" and "cql_runtime D" and "iter_order it"
    and "dr_repo reg = data_source_repo it D K U src"
    and "db_ready K src strs hash table healthy d"
    and "client_encode salt (dr_current_policy A (dr_password_policy reg)) c = Ok e"
    and "storable U e"
  shows "\<exists>d'. dr_register_client A salt reg c d = (Ok (), d') \<and>
    (\<forall>i pw. plain_id i \<and> (table d i = None \<or> cl_client_id c = ''clients'') \<longrightarrow>
       fst (dr_check A reg i pw d') = Err Unspecified)"
proof -
  have db: "cached_db D src strs hash table healthy K"
    by (rule cached_dbI [OF assms(1-3)])
  have id: "ec_client_id e = cl_client_id c" using assms(7) by (auto simp: client_encode_def)
  obtain d' where reg: "rcs_regist_from_encoded_client it D K U src e d = (Ok (), d')"
    and lost: "\<And>i. plain_id i \<Longrightarrow> cl_client_id c = ''clients'' \<or> table d i = None \<Longrightarrow>
      fst (rcs_find_client_by_id D K U src i d') = Err ()"
    using cached_db.find_after_register [OF db assms(4,8,6)] unfolding id by blast
  have "dr_register_client A salt reg c d = (Ok (), d')"
    using reg assms(5,7) by (simp add: dr_register_client_def data_source_repo_def bind_ac_def err_ac_def)
  moreover have "fst (dr_check A reg i pw d') = Err Unspecified"
    if "plain_id i" "table d i = None \<or> cl_client_id c = ''clients''" for i pw
    using lost [OF that(1)] that(2) assms(5)
    by (cases "rcs_find_client_by_id D K U src i d'")
      (auto simp: dr_check_def data_source_repo_def bind_ac_def err_ac_def)
  ultimately show ?thesis by blast
qed

text \<open>
  The source on a single Redis server does find what was registered. On a working server a
  registered client is found by its identifier with all its data, except that its URLs are compared
  as text from then on; other clients are found as before; and deleting it makes it unknown.
\<close>

lemma redis_source_register_find:
  assumes "client_db D db_name table_name strs hash table healthy"
    and "codec_ok K" and "iter_order it" and "storable U e" and "healthy d"
    and "repo = redis_repo it D K U src"
  shows "\<exists>d'. cr_regist_from_encoded_client repo e d = (Ok (), d') \<and>
    fst (cr_find_client_by_id repo (ec_client_id e) d') = Ok (exactified U e) \<and>
    (\<forall>i. i \<noteq> ec_client_id e \<longrightarrow> fst (cr_find_client_by_id repo i d') = fst (cr_find_client_by_id repo i d)) \<and>
    (\<exists>d''. rds_delete_from_cache D src (ec_client_id e) d' = (Ok (), d'') \<and>
       fst (cr_find_client_by_id repo (ec_client_id e) d'') = Err ())"
proof -
  let ?src = "\<lparr> rs_redis_prefix = rds_redis_prefix src, rs_db_name = db_name, rs_db_table = table_name \<rparr>"
  have src: "src = \<lparr> rds_redis_prefix = rs_redis_prefix ?src \<rparr>" by simp
  have db: "stored_db D ?src strs hash table healthy K"
    using assms(1,2) by (intro stored_dbI) simp_all
  have repo: "repo = redis_repo it D K U \<lparr> rds_redis_prefix = rs_redis_prefix ?src \<rparr>"
    using assms(6) src by metis
  have find: "fst (cr_find_client_by_id repo i d) =
      lookup_result U (Option.bind (strs d (rds_redis_prefix src @ i)) (dec K))" if "healthy d" for i d
    using client_lookup.find_law [OF stored_db.single_lookup [OF db, of U it] that, of i]
    unfolding repo by auto
  obtain s w d' where st: "to_encoded_client U s = Ok (exactified U e)" "dec K w = Some s"
      "rcs_regist_from_encoded_client it D K U ?src e d = (Ok (), d')" "healthy d'"
      "strs d' = (strs d)(rds_redis_prefix src @ ec_client_id e \<mapsto> w)"
    by (rule stored_db.register_up [OF db assms(3-5)]) (rule that, simp_all)
  have reg: "cr_regist_from_encoded_client repo e d = (Ok (), d')"
    using st(3) unfolding repo redis_repo_def single_is_cached(1) by simp
  obtain d'' where del: "rds_delete_from_cache D src (ec_client_id e) d' = (Ok (), d'')" "healthy d''"
      "strs d'' (rds_redis_prefix src @ ec_client_id e) = None"
    using client_db.delete_up [OF assms(1) st(4)] by metis
  show ?thesis
    using reg del find [OF st(4)] find [OF assms(5)] find [OF del(2)] st(1,2,5)
    by (auto simp: lookup_result_def)
qed

text \<open>A database with one client, and another client to register.\<close>

definition demo_source :: redis_scylla_source where
  "demo_source = \<lparr> rs_redis_prefix = ''p:'', rs_db_name = ''d'', rs_db_table = ''t'' \<rparr>"

definition demo_ops :: "mem_db db_ops" where
  "demo_ops = mem_db_ops (rs_db_name demo_source) (rs_db_table demo_source)"

definition demo_row :: stringfied_client where
  "demo_row = \<lparr> sc_client_id = ''c'', sc_client_secret = None, sc_redirect_uri = Some ''https://a/'',
     sc_additional_redirect_uris = None, sc_default_scope = Some ''read'' \<rparr>"

definition demo_db :: mem_db where
  "demo_db = \<lparr> md_strs = Map.empty, md_hash = (\<lambda>_. []), md_table = [''c'' \<mapsto> demo_row], md_faults = [] \<rparr>"

definition demo_registrar :: "(mem_db, string) db_registrar" where
  "demo_registrar = db_registrar_new
     (data_source_repo example_order demo_ops stored_codec url_identity demo_source)"

definition demo_client :: "string \<Rightarrow> string client" where
  "demo_client i = client_public i (Semantic ''https://b/'') \<lparr> tokens = {||} \<rparr>"

definition demo_encoded :: "string \<Rightarrow> string encoded_client" where
  "demo_encoded i = \<lparr> ec_client_id = i, ec_redirect_uri = Semantic ''https://b/'',
     ec_additional_redirect_uris = [], ec_default_scope = \<lparr> tokens = {||} \<rparr>,
     ec_encoded_client = PublicClient \<rparr>"

lemma demo_client_db:
  "client_db demo_ops (rs_db_name demo_source) (rs_db_table demo_source) md_strs md_view md_table md_healthy"
  unfolding demo_ops_def by (rule mem_client_db)

lemma demo_runtime: "cql_runtime demo_ops"
  by (simp add: demo_ops_def mem_db_ops_def)

lemma demo_ready: "db_ready stored_codec demo_source md_strs md_view md_table md_healthy demo_db"
  by (simp add: db_ready_def demo_db_def md_healthy_def md_view_def cache_coherent_def)

lemma demo_repo:
  "dr_repo demo_registrar = data_source_repo example_order demo_ops stored_codec url_identity demo_source"
  by (simp add: demo_registrar_def db_registrar_new_def)

lemma demo_encode: "client_encode [] p (demo_client i) = Ok (demo_encoded i)"
  by (simp add: client_encode_def demo_client_def demo_encoded_def client_public_def)

lemma demo_storable: "storable url_identity (demo_encoded i)"
  by (simp add: storable_def demo_encoded_def url_identity_def registered_as_str_def scope_wf_def)

lemma demo_lookup: "lookup_result url_identity (md_table demo_db ''c'') = Ok
    \<lparr> ec_client_id = ''c'', ec_redirect_uri = Exact (ExactUrl ''https://a/''),
      ec_additional_redirect_uris = [], ec_default_scope = \<lparr> tokens = {|''read''|} \<rparr>,
      ec_encoded_client = PublicClient \<rparr>"
  by (simp add: lookup_result_def demo_db_def demo_row_def to_encoded_client_def exact_from_str_def
      url_identity_def unwrap_or_def scope_from_str_Ok_iff invalid_scope_char_def)

theorem found_client_in_database_witness:
  "\<exists>row. md_table demo_db ''c'' = Some row \<and> to_encoded_client url_identity row =
     Ok \<lparr> ec_client_id = ''c'', ec_redirect_uri = Exact (ExactUrl ''https://a/''),
          ec_additional_redirect_uris = [], ec_default_scope = \<lparr> tokens = {|''read''|} \<rparr>,
          ec_encoded_client = PublicClient \<rparr>"
proof -
  have c: "plain_id ''c''" by (simp add: plain_id_def)
  obtain d' where "rcs_find_client_by_id demo_ops stored_codec url_identity demo_source ''c'' demo_db =
      (lookup_result url_identity (md_table demo_db ''c''), d')"
    using client_lookup.find_law [OF cached_db.cached_lookup [OF cached_dbI [OF demo_client_db
        stored_codec_ok demo_runtime], of url_identity example_order] demo_ready c]
    by (auto simp: data_source_repo_def)
  then show ?thesis
    using found_client_in_database [OF demo_client_db stored_codec_ok demo_runtime c,
        of "md_table demo_db" url_identity example_order "demo_encoded ''x''" "''x''" demo_db
        "\<lparr> ec_client_id = ''c'', ec_redirect_uri = Exact (ExactUrl ''https://a/''),
          ec_additional_redirect_uris = [], ec_default_scope = \<lparr> tokens = {|''read''|} \<rparr>,
          ec_encoded_client = PublicClient \<rparr>" d'] demo_ready
    unfolding demo_lookup db_ready_def by blast
qed

theorem db_registrar_refines_client_map_witness:
  "\<exists>d'. dr_check spell_argon2 demo_registrar ''c'' None demo_db = (Ok (), d') \<and>
     db_ready stored_codec demo_source md_strs md_view md_table md_healthy d'"
proof -
  have c: "plain_id ''c''" by (simp add: plain_id_def)
  have "cm_check spell_argon2
      (table_clients url_identity (dr_password_policy demo_registrar) (md_table demo_db)) ''c'' None = Ok ()"
    using demo_lookup by (simp add: cm_check_def check_authentication_def)
  then show ?thesis
    using db_registrar_refines_client_map [OF demo_client_db stored_codec_ok demo_runtime demo_repo
        demo_ready c, of "\<lparr> cu_client_id = ''c'', cu_redirect_uri = None \<rparr>"
        "\<lparr> bc_client_id = ''c'', bc_redirect_uri = Exact (ExactUrl ''https://a/'') \<rparr>" None
        spell_argon2 None] demo_lookup
    unfolding Let_def by auto
qed

theorem db_registration_not_found_witness:
  "\<exists>d'. dr_register_client spell_argon2 [] demo_registrar (demo_client ''clients'') demo_db = (Ok (), d') \<and>
     fst (dr_check spell_argon2 demo_registrar ''c'' None d') = Err Unspecified"
  using db_registration_not_found [OF demo_client_db stored_codec_ok demo_runtime example_order_ok
      demo_repo demo_ready demo_encode demo_storable, of spell_argon2 "''clients''"]
  by (force simp: plain_id_def demo_client_def client_public_def)

end

