(* ===== verification/Frontends.thy ===== *)
theory Frontends
  imports Async_Endpoint
begin

text \<open>
  The bindings to web frameworks: \<open>oxide-auth-rocket\<close>, \<open>oxide-auth-iron\<close>, \<open>oxide-auth-rouille\<close> and
  \<open>oxide-auth-actix\<close>. A framework's request is the record of what its accessors return; the setters
  of a framework's response, its header map and the urlencoded parser are parameters. The contract
  of a response, that each operation sets its part of the reply and keeps the others, is the locale
  \<open>reply_binding\<close>; the four bindings and the simple frontend are shown to provide it, so that they all
  answer alike.
\<close>

section \<open>Parameters and urlencoded data\<close>

text \<open>\<open>serde_urlencoded\<close> turns text into pairs, each of which may fail to decode;
  \<open>NormalizedParameter\<close> collects them.\<close>

type_synonym urlencoded = "string \<Rightarrow> (unit + string \<times> string) list"

definition urlencoded_from_str :: "urlencoded \<Rightarrow> string \<Rightarrow> normalized_parameter option" where
  "urlencoded_from_str P s = (case np_deserialize (P s) of Ok p \<Rightarrow> Some p | _ \<Rightarrow> None)"

text \<open>Reading from a body, which may fail.\<close>

definition urlencoded_from_reader :: "urlencoded \<Rightarrow> string option \<Rightarrow> normalized_parameter option" where
  "urlencoded_from_reader P body = Option.bind body (urlencoded_from_str P)"

definition np_query :: "normalized_parameter \<Rightarrow> query_object" where
  "np_query p = \<lparr> qo_unique_value = np_unique_value p, qo_normalize = np_normalize p \<rparr>"

text \<open>What the sources use of a framework's response: setting the status, a header (replacing an
  earlier value) and the body, and its names of the two content types.\<close>

record 'p response_lib =
  hl_set_status :: "nat \<Rightarrow> 'p \<Rightarrow> 'p"
  hl_set_header :: "string \<Rightarrow> string \<Rightarrow> 'p \<Rightarrow> 'p"
  hl_set_body :: "string \<Rightarrow> 'p \<Rightarrow> 'p"
  hl_default :: 'p
  hl_plain :: string
  hl_json :: string

section \<open>Rocket\<close>

datatype rocket_error = RkEncoding | RkBodyNeeded | RkNotAForm

text \<open>The accessors of \<open>rocket::Request\<close>: the query of the URI, whether a content type is present and
  is the one of forms, and the values of the \<open>Authorization\<close> headers.\<close>

record rocket_http =
  rh_query :: "string option"
  rh_content_type_form :: "bool option"
  rh_authorization :: "string list"

record rocket_request =
  rkr_auth :: "string option"
  rkr_query :: "rocket_error + normalized_parameter"
  rkr_body :: "rocket_error + normalized_parameter option"

definition rocket_new :: "urlencoded \<Rightarrow> rocket_http \<Rightarrow> rocket_request" where
  "rocket_new P request =
     (let query = (case rh_query request of Some q \<Rightarrow> q | None \<Rightarrow> []) in
      \<lparr> rkr_auth = (case rh_authorization request of
            [] \<Rightarrow> None
          | [optional] \<Rightarrow> Some optional
          | _ \<Rightarrow> None),
        rkr_query = (case urlencoded_from_str P query of Some q \<Rightarrow> Inr q | None \<Rightarrow> Inl RkEncoding),
        rkr_body = (case rh_content_type_form request of
            Some True \<Rightarrow> Inr None
          | _ \<Rightarrow> Inl RkNotAForm) \<rparr>)"

definition rocket_add_body :: "urlencoded \<Rightarrow> rocket_request \<Rightarrow> string option \<Rightarrow> rocket_request" where
  "rocket_add_body P self data =
     (case rkr_body self of
        Inr None \<Rightarrow>
          (case urlencoded_from_reader P data of
             Some query \<Rightarrow> self\<lparr> rkr_body := Inr (Some query) \<rparr>
           | None \<Rightarrow> self\<lparr> rkr_body := Inl RkEncoding \<rparr>)
      | _ \<Rightarrow> self)"

definition rocket_web_request :: "rocket_request \<Rightarrow> rocket_error web_request" where
  "rocket_web_request self =
     \<lparr> wr_query = (case rkr_query self of Inr query \<Rightarrow> Inr (np_query query) | Inl err \<Rightarrow> Inl err),
       wr_urlbody = (case rkr_body self of
           Inr None \<Rightarrow> Inl RkBodyNeeded
         | Inr (Some body) \<Rightarrow> Inr (np_query body)
         | Inl err \<Rightarrow> Inl err),
       wr_authheader = Inr (rkr_auth self) \<rparr>"

definition rocket_response_ops :: "'u url_lib \<Rightarrow> 'p response_lib \<Rightarrow> ('p, 'u, rocket_error) response_ops" where
  "rocket_response_ops U H = \<lparr>
     ws_ok = (\<lambda>p. Inr (hl_set_status H 200 p)),
     ws_redirect = (\<lambda>url p. Inr (hl_set_header H ''Location'' (url_as_str U url) (hl_set_status H 302 p))),
     ws_client_error = (\<lambda>p. Inr (hl_set_status H 400 p)),
     ws_unauthorized = (\<lambda>kind p. Inr (hl_set_header H ''WWW-Authenticate'' kind (hl_set_status H 401 p))),
     ws_body_text = (\<lambda>txt p. Inr (hl_set_header H ''Content-Type'' (hl_plain H) (hl_set_body H txt p))),
     ws_body_json = (\<lambda>data p. Inr (hl_set_header H ''Content-Type'' (hl_json H) (hl_set_body H data p))) \<rparr>"

text \<open>Responding with an error: the status.\<close>

fun rocket_error_respond :: "rocket_error \<Rightarrow> nat" where
  "rocket_error_respond RkEncoding = 400"
| "rocket_error_respond RkNotAForm = 400"
| "rocket_error_respond RkBodyNeeded = 500"

datatype rocket_failure = RkfWeb rocket_error | RkfOAuth oauth_error

fun rocket_failure_oauth :: "rocket_failure \<Rightarrow> oauth_error option" where
  "rocket_failure_oauth (RkfOAuth err) = Some err"
| "rocket_failure_oauth (RkfWeb _) = None"

fun rocket_failure_web :: "rocket_failure \<Rightarrow> rocket_error option" where
  "rocket_failure_web (RkfWeb err) = Some err"
| "rocket_failure_web (RkfOAuth _) = None"

fun rocket_failure_respond :: "rocket_failure \<Rightarrow> nat" where
  "rocket_failure_respond (RkfWeb _) = 400"
| "rocket_failure_respond (RkfOAuth DenySilently) = 400"
| "rocket_failure_respond (RkfOAuth OauthBadRequest) = 400"
| "rocket_failure_respond (RkfOAuth OauthPrimitiveError) = 500"

section \<open>Iron\<close>

datatype iron_error = IrBadRequest

text \<open>The accessors of \<open>iron::Request\<close>: the query of the URL, whether the typed content type header is
  present and is the one of forms, the typed authorization header, and the body.\<close>

record iron_http =
  ih_query :: "string option"
  ih_content_type_form :: "bool option"
  ih_authorization :: "string option"
  ih_body :: "string option"

definition iron_query_string :: "iron_http \<Rightarrow> string" where
  "iron_query_string self = (case ih_query self of Some q \<Rightarrow> q | None \<Rightarrow> [])"

definition iron_is_form_url_encoded :: "iron_http \<Rightarrow> bool" where
  "iron_is_form_url_encoded self = (case ih_content_type_form self of Some b \<Rightarrow> b | None \<Rightarrow> False)"

definition iron_authorization_header :: "iron_http \<Rightarrow> string option" where
  "iron_authorization_header self = ih_authorization self"

definition iron_web_request :: "urlencoded \<Rightarrow> iron_http \<Rightarrow> iron_error web_request" where
  "iron_web_request P self =
     \<lparr> wr_query = (case urlencoded_from_str P (iron_query_string self) of
           Some q \<Rightarrow> Inr (np_query q) | None \<Rightarrow> Inl IrBadRequest),
       wr_urlbody =
         (if \<not> iron_is_form_url_encoded self then Inl IrBadRequest
          else case urlencoded_from_reader P (ih_body self) of
                 Some b \<Rightarrow> Inr (np_query b) | None \<Rightarrow> Inl IrBadRequest),
       wr_authheader = Inr (iron_authorization_header self) \<rparr>"

definition iron_response_ops :: "'u url_lib \<Rightarrow> 'p response_lib \<Rightarrow> ('p, 'u, iron_error) response_ops" where
  "iron_response_ops U H = \<lparr>
     ws_ok = (\<lambda>p. Inr (hl_set_status H 200 p)),
     ws_redirect = (\<lambda>url p. Inr (hl_set_header H ''Location'' (url_as_str U url) (hl_set_status H 302 p))),
     ws_client_error = (\<lambda>p. Inr (hl_set_status H 400 p)),
     ws_unauthorized = (\<lambda>header_value p.
       Inr (hl_set_header H ''WWW-Authenticate'' header_value (hl_set_status H 401 p))),
     ws_body_text = (\<lambda>txt p. Inr (hl_set_body H txt (hl_set_header H ''Content-Type'' (hl_plain H) p))),
     ws_body_json = (\<lambda>data p. Inr (hl_set_body H data (hl_set_header H ''Content-Type'' (hl_json H) p))) \<rparr>"

text \<open>The error with its status.\<close>

definition iron_oauth_error :: "iron_error simple_error \<Rightarrow> oauth_error \<times> nat" where
  "iron_oauth_error error =
     (let as_oauth = (case error of SeWeb IrBadRequest \<Rightarrow> OauthBadRequest | SeOAuth oauth \<Rightarrow> oauth);
          status = (case as_oauth of
              OauthBadRequest \<Rightarrow> 400 | DenySilently \<Rightarrow> 400 | OauthPrimitiveError \<Rightarrow> 500)
      in (as_oauth, status))"

section \<open>Rouille\<close>

datatype rouille_error = RoEncoding

text \<open>The accessors of \<open>rouille::Request\<close>: the query, a header by name, and the body unless it was
  taken.\<close>

record rouille_http =
  oh_raw_query_string :: string
  oh_header :: "string \<Rightarrow> string option"
  oh_data :: "string option option"

definition rouille_web_request :: "urlencoded \<Rightarrow> rouille_http \<Rightarrow> rouille_error web_request" where
  "rouille_web_request P self =
     \<lparr> wr_query = (case urlencoded_from_str P (oh_raw_query_string self) of
           Some q \<Rightarrow> Inr (np_query q) | None \<Rightarrow> Inl RoEncoding),
       wr_urlbody =
         (if oh_header self ''Content-Type'' \<in> {None, Some ''application/x-www-form-urlencoded''} then
            (case oh_data self of
               None \<Rightarrow> Inl RoEncoding
             | Some body \<Rightarrow>
                 (case urlencoded_from_reader P body of
                    Some b \<Rightarrow> Inr (np_query b) | None \<Rightarrow> Inl RoEncoding))
          else Inl RoEncoding),
       wr_authheader = Inr (oh_header self ''Authorization'') \<rparr>"

record rouille_response =
  ro_status_code :: nat
  ro_headers :: "(string \<times> string) list"
  ro_data :: string

text \<open>\<open>str::eq_ignore_ascii_case\<close>.\<close>

definition ascii_lower :: "char \<Rightarrow> char" where
  "ascii_lower c = (if CHR ''A'' \<le> c \<and> c \<le> CHR ''Z'' then char_of ((of_char c :: nat) + 32) else c)"

definition eq_ignore_ascii_case :: "string \<Rightarrow> string \<Rightarrow> bool" where
  "eq_ignore_ascii_case s t \<longleftrightarrow> map ascii_lower s = map ascii_lower t"

definition rouille_replace :: "string \<Rightarrow> string \<times> string \<Rightarrow> rouille_response \<Rightarrow> rouille_response" where
  "rouille_replace name header p =
     p\<lparr> ro_headers := filter (\<lambda>h. \<not> eq_ignore_ascii_case (fst h) name) (ro_headers p) @ [header] \<rparr>"

definition rouille_response_ops :: "'u url_lib \<Rightarrow> (rouille_response, 'u, rouille_error) response_ops" where
  "rouille_response_ops U = \<lparr>
     ws_ok = (\<lambda>p. Inr (p\<lparr> ro_status_code := 200 \<rparr>)),
     ws_redirect = (\<lambda>url p. Inr (rouille_replace ''Location'' (''Location'', url_as_str U url)
       (p\<lparr> ro_status_code := 302 \<rparr>))),
     ws_client_error = (\<lambda>p. Inr (p\<lparr> ro_status_code := 400 \<rparr>)),
     ws_unauthorized = (\<lambda>kind p. Inr (rouille_replace ''www-authenticate'' (''WWW-Authenticate'', kind)
       (p\<lparr> ro_status_code := 401 \<rparr>))),
     ws_body_text = (\<lambda>txt p. Inr ((rouille_replace ''Content-Type'' (''Content-Type'', ''text/plain'') p)
       \<lparr> ro_data := txt \<rparr>)),
     ws_body_json = (\<lambda>data p. Inr ((rouille_replace ''Content-Type'' (''Content-Type'', ''application/json'') p)
       \<lparr> ro_data := data \<rparr>)) \<rparr>"

section \<open>Actix\<close>

datatype actix_error =
    AxEndpoint oauth_error
  | AxHeader
  | AxEncoding
  | AxForm
  | AxQuery
  | AxBody
  | AxAuthorization
  | AxCanceled
  | AxMailbox
  | AxInternalError "string option"

datatype mailbox_error = MailboxClosed | MailboxTimeout

text \<open>The extractors and headers of \<open>actix_web\<close>: the query and the form if they could be parsed, and the
  \<open>Authorization\<close> headers, each as text if it is visible ASCII.\<close>

record actix_http =
  xh_query :: "normalized_parameter option"
  xh_form :: "normalized_parameter option"
  xh_authorization :: "string option list"

record actix_request =
  axr_auth :: "string option"
  axr_query :: "normalized_parameter option"
  axr_body :: "normalized_parameter option"

record actix_resource =
  axs_auth :: "string option"

definition actix_request_new :: "actix_http \<Rightarrow> actix_error + actix_request" where
  "actix_request_new req =
     (case xh_authorization req of
        _ # _ # _ \<Rightarrow> Inl AxAuthorization
      | optional \<Rightarrow>
          Inr \<lparr> axr_auth = (case optional of [] \<Rightarrow> None | hv # _ \<Rightarrow> hv),
                axr_query = xh_query req, axr_body = xh_form req \<rparr>)"

definition actix_resource_new :: "actix_http \<Rightarrow> actix_error + actix_resource" where
  "actix_resource_new req =
     (case xh_authorization req of
        _ # _ # _ \<Rightarrow> Inl AxAuthorization
      | optional \<Rightarrow> Inr \<lparr> axs_auth = (case optional of [] \<Rightarrow> None | hv # _ \<Rightarrow> hv) \<rparr>)"

definition actix_into_request :: "actix_resource \<Rightarrow> actix_request" where
  "actix_into_request self = \<lparr> axr_auth = axs_auth self, axr_query = None, axr_body = None \<rparr>"

definition actix_web_request :: "actix_request \<Rightarrow> actix_error web_request" where
  "actix_web_request self =
     \<lparr> wr_query = (case axr_query self of Some q \<Rightarrow> Inr (np_query q) | None \<Rightarrow> Inl AxQuery),
       wr_urlbody = (case axr_body self of Some b \<Rightarrow> Inr (np_query b) | None \<Rightarrow> Inl AxBody),
       wr_authheader = Inr (axr_auth self) \<rparr>"

text \<open>The header map and the check of header values are parameters.\<close>

record 'h header_lib =
  hm_new :: 'h
  hm_insert :: "string \<Rightarrow> string \<Rightarrow> 'h \<Rightarrow> 'h"
  hv_valid :: "string \<Rightarrow> bool"

record 'h actix_response =
  axp_status :: nat
  axp_headers :: 'h
  axp_body :: "string option"

definition actix_response_default :: "'h header_lib \<Rightarrow> 'h actix_response" where
  "actix_response_default M = \<lparr> axp_status = 200, axp_headers = hm_new M, axp_body = None \<rparr>"

definition actix_response_ok :: "'h header_lib \<Rightarrow> 'h actix_response" where
  "actix_response_ok M = \<lparr> axp_status = 200, axp_headers = hm_new M, axp_body = None \<rparr>"

definition actix_insert ::
  "'h header_lib \<Rightarrow> string \<Rightarrow> string \<Rightarrow> 'h actix_response \<Rightarrow> actix_error + 'h actix_response" where
  "actix_insert M name val p =
     (if hv_valid M val then Inr (p\<lparr> axp_headers := hm_insert M name val (axp_headers p) \<rparr>) else Inl AxHeader)"

definition actix_content_type ::
  "'h header_lib \<Rightarrow> string \<Rightarrow> 'h actix_response \<Rightarrow> actix_error + 'h actix_response" where
  "actix_content_type M content_type self = actix_insert M ''content-type'' content_type self"

definition actix_set_body :: "string \<Rightarrow> 'h actix_response \<Rightarrow> 'h actix_response" where
  "actix_set_body body self = self\<lparr> axp_body := Some body \<rparr>"

definition actix_response_ops ::
  "'u url_lib \<Rightarrow> 'h header_lib \<Rightarrow> ('h actix_response, 'u, actix_error) response_ops" where
  "actix_response_ops U M = \<lparr>
     ws_ok = (\<lambda>p. Inr (p\<lparr> axp_status := 200 \<rparr>)),
     ws_redirect = (\<lambda>url p. actix_insert M ''location'' (url_as_str U url) (p\<lparr> axp_status := 302 \<rparr>)),
     ws_client_error = (\<lambda>p. Inr (p\<lparr> axp_status := 400 \<rparr>)),
     ws_unauthorized = (\<lambda>kind p. actix_insert M ''www-authenticate'' kind (p\<lparr> axp_status := 401 \<rparr>)),
     ws_body_text = (\<lambda>txt p. actix_insert M ''content-type'' ''text/plain'' (p\<lparr> axp_body := Some txt \<rparr>)),
     ws_body_json = (\<lambda>json p. actix_insert M ''content-type'' ''application/json''
       (p\<lparr> axp_body := Some json \<rparr>)) \<rparr>"

definition actix_error_of :: "actix_error simple_error \<Rightarrow> actix_error" where
  "actix_error_of e = (case e of SeWeb err \<Rightarrow> err | SeOAuth err \<Rightarrow> AxEndpoint err)"

fun actix_error_of_mailbox :: "mailbox_error \<Rightarrow> actix_error" where
  "actix_error_of_mailbox MailboxClosed = AxMailbox"
| "actix_error_of_mailbox MailboxTimeout = AxCanceled"

text \<open>The text of the errors; that of a header error is the framework's.\<close>

fun actix_error_display :: "string \<Rightarrow> actix_error \<Rightarrow> string" where
  "actix_error_display h (AxEndpoint e) = ''Endpoint, '' @ oauth_error_display e"
| "actix_error_display h AxHeader = ''Couldn'' @ [CHR 0x27] @ ''t set header, '' @ h"
| "actix_error_display h AxEncoding = ''Error decoding request''"
| "actix_error_display h AxForm = ''Request is not a form''"
| "actix_error_display h AxQuery = ''No query present''"
| "actix_error_display h AxBody = ''No body present''"
| "actix_error_display h AxAuthorization = ''Request has invalid Authorization headers''"
| "actix_error_display h AxCanceled = ''Operation canceled''"
| "actix_error_display h AxMailbox = ''An actor'' @ [CHR 0x27] @ ''s mailbox was full''"
| "actix_error_display h (AxInternalError None) = ''An internal server error occured''"
| "actix_error_display h (AxInternalError (Some e)) = ''An internal server error occured: '' @ e"

text \<open>The operations (\<open>operations.rs\<close>): a flow is prepared and executed, and its errors converted.\<close>

definition actix_authorize_run ::
  "'u url_lib \<Rightarrow> (string fset \<Rightarrow> string list) \<Rightarrow> wire_lib \<Rightarrow> ('p, 'u, actix_error) response_ops \<Rightarrow> ('x \<Rightarrow> actix_error)
    \<Rightarrow> ('w, 'u, 'p, actix_error, 'x) endpoint \<Rightarrow> actix_request \<Rightarrow> time \<Rightarrow> time \<Rightarrow> time \<Rightarrow> ('w, 'p, actix_error) action" where
  "actix_authorize_run U it L R from E self now inow rnow =
     bind_ac (err_ac from (authorization_prepare E)) (\<lambda>_.
       err_ac from (authorization_execute U it L R E (actix_web_request self) now inow rnow))"

definition actix_token_run ::
  "'u url_lib \<Rightarrow> (string fset \<Rightarrow> string list) \<Rightarrow> wire_lib \<Rightarrow> ('p, 'u, actix_error) response_ops \<Rightarrow> ('x \<Rightarrow> actix_error)
    \<Rightarrow> ('w, 'u, 'p, actix_error, 'x) endpoint \<Rightarrow> actix_request \<Rightarrow> time \<Rightarrow> time \<Rightarrow> time \<Rightarrow> ('w, 'p, actix_error) action" where
  "actix_token_run U it L R from E self rnow inow now =
     bind_ac (err_ac from (access_token_prepare E)) (\<lambda>flow.
       err_ac from (access_token_execute U it L R flow (actix_web_request self) rnow inow now))"

definition actix_refresh_run ::
  "(string fset \<Rightarrow> string list) \<Rightarrow> wire_lib \<Rightarrow> ('p, 'u, actix_error) response_ops \<Rightarrow> ('x \<Rightarrow> actix_error)
    \<Rightarrow> ('w, 'u, 'p, actix_error, 'x) endpoint \<Rightarrow> actix_request \<Rightarrow> time \<Rightarrow> time \<Rightarrow> time \<Rightarrow> time
    \<Rightarrow> ('w, 'p, actix_error) action" where
  "actix_refresh_run it L R from E self now now' inow jnow =
     bind_ac (err_ac from (refresh_prepare E)) (\<lambda>_.
       err_ac from (refresh_execute it L R E (actix_web_request self) now now' inow jnow))"

definition actix_resource_run ::
  "(string fset \<Rightarrow> string list) \<Rightarrow> ('p, 'u, actix_error) response_ops \<Rightarrow> ('x \<Rightarrow> actix_error)
    \<Rightarrow> ('w, 'u, 'p, actix_error, 'x) endpoint \<Rightarrow> actix_request \<Rightarrow> time
    \<Rightarrow> ('w, 'u grant, ('p, actix_error) outcome) action" where
  "actix_resource_run it R from E self now =
     bind_ac (err_ac (\<lambda>e. Err (from e)) (resource_prepare E)) (\<lambda>_.
       err_ac (map_err from) (resource_execute it R E (actix_web_request self) now))"

section \<open>Requests\<close>

lemma np_query_lawful: "query_lawful (np_query p)"
  by (simp add: query_lawful_def np_query_def np_normalize_def)

text \<open>What a binding hands to the flows is lawful, so the asynchronous flows treat it alike.\<close>

lemma binding_requests_lawful:
  "request_lawful (rocket_web_request rk)"
  "request_lawful (iron_web_request P ir)"
  "request_lawful (rouille_web_request P ro)"
  "request_lawful (actix_web_request ax)"
  by (auto simp: request_lawful_def rocket_web_request_def iron_web_request_def rouille_web_request_def
      actix_web_request_def np_query_lawful split: sum.splits option.splits if_splits)

text \<open>An authorization header counts only if it is the only one: Rocket ignores several, actix refuses
  the request.\<close>

lemma rocket_single_authorization:
  "wr_authheader (rocket_web_request (rocket_new P request)) = Inr (Some h) \<longleftrightarrow> rh_authorization request = [h]"
  by (auto simp: rocket_web_request_def rocket_new_def Let_def split: list.splits)

lemma actix_single_authorization:
  "(\<exists>r. actix_request_new req = Inr r \<and> wr_authheader (actix_web_request r) = Inr (Some h)) \<longleftrightarrow>
     xh_authorization req = [Some h]"
  by (auto simp: actix_request_new_def actix_web_request_def split: list.splits)

text \<open>A body is read once, and only for a form.\<close>

lemma rocket_add_body_once:
  "rocket_add_body P (rocket_add_body P r data) data' = rocket_add_body P r data"
  by (auto simp: rocket_add_body_def split: sum.splits option.splits)

lemma rocket_body_form:
  "wr_urlbody (rocket_web_request (rocket_add_body P (rocket_new P request) data)) = Inr q \<longleftrightarrow>
     rh_content_type_form request = Some True \<and>
     (\<exists>b. urlencoded_from_reader P data = Some b \<and> q = np_query b)"
  by (auto simp: rocket_web_request_def rocket_add_body_def rocket_new_def Let_def
      split: option.splits bool.splits)

section \<open>Replies\<close>

record reply_view =
  rv_status :: nat
  rv_location :: "string option"
  rv_www_authenticate :: "string option"
  rv_content_type :: "string option"
  rv_body :: string

definition unmarked :: "reply_view \<Rightarrow> bool" where
  "unmarked v \<longleftrightarrow> rv_location v = None \<and> rv_www_authenticate v = None"

text \<open>What a flow does with a fresh response: it sets the first line and then, if any, the body.\<close>

datatype 'u reply_line = ReplyOk | ReplyRedirect 'u | ReplyClientError | ReplyUnauthorized string

fun send_line :: "('p, 'u, 'e) response_ops \<Rightarrow> 'u reply_line \<Rightarrow> 'p \<Rightarrow> 'e + 'p" where
  "send_line R ReplyOk p = ws_ok R p"
| "send_line R (ReplyRedirect url) p = ws_redirect R url p"
| "send_line R ReplyClientError p = ws_client_error R p"
| "send_line R (ReplyUnauthorized kind) p = ws_unauthorized R kind p"

fun send_body :: "('p, 'u, 'e) response_ops \<Rightarrow> simple_body option \<Rightarrow> 'p \<Rightarrow> 'e + 'p" where
  "send_body R None p = Inr p"
| "send_body R (Some (BodyText t)) p = ws_body_text R t p"
| "send_body R (Some (BodyJson t)) p = ws_body_json R t p"

definition send :: "('p, 'u, 'e) response_ops \<Rightarrow> 'u reply_line \<Rightarrow> simple_body option \<Rightarrow> 'p \<Rightarrow> 'e + 'p" where
  "send R line body p = (case send_line R line p of Inl e \<Rightarrow> Inl e | Inr q \<Rightarrow> send_body R body q)"

text \<open>The reply this is meant to produce.\<close>

fun line_view :: "'u url_lib \<Rightarrow> 'u reply_line \<Rightarrow> reply_view \<Rightarrow> reply_view" where
  "line_view U ReplyOk v = v\<lparr> rv_status := 200 \<rparr>"
| "line_view U (ReplyRedirect url) v = v\<lparr> rv_status := 302, rv_location := Some (url_as_str U url) \<rparr>"
| "line_view U ReplyClientError v = v\<lparr> rv_status := 400 \<rparr>"
| "line_view U (ReplyUnauthorized kind) v = v\<lparr> rv_status := 401, rv_www_authenticate := Some kind \<rparr>"

fun body_view :: "string \<Rightarrow> string \<Rightarrow> simple_body option \<Rightarrow> reply_view \<Rightarrow> reply_view" where
  "body_view plain json None v = v"
| "body_view plain json (Some (BodyText t)) v = v\<lparr> rv_content_type := Some plain, rv_body := t \<rparr>"
| "body_view plain json (Some (BodyJson t)) v = v\<lparr> rv_content_type := Some json, rv_body := t \<rparr>"

fun line_headers_ok :: "(string \<Rightarrow> bool) \<Rightarrow> 'u url_lib \<Rightarrow> 'u reply_line \<Rightarrow> bool" where
  "line_headers_ok h U (ReplyRedirect url) = h (url_as_str U url)"
| "line_headers_ok h U (ReplyUnauthorized kind) = h kind"
| "line_headers_ok h U ReplyOk = True"
| "line_headers_ok h U ReplyClientError = True"

locale reply_binding =
  fixes R :: "('p, 'u, 'e) response_ops"
    and U :: "'u url_lib"
    and view :: "'p \<Rightarrow> reply_view"
    and header_ok :: "string \<Rightarrow> bool"
    and plain json :: string
  assumes line: "unmarked (view p) \<Longrightarrow> line_headers_ok header_ok U l \<Longrightarrow>
        \<exists>q. send_line R l p = Inr q \<and> view q = line_view U l (view p)"
    and body: "\<exists>q. send_body R b p = Inr q \<and> view q = body_view plain json b (view p)"
begin

lemma reply:
  assumes "unmarked (view p)" and "line_headers_ok header_ok U l"
  shows "\<exists>q. send R l b p = Inr q \<and> view q = body_view plain json b (line_view U l (view p))"
  using line [OF assms] body [of b] by (fastforce simp: send_def)

end

text \<open>What is relied on of a framework: a setter sets its part of the response and nothing else.\<close>

locale response_store =
  fixes H :: "'p response_lib" and view :: "'p \<Rightarrow> reply_view"
  assumes set_status: "view (hl_set_status H n p) = (view p)\<lparr> rv_status := n \<rparr>"
    and set_location: "view (hl_set_header H ''Location'' v p) = (view p)\<lparr> rv_location := Some v \<rparr>"
    and set_www: "view (hl_set_header H ''WWW-Authenticate'' v p) = (view p)\<lparr> rv_www_authenticate := Some v \<rparr>"
    and set_content: "view (hl_set_header H ''Content-Type'' v p) = (view p)\<lparr> rv_content_type := Some v \<rparr>"
    and set_body: "view (hl_set_body H t p) = (view p)\<lparr> rv_body := t \<rparr>"
begin

lemmas setters = set_status set_location set_www set_content set_body

lemma rocket_binding:
  "reply_binding (rocket_response_ops U H) U view (\<lambda>_. True) (hl_plain H) (hl_json H)"
proof
  show "\<exists>q. send_line (rocket_response_ops U H) l p = Inr q \<and> view q = line_view U l (view p)" for l p
    by (cases l) (simp_all add: rocket_response_ops_def setters)
  show "\<exists>q. send_body (rocket_response_ops U H) b p = Inr q \<and>
      view q = body_view (hl_plain H) (hl_json H) b (view p)" for b p
    by (cases "(hl_plain H, hl_json H, b, view p)" rule: body_view.cases)
      (simp_all add: rocket_response_ops_def setters)
qed

lemma iron_binding:
  "reply_binding (iron_response_ops U H) U view (\<lambda>_. True) (hl_plain H) (hl_json H)"
proof
  show "\<exists>q. send_line (iron_response_ops U H) l p = Inr q \<and> view q = line_view U l (view p)" for l p
    by (cases l) (simp_all add: iron_response_ops_def setters)
  show "\<exists>q. send_body (iron_response_ops U H) b p = Inr q \<and>
      view q = body_view (hl_plain H) (hl_json H) b (view p)" for b p
    by (cases "(hl_plain H, hl_json H, b, view p)" rule: body_view.cases)
      (simp_all add: iron_response_ops_def setters)
qed

end

definition actix_view :: "('h \<Rightarrow> string \<Rightarrow> string option) \<Rightarrow> 'h actix_response \<Rightarrow> reply_view" where
  "actix_view get p =
     \<lparr> rv_status = axp_status p, rv_location = get (axp_headers p) ''location'',
       rv_www_authenticate = get (axp_headers p) ''www-authenticate'',
       rv_content_type = get (axp_headers p) ''content-type'',
       rv_body = (case axp_body p of None \<Rightarrow> [] | Some b \<Rightarrow> b) \<rparr>"

locale header_store =
  fixes M :: "'h header_lib" and get :: "'h \<Rightarrow> string \<Rightarrow> string option"
  assumes insert: "get (hm_insert M k v h) = (get h)(k \<mapsto> v)"
    and valid_types: "hv_valid M ''text/plain''" "hv_valid M ''application/json''"
begin

lemma actix_binding:
  "reply_binding (actix_response_ops U M) U (actix_view get) (hv_valid M) ''text/plain'' ''application/json''"
proof
  show "\<exists>q. send_line (actix_response_ops U M) l p = Inr q \<and> actix_view get q = line_view U l (actix_view get p)"
    if "line_headers_ok (hv_valid M) U l" for l p
    using that by (cases l) (simp_all add: actix_response_ops_def actix_insert_def actix_view_def insert)
  show "\<exists>q. send_body (actix_response_ops U M) b p = Inr q \<and>
      actix_view get q = body_view ''text/plain'' ''application/json'' b (actix_view get p)" for b p
    by (cases "(''text/plain'', ''application/json'', b, actix_view get p)" rule: body_view.cases)
      (simp_all add: actix_response_ops_def actix_insert_def actix_view_def insert valid_types)
qed

end

text \<open>The headers of a Rouille response are a list, in which names are compared ignoring case.\<close>

definition rouille_header :: "string \<Rightarrow> rouille_response \<Rightarrow> string option" where
  "rouille_header name p =
     map_option snd (List.find (\<lambda>h. eq_ignore_ascii_case (fst h) name) (ro_headers p))"

definition rouille_view :: "rouille_response \<Rightarrow> reply_view" where
  "rouille_view p =
     \<lparr> rv_status = ro_status_code p, rv_location = rouille_header ''Location'' p,
       rv_www_authenticate = rouille_header ''WWW-Authenticate'' p,
       rv_content_type = rouille_header ''Content-Type'' p, rv_body = ro_data p \<rparr>"

lemma find_replace:
  assumes "\<And>x. P x \<Longrightarrow> Q x" and "\<And>x. Q x \<Longrightarrow> P x" and "P h"
  shows "List.find P (filter (\<lambda>x. \<not> Q x) hs @ [h]) = Some h"
  using assms by (induction hs) auto

lemma find_keep:
  assumes "\<And>x. P x \<Longrightarrow> \<not> Q x" and "\<not> P h"
  shows "List.find P (filter (\<lambda>x. \<not> Q x) hs @ [h]) = List.find P hs"
  using assms by (induction hs) auto

lemma header_same_name:
  assumes "eq_ignore_ascii_case name name'" and "eq_ignore_ascii_case (fst h) name"
  shows "rouille_header name' (rouille_replace name h p) = Some (snd h)"
  using assms find_replace [of "\<lambda>x. eq_ignore_ascii_case (fst x) name'" "\<lambda>x. eq_ignore_ascii_case (fst x) name" h]
  by (simp add: rouille_header_def rouille_replace_def eq_ignore_ascii_case_def)

lemma header_other_name:
  assumes "\<not> eq_ignore_ascii_case name name'" and "eq_ignore_ascii_case (fst h) name"
  shows "rouille_header name' (rouille_replace name h p) = rouille_header name' p"
  using assms find_keep [of "\<lambda>x. eq_ignore_ascii_case (fst x) name'" "\<lambda>x. eq_ignore_ascii_case (fst x) name" h]
  by (simp add: rouille_header_def rouille_replace_def eq_ignore_ascii_case_def)

lemma header_names:
  "eq_ignore_ascii_case ''Location'' ''Location''" "\<not> eq_ignore_ascii_case ''Location'' ''WWW-Authenticate''"
  "\<not> eq_ignore_ascii_case ''Location'' ''Content-Type''"
  "eq_ignore_ascii_case ''www-authenticate'' ''WWW-Authenticate''"
  "eq_ignore_ascii_case ''WWW-Authenticate'' ''www-authenticate''"
  "\<not> eq_ignore_ascii_case ''www-authenticate'' ''Location''"
  "\<not> eq_ignore_ascii_case ''www-authenticate'' ''Content-Type''"
  "eq_ignore_ascii_case ''Content-Type'' ''Content-Type''" "\<not> eq_ignore_ascii_case ''Content-Type'' ''Location''"
  "\<not> eq_ignore_ascii_case ''Content-Type'' ''WWW-Authenticate''"
  by code_simp+

lemma rouille_header_update [simp]:
  "rouille_header name (p\<lparr> ro_status_code := n \<rparr>) = rouille_header name p"
  "rouille_header name (p\<lparr> ro_data := t \<rparr>) = rouille_header name p"
  "ro_status_code (rouille_replace name h p) = ro_status_code p"
  "ro_data (rouille_replace name h p) = ro_data p"
  by (simp_all add: rouille_header_def rouille_replace_def)

lemma rouille_binding:
  "reply_binding (rouille_response_ops U) U rouille_view (\<lambda>_. True) ''text/plain'' ''application/json''"
proof
  show "\<exists>q. send_line (rouille_response_ops U) l p = Inr q \<and> rouille_view q = line_view U l (rouille_view p)" for l p
    by (cases l)
      (simp_all add: rouille_response_ops_def rouille_view_def header_same_name header_other_name header_names)
  show "\<exists>q. send_body (rouille_response_ops U) b p = Inr q \<and>
      rouille_view q = body_view ''text/plain'' ''application/json'' b (rouille_view p)" for b p
    by (cases "(''text/plain'', ''application/json'', b, rouille_view p)" rule: body_view.cases)
      (simp_all add: rouille_response_ops_def rouille_view_def header_same_name header_other_name header_names)
qed

text \<open>The simple frontend drops the headers of an earlier first line, which a fresh response does not
  have.\<close>

definition simple_view :: "'u url_lib \<Rightarrow> 'u simple_response \<Rightarrow> reply_view" where
  "simple_view U p =
     \<lparr> rv_status = (case sr_status p of SsOk \<Rightarrow> 200 | SsRedirect \<Rightarrow> 302 | SsBadRequest \<Rightarrow> 400 | SsUnauthorized \<Rightarrow> 401),
       rv_location = map_option (url_as_str U) (sr_location p),
       rv_www_authenticate = sr_www_authenticate p,
       rv_content_type = (case sr_body p of
           None \<Rightarrow> None | Some (BodyText _) \<Rightarrow> Some ''text/plain'' | Some (BodyJson _) \<Rightarrow> Some ''application/json''),
       rv_body = (case sr_body p of None \<Rightarrow> [] | Some b \<Rightarrow> body_as_str b) \<rparr>"

lemma simple_binding:
  "reply_binding simple_response_ops U (simple_view U) (\<lambda>_. True) ''text/plain'' ''application/json''"
proof
  show "\<exists>q. send_line simple_response_ops l p = Inr q \<and> simple_view U q = line_view U l (simple_view U p)"
    if "unmarked (simple_view U p)" for l p
    using that by (cases l) (simp_all add: simple_response_ops_def simple_view_def unmarked_def)
  show "\<exists>q. send_body simple_response_ops b p = Inr q \<and>
      simple_view U q = body_view ''text/plain'' ''application/json'' b (simple_view U p)" for b p
    by (cases "(''text/plain'', ''application/json'', b, simple_view U p)" rule: body_view.cases)
      (simp_all add: simple_response_ops_def simple_view_def)
qed

interpretation rouille_reply: reply_binding "rouille_response_ops U" U rouille_view "\<lambda>_. True"
  "''text/plain''" "''application/json''" for U
  by (rule rouille_binding)

interpretation simple_reply: reply_binding simple_response_ops U "simple_view U" "\<lambda>_. True"
  "''text/plain''" "''application/json''" for U
  by (rule simple_binding)

text \<open>Executable framework responses and header maps.\<close>

definition plain_response_lib :: "reply_view response_lib" where
  "plain_response_lib = \<lparr>
     hl_set_status = (\<lambda>n p. p\<lparr> rv_status := n \<rparr>),
     hl_set_header = (\<lambda>k v p. if k = ''Location'' then p\<lparr> rv_location := Some v \<rparr>
       else if k = ''WWW-Authenticate'' then p\<lparr> rv_www_authenticate := Some v \<rparr>
       else if k = ''Content-Type'' then p\<lparr> rv_content_type := Some v \<rparr> else p),
     hl_set_body = (\<lambda>t p. p\<lparr> rv_body := t \<rparr>),
     hl_default = \<lparr> rv_status = 200, rv_location = None, rv_www_authenticate = None, rv_content_type = None, rv_body = [] \<rparr>,
     hl_plain = ''text/plain; charset=utf-8'', hl_json = ''application/json'' \<rparr>"

definition plain_header_lib :: "(string \<Rightarrow> string option) header_lib" where
  "plain_header_lib = \<lparr> hm_new = Map.empty, hm_insert = (\<lambda>k v h. h(k \<mapsto> v)),
     hv_valid = list_all (\<lambda>c. CHR 0x20 \<le> c \<and> c \<le> CHR 0x7E) \<rparr>"

lemma plain_response_store: "response_store plain_response_lib (\<lambda>p. p)"
  by unfold_locales (simp_all add: plain_response_lib_def)

lemma plain_header_types: "hv_valid plain_header_lib ''text/plain''" "hv_valid plain_header_lib ''application/json''"
  by code_simp+

lemma plain_header_store: "header_store plain_header_lib (\<lambda>h. h)"
  by unfold_locales (simp_all only: plain_header_types, simp add: plain_header_lib_def)

interpretation plain_responses: response_store plain_response_lib "\<lambda>p. p"
  by (rule plain_response_store)

interpretation plain_headers: header_store plain_header_lib "\<lambda>h. h"
  by (rule plain_header_store)

section \<open>Properties\<close>

text \<open>
  C29: the frontends answer alike. Whatever first line and body a flow gives to a fresh response, the
  Rocket, Iron, Rouille and actix bindings and the simple frontend produce a reply with the same
  status, the same \<open>Location\<close> and \<open>WWW-Authenticate\<close> headers, the same body and its content type;
  actix only for header values that the framework accepts.
\<close>

theorem bindings_reply_alike:
  assumes "response_store H hview" and "header_store M get"
    and "unmarked (hview p)" and "unmarked (rouille_view po)" and "unmarked (actix_view get pa)"
    and "unmarked (simple_view U ps)" and "line_headers_ok (hv_valid M) U l"
  shows "(\<exists>q. send (rocket_response_ops U H) l b p = Inr q \<and>
      hview q = body_view (hl_plain H) (hl_json H) b (line_view U l (hview p))) \<and>
    (\<exists>q. send (iron_response_ops U H) l b p = Inr q \<and>
      hview q = body_view (hl_plain H) (hl_json H) b (line_view U l (hview p))) \<and>
    (\<exists>q. send (rouille_response_ops U) l b po = Inr q \<and>
      rouille_view q = body_view ''text/plain'' ''application/json'' b (line_view U l (rouille_view po))) \<and>
    (\<exists>q. send (actix_response_ops U M) l b pa = Inr q \<and>
      actix_view get q = body_view ''text/plain'' ''application/json'' b (line_view U l (actix_view get pa))) \<and>
    (\<exists>q. send simple_response_ops l b ps = Inr q \<and>
      simple_view U q = body_view ''text/plain'' ''application/json'' b (line_view U l (simple_view U ps)))"
proof -
  have any: "line_headers_ok (\<lambda>_. True) U l" by (cases l) simp_all
  show ?thesis
    by (intro conjI rouille_reply.reply simple_reply.reply assms any
        reply_binding.reply [OF response_store.rocket_binding [OF assms(1)]]
        reply_binding.reply [OF response_store.iron_binding [OF assms(1)]]
        reply_binding.reply [OF header_store.actix_binding [OF assms(2)]])
qed

theorem bindings_reply_alike_witness:
  "\<exists>q. send (actix_response_ops url_identity plain_header_lib) (ReplyRedirect ''https://a/?code=1'') None
       (actix_response_default plain_header_lib) = Inr q \<and>
     rv_status (actix_view (\<lambda>h. h) q) = 302 \<and> rv_location (actix_view (\<lambda>h. h) q) = Some ''https://a/?code=1''"
proof -
  have "line_headers_ok (hv_valid plain_header_lib) url_identity (ReplyRedirect ''https://a/?code=1'')"
    by code_simp
  moreover have "unmarked (actix_view (\<lambda>h. h) (actix_response_default plain_header_lib))"
    "unmarked (rouille_view \<lparr> ro_status_code = 200, ro_headers = [], ro_data = [] \<rparr>)"
    "unmarked (hl_default plain_response_lib)" "unmarked (simple_view url_identity simple_response_default)"
    by (simp_all add: unmarked_def actix_view_def actix_response_default_def plain_header_lib_def rouille_view_def
        rouille_header_def plain_response_lib_def simple_view_def simple_response_default_def)
  ultimately show ?thesis
    using bindings_reply_alike [OF plain_response_store plain_header_store, of "hl_default plain_response_lib"
        "\<lparr> ro_status_code = 200, ro_headers = [], ro_data = [] \<rparr>" "actix_response_default plain_header_lib"
        url_identity simple_response_default "ReplyRedirect ''https://a/?code=1''" None]
    by (auto simp: url_identity_def)
qed

end

