(* ===== verification/Stored.thy ===== *)
theory Stored
  imports Server
begin

text \<open>
  What can be said of every grant a server keeps. A predicate of grants holds of all entries of the
  code hash and of the two token hashes (\<open>stored_ok\<close>); the operations of \<open>AuthMap\<close> and \<open>TokenMap\<close>
  keep this under whatever errors the store reports, and what they recover satisfies the predicate.
  The locale \<open>grant_keeper\<close> states this as an interface of an authorizer and an issuer; inside it the
  four flows are shown to keep it. The maps over the store provide the interface.
\<close>

section \<open>Entries of the store\<close>

definition stored_ok ::
  "'u grant codec \<Rightarrow> 'u token codec \<Rightarrow> ('u grant \<Rightarrow> bool) \<Rightarrow> (string \<Rightarrow> string \<Rightarrow> string option) \<Rightarrow> bool" where
  "stored_ok GC TC Q h \<longleftrightarrow>
     (\<forall>c v g. h ''oauth2:authmap'' c = Some v \<longrightarrow> dec GC v = Some g \<longrightarrow> Q g) \<and>
     (\<forall>a v t. h ''oauth2:tokenmap_access'' a = Some v \<longrightarrow> dec TC v = Some t \<longrightarrow> Q (tk_grant t)) \<and>
     (\<forall>f v t. h ''oauth2:tokenmap_refresh'' f = Some v \<longrightarrow> dec TC v = Some t \<longrightarrow> Q (tk_grant t))"

lemma stored_ok_mono: "stored_ok GC TC Q h \<Longrightarrow> (\<And>g. Q g \<Longrightarrow> P g) \<Longrightarrow> stored_ok GC TC P h"
  unfolding stored_ok_def by blast

lemma stored_ok_del: "stored_ok GC TC Q h \<Longrightarrow> stored_ok GC TC Q (hash_upd h k f None)"
  by (auto simp: stored_ok_def)

lemma stored_ok_code:
  "stored_ok GC TC Q h \<Longrightarrow> dec GC v = Some g \<Longrightarrow> Q g \<Longrightarrow>
     stored_ok GC TC Q (hash_upd h ''oauth2:authmap'' c (Some v))"
  by (auto simp: stored_ok_def)

lemma stored_ok_token:
  "stored_ok GC TC Q h \<Longrightarrow> dec TC v = Some t \<Longrightarrow> Q (tk_grant t) \<Longrightarrow>
     stored_ok GC TC Q (hash_upd h ''oauth2:tokenmap_access'' k (Some v)) \<and>
     stored_ok GC TC Q (hash_upd h ''oauth2:tokenmap_refresh'' k (Some v))"
  by (auto simp: stored_ok_def)

lemma stored_ok_empty: "(\<And>k f. h k f = None) \<Longrightarrow> stored_ok GC TC Q h"
  by (simp add: stored_ok_def)

text \<open>Predicates that survive what the flows do to a grant: a new expiry, other extensions, a
  narrower scope that came out of the parser.\<close>

definition grant_closed :: "('u grant \<Rightarrow> bool) \<Rightarrow> bool" where
  "grant_closed Q \<longleftrightarrow>
     (\<forall>g u. Q g \<longrightarrow> Q (g\<lparr> g_until := u \<rparr>)) \<and>
     (\<forall>g e. Q g \<longrightarrow> Q (g\<lparr> g_extensions := e \<rparr>)) \<and>
     (\<forall>g sc. Q g \<longrightarrow> scope_wf sc \<longrightarrow> tokens sc |\<subseteq>| tokens (g_scope g) \<longrightarrow> Q (g\<lparr> g_scope := sc \<rparr>))"

lemma grant_closedD:
  assumes "grant_closed Q" and "Q g"
  shows "Q (g\<lparr> g_until := u \<rparr>)" and "Q (g\<lparr> g_extensions := e \<rparr>)"
    and "scope_wf sc \<Longrightarrow> tokens sc |\<subseteq>| tokens (g_scope g) \<Longrightarrow> Q (g\<lparr> g_scope := sc \<rparr>)"
  using assms unfolding grant_closed_def by blast+

lemma closed_set_duration: "grant_closed Q \<Longrightarrow> Q g \<Longrightarrow> Q (set_duration now m g)"
  by (auto simp: set_duration_def split: option.splits dest: grant_closedD)

context redis_store
begin

definition holds :: "'u grant codec \<Rightarrow> 'u token codec \<Rightarrow> ('u grant \<Rightarrow> bool) \<Rightarrow> 'm \<times> 'r \<Rightarrow> bool" where
  "holds GC TC Q s \<longleftrightarrow> stored_ok GC TC Q (hash (snd s))"

lemma holds_hash: "holds GC TC Q (m, r) \<Longrightarrow> hash r' = hash r \<Longrightarrow> holds GC TC Q (m', r')"
  by (simp add: holds_def)

lemmas keeps_holds_store = keeps_store [where I = "holds _ _ _", OF holds_hash]

lemma keeps_holds_hdel: "keeps (holds GC TC Q) (hdel_one R k f)"
  by (rule keeps_hdel_one) (auto simp: holds_def stored_ok_del)

lemma keeps_holds_code:
  "codec_ok GC \<Longrightarrow> enc GC g = Some v \<Longrightarrow> Q g \<Longrightarrow> keeps (holds GC TC Q) (hset_new R ''oauth2:authmap'' c v)"
  by (rule keeps_hset_new) (auto simp: holds_def intro: stored_ok_code codec_dec)

lemma keeps_holds_token:
  assumes "codec_ok TC" and "enc TC t = Some v" and "Q (tk_grant t)"
  shows "keeps (holds GC TC Q) (hset_new R ''oauth2:tokenmap_access'' k v)"
    and "keeps (holds GC TC Q) (hset_new R ''oauth2:tokenmap_refresh'' k v)"
  using stored_ok_token [where TC = TC and Q = Q, OF _ codec_dec [OF assms(1,2)] assms(3)]
  by (auto simp: holds_def intro!: keeps_hset_new)

lemma keeps_holds_tag: "keeps (holds GC TC Q) (tm_tag tag u g)"
  by (rule keeps_tm_tag) (simp add: holds_def)

lemma keeps_holds_am_tag: "keeps (holds GC TC Q) (am_tag tag u g)"
  by (auto simp: keeps_def am_tag_def holds_def split: prod.splits)

lemmas keeps_holds = keeps_holds_store keeps_holds_hdel keeps_holds_tag keeps_holds_am_tag keeps_ret keeps_fail
  keeps_lift

lemma authorize_holds:
  "codec_ok GC \<Longrightarrow> Q g \<Longrightarrow> keeps (holds GC TC Q) (authorize R GC tag checks g)"
  unfolding authorize_def Let_def
  by (intro keeps_bind keeps_bind_lift keeps_holds keeps_holds_code) auto

lemma extract_holds: "ensures (holds GC TC Q) (extract_code R GC c) (pred_option Q)"
proof (rule ensuresI)
  fix s x s'
  assume I: "holds GC TC Q s" and run: "extract_code R GC c s = (x, s')"
  note cases = extract_cases [of GC c "fst s" "snd s" x "fst s'" "snd s'", unfolded prod.collapse, OF run]
  note found = cases [THEN conjunct2, THEN conjunct2, THEN conjunct2, THEN conjunct2, rule_format]
  have "Q g" if x: "x = Ok (Some g)" for g
  proof -
    from found [OF x] obtain v where "hash (snd s) ''oauth2:authmap'' c = Some v" "dec GC v = Some g"
      by (auto simp: auth_codes_def bind_eq_Some_conv)
    then show ?thesis
      using I unfolding holds_def stored_ok_def by blast
  qed
  then have "\<forall>y. x = Ok y \<longrightarrow> pred_option Q y"
    by (metis option.pred_inject option.exhaust)
  moreover have "hash (snd s') = hash (snd s) \<or> hash (snd s') = hash_upd (hash (snd s)) ''oauth2:authmap'' c None"
    using cases by blast
  then have "holds GC TC Q s'"
    using I stored_ok_del unfolding holds_def by metis
  ultimately show "holds GC TC Q s' \<and> (\<forall>y. x = Ok y \<longrightarrow> pred_option Q y)"
    by blast
qed

lemma timed_holds: "grant_closed Q \<Longrightarrow> Q g \<Longrightarrow> ensures (holds GC TC Q) (tm_timed now g) Q"
  by (rule ensuresI) (auto simp: tm_timed_def closed_set_duration)

lemma issue_holds:
  assumes "codec_ok TC" and "grant_closed Q" and "Q g"
  shows "keeps (holds GC TC Q) (tm_issue R TC tag checks now g)"
  unfolding tm_issue_def Let_def
  by (rule keeps_bind_ensures [OF timed_holds [OF assms(2,3)]],
      intro keeps_bind_lift keeps_bind keeps_holds keeps_holds_token)
    (auto simp: assms(1) token_from_refresh_def)

lemma refresh_holds:
  assumes "codec_ok TC" and "grant_closed Q" and "Q g"
  shows "keeps (holds GC TC Q) (tm_do_refresh R TC tag now f g)"
  unfolding tm_do_refresh_def Let_def
  by (intro keeps_bind_ensures [OF timed_holds [OF assms(2,3)]] keeps_bind_lift keeps_bind keeps_holds
      keeps_holds_token) (auto simp: assms(1))

lemma recover_holds:
  assumes "key \<in> {''oauth2:tokenmap_access'', ''oauth2:tokenmap_refresh''}"
  shows "ensures (holds GC TC Q) (recover_at R TC key k) (pred_option Q)"
proof (rule ensuresI)
  fix s x s'
  assume I: "holds GC TC Q s" and run: "recover_at R TC key k s = (x, s')"
  note cases = recover_at_cases [of TC key k "fst s" "snd s" x "fst s'" "snd s'", unfolded prod.collapse, OF run]
  have "Q g" if x: "x = Ok (Some g)" for g
  proof -
    have "stored_grant hash TC key (fst s, snd s) k = Some g"
      using cases x by simp
    then show ?thesis
      using I assms by (auto simp: stored_grant_def bind_eq_Some_conv holds_def stored_ok_def)
  qed
  then have "\<forall>y. x = Ok y \<longrightarrow> pred_option Q y"
    by (metis option.pred_inject option.exhaust)
  moreover have "holds GC TC Q s'"
    using I cases unfolding holds_def by metis
  ultimately show "holds GC TC Q s' \<and> (\<forall>y. x = Ok y \<longrightarrow> pred_option Q y)"
    by blast
qed

end

section \<open>The grants that flows write\<close>

text \<open>A code is written for the answer of the owner to a pending request, a token of the implicit flow
  for a request the registrar accepts. \<open>asked_code\<close> and \<open>asked_token\<close> say that a request got that far
  in some state with \<open>I\<close>.\<close>

definition consented_grant :: "string \<Rightarrow> 'u pending \<Rightarrow> 'u \<Rightarrow> time \<Rightarrow> 'u grant" where
  "consented_grant who p url now =
     \<lparr> g_owner_id = who, g_client_id = pg_client_id (pd_pre_grant p), g_scope = pg_scope (pd_pre_grant p),
       g_redirect_uri = url, g_until = now + days 1, g_extensions = pd_extensions p \<rparr>"

definition implicit_grant :: "auth_request \<Rightarrow> 'u pre_grant \<Rightarrow> 'u \<Rightarrow> time \<Rightarrow> 'u grant" where
  "implicit_grant q pg url now =
     \<lparr> g_owner_id = (case aur_user_id q of Some u \<Rightarrow> u | None \<Rightarrow> []), g_client_id = pg_client_id pg,
       g_scope = pg_scope pg, g_redirect_uri = url, g_until = now + seconds 3600,
       g_extensions = extensions_new \<rparr>"

definition asked_code ::
  "('w \<Rightarrow> bool) \<Rightarrow> 'u url_lib \<Rightarrow> ('w, 'u) auth_endpoint \<Rightarrow> auth_request \<Rightarrow> 'u pending \<Rightarrow> bool" where
  "asked_code I U E q p \<longleftrightarrow> (\<exists>v. I v \<and> authorization_code U E q v = (Ok p, v))"

definition asked_token :: "('w \<Rightarrow> bool) \<Rightarrow> ('w, 'u) auth_endpoint \<Rightarrow> auth_request \<Rightarrow> 'u pre_grant \<Rightarrow> bool" where
  "asked_token I E q pg \<longleftrightarrow> (\<exists>v w client uri bc scope. I v \<and> I w \<and> aur_client_id q = Some client \<and>
     rg_bound_redirect (aue_registrar E v) \<lparr> cu_client_id = client, cu_redirect_uri = uri \<rparr> = Ok bc \<and>
     rg_negotiate (aue_registrar E w) bc scope = Ok pg)"

section \<open>Keepers of grants\<close>

lemma keeps_case:
  "(\<And>a b. p = (a, b) \<Longrightarrow> keeps I (f a b)) \<Longrightarrow> keeps I (case p of (a, b) \<Rightarrow> f a b)"
  "(z = None \<Longrightarrow> keeps I n) \<Longrightarrow> (\<And>a. z = Some a \<Longrightarrow> keeps I (s a)) \<Longrightarrow> keeps I (case_option n s z)"
  "(c \<Longrightarrow> keeps I m) \<Longrightarrow> (\<not> c \<Longrightarrow> keeps I m') \<Longrightarrow> keeps I (if c then m else m')"
  by (auto split: prod.splits option.splits)

text \<open>
  An authorizer and an issuer that are given only grants with \<open>Q\<close> hand out only grants with \<open>Q\<close>: \<open>I\<close> is
  what they keep of their state.
\<close>

locale grant_keeper =
  fixes I :: "'w \<Rightarrow> bool" and Q :: "'u grant \<Rightarrow> bool"
    and A :: "('w, 'u) authorizer_ops" and S :: "('w, 'u) issuer_ops"
  assumes closed: "grant_closed Q"
    and authorize_keeps: "Q g \<Longrightarrow> keeps I (az_authorize A g)"
    and extract_ensures: "ensures I (az_extract A c) (pred_option Q)"
    and issue_keeps: "Q g \<Longrightarrow> keeps I (is_issue S now g)"
    and refresh_keeps: "Q g \<Longrightarrow> keeps I (is_refresh S now t g)"
    and recover_ensures: "ensures I (is_recover_token S t) (pred_option Q)"
    and recover_refresh_ensures: "ensures I (is_recover_refresh S t) (pred_option Q)"
begin

lemma exchange_keeps:
  assumes "ate_authorizer E = A" and "ate_issuer E = S" and "ate_extension E = at_no_extension"
  shows "keeps I (access_token U it E q rnow inow)"
proof -
  have found: "Q g" if "redeemable rnow client uri opt = Ok g" "pred_option Q opt" for client uri opt g
    using that by (auto simp: redeemable_def split: option.splits if_splits)
  have "keeps I (code_exchange U it E q rnow inow)"
    unfolding code_exchange_def assms at_no_extension_def
    by (intro keeps_bind_lift keeps_ret keeps_bind_ensures [OF ensures_err [OF extract_ensures]]
        keeps_bind [OF keeps_read] keeps_bind [OF keeps_err [OF keeps_ret]] keeps_bind [OF keeps_err [OF issue_keeps]]
        keeps_case grant_closedD(2) [OF closed] found)
  then show ?thesis
    by (simp add: access_token_exchange [abs_def])
qed

lemma renewed: "rf_renewed now now' scope g = Ok g' \<Longrightarrow> Q g \<Longrightarrow> Q g'"
  by (auto simp: rf_renewed_def split: option.splits outcome.splits if_splits
      intro!: grant_closedD [OF closed] dest: scope_from_str_wf)

lemma renewal_keeps:
  assumes "rfe_issuer E = S"
  shows "keeps I (refresh it E q now now' inow)"
proof -
  have check: "keeps I (rf_check E client pass)" for client pass
    unfolding rf_check_def by (rule keeps_read)
  have found: "Q g" if "ok_or (rf_invalid TeInvalidGrant) opt = Ok g" "pred_option Q opt" for opt g
    using that by (cases opt) auto
  have "keeps I (token_renewal it E q now now' inow)"
    unfolding token_renewal_def assms
    by (intro keeps_bind_lift keeps_ret keeps_fail keeps_bind_ensures [OF ensures_err [OF recover_refresh_ensures]]
        keeps_bind [OF keeps_case(2)] keeps_bind [OF keeps_err [OF refresh_keeps]] keeps_case check renewed [OF _ found])
  then show ?thesis
    by (simp add: refresh_renewal [abs_def])
qed

lemma access_ensures:
  assumes "re_issuer E = S" and "\<And>w. I w \<Longrightarrow> I (snd (re_scopes E w))"
  shows "ensures I (protect E q now) Q"
proof -
  have scopes: "keeps I (determine_scopes E)"
    using assms(2) by (fastforce simp: keeps_def determine_scopes_def split: prod.splits option.splits)
  have found: "Q g" if "resource_recovered now opt scopes = Ok g" "pred_option Q opt" for opt scopes g
    using that by (auto simp: resource_recovered_def split: option.splits if_splits)
  have "ensures I (guard_resource E q now) Q"
    unfolding guard_resource_def assms(1)
    by (intro ensures_bind_lift ensures_bind_any [OF scopes] ensures_bind [OF ensures_err [OF recover_ensures]]
        ensures_lift found)
  then show ?thesis
    by (simp add: protect_guard [abs_def])
qed

text \<open>The implicit flow and the consent of the owner write grants of their own.\<close>

lemma implicit_keeps:
  assumes "aue_issuer E = S"
    and grant: "\<And>pg url. asked_token I E q pg \<Longrightarrow> Q (implicit_grant q pg url now)"
  shows "keeps I (authorization_token U it E q now inow)"
proof -
  have bound: "ensures I (\<lambda>w. (map_err f (rg_bound_redirect (aue_registrar E w) cu), w))
      (\<lambda>bc. \<exists>v. I v \<and> rg_bound_redirect (aue_registrar E v) cu = Ok bc)" for f :: "registrar_error \<Rightarrow> 'u at_error" and cu
    by (rule ensures_read) auto
  have negotiated: "ensures I (\<lambda>w. (map_err f (rg_negotiate (aue_registrar E w) bc scope), w))
      (\<lambda>pg. \<exists>w. I w \<and> rg_negotiate (aue_registrar E w) bc scope = Ok pg)" for f :: "registrar_error \<Rightarrow> 'u at_error" and bc scope
    by (rule ensures_read) auto
  have granted: "Q (implicit_grant q pg url now)"
    if "ok_or (at_invalid_with TeInvalidRequest :: 'u at_error) (aur_client_id q) = Ok client"
      and "\<exists>v. I v \<and> rg_bound_redirect (aue_registrar E v) \<lparr> cu_client_id = client, cu_redirect_uri = uri \<rparr> = Ok bc"
      and "\<exists>w. I w \<and> rg_negotiate (aue_registrar E w) bc scope = Ok pg" for client uri bc scope pg url
    using that by (intro grant) (unfold asked_token_def ok_or_Ok_iff, blast)
  show ?thesis
    unfolding authorization_token_def assms(1) Let_def
    by (intro keeps_bind_lift keeps_ret keeps_bind_ensures [OF bound] keeps_bind_ensures [OF negotiated]
        keeps_bind [OF keeps_err [OF issue_keeps]] granted [unfolded implicit_grant_def])
qed

lemma consent_keeps:
  assumes "aue_authorizer E = A" and "\<And>url. Q (consented_grant owner p url now)"
  shows "keeps I (pending_authorize U E now owner p)"
  unfolding pending_authorize_def assms(1)
  by (intro keeps_bind_lift keeps_ret keeps_bind [OF keeps_err [OF authorize_keeps]]
      assms(2) [unfolded consented_grant_def])

end

section \<open>Endpoints that leave the state alone\<close>

lemma keeps_match:
  assumes "ensures I m P" and "\<And>x. P x \<Longrightarrow> keeps I (f x)" and "\<And>e. keeps I (g e)"
  shows "keeps I (\<lambda>w. case m w of (Ok x, w') \<Rightarrow> f x w' | (Err e, w') \<Rightarrow> g e w' | (Panic, w') \<Rightarrow> (Panic, w'))"
proof (rule keepsI)
  fix w y w2
  assume I: "I w"
    and run: "(case m w of (Ok x, w') \<Rightarrow> f x w' | (Err e, w') \<Rightarrow> g e w' | (Panic, w') \<Rightarrow> (Panic, w')) = (y, w2)"
  obtain r w1 where m: "m w = (r, w1)"
    by (cases "m w")
  note kept = ensuresD [OF assms(1) I m]
  show "I w2"
  proof (cases r)
    case (Ok x)
    then show ?thesis
      using run m kept keepsD [OF assms(2)] by auto
  next
    case (Err e)
    then show ?thesis
      using run m kept keepsD [OF assms(3)] by auto
  qed (use run m kept in simp)
qed

lemma keeps_match_any:
  "keeps I m \<Longrightarrow> (\<And>x. keeps I (f x)) \<Longrightarrow> (\<And>e. keeps I (g e)) \<Longrightarrow>
     keeps I (\<lambda>w. case m w of (Ok x, w') \<Rightarrow> f x w' | (Err e, w') \<Rightarrow> g e w' | (Panic, w') \<Rightarrow> (Panic, w'))"
  by (rule keeps_match [where P = "\<lambda>_. True"]) (simp_all add: ensures_True)

text \<open>Creating responses and errors keeps \<open>I\<close>; so do then all replies of the flows.\<close>

locale calm_endpoint =
  fixes I :: "'w \<Rightarrow> bool" and E :: "('w, 'u, 'p, 'e, 'x) endpoint"
  assumes response_keeps: "keeps I (ep_response E q k)"
    and error_keeps: "I w \<Longrightarrow> I (snd (ep_error E err w))"
    and web_error_keeps: "I w \<Longrightarrow> I (snd (ep_web_error E e w))"
begin

lemma web_error_pair: "ep_web_error E e w = (x, w') \<Longrightarrow> I w \<Longrightarrow> I w'"
  using web_error_keeps [of w e] by simp

lemma raise_keeps: "keeps I (raise_oauth E err)"
  by (rule keepsI) (auto simp: raise_oauth_def split: prod.splits dest: error_keeps [of _ err])

lemma web_keeps: "keeps I (web_result E r)"
proof (cases r)
  case (Inl e)
  then show ?thesis
    by (intro keepsI) (auto simp: web_result_def split: prod.splits dest: web_error_keeps [of _ e])
qed (simp add: web_result_def)

lemmas reply_keeps = raise_keeps web_keeps keeps_bind [OF response_keeps] keeps_bind [OF web_keeps] keeps_case(1)

lemma token_error_keeps: "keeps I (token_error_response L R E q err)"
  by (cases err) (simp_all add: token_error_response_def Let_def, (intro reply_keeps)+)

lemma refresh_error_keeps: "keeps I (refresh_error_response L R E q err)"
  by (cases err) (simp_all add: refresh_error_response_def Let_def, (intro reply_keeps)+)

lemma auth_error_keeps: "keeps I (authorization_error_response U R E q err)"
  by (cases err) (simp_all add: authorization_error_response_def Let_def, (intro reply_keeps)+)

lemma denied_keeps: "keeps I (resource_denied it R E q err)"
  by (cases err) (simp_all add: resource_denied_def Let_def, (intro reply_keeps)+)

lemma convert_keeps: "keeps I (convert_result U R E q result)"
proof (cases result)
  case (Ok url)
  then show ?thesis
    by (simp add: convert_result_def) (intro reply_keeps)
qed (simp_all add: convert_result_def auth_error_keeps)

end

text \<open>Without extensions, an authorization request only reads the state.\<close>

lemma authorization_code_reads:
  assumes "aue_extension E = auth_no_extension" and "authorization_code U E q w = (r, w')"
  shows "w' = w"
proof -
  have "keeps (\<lambda>v. v = w) (code_request U E q)"
    unfolding code_request_def assms(1) auth_no_extension_def
    by (intro keeps_bind keeps_ret keeps_lift keeps_read) (simp_all add: keeps_def ret_def)
  then show ?thesis
    using assms(2) by (auto simp: authorization_code_request dest: keepsD)
qed

section \<open>Endpoints over keepers of grants\<close>

locale keeper_endpoint = grant_keeper I Q A S + calm_endpoint I E
  for I :: "'w \<Rightarrow> bool" and Q :: "'u grant \<Rightarrow> bool" and A S
    and E :: "('w, 'u, 'p, 'e, 'x) endpoint" +
  assumes authorizer: "ep_authorizer E = opt_primitive (\<lambda>w. A)"
    and issuer: "ep_issuer E = opt_primitive (\<lambda>w. S)"
    and extension: "ep_extension E = (\<lambda>w. None)"
begin

lemma wrapped:
  "ate_authorizer (wrapped_token E) = A" "ate_issuer (wrapped_token E) = S"
  "ate_extension (wrapped_token E) = at_no_extension" "rfe_issuer (wrapped_refresh E) = S"
  "re_issuer (scoped_resource E q) = S" "aue_authorizer (wrapped_authorization E) = A"
  "aue_issuer (wrapped_authorization E) = S" "aue_extension (wrapped_authorization E) = auth_no_extension"
  by (simp_all add: wrapped_token_def wrapped_refresh_def scoped_resource_def wrapped_authorization_def
      authorizer issuer extension)

lemma token_flow_keeps: "keeps I (access_token_execute U it L R
    \<lparr> atf_endpoint = E, atf_allow_credentials_in_body = b \<rparr> q rnow inow now)"
  unfolding access_token_execute_def Let_def access_token_flow.simps
  by (intro keeps_match_any exchange_keeps wrapped token_error_keeps reply_keeps)

lemma refresh_flow_keeps: "keeps I (refresh_execute it L R E q now now' inow jnow)"
  unfolding refresh_execute_def
  by (intro keeps_match_any renewal_keeps wrapped refresh_error_keeps reply_keeps)

lemma resource_flow_ensures:
  assumes "\<And>w p. I w \<Longrightarrow> ep_scopes E w = Some p \<Longrightarrow> I (snd (p q w))"
  shows "ensures I (resource_execute it R E q now) Q"
proof -
  have "ensures I (protect (scoped_resource E q) (wrapped_resource_request q) now) Q"
    by (rule access_ensures [OF wrapped(5)])
      (auto simp: scoped_resource_def assms split: option.splits prod.splits dest: assms)
  then show ?thesis
    unfolding resource_execute_def ensures_def
    by (auto split: prod.splits outcome.splits dest: keepsD [OF denied_keeps])
qed

lemma finish_keeps:
  assumes solicitor: "\<And>w s x w'. I w \<Longrightarrow> ep_owner_solicitor E w = Some s \<Longrightarrow> s q (as_solicitation p) w = (x, w') \<Longrightarrow> I w'"
    and consent: "\<And>w s w' who url. I w \<Longrightarrow> ep_owner_solicitor E w = Some s \<Longrightarrow>
      s q (as_solicitation p) w = (Some (Authorized who), w') \<Longrightarrow>
      Q (consented_grant who p url now)"
  shows "keeps I (pending_finish U R E q now p)"
proof (rule keepsI)
  fix w y w2
  assume I: "I w" and run: "pending_finish U R E q now p w = (y, w2)"
  show "I w2"
  proof (cases "ep_owner_solicitor E w")
    case (Some s)
    obtain x w1 where asked: "s q (as_solicitation p) w = (x, w1)"
      by (cases "s q (as_solicitation p) w")
    have I1: "I w1"
      by (rule solicitor [OF I Some asked])
    show ?thesis
    proof (cases x)
      case (Some answer)
      show ?thesis
      proof (cases answer)
        case (Authorized who)
        obtain r w3 where grant: "pending_authorize U (wrapped_authorization E) now who p w1 = (r, w3)"
          by (cases "pending_authorize U (wrapped_authorization E) now who p w1")
        have "keeps I (pending_authorize U (wrapped_authorization E) now who p)"
          using consent [OF I \<open>ep_owner_solicitor E w = Some s\<close>] asked Some Authorized
          by (intro consent_keeps wrapped) simp
        then have "I w3"
          using keepsD I1 grant by metis
        then show ?thesis
          using run Some Authorized asked grant \<open>ep_owner_solicitor E w = Some s\<close>
          by (auto simp: pending_finish_def dest: keepsD [OF convert_keeps])
      qed (use run Some asked I1 \<open>ep_owner_solicitor E w = Some s\<close> in
          \<open>auto simp: pending_finish_def split: prod.splits dest: keepsD [OF convert_keeps] web_error_pair\<close>)
    qed (use run Some asked I1 in \<open>auto simp: pending_finish_def\<close>)
  qed (use run I in \<open>auto simp: pending_finish_def\<close>)
qed

lemma authorization_flow_keeps:
  assumes solicitor: "\<And>w s sl x w'. I w \<Longrightarrow> ep_owner_solicitor E w = Some s \<Longrightarrow> s q sl w = (x, w') \<Longrightarrow> I w'"
    and consent: "\<And>p w s w' who url. asked_code I U (wrapped_authorization E) (wrapped_auth_request q) p \<Longrightarrow> I w \<Longrightarrow>
      ep_owner_solicitor E w = Some s \<Longrightarrow> s q (as_solicitation p) w = (Some (Authorized who), w') \<Longrightarrow>
      Q (consented_grant who p url now)"
    and implicit: "\<And>pg url. aur_response_type (wrapped_auth_request q) = Some ''token'' \<Longrightarrow>
      asked_token I (wrapped_authorization E) (wrapped_auth_request q) pg \<Longrightarrow>
      Q (implicit_grant (wrapped_auth_request q) pg url now)"
  shows "keeps I (authorization_execute U it L R E q now inow rnow)"
proof -
  let ?E = "wrapped_authorization E" and ?q = "wrapped_auth_request q"
  have code: "ensures I (authorization_code U ?E ?q)
      (asked_code I U ?E ?q)"
    using authorization_code_reads [OF wrapped(8)] by (intro ensuresI) (unfold asked_code_def, blast)
  have finish: "keeps I (pending_finish U R E q now p)"
    if "asked_code I U ?E ?q p" for p
    using that by (blast intro: finish_keeps solicitor consent)
  have granted: "keeps I (case_option (token_error_response L R E q (at_invalid_with TeServerError))
      (\<lambda>url. web_result E (ws_redirect R url response)) z)" for z response
    by (intro keeps_case token_error_keeps reply_keeps)
  show ?thesis
  proof (cases "aur_response_type ?q")
    case (Some t)
    consider "t = ''code''" | "t = ''token''" | "t \<noteq> ''code''" "t \<noteq> ''token''"
      by blast
    then show ?thesis
    proof cases
      case 1
      then show ?thesis
        unfolding authorization_execute_def Let_def Some option.simps
        by simp (intro keeps_match [OF code] finish auth_error_keeps)
    next
      case 2
      have "keeps I (authorization_token U it ?E ?q now inow)"
        using implicit Some 2 by (intro implicit_keeps wrapped) simp
      then show ?thesis
        unfolding authorization_execute_def Let_def Some option.simps 2
        by simp (intro keeps_match_any token_error_keeps keeps_bind [OF response_keeps] keeps_case(1) granted)
    next
      case 3
      then show ?thesis
        unfolding authorization_execute_def Let_def Some option.simps
        by simp (intro token_error_keeps)
    qed
  next
    case None
    show ?thesis
      unfolding authorization_execute_def Let_def None option.simps by (intro token_error_keeps)
  qed
qed

end

section \<open>The server keeps its grants\<close>

text \<open>The clients and scopes of the server do not change, and what it stores satisfies \<open>Q\<close>.\<close>

definition server_holds ::
  "('r \<Rightarrow> string \<Rightarrow> string \<Rightarrow> string option) \<Rightarrow> ('g, 'h, 'u, 'r) server_lib \<Rightarrow> 'u client_map \<Rightarrow> scope list
    \<Rightarrow> ('u grant \<Rightarrow> bool) \<Rightarrow> ('g, 'h, 'u, 'r) server \<Rightarrow> bool" where
  "server_holds hash L clients scopes Q s \<longleftrightarrow> sv_registrar s = clients \<and> sv_scopes s = scopes \<and>
     stored_ok (sl_grant_codec L) (sl_token_codec L) Q (hash (sv_redis s))"

lemma server_holds_mono: "server_holds hash L clients scopes Q s \<Longrightarrow> (\<And>g. Q g \<Longrightarrow> P g) \<Longrightarrow>
     server_holds hash L clients scopes P s"
  unfolding server_holds_def by (blast intro: stored_ok_mono)

context server_store
begin

lemma on_authorizer_holds:
  assumes "ensures (holds (sl_grant_codec L) (sl_token_codec L) Q) m P"
  shows "ensures (server_holds hash L clients scopes Q) (on_authorizer m) P"
proof (rule ensuresI)
  fix s x s'
  assume I: "server_holds hash L clients scopes Q s" and run: "on_authorizer m s = (x, s')"
  obtain a r where m: "m (sv_authorizer s, sv_redis s) = (x, (a, r))"
    and s': "s' = s\<lparr> sv_authorizer := a, sv_redis := r \<rparr>"
    using run unfolding on_authorizer_iff by blast
  show "server_holds hash L clients scopes Q s' \<and> (\<forall>v. x = Ok v \<longrightarrow> P v)"
    using ensuresD [OF assms _ m] I by (simp add: server_holds_def holds_def s')
qed

lemma on_issuer_holds:
  assumes "ensures (holds (sl_grant_codec L) (sl_token_codec L) Q) m P"
  shows "ensures (server_holds hash L clients scopes Q) (on_issuer m) P"
proof (rule ensuresI)
  fix s x s'
  assume I: "server_holds hash L clients scopes Q s" and run: "on_issuer m s = (x, s')"
  obtain i r where m: "m (sv_issuer s, sv_redis s) = (x, (i, r))"
    and s': "s' = s\<lparr> sv_issuer := i, sv_redis := r \<rparr>"
    using run unfolding on_issuer_iff by blast
  show "server_holds hash L clients scopes Q s' \<and> (\<forall>v. x = Ok v \<longrightarrow> P v)"
    using ensuresD [OF assms _ m] I by (simp add: server_holds_def holds_def s')
qed

lemma server_keeper:
  assumes closed: "grant_closed Q"
  shows "grant_keeper (server_holds hash L clients scopes Q) Q (server_authorizer L) (server_issuer L)"
proof
  note on = server_authorizer_def server_issuer_def Let_def auth_map_authorizer_def token_map_issuer_def
    recover_at_eqs authorizer_ops.simps issuer_ops.simps
  show "keeps (server_holds hash L clients scopes Q) (az_authorize (server_authorizer L) g)" if "Q g" for g
    unfolding on ensures_True [symmetric]
    by (rule on_authorizer_holds) (simp add: ensures_True authorize_holds grants that)
  show "ensures (server_holds hash L clients scopes Q) (az_extract (server_authorizer L) c) (pred_option Q)" for c
    unfolding on by (rule on_authorizer_holds [OF extract_holds])
  show "keeps (server_holds hash L clients scopes Q) (is_issue (server_issuer L) now g)" if "Q g" for now g
    unfolding on ensures_True [symmetric]
    by (rule on_issuer_holds) (simp add: ensures_True issue_holds tokens closed that)
  show "keeps (server_holds hash L clients scopes Q) (is_refresh (server_issuer L) now t g)" if "Q g" for now t g
    unfolding on ensures_True [symmetric]
    by (rule on_issuer_holds) (simp add: ensures_True refresh_holds tokens closed that)
  show "ensures (server_holds hash L clients scopes Q) (is_recover_token (server_issuer L) t) (pred_option Q)" for t
    unfolding on by (rule on_issuer_holds [OF recover_holds]) simp
  show "ensures (server_holds hash L clients scopes Q) (is_recover_refresh (server_issuer L) t) (pred_option Q)" for t
    unfolding on by (rule on_issuer_holds [OF recover_holds]) simp
qed (rule closed)

end

section \<open>The type of a grant\<close>

text \<open>A grant has a well-formed scope, within the default scope its client is registered with.\<close>

definition typed_grant :: "'u client_map \<Rightarrow> 'u grant \<Rightarrow> bool" where
  "typed_grant clients g \<longleftrightarrow> scope_wf (g_scope g) \<and>
     (\<exists>c. cm_clients clients (g_client_id g) = Some c \<and> tokens (g_scope g) |\<subseteq>| tokens (ec_default_scope c))"

lemma typed_grant_closed: "grant_closed (typed_grant clients)"
  by (auto simp: grant_closed_def typed_grant_def)

interpretation mem_keeper: grant_keeper
  "server_holds mr_hash \<lparr> sl_url = url_identity, sl_argon2 = spell_argon2, sl_redis = mem_ops,
     sl_grant_codec = grant_codec, sl_token_codec = token_codec, sl_code_tagger = tag, sl_token_tagger = tag',
     sl_checks = checks \<rparr> clients scopes (typed_grant clients)" "typed_grant clients"
  "server_authorizer \<lparr> sl_url = url_identity, sl_argon2 = spell_argon2, sl_redis = mem_ops,
     sl_grant_codec = grant_codec, sl_token_codec = token_codec, sl_code_tagger = tag, sl_token_tagger = tag',
     sl_checks = checks \<rparr>"
  "server_issuer \<lparr> sl_url = url_identity, sl_argon2 = spell_argon2, sl_redis = mem_ops,
     sl_grant_codec = grant_codec, sl_token_codec = token_codec, sl_code_tagger = tag, sl_token_tagger = tag',
     sl_checks = checks \<rparr>"
  for tag tag' checks clients scopes
  by (rule mem_server.server_keeper) (rule typed_grant_closed)

end
