(* ===== verification/Actix_Server.thy ===== *)
theory Actix_Server
  imports Stored Frontends
begin

text \<open>
  The example server of the actix binding (\<open>actix-example/src/main.rs\<close>, with the consent page of
  \<open>examples/support/generic.rs\<close> and the messages of \<open>oxide-auth-actix/src/lib.rs\<close>): the actor that owns
  the endpoint, the message handler that chooses how the owner is asked, the five routes, and the
  preconfigured state. The server is any sequence of calls of its routes (\<open>serves\<close>). The properties
  trace every access back to the request that authorized it and give the type of all stored grants.
\<close>

section \<open>Messages\<close>

text \<open>
  An operation (trait \<open>OAuthOperation\<close>) runs on an endpoint of any type whose errors convert to
  \<open>WebError\<close>; here it is given by its two instances, for endpoints with errors \<open>WebError\<close> and for generic
  endpoints.
\<close>

record ('w, 'u, 'p, 'a, 'f) oauth_operation =
  op_run :: "('w, 'u, 'p, actix_error, actix_error) endpoint \<Rightarrow> ('w, 'a, 'f) action"
  op_run_generic :: "('w, 'u, 'p, actix_error, actix_error simple_error) endpoint \<Rightarrow> ('w, 'a, 'f) action"

definition op_wrap ::
  "('w, 'u, 'p, 'a, 'f) oauth_operation \<Rightarrow> 'x \<Rightarrow> ('w, 'u, 'p, 'a, 'f) oauth_operation \<times> 'x" where
  "op_wrap self extras = (self, extras)"

definition message_into_inner ::
  "('w, 'u, 'p, 'a, 'f) oauth_operation \<times> 'x \<Rightarrow> ('w, 'u, 'p, 'a, 'f) oauth_operation \<times> 'x" where
  "message_into_inner self = (fst self, snd self)"

text \<open>The libraries of a site, and what the clock shows during a request: at the checks, at the second
  check of a refresh, when a token is issued and when the reply is written.\<close>

record ('u, 'h) site =
  st_url :: "'u url_lib"
  st_order :: "string fset \<Rightarrow> string list"
  st_wire :: wire_lib
  st_headers :: "'h header_lib"

record clock =
  ck_now :: time
  ck_again :: time
  ck_issue :: time
  ck_reply :: time

definition op_authorize ::
  "('u, 'h) site \<Rightarrow> clock \<Rightarrow> actix_request \<Rightarrow> ('w, 'u, 'h actix_response, 'h actix_response, actix_error) oauth_operation" where
  "op_authorize T ck req =
     (let R = actix_response_ops (st_url T) (st_headers T) in
      \<lparr> op_run = (\<lambda>E. actix_authorize_run (st_url T) (st_order T) (st_wire T) R (\<lambda>e. e) E req
           (ck_now ck) (ck_issue ck) (ck_reply ck)),
        op_run_generic = (\<lambda>E. actix_authorize_run (st_url T) (st_order T) (st_wire T) R actix_error_of E req
           (ck_now ck) (ck_issue ck) (ck_reply ck)) \<rparr>)"

definition op_token ::
  "('u, 'h) site \<Rightarrow> clock \<Rightarrow> actix_request \<Rightarrow> ('w, 'u, 'h actix_response, 'h actix_response, actix_error) oauth_operation" where
  "op_token T ck req =
     (let R = actix_response_ops (st_url T) (st_headers T) in
      \<lparr> op_run = (\<lambda>E. actix_token_run (st_url T) (st_order T) (st_wire T) R (\<lambda>e. e) E req
           (ck_now ck) (ck_issue ck) (ck_reply ck)),
        op_run_generic = (\<lambda>E. actix_token_run (st_url T) (st_order T) (st_wire T) R actix_error_of E req
           (ck_now ck) (ck_issue ck) (ck_reply ck)) \<rparr>)"

definition op_refresh ::
  "('u, 'h) site \<Rightarrow> clock \<Rightarrow> actix_request \<Rightarrow> ('w, 'u, 'h actix_response, 'h actix_response, actix_error) oauth_operation" where
  "op_refresh T ck req =
     (let R = actix_response_ops (st_url T) (st_headers T) in
      \<lparr> op_run = (\<lambda>E. actix_refresh_run (st_order T) (st_wire T) R (\<lambda>e. e) E req
           (ck_now ck) (ck_again ck) (ck_issue ck) (ck_reply ck)),
        op_run_generic = (\<lambda>E. actix_refresh_run (st_order T) (st_wire T) R actix_error_of E req
           (ck_now ck) (ck_again ck) (ck_issue ck) (ck_reply ck)) \<rparr>)"

definition op_resource ::
  "('u, 'h) site \<Rightarrow> clock \<Rightarrow> actix_request
    \<Rightarrow> ('w, 'u, 'h actix_response, 'u grant, ('h actix_response, actix_error) outcome) oauth_operation" where
  "op_resource T ck req =
     (let R = actix_response_ops (st_url T) (st_headers T) in
      \<lparr> op_run = (\<lambda>E. actix_resource_run (st_order T) R (\<lambda>e. e) E req (ck_now ck)),
        op_run_generic = (\<lambda>E. actix_resource_run (st_order T) R actix_error_of E req (ck_now ck)) \<rparr>)"

text \<open>Extraction of requests, and replies as HTTP responses: each header of the response is inserted
  into the fresh reply; an error is answered with the default status of the framework.\<close>

definition actix_from_request :: "actix_http \<Rightarrow> actix_error + actix_request" where
  "actix_from_request req = actix_request_new req"

definition actix_resource_from_request :: "actix_http \<Rightarrow> actix_error + actix_resource" where
  "actix_resource_from_request req = actix_resource_new req"

record 'h http_reply =
  hr_status :: nat
  hr_headers :: 'h
  hr_body :: string

definition actix_respond_to :: "'h actix_response \<Rightarrow> 'h http_reply" where
  "actix_respond_to self =
     \<lparr> hr_status = axp_status self, hr_headers = axp_headers self,
       hr_body = (case axp_body self of Some body \<Rightarrow> body | None \<Rightarrow> []) \<rparr>"

definition actix_error_status :: "actix_error \<Rightarrow> nat" where
  "actix_error_status e = 500"

text \<open>The accessors of the messages.\<close>

definition actix_get_headers :: "'h actix_response \<Rightarrow> 'h" where
  "actix_get_headers self = axp_headers self"

definition actix_get_body :: "'h actix_response \<Rightarrow> string option" where
  "actix_get_body self = axp_body self"

definition actix_authorization_header :: "actix_request \<Rightarrow> string option" where
  "actix_authorization_header self = axr_auth self"

definition actix_query :: "actix_request \<Rightarrow> normalized_parameter option" where
  "actix_query self = axr_query self"

definition actix_query_mut :: "(normalized_parameter \<Rightarrow> normalized_parameter) \<Rightarrow> actix_request \<Rightarrow> actix_request" where
  "actix_query_mut f self = self\<lparr> axr_query := map_option f (axr_query self) \<rparr>"

definition actix_body :: "actix_request \<Rightarrow> normalized_parameter option" where
  "actix_body self = axr_body self"

definition actix_request_from_resource :: "actix_resource \<Rightarrow> actix_request" where
  "actix_request_from_resource res = actix_into_request res"

definition actix_error_of_oauth :: "oauth_error \<Rightarrow> actix_error" where
  "actix_error_of_oauth e = AxEndpoint e"

section \<open>Asking the owner\<close>

datatype extras = AuthGet | AuthPost string | ExNothing

definition newline :: string where
  "newline = [CHR 0x0A]"

definition deny_text :: string where
  "deny_text = ''<html>'' @ newline
     @ ''This page should be accessed via an oauth token from the client in the example. Click'' @ newline
     @ ''<a href=\"http://localhost:8020/authorize?response_type=code&client_id=LocalClient\">'' @ newline
     @ ''here</a> to begin the authorization process.'' @ newline
     @ ''</html>'' @ newline"

text \<open>The page that asks for consent; writing an exact URL parses it again.\<close>

definition consent_page_html ::
  "'u url_lib \<Rightarrow> (string fset \<Rightarrow> string list) \<Rightarrow> string \<Rightarrow> 'u solicitation \<Rightarrow> (string, 'e) outcome" where
  "consent_page_html U it route solicitation =
     (let grant = solicitation_pre_grant solicitation;
          state = (case solicitation_state solicitation of Some state \<Rightarrow> ''&state='' @ state | None \<Rightarrow> []);
          action = route @ ''?response_type=code&client_id='' @ pg_client_id grant @ state
      in map_ok (\<lambda>uri.
           ''<html>'' @ [CHR 0x27] @ pg_client_id grant @ [CHR 0x27] @ '' (at '' @ uri @ '') is requesting permission for ''
           @ [CHR 0x27] @ scope_to_string it (pg_scope grant) @ [CHR 0x27] @ newline
           @ ''<form method=\"post\">'' @ newline
           @ ''    <input type=\"submit\" value=\"Accept\" formaction=\"'' @ action @ ''&allow=true\">'' @ newline
           @ ''    <input type=\"submit\" value=\"Deny\" formaction=\"'' @ action @ ''&deny=true\">'' @ newline
           @ ''</form>'' @ newline
           @ ''</html>'')
         (registered_display U (pg_redirect_uri grant)))"

text \<open>\<open>str::contains\<close> with a string pattern.\<close>

fun str_contains :: "string \<Rightarrow> string \<Rightarrow> bool" where
  "str_contains [] pat = (pat = [])"
| "str_contains (c # cs) pat = (starts_with (c # cs) pat \<or> str_contains cs pat)"

text \<open>The closures of the handler: \<open>GET\<close> shows the page, \<open>POST\<close> reads the answer out of the query.\<close>

definition solicit_get :: "('u, 'h) site \<Rightarrow> ('w, 'u, 'h actix_response, actix_error) solicitor" where
  "solicit_get T = fn_solicitor (\<lambda>request pre_grant w.
     (case actix_content_type (st_headers T) ''text/html'' (actix_response_ok (st_headers T)) of
        Inl e \<Rightarrow> None
      | Inr response \<Rightarrow>
          (case consent_page_html (st_url T) (st_order T) ''/authorize'' pre_grant :: (string, unit) outcome of
             Ok page \<Rightarrow> Some (InProgress (actix_set_body page response))
           | _ \<Rightarrow> None), w))"

definition solicit_post :: "string \<Rightarrow> ('w, 'u, 'p, 'e) solicitor" where
  "solicit_post query_string = fn_solicitor (\<lambda>request pre_grant w.
     (Some (if str_contains query_string ''allow'' then Authorized ''dummy user'' else Denied), w))"

section \<open>The actor\<close>

definition site_response ::
  "('u, 'h) site \<Rightarrow> 'e web_request \<Rightarrow> inner_template \<Rightarrow> 'w \<Rightarrow> ('h actix_response \<times> inner_template) \<times> 'w" where
  "site_response T = fn_response (\<lambda>w. (actix_response_ok (st_headers T), w))"

text \<open>The endpoint of the state with another solicitor (\<open>State::with_solicitor\<close>).\<close>

definition state_with_solicitor ::
  "('u, 'h) site \<Rightarrow> ('w, 'u, 'h actix_response, actix_error) generic
    \<Rightarrow> ('w, 'u, 'h actix_response, actix_error) solicitor \<Rightarrow> ('w, 'u, 'h actix_response, actix_error, actix_error) endpoint" where
  "state_with_solicitor T G solicitor = error_into actix_error_of (generic_endpoint
     \<lparr> gn_registrar = gn_registrar G, gn_authorizer = gn_authorizer G, gn_issuer = gn_issuer G,
       gn_solicitor = solicitor, gn_scopes = gn_scopes G, gn_response = site_response T \<rparr>)"

definition handle ::
  "('u, 'h) site \<Rightarrow> ('w, 'u, 'h actix_response, actix_error) generic
    \<Rightarrow> ('w, 'u, 'h actix_response, 'a, 'f) oauth_operation \<times> extras \<Rightarrow> ('w, 'a, 'f) action" where
  "handle T G msg =
     (case message_into_inner msg of (op, ex) \<Rightarrow>
        (case ex of
           AuthGet \<Rightarrow> op_run op (state_with_solicitor T G (solicit_get T))
         | AuthPost query_string \<Rightarrow> op_run op (state_with_solicitor T G (solicit_post query_string))
         | _ \<Rightarrow> op_run_generic op (generic_endpoint G)))"

section \<open>The routes\<close>

text \<open>
  A call of the server: method, path (after the normalization of the framework), raw query string, what
  the extractors see of it, what the clock shows, and whether the mailbox of the actor refuses the
  message.
\<close>

record call =
  cl_method :: string
  cl_path :: string
  cl_query_string :: string
  cl_http :: actix_http
  cl_clock :: clock
  cl_mailbox :: "mailbox_error option"

definition ask_actor ::
  "(mailbox_error \<Rightarrow> 'e) \<Rightarrow> mailbox_error option \<Rightarrow> ('w, 'a, 'e) action \<Rightarrow> ('w, 'a, 'e) action" where
  "ask_actor from mailbox m = (case mailbox of Some e \<Rightarrow> fail (from e) | None \<Rightarrow> m)"

definition get_authorize ::
  "('u, 'h) site \<Rightarrow> ('w, 'u, 'h actix_response, actix_error) generic \<Rightarrow> call
    \<Rightarrow> ('w, 'h actix_response, actix_error) action" where
  "get_authorize T G c =
     (case actix_from_request (cl_http c) of Inl e \<Rightarrow> fail e | Inr req \<Rightarrow>
        ask_actor actix_error_of_mailbox (cl_mailbox c)
          (handle T G (op_wrap (op_authorize T (cl_clock c) req) AuthGet)))"

definition post_authorize ::
  "('u, 'h) site \<Rightarrow> ('w, 'u, 'h actix_response, actix_error) generic \<Rightarrow> call
    \<Rightarrow> ('w, 'h actix_response, actix_error) action" where
  "post_authorize T G c =
     (case actix_from_request (cl_http c) of Inl e \<Rightarrow> fail e | Inr req \<Rightarrow>
        ask_actor actix_error_of_mailbox (cl_mailbox c)
          (handle T G (op_wrap (op_authorize T (cl_clock c) req) (AuthPost (cl_query_string c)))))"

definition token_route ::
  "('u, 'h) site \<Rightarrow> ('w, 'u, 'h actix_response, actix_error) generic \<Rightarrow> call
    \<Rightarrow> ('w, 'h actix_response, actix_error) action" where
  "token_route T G c =
     (case actix_from_request (cl_http c) of Inl e \<Rightarrow> fail e | Inr req \<Rightarrow>
        ask_actor actix_error_of_mailbox (cl_mailbox c)
          (handle T G (op_wrap (op_token T (cl_clock c) req) ExNothing)))"

definition refresh_route ::
  "('u, 'h) site \<Rightarrow> ('w, 'u, 'h actix_response, actix_error) generic \<Rightarrow> call
    \<Rightarrow> ('w, 'h actix_response, actix_error) action" where
  "refresh_route T G c =
     (case actix_from_request (cl_http c) of Inl e \<Rightarrow> fail e | Inr req \<Rightarrow>
        ask_actor actix_error_of_mailbox (cl_mailbox c)
          (handle T G (op_wrap (op_refresh T (cl_clock c) req) ExNothing)))"

text \<open>What the index page makes of the answer of the resource operation.\<close>

definition index_reply ::
  "('u, 'h) site \<Rightarrow> string \<Rightarrow> ('u grant, ('h actix_response, actix_error) outcome) outcome
    \<Rightarrow> ('h actix_response, actix_error) outcome" where
  "index_reply T deny answer =
     (case answer of
        Ok grant \<Rightarrow>
          (case actix_content_type (st_headers T) ''text/plain'' (actix_response_ok (st_headers T)) of
             Inl e \<Rightarrow> Err e
           | Inr response \<Rightarrow> Ok (actix_set_body ''Hello world!'' response))
      | Err (Ok e) \<Rightarrow> Ok (actix_set_body deny e)
      | Err (Err e) \<Rightarrow> Err e
      | _ \<Rightarrow> Panic)"

definition index_route ::
  "('u, 'h) site \<Rightarrow> ('w, 'u, 'h actix_response, actix_error) generic \<Rightarrow> call
    \<Rightarrow> ('w, 'h actix_response, actix_error) action" where
  "index_route T G c =
     (case actix_resource_from_request (cl_http c) of Inl e \<Rightarrow> fail e | Inr req \<Rightarrow>
        (\<lambda>w. case ask_actor (\<lambda>e. Err (actix_error_of_mailbox e)) (cl_mailbox c)
                (handle T G (op_wrap (op_resource T (cl_clock c) (actix_into_request req)) ExNothing)) w of
           (answer, w') \<Rightarrow> (index_reply T deny_text answer, w')))"

text \<open>The routes of the application.\<close>

definition example_route ::
  "('u, 'h) site \<Rightarrow> ('w, 'u, 'h actix_response, actix_error) generic \<Rightarrow> call
    \<Rightarrow> ('w, 'h actix_response, actix_error) action option" where
  "example_route T G c =
     (if cl_path c = ''/authorize'' \<and> cl_method c = ''GET'' then Some (get_authorize T G c)
      else if cl_path c = ''/authorize'' \<and> cl_method c = ''POST'' then Some (post_authorize T G c)
      else if cl_path c = ''/token'' \<and> cl_method c = ''POST'' then Some (token_route T G c)
      else if cl_path c = ''/refresh'' \<and> cl_method c = ''POST'' then Some (refresh_route T G c)
      else if cl_path c = ''/'' \<and> cl_method c = ''GET'' then Some (index_route T G c)
      else None)"

text \<open>A history of the server: the calls that were answered, the latest first.\<close>

inductive serves ::
  "('u, 'h) site \<Rightarrow> ('w, 'u, 'h actix_response, actix_error) generic \<Rightarrow> 'w \<Rightarrow> call list \<Rightarrow> 'w \<Rightarrow> bool"
  for T G w where
  serves_start: "serves T G w [] w"
| serves_call: "serves T G w cs v \<Longrightarrow> example_route T G c = Some act \<Longrightarrow> act v = (reply, v') \<Longrightarrow>
     serves T G w (c # cs) v'"

inductive_cases serves_ConsE: "serves T G w (c # cs) v"

section \<open>The preconfigured state\<close>

text \<open>
  The endpoint of the state over a server: the maps of the server, no solicitor of its own. The
  generators, the store and the salt drawn for the client are parameters; \<open>unwrap\<close> panics.
\<close>

definition state_generic ::
  "('u, 'x) site \<Rightarrow> ('g, 'h, 'u, 'r) server_lib \<Rightarrow> (('g, 'h, 'u, 'r) server, 'u, 'x actix_response, actix_error) generic" where
  "state_generic T L = server_generic L vacant_solicitor (site_response T)"

definition preconfigured ::
  "('g, 'h, 'u, 'r) server_lib \<Rightarrow> bytes \<Rightarrow> 'g \<Rightarrow> 'h \<Rightarrow> 'r \<Rightarrow> (('g, 'h, 'u, 'r) server, registrar_error) outcome" where
  "preconfigured L salt code_generator token_generator redis =
     bind_oc (expect (url_parse (sl_url L) ''http://localhost:8021/endpoint'')) (\<lambda>url.
     bind_oc (case scope_from_str ''default-scope'' of Ok scope \<Rightarrow> Ok scope | _ \<Rightarrow> Panic) (\<lambda>scope.
     case client_map_from_iter (sl_argon2 L)
            [(salt, client_public ''LocalClient'' (Semantic url) scope)] of
       (x, registrar) \<Rightarrow> map_ok (\<lambda>_.
         \<lparr> sv_registrar = registrar, sv_authorizer = auth_map_new code_generator,
           sv_issuer = token_map_new token_generator, sv_scopes = [scope], sv_redis = redis \<rparr>) x))"

definition default_scope :: scope where
  "default_scope = \<lparr> tokens = {|''default-scope''|} \<rparr>"

lemma default_scope_parses: "scope_from_str ''default-scope'' = Ok default_scope"
  unfolding default_scope_def by code_simp

lemma preconfigured_Ok:
  assumes "preconfigured L salt g h r = Ok s"
  shows "\<exists>url. url_parse (sl_url L) ''http://localhost:8021/endpoint'' = Some url \<and>
    s = \<lparr> sv_registrar = \<lparr> cm_clients = [''LocalClient'' \<mapsto>
          \<lparr> ec_client_id = ''LocalClient'', ec_redirect_uri = Semantic url, ec_additional_redirect_uris = [],
            ec_default_scope = default_scope, ec_encoded_client = PublicClient \<rparr>], cm_password_policy = None \<rparr>,
        sv_authorizer = auth_map_new g, sv_issuer = token_map_new h, sv_scopes = [default_scope], sv_redis = r \<rparr>"
  using assms
  by (auto simp: preconfigured_def default_scope_parses client_map_from_iter_def register_client_def
      client_encode_def client_public_def bind_ac_def client_map_new_def bind_oc_Ok_iff)

section \<open>What the routes keep\<close>

lemma generic_parts [simp]:
  "ep_registrar (generic_endpoint G) = gn_registrar G" "ep_authorizer (generic_endpoint G) = gn_authorizer G"
  "ep_issuer (generic_endpoint G) = gn_issuer G" "ep_owner_solicitor (generic_endpoint G) = (\<lambda>w. Some (gn_solicitor G))"
  "ep_scopes (generic_endpoint G) = (\<lambda>w. Some (gn_scopes G))" "ep_extension (generic_endpoint G) = (\<lambda>w. None)"
  by (simp_all add: generic_endpoint_def)

lemma solicitor_parts [simp]:
  "ep_registrar (state_with_solicitor T G sol) = gn_registrar G"
  "ep_authorizer (state_with_solicitor T G sol) = gn_authorizer G"
  "ep_issuer (state_with_solicitor T G sol) = gn_issuer G"
  "ep_owner_solicitor (state_with_solicitor T G sol) = (\<lambda>w. Some sol)"
  "ep_scopes (state_with_solicitor T G sol) = (\<lambda>w. Some (gn_scopes G))"
  "ep_extension (state_with_solicitor T G sol) = (\<lambda>w. None)"
  by (simp_all add: state_with_solicitor_def error_into_def)

lemma calm_generic:
  assumes "gn_response G = site_response T"
  shows "calm_endpoint I (generic_endpoint G)"
  by unfold_locales (simp_all add: generic_endpoint_def assms site_response_def fn_response_def keeps_def)

lemma calm_solicitor: "calm_endpoint I (state_with_solicitor T G sol)"
  by unfold_locales (simp_all add: state_with_solicitor_def error_into_def generic_endpoint_def
      site_response_def fn_response_def keeps_def err_ac_def)

text \<open>
  A site: a generic endpoint over a keeper of grants. What authorizes a grant is the request that
  asked for it.
\<close>

locale example_site = grant_keeper I Q A S
  for I :: "'w \<Rightarrow> bool" and Q :: "'u grant \<Rightarrow> bool" and A S +
  fixes T :: "('u, 'h) site" and G :: "('w, 'u, 'h actix_response, actix_error) generic"
  assumes parts: "gn_authorizer G = opt_primitive (\<lambda>w. A)" "gn_issuer G = opt_primitive (\<lambda>w. S)"
      "gn_solicitor G = vacant_solicitor" "gn_response G = site_response T"
    and scopes: "I w \<Longrightarrow> I (snd (gn_scopes G q w))"
begin

lemma generic_keeper: "keeper_endpoint I Q A S (generic_endpoint G)"
  by (intro keeper_endpoint.intro grant_keeper_axioms calm_generic parts keeper_endpoint_axioms.intro)
    (simp_all add: parts)

lemma solicitor_keeper: "keeper_endpoint I Q A S (state_with_solicitor T G sol)"
  by (intro keeper_endpoint.intro grant_keeper_axioms calm_solicitor keeper_endpoint_axioms.intro)
    (simp_all add: parts)

lemma prepare_keeps:
  assumes "calm_endpoint I E"
  shows "keeps I (authorization_prepare E)" "keeps I (access_token_prepare E)" "keeps I (refresh_prepare E)"
    "keeps I (resource_prepare E)"
  unfolding authorization_prepare_def access_token_prepare_def refresh_prepare_def resource_prepare_def
  by (auto intro!: keepsI split: if_splits dest: keepsD [OF calm_endpoint.raise_keeps [OF assms]])

lemma token_run_keeps:
  assumes "keeper_endpoint I Q A S E"
  shows "keeps I (actix_token_run U it L R from E q rnow inow now)"
proof -
  have calm: "calm_endpoint I E"
    using assms by (simp add: keeper_endpoint_def)
  have flow: "ensures I (access_token_prepare E)
      (\<lambda>flow. flow = \<lparr> atf_endpoint = E, atf_allow_credentials_in_body = False \<rparr>)"
    by (rule ensuresI) (auto simp: access_token_prepare_def raise_oauth_def split: if_splits prod.splits
        dest: calm_endpoint.error_keeps [OF calm, of _ OauthPrimitiveError])
  show ?thesis
    unfolding actix_token_run_def
    by (rule keeps_bind_ensures [OF ensures_err [OF flow]])
      (simp add: keeps_err keeper_endpoint.token_flow_keeps [OF assms])
qed

lemma refresh_run_keeps:
  assumes "keeper_endpoint I Q A S E"
  shows "keeps I (actix_refresh_run it L R from E q now now' inow jnow)"
  using assms unfolding actix_refresh_run_def
  by (intro keeps_bind keeps_err prepare_keeps keeper_endpoint.refresh_flow_keeps [OF assms])
    (simp add: keeper_endpoint_def)

lemma resource_run_ensures:
  assumes "keeper_endpoint I Q A S E" and "ep_scopes E = (\<lambda>w. Some (gn_scopes G))"
  shows "ensures I (actix_resource_run it R from E q now) Q"
proof -
  have calm: "calm_endpoint I E"
    using assms by (simp add: keeper_endpoint_def)
  show ?thesis
    unfolding actix_resource_run_def
    by (intro ensures_bind_any [OF keeps_err [OF prepare_keeps(4) [OF calm]]] ensures_err
        keeper_endpoint.resource_flow_ensures [OF assms(1)]) (auto simp: assms(2) scopes)
qed

lemma wrapped_site:
  "wrapped_authorization (state_with_solicitor T G sol) = wrapped_authorization (generic_endpoint G)"
  by (simp add: wrapped_authorization_def)

lemma authorize_run_keeps:
  assumes quiet: "\<And>q sl w. snd (sol q sl w) = w"
    and consent: "\<And>p w who url. asked_code I U (wrapped_authorization (generic_endpoint G))
        (wrapped_auth_request (actix_web_request req)) p \<Longrightarrow>
      fst (sol (actix_web_request req) (as_solicitation p) w) = Some (Authorized who) \<Longrightarrow>
      Q (consented_grant who p url now)"
    and implicit: "\<And>pg url. aur_response_type (wrapped_auth_request (actix_web_request req)) = Some ''token'' \<Longrightarrow>
      asked_token I (wrapped_authorization (generic_endpoint G)) (wrapped_auth_request (actix_web_request req)) pg \<Longrightarrow>
      Q (implicit_grant (wrapped_auth_request (actix_web_request req)) pg url now)"
  shows "keeps I (actix_authorize_run U it L R from (state_with_solicitor T G sol) req now inow rnow)"
proof -
  note keeper = solicitor_keeper [of sol]
  have calm: "calm_endpoint I (state_with_solicitor T G sol)"
    using keeper by (simp add: keeper_endpoint_def)
  have "keeps I (authorization_execute U it L R (state_with_solicitor T G sol) (actix_web_request req) now inow rnow)"
  proof (rule keeper_endpoint.authorization_flow_keeps [OF keeper], goal_cases)
    case (1 w s sl x w')
    then show ?case using quiet [of "actix_web_request req" sl w] by simp
  next
    case (2 p w s w' who url)
    then show ?case
      using consent [of p w who url] by (simp add: wrapped_site)
  next
    case (3 pg url)
    then show ?case using implicit [of pg url] by (simp add: wrapped_site)
  qed
  then show ?thesis
    unfolding actix_authorize_run_def by (intro keeps_bind keeps_err prepare_keeps calm)
qed

lemma ask_keeps: "keeps I m \<Longrightarrow> keeps I (ask_actor from mailbox m)"
  by (simp add: ask_actor_def split: option.splits)

text \<open>What a call may write: a grant the owner consented to in a \<open>POST\<close>, or one of the implicit flow.\<close>

lemma route_keeps:
  assumes route: "example_route T G c = Some act"
    and consent: "\<And>req p url. cl_path c = ''/authorize'' \<Longrightarrow> cl_method c = ''POST'' \<Longrightarrow>
      actix_from_request (cl_http c) = Inr req \<Longrightarrow> str_contains (cl_query_string c) ''allow'' \<Longrightarrow>
      asked_code I (st_url T) (wrapped_authorization (generic_endpoint G))
        (wrapped_auth_request (actix_web_request req)) p \<Longrightarrow>
      Q (consented_grant ''dummy user'' p url (ck_now (cl_clock c)))"
    and implicit: "\<And>req pg url. cl_path c = ''/authorize'' \<Longrightarrow> cl_method c \<in> {''GET'', ''POST''} \<Longrightarrow>
      actix_from_request (cl_http c) = Inr req \<Longrightarrow>
      aur_response_type (wrapped_auth_request (actix_web_request req)) = Some ''token'' \<Longrightarrow>
      asked_token I (wrapped_authorization (generic_endpoint G)) (wrapped_auth_request (actix_web_request req)) pg \<Longrightarrow>
      Q (implicit_grant (wrapped_auth_request (actix_web_request req)) pg url (ck_now (cl_clock c)))"
  shows "keeps I act"
proof -
  note op_defs = op_authorize_def op_token_def op_refresh_def op_resource_def Let_def
  consider "cl_path c = ''/authorize''" "cl_method c = ''GET''" "act = get_authorize T G c"
    | "cl_path c = ''/authorize''" "cl_method c = ''POST''" "act = post_authorize T G c"
    | "act = token_route T G c" | "act = refresh_route T G c" | "act = index_route T G c"
    using route by (auto simp: example_route_def split: if_splits)
  then show ?thesis
  proof cases
    case 1
    show ?thesis
    proof (cases "actix_from_request (cl_http c)")
      case (Inr req)
      have "keeps I (handle T G (op_wrap (op_authorize T (cl_clock c) req) AuthGet))"
        unfolding handle_def op_wrap_def message_into_inner_def op_defs fst_conv snd_conv prod.case extras.case
          oauth_operation.simps
        by (rule authorize_run_keeps)
          (auto simp: solicit_get_def fn_solicitor_def split: sum.splits outcome.splits intro: implicit [OF _ _ Inr] 1)
      then show ?thesis
        unfolding 1(3) get_authorize_def Inr by (simp add: ask_keeps)
    qed (simp add: 1(3) get_authorize_def)
  next
    case 2
    show ?thesis
    proof (cases "actix_from_request (cl_http c)")
      case (Inr req)
      have "keeps I (handle T G (op_wrap (op_authorize T (cl_clock c) req) (AuthPost (cl_query_string c))))"
        unfolding handle_def op_wrap_def message_into_inner_def op_defs fst_conv snd_conv prod.case extras.case
          oauth_operation.simps
        by (rule authorize_run_keeps)
          (auto simp: solicit_post_def fn_solicitor_def split: if_splits intro: consent [OF 2(1,2) Inr] implicit [OF _ _ Inr] 2)
      then show ?thesis
        unfolding 2(3) post_authorize_def Inr by (simp add: ask_keeps)
    qed (simp add: 2(3) post_authorize_def)
  next
    case 3
    have "keeps I (handle T G (op_wrap (op_token T (cl_clock c) req) ExNothing))" for req
      unfolding handle_def op_wrap_def message_into_inner_def op_defs
      by (simp add: token_run_keeps [OF generic_keeper])
    then show ?thesis
      unfolding 3 token_route_def by (auto split: sum.splits intro: ask_keeps)
  next
    case 4
    have "keeps I (handle T G (op_wrap (op_refresh T (cl_clock c) req) ExNothing))" for req
      unfolding handle_def op_wrap_def message_into_inner_def op_defs
      by (simp add: refresh_run_keeps [OF generic_keeper])
    then show ?thesis
      unfolding 4 refresh_route_def by (auto split: sum.splits intro: ask_keeps)
  next
    case 5
    have "keeps I (handle T G (op_wrap (op_resource T (cl_clock c) req) ExNothing))" for req
      unfolding handle_def op_wrap_def message_into_inner_def op_defs
      by (simp add: ensures_keeps [OF resource_run_ensures [OF generic_keeper]])
    then have run: "keeps I (ask_actor f mailbox (handle T G (op_wrap (op_resource T (cl_clock c) req) ExNothing)))"
      for f mailbox req by (rule ask_keeps)
    show ?thesis
      unfolding 5 index_route_def
      by (auto split: sum.splits prod.splits intro!: keepsI dest: keepsD [OF run])
  qed
qed

end

section \<open>The server as a site\<close>

lemma server_site:
  assumes "server_store L hash num healthy" and "grant_closed Q"
  shows "example_site (server_holds hash L clients scopes Q) Q (server_authorizer L) (server_issuer L)
    T (state_generic T L)"
  by (intro example_site.intro server_store.server_keeper [OF assms] example_site_axioms.intro)
    (simp_all add: state_generic_def server_generic_def)

definition mem_server_lib ::
  "(unit, string) tagger \<Rightarrow> (unit, string) tagger \<Rightarrow> bool \<Rightarrow> (unit, unit, string, mem_redis) server_lib" where
  "mem_server_lib tag tag' checks =
     \<lparr> sl_url = url_identity, sl_argon2 = spell_argon2, sl_redis = mem_ops, sl_grant_codec = grant_codec,
       sl_token_codec = token_codec, sl_code_tagger = tag, sl_token_tagger = tag', sl_checks = checks \<rparr>"

lemma mem_server_store: "server_store (mem_server_lib tag tag' checks) mr_hash mr_num mem_healthy"
  unfolding mem_server_lib_def by (rule mem_server.server_store_axioms)

interpretation mem_site: example_site
  "server_holds mr_hash (mem_server_lib tag tag' checks) clients scopes (typed_grant clients)" "typed_grant clients"
  "server_authorizer (mem_server_lib tag tag' checks)" "server_issuer (mem_server_lib tag tag' checks)"
  T "state_generic T (mem_server_lib tag tag' checks)"
  for tag tag' checks clients scopes T
  by (rule server_site [OF mem_server_store typed_grant_closed])

interpretation site_calm: calm_endpoint I "state_with_solicitor T G sol" for I T G sol
  by (rule calm_solicitor)

interpretation mem_generic: keeper_endpoint
  "server_holds mr_hash (mem_server_lib tag tag' checks) clients scopes (typed_grant clients)" "typed_grant clients"
  "server_authorizer (mem_server_lib tag tag' checks)" "server_issuer (mem_server_lib tag tag' checks)"
  "generic_endpoint (state_generic T (mem_server_lib tag tag' checks))"
  for tag tag' checks clients scopes T
  by (rule mem_site.generic_keeper)

text \<open>What the client map lets through.\<close>

lemma negotiated_default:
  assumes "rg_negotiate (client_map_registrar U A m) bc scope = Ok pg"
  shows "pg_client_id pg = bc_client_id bc \<and>
    (\<exists>c. cm_clients m (bc_client_id bc) = Some c \<and> pg_scope pg = ec_default_scope c)"
  using assms by (auto simp: client_map_registrar_def cm_negotiate_def)

lemma bound_client:
  "rg_bound_redirect (client_map_registrar U A m) cu = Ok bc \<Longrightarrow> bc_client_id bc = cu_client_id cu"
  by (blast dest: cm.bound_registered)

lemma asked_code_client:
  assumes "asked_code I U E q p" and "\<And>w. I w \<Longrightarrow> aue_registrar E w = client_map_registrar U' A m"
    and "aue_extension E = auth_no_extension"
  shows "aur_client_id q = Some (pg_client_id (pd_pre_grant p)) \<and> aur_response_type q = Some ''code'' \<and>
    (\<exists>c. cm_clients m (pg_client_id (pd_pre_grant p)) = Some c \<and> pg_scope (pd_pre_grant p) = ec_default_scope c)"
proof -
  obtain v where I: "I v" and run: "code_request U E q v = (Ok p, v)"
    using assms(1) by (auto simp: asked_code_def authorization_code_request)
  obtain cu bc scope url where cu: "auth_params U q = Some cu"
    and bc: "rg_bound_redirect (client_map_registrar U' A m) cu = Ok bc"
    and pg: "rg_negotiate (client_map_registrar U' A m)
      \<lparr> bc_client_id = bc_client_id bc, bc_redirect_uri = Semantic url \<rparr> scope = Ok (pd_pre_grant p)"
    and "auth_requested_scope q = Ok scope"
    using run I assms(2,3) by (auto simp: code_request_def bind_ac_Ok_iff auth_no_extension_def ret_def)
  then show ?thesis
    using bound_client [OF bc] negotiated_default [OF pg]
    by (auto simp: auth_params_Some auth_requested_scope_def split: if_splits)
qed

lemma asked_token_client:
  assumes "asked_token I E q pg" and "\<And>w. I w \<Longrightarrow> aue_registrar E w = client_map_registrar U A m"
  shows "aur_client_id q = Some (pg_client_id pg) \<and>
    (\<exists>c. cm_clients m (pg_client_id pg) = Some c \<and> pg_scope pg = ec_default_scope c)"
  using assms unfolding asked_token_def by (auto dest!: bound_client negotiated_default)

text \<open>
  The requests that authorize a grant: a \<open>POST\<close> of the authorization page whose query contains the word
  \<open>allow\<close>, for the owner the server knows, or a request for the implicit flow, for the owner it names.
\<close>

definition justifies :: "call \<Rightarrow> 'u grant \<Rightarrow> bool" where
  "justifies c g \<longleftrightarrow> cl_path c = ''/authorize'' \<and>
     (case actix_from_request (cl_http c) of
        Inl e \<Rightarrow> False
      | Inr req \<Rightarrow>
          (let q = wrapped_auth_request (actix_web_request req) in
           aur_client_id q = Some (g_client_id g) \<and>
           (cl_method c = ''POST'' \<and> aur_response_type q = Some ''code'' \<and>
              str_contains (cl_query_string c) ''allow'' \<and> g_owner_id g = ''dummy user'' \<or>
            cl_method c \<in> {''GET'', ''POST''} \<and> aur_response_type q = Some ''token'' \<and>
              g_owner_id g = (case aur_user_id q of Some u \<Rightarrow> u | None \<Rightarrow> []))))"

definition justified :: "'u client_map \<Rightarrow> call list \<Rightarrow> 'u grant \<Rightarrow> bool" where
  "justified clients cs g \<longleftrightarrow> typed_grant clients g \<and> (\<exists>c\<in>set cs. justifies c g)"

lemma justified_closed: "grant_closed (justified clients cs)"
  by (auto simp: grant_closed_def justified_def typed_grant_def justifies_def split: sum.splits)

definition clients_wf :: "'u client_map \<Rightarrow> bool" where
  "clients_wf m \<longleftrightarrow> (\<forall>k c. cm_clients m k = Some c \<longrightarrow> scope_wf (ec_default_scope c))"

text \<open>A call writes only grants that it justifies itself.\<close>

lemma server_route_keeps:
  assumes "server_store L hash num healthy" and "clients_wf clients" and "grant_closed Q"
    and new: "\<And>g. typed_grant clients g \<Longrightarrow> justifies c g \<Longrightarrow> Q g"
    and route: "example_route T (state_generic T L) c = Some act"
  shows "keeps (server_holds hash L clients scopes Q) act"
proof (rule example_site.route_keeps [OF server_site [OF assms(1) assms(3)] route])
  let ?E = "wrapped_authorization (generic_endpoint (state_generic T L))"
  have registrar: "aue_registrar ?E w = client_map_registrar (sl_url L) (sl_argon2 L) clients"
    if "server_holds hash L clients scopes Q w" for w
    using that by (simp add: wrapped_authorization_def state_generic_def server_generic_def server_registrar_def
        server_holds_def)
  have extension: "aue_extension ?E = auth_no_extension"
    by (simp add: wrapped_authorization_def)
  show "Q (consented_grant ''dummy user'' p url (ck_now (cl_clock c)))"
    if "cl_path c = ''/authorize''" "cl_method c = ''POST''" "actix_from_request (cl_http c) = Inr req"
      "str_contains (cl_query_string c) ''allow''"
      "asked_code (server_holds hash L clients scopes Q) (st_url T) ?E (wrapped_auth_request (actix_web_request req)) p"
    for req p url
    using asked_code_client [OF that(5) registrar extension] that(1-4) assms(2)
    by (intro new) (auto simp: typed_grant_def justifies_def consented_grant_def clients_wf_def)
  show "Q (implicit_grant (wrapped_auth_request (actix_web_request req)) pg url (ck_now (cl_clock c)))"
    if "cl_path c = ''/authorize''" "cl_method c \<in> {''GET'', ''POST''}" "actix_from_request (cl_http c) = Inr req"
      "aur_response_type (wrapped_auth_request (actix_web_request req)) = Some ''token''"
      "asked_token (server_holds hash L clients scopes Q) ?E (wrapped_auth_request (actix_web_request req)) pg"
    for req pg url
    using asked_token_client [OF that(5) registrar] that(1-4) assms(2)
    by (intro new) (auto simp: typed_grant_def justifies_def implicit_grant_def clients_wf_def)
qed

lemma serves_typed:
  assumes "serves T (state_generic T L) s cs s'" and "server_store L hash num healthy" and "clients_wf clients"
    and "server_holds hash L clients scopes (typed_grant clients) s"
  shows "server_holds hash L clients scopes (typed_grant clients) s'"
  using assms(1,4)
proof induction
  case (serves_call cs v c act reply v')
  then show ?case
    using keepsD [OF server_route_keeps [OF assms(2,3) typed_grant_closed]] by blast
qed

lemma serves_justified:
  assumes "serves T (state_generic T L) s cs s'" and "server_store L hash num healthy" and "clients_wf clients"
    and "server_holds hash L clients scopes (\<lambda>_. False) s"
  shows "server_holds hash L clients scopes (justified clients cs) s'"
  using assms(1,4)
proof induction
  case serves_start
  then show ?case by (rule server_holds_mono) simp
next
  case (serves_call cs v c act reply v')
  have "server_holds hash L clients scopes (justified clients (c # cs)) v"
    by (rule server_holds_mono [OF serves_call.IH]) (use serves_call.prems in \<open>auto simp: justified_def\<close>)
  moreover have "keeps (server_holds hash L clients scopes (justified clients (c # cs))) act"
    by (rule server_route_keeps [OF assms(2,3) justified_closed _ serves_call.hyps(2)]) (simp add: justified_def)
  ultimately show ?case
    using serves_call.hyps(3) by (blast dest: keepsD)
qed

section \<open>The protected page\<close>

lemma deny_text_differs: "deny_text \<noteq> ''Hello world!''"
  by (simp add: deny_text_def newline_def)

lemma protect_Ok:
  assumes "protect E q now w = (Ok g, w')"
  shows "\<exists>token v. rq_token q = Some (''Bearer '' @ token) \<and> now \<le> g_until g \<and> v = snd (re_scopes E w) \<and>
    is_recover_token (re_issuer E) token v = (Ok (Some g), w')"
  using assms
  by (auto simp: protect_guard guard_resource_def bind_ac_Ok_iff bearer_token_of_Ok resource_recovered_Ok
      determine_scopes_def split: prod.splits)

text \<open>The page is shown only for a grant that the resource operation returned.\<close>

lemma index_shows_page:
  assumes "index_route T G c s = (Ok r, s')" and "axp_body r = Some ''Hello world!''"
  shows "\<exists>req g. actix_resource_from_request (cl_http c) = Inr req \<and> cl_mailbox c = None \<and>
    fst (resource_execute (st_order T) (actix_response_ops (st_url T) (st_headers T)) (generic_endpoint G)
      (actix_web_request (actix_into_request req)) (ck_now (cl_clock c)) s) = Ok g \<and>
    actix_resource_run (st_order T) (actix_response_ops (st_url T) (st_headers T)) actix_error_of (generic_endpoint G)
      (actix_into_request req) (ck_now (cl_clock c)) s = (Ok g, s')"
proof -
  obtain req where req: "actix_resource_from_request (cl_http c) = Inr req"
    using assms(1) by (auto simp: index_route_def split: sum.splits)
  let ?run = "actix_resource_run (st_order T) (actix_response_ops (st_url T) (st_headers T)) actix_error_of
    (generic_endpoint G) (actix_into_request req) (ck_now (cl_clock c))"
  have handled: "handle T G (op_wrap (op_resource T (cl_clock c) (actix_into_request req)) ExNothing) = ?run"
    by (simp add: handle_def op_wrap_def message_into_inner_def op_resource_def Let_def)
  obtain answer where ans: "ask_actor (\<lambda>e. Err (actix_error_of_mailbox e)) (cl_mailbox c) ?run s = (answer, s')"
    and reply: "index_reply T deny_text answer = Ok r"
    using assms(1) req by (auto simp: index_route_def handled split: prod.splits)
  obtain g where g: "answer = Ok g"
    using reply assms(2) deny_text_differs
    by (auto simp: index_reply_def actix_set_body_def split: outcome.splits)
  have mailbox: "cl_mailbox c = None"
    using ans g by (auto simp: ask_actor_def fail_def split: option.splits)
  have run: "?run s = (Ok g, s')"
    using ans g mailbox by (simp add: ask_actor_def)
  have "resource_prepare (generic_endpoint G) s = (Ok (), s)" if "resource_prepare (generic_endpoint G) s = (Ok (), w)" for w
    using that by (auto simp: resource_prepare_def raise_oauth_def split: if_splits prod.splits)
  then have "fst (resource_execute (st_order T) (actix_response_ops (st_url T) (st_headers T)) (generic_endpoint G)
      (actix_web_request (actix_into_request req)) (ck_now (cl_clock c)) s) = Ok g"
    using run by (fastforce simp: actix_resource_run_def bind_ac_Ok_iff)
  then show ?thesis
    using req mailbox run by blast
qed

lemma page_token:
  assumes "actix_resource_from_request http = Inr req"
    and "fst (resource_execute it R E (actix_web_request (actix_into_request req)) now s) = Ok g"
    and "\<And>q. snd (re_scopes (scoped_resource E q) s) = s"
  shows "\<exists>token w. xh_authorization http = [Some (''Bearer '' @ token)] \<and> now \<le> g_until g \<and>
    is_recover_token (unwrap_issuer (ep_issuer E)) token s = (Ok (Some g), w)"
proof -
  obtain w where "protect (scoped_resource E (actix_web_request (actix_into_request req)))
      (wrapped_resource_request (actix_web_request (actix_into_request req))) now s = (Ok g, w)"
    using assms(2) by (auto simp: resource_execute_def split: prod.splits outcome.splits)
  from protect_Ok [OF this] obtain token where "axs_auth req = Some (''Bearer '' @ token)" "now \<le> g_until g"
    "is_recover_token (unwrap_issuer (ep_issuer E)) token s = (Ok (Some g), w)"
    by (auto simp: wrapped_resource_request_def actix_web_request_def actix_into_request_def assms(3))
      (auto simp: scoped_resource_def)
  then show ?thesis
    using assms(1) by (auto simp: actix_resource_from_request_def actix_resource_new_def split: list.splits)
qed

text \<open>The grant behind an access token of the server.\<close>

definition server_access_grant ::
  "('r \<Rightarrow> string \<Rightarrow> string \<Rightarrow> string option) \<Rightarrow> ('g, 'h, 'u, 'r) server_lib \<Rightarrow> ('g, 'h, 'u, 'r) server
    \<Rightarrow> string \<rightharpoonup> 'u grant" where
  "server_access_grant hash L s =
     stored_grant hash (sl_token_codec L) ''oauth2:tokenmap_access'' (sv_issuer s, sv_redis s)"

lemma server_recover_stored:
  assumes "redis_store (sl_redis L) hash num healthy"
    and "is_recover_token (server_issuer L) token s = (Ok (Some g), s')"
  shows "server_access_grant hash L s token = Some g"
proof -
  obtain i r where "recover_at (sl_redis L) (sl_token_codec L) ''oauth2:tokenmap_access'' token (sv_issuer s, sv_redis s)
      = (Ok (Some g), (i, r))"
    using assms(2) by (auto simp: server_issuer_def Let_def token_map_issuer_def recover_at_eqs on_issuer_iff)
  from redis_store.recover_at_cases [OF assms(1), OF this] show ?thesis
    unfolding server_access_grant_def by blast
qed

lemma state_generic_parts:
  "gn_issuer (state_generic T L) = opt_primitive (\<lambda>w. server_issuer L)"
  "snd (re_scopes (scoped_resource (generic_endpoint (state_generic T L)) q) s) = s"
  by (simp_all add: state_generic_def server_generic_def scoped_resource_def)

lemma server_shows_page:
  assumes "server_store L hash num healthy"
    and "server_holds hash L clients scopes Q s" and "grant_closed Q"
    and "index_route T (state_generic T L) c s = (Ok r, s')" and "axp_body r = Some ''Hello world!''"
  shows "\<exists>token g. xh_authorization (cl_http c) = [Some (''Bearer '' @ token)] \<and>
    server_access_grant hash L s token = Some g \<and> ck_now (cl_clock c) \<le> g_until g \<and> Q g"
proof -
  let ?E = "generic_endpoint (state_generic T L)"
  obtain req g where req: "actix_resource_from_request (cl_http c) = Inr req"
    and ex: "fst (resource_execute (st_order T) (actix_response_ops (st_url T) (st_headers T)) ?E
      (actix_web_request (actix_into_request req)) (ck_now (cl_clock c)) s) = Ok g"
    and run: "actix_resource_run (st_order T) (actix_response_ops (st_url T) (st_headers T)) actix_error_of ?E
      (actix_into_request req) (ck_now (cl_clock c)) s = (Ok g, s')"
    using index_shows_page [OF assms(4,5)] by blast
  obtain token w where token: "xh_authorization (cl_http c) = [Some (''Bearer '' @ token)]"
      "ck_now (cl_clock c) \<le> g_until g" and "is_recover_token (unwrap_issuer (ep_issuer ?E)) token s = (Ok (Some g), w)"
    using page_token [OF req ex state_generic_parts(2)] by blast
  then have "is_recover_token (server_issuer L) token s = (Ok (Some g), w)"
    by (simp add: state_generic_parts(1))
  then have "server_access_grant hash L s token = Some g"
    using server_store.axioms(1) [OF assms(1)] by (blast intro: server_recover_stored)
  moreover have "ensures (server_holds hash L clients scopes Q) (actix_resource_run (st_order T)
      (actix_response_ops (st_url T) (st_headers T)) actix_error_of ?E (actix_into_request req) (ck_now (cl_clock c))) Q"
    by (rule example_site.resource_run_ensures [OF server_site [OF assms(1,3)]
          example_site.generic_keeper [OF server_site [OF assms(1,3)]]]) simp
  from ensuresD [OF this assms(2) run] have "Q g" by simp
  ultimately show ?thesis using token by blast
qed

section \<open>Logging in\<close>

text \<open>The requests of a login: the owner's consent, the redemption of a code, the use of a token.\<close>

definition consents :: "call \<Rightarrow> bool" where
  "consents c \<longleftrightarrow> cl_mailbox c = None \<and> str_contains (cl_query_string c) ''allow'' \<and>
     (\<exists>req query. actix_from_request (cl_http c) = Inr req \<and> axr_query req = Some query \<and>
        np_unique_value query ''response_type'' = Some ''code'' \<and>
        np_unique_value query ''client_id'' = Some ''LocalClient'' \<and>
        np_unique_value query ''redirect_uri'' = None \<and> np_unique_value query ''scope'' = None)"

definition redeems :: "call \<Rightarrow> string \<Rightarrow> bool" where
  "redeems c code \<longleftrightarrow> cl_mailbox c = None \<and>
     (\<exists>req body. actix_from_request (cl_http c) = Inr req \<and> axr_auth req = None \<and> axr_body req = Some body \<and>
        np_unique_value body ''grant_type'' = Some ''authorization_code'' \<and> np_unique_value body ''code'' = Some code \<and>
        np_unique_value body ''client_id'' = Some ''LocalClient'' \<and>
        np_unique_value body ''redirect_uri'' = Some ''http://localhost:8021/endpoint'')"

definition presents :: "call \<Rightarrow> string \<Rightarrow> bool" where
  "presents c token \<longleftrightarrow> cl_mailbox c = None \<and> xh_authorization (cl_http c) = [Some (''Bearer '' @ token)]"

lemma default_code_request:
  assumes "aur_valid q" "aur_client_id q = Some client" "aur_redirect_uri q = None" "aur_scope q = None"
    "aur_response_type q = Some ''code''"
    and "aue_registrar E w = client_map_registrar U' A m" and "aue_extension E = auth_no_extension"
    and "cm_clients m client = Some c" and "ec_redirect_uri c = Semantic url"
  shows "authorization_code U E q w =
    (Ok \<lparr> pd_pre_grant = \<lparr> pg_client_id = client, pg_redirect_uri = Semantic url, pg_scope = ec_default_scope c \<rparr>,
       pd_state = aur_state q, pd_extensions = extensions_new \<rparr>, w)"
  using assms
  by (simp add: authorization_code_request code_request_def bind_ac_def auth_params_def auth_requested_scope_def
      client_map_registrar_def cm_bound_redirect_def cm_negotiate_def registered_to_url_def auth_no_extension_def ret_def)

text \<open>What the site makes of the result of an authorization.\<close>

definition site_redirect :: "('u, 'h) site \<Rightarrow> 'u \<Rightarrow> ('h actix_response, actix_error) outcome" where
  "site_redirect T url =
     (if hv_valid (st_headers T) (url_as_str (st_url T) url)
      then Ok \<lparr> axp_status = 302,
         axp_headers = hm_insert (st_headers T) ''location'' (url_as_str (st_url T) url) (hm_new (st_headers T)),
         axp_body = None \<rparr>
      else Err AxHeader)"

definition site_converted :: "('u, 'h) site \<Rightarrow> ('u, 'u auth_error) outcome \<Rightarrow> ('h actix_response, actix_error) outcome" where
  "site_converted T result =
     (case result of
        Ok url \<Rightarrow> site_redirect T url
      | Err AuIgnore \<Rightarrow> Err (AxEndpoint DenySilently)
      | Err (AuRedirect target) \<Rightarrow> site_redirect T (error_url_into (st_url T) target)
      | Err AuPrimitiveError \<Rightarrow> Err (AxEndpoint OauthPrimitiveError)
      | Panic \<Rightarrow> Panic)"

lemma site_ops:
  "ep_response (state_with_solicitor T G sol) q k w = (Ok (actix_response_ok (st_headers T), k), w)"
  "ep_error (state_with_solicitor T G sol) err w = (AxEndpoint err, w)"
  "ep_web_error (state_with_solicitor T G sol) e w = (e, w)"
  by (simp_all add: state_with_solicitor_def error_into_def generic_endpoint_def site_response_def fn_response_def
      actix_error_of_def err_ac_def)

lemma site_generic_ops:
  assumes "gn_response G = site_response T"
  shows "ep_response (generic_endpoint G) q k w = (Ok (actix_response_ok (st_headers T), k), w)"
    and "ep_error (generic_endpoint G) err w = (SeOAuth err, w)" "ep_web_error (generic_endpoint G) e w = (SeWeb e, w)"
  by (simp_all add: generic_endpoint_def site_response_def fn_response_def assms)

lemma web_redirect_site:
  "web_result (state_with_solicitor T G sol) (ws_redirect (actix_response_ops (st_url T) (st_headers T)) url
     (actix_response_ok (st_headers T))) w = (site_redirect T url, w)"
  by (simp add: actix_response_ops_def actix_insert_def site_redirect_def web_result_def site_ops actix_response_ok_def)

lemma convert_site:
  "convert_result (st_url T) (actix_response_ops (st_url T) (st_headers T)) (state_with_solicitor T G sol) q result w =
     (site_converted T result, w)"
proof (cases result)
  case (Ok url)
  then show ?thesis
    by (simp add: convert_result_def bind_ac_def site_ops web_redirect_site site_converted_def)
next
  case (Err e)
  have "target\<lparr> eu_error := eu_error target \<rparr> = target" for target :: "'a error_url" by simp
  then show ?thesis
    using Err by (cases e) (simp_all add: convert_result_def authorization_error_response_def bind_ac_def site_ops
        web_redirect_site site_converted_def raise_oauth_def amended_def error_url_description_def)
qed (simp add: convert_result_def site_converted_def)

lemma map_err_id [simp]: "map_err (\<lambda>e. e) x = x"
  by (cases x) simp_all

text \<open>A \<open>POST\<close> whose request the registrar accepts: the answer of the owner is the word \<open>allow\<close>.\<close>

lemma post_authorize_runs:
  assumes "actix_from_request (cl_http c) = Inr req" and "cl_mailbox c = None"
    and "gn_registrar G s \<noteq> None" and "gn_authorizer G s \<noteq> None"
    and "aur_response_type (wrapped_auth_request (actix_web_request req)) = Some ''code''"
    and "authorization_code (st_url T) (wrapped_authorization (generic_endpoint G))
      (wrapped_auth_request (actix_web_request req)) s = (Ok p, s)"
  shows "post_authorize T G c s =
    (if str_contains (cl_query_string c) ''allow''
     then case pending_authorize (st_url T) (wrapped_authorization (generic_endpoint G)) (ck_now (cl_clock c))
                 ''dummy user'' p s of
            (result, s') \<Rightarrow> (site_converted T result, s')
     else (site_converted T (pending_deny (st_url T) p), s))"
proof -
  let ?E = "state_with_solicitor T G (solicit_post (cl_query_string c))"
  have wrapped: "wrapped_authorization (state_with_solicitor T G sol) = wrapped_authorization (generic_endpoint G)" for sol
    by (simp add: wrapped_authorization_def)
  have finish: "pending_finish (st_url T) (actix_response_ops (st_url T) (st_headers T)) ?E q now p s =
      (if str_contains (cl_query_string c) ''allow''
       then case pending_authorize (st_url T) (wrapped_authorization (generic_endpoint G)) now ''dummy user'' p s of
              (result, s') \<Rightarrow> (site_converted T result, s')
       else (site_converted T (pending_deny (st_url T) p), s))" for q now
    by (simp add: pending_finish_def solicit_post_def fn_solicitor_def convert_site wrapped split: prod.splits)
  have "post_authorize T G c s =
      actix_authorize_run (st_url T) (st_order T) (st_wire T) (actix_response_ops (st_url T) (st_headers T)) (\<lambda>e. e) ?E req
        (ck_now (cl_clock c)) (ck_issue (cl_clock c)) (ck_reply (cl_clock c)) s"
    by (simp add: post_authorize_def assms(1,2) ask_actor_def handle_def op_wrap_def message_into_inner_def
        op_authorize_def Let_def)
  also have "\<dots> = pending_finish (st_url T) (actix_response_ops (st_url T) (st_headers T)) ?E (actix_web_request req)
      (ck_now (cl_clock c)) p s"
  proof -
    have "authorization_prepare ?E s = (Ok (), s)"
      using assms(3,4) by (auto simp: authorization_prepare_def)
    then show ?thesis
      using assms(5,6)
      by (simp add: actix_authorize_run_def bind_ac_def err_ac_def authorization_execute_def Let_def wrapped
          split: prod.splits)
  qed
  finally show ?thesis
    unfolding finish .
qed

definition typed_reply :: "('u, 'h) site \<Rightarrow> string \<Rightarrow> string \<Rightarrow> 'h actix_response" where
  "typed_reply T content_type body =
     \<lparr> axp_status = 200, axp_headers = hm_insert (st_headers T) ''content-type'' content_type (hm_new (st_headers T)),
       axp_body = Some body \<rparr>"

lemma token_route_runs:
  assumes "actix_from_request (cl_http c) = Inr req" and "cl_mailbox c = None"
    and "gn_registrar G s \<noteq> None" and "gn_authorizer G s \<noteq> None" and "gn_issuer G s \<noteq> None"
    and response: "gn_response G = site_response T" and "hv_valid (st_headers T) ''application/json''"
    and token: "access_token (st_url T) (st_order T) (wrapped_token (generic_endpoint G))
      (wrapped_token_request (st_wire T) (actix_web_request req) False) (ck_now (cl_clock c)) (ck_issue (cl_clock c)) s
        = (Ok t, s')"
  shows "token_route T G c s =
    (Ok (typed_reply T ''application/json'' (wl_token_json (st_wire T) (bearer_to_json (ck_reply (cl_clock c)) t))), s')"
proof -
  have "access_token_prepare (generic_endpoint G) s =
      (Ok \<lparr> atf_endpoint = generic_endpoint G, atf_allow_credentials_in_body = False \<rparr>, s)"
    using assms(3-5) by (auto simp: access_token_prepare_def)
  then show ?thesis
    using assms(1,2,7) token
    by (simp add: token_route_def ask_actor_def handle_def op_wrap_def message_into_inner_def op_token_def Let_def
        actix_token_run_def bind_ac_def err_ac_def access_token_execute_def site_generic_ops [OF response]
        web_result_def actix_response_ops_def actix_insert_def actix_response_ok_def typed_reply_def ret_def)
qed

lemma index_route_runs:
  assumes "actix_resource_from_request (cl_http c) = Inr req" and "cl_mailbox c = None"
    and "gn_issuer G s \<noteq> None" and "hv_valid (st_headers T) ''text/plain''"
    and "protect (scoped_resource (generic_endpoint G) (actix_web_request (actix_into_request req)))
      (wrapped_resource_request (actix_web_request (actix_into_request req))) (ck_now (cl_clock c)) s = (Ok g, s')"
  shows "index_route T G c s = (Ok (typed_reply T ''text/plain'' ''Hello world!''), s')"
proof -
  have "resource_prepare (generic_endpoint G) s = (Ok (), s)"
    using assms(3) by (auto simp: resource_prepare_def)
  then show ?thesis
    using assms(1,2,4,5)
    by (simp add: index_route_def ask_actor_def handle_def op_wrap_def message_into_inner_def op_resource_def Let_def
        actix_resource_run_def bind_ac_def err_ac_def resource_execute_def index_reply_def actix_content_type_def
        actix_insert_def actix_response_ok_def actix_set_body_def typed_reply_def)
qed

text \<open>The requests of a login as the flows read them.\<close>

lemma redeems_params:
  assumes "redeems c code" and "url_parse U ''http://localhost:8021/endpoint'' = Some url"
  obtains req where "actix_from_request (cl_http c) = Inr req" "cl_mailbox c = None"
    "at_check_params U (wrapped_token_request W (actix_web_request req) False)
       = (Ok (''LocalClient'', None, code, url) :: (_, 'u at_error) outcome)"
proof -
  obtain req body where req: "actix_from_request (cl_http c) = Inr req" "axr_auth req = None" "axr_body req = Some body"
    and body: "np_unique_value body ''grant_type'' = Some ''authorization_code''" "np_unique_value body ''code'' = Some code"
      "np_unique_value body ''client_id'' = Some ''LocalClient''"
      "np_unique_value body ''redirect_uri'' = Some ''http://localhost:8021/endpoint''"
    using assms(1) unfolding redeems_def by blast
  have "wrapped_token_request W (actix_web_request req) False =
      wrapped_body_request True None (np_unique_value body) False"
    using req by (simp add: wrapped_token_request_def token_request_parts_def actix_web_request_def np_query_def)
  then show thesis
    using that [OF req(1)] assms body
    by (simp add: redeems_def at_check_params_def at_params_def at_credentials_def wrapped_body_request_def
        cred_unauthenticated_def cred_add_def split: option.splits)
qed

lemma consents_params:
  assumes "consents c"
  obtains req where "actix_from_request (cl_http c) = Inr req" "cl_mailbox c = None"
    "str_contains (cl_query_string c) ''allow''"
    "aur_valid (wrapped_auth_request (actix_web_request req))"
    "aur_client_id (wrapped_auth_request (actix_web_request req)) = Some ''LocalClient''"
    "aur_redirect_uri (wrapped_auth_request (actix_web_request req)) = None"
    "aur_scope (wrapped_auth_request (actix_web_request req)) = None"
    "aur_response_type (wrapped_auth_request (actix_web_request req)) = Some ''code''"
  using assms
  by (auto simp: consents_def wrapped_auth_request_def actix_web_request_def np_query_def wrapped_query_request_def)

lemma presents_params:
  assumes "presents c token"
  obtains req where "actix_resource_from_request (cl_http c) = Inr req" "cl_mailbox c = None"
    "wrapped_resource_request (actix_web_request (actix_into_request req)) = \<lparr> rq_valid = True, rq_token = Some (''Bearer '' @ token) \<rparr>"
  using assms that [of "\<lparr> axs_auth = Some (''Bearer '' @ token) \<rparr>"]
  by (simp add: presents_def actix_resource_from_request_def actix_resource_new_def wrapped_resource_request_def
      actix_web_request_def actix_into_request_def)

text \<open>From the consent to the page.\<close>

lemma login_opens_page:
  fixes L :: "('g, 'h, 'u, 'r) server_lib" and T :: "('u, 'x) site"
  assumes store: "server_store L hash num healthy" and site: "st_url T = sl_url L"
    and pre: "preconfigured L salt code_generator token_generator redis = Ok s"
    and "healthy redis" and "num redis ''oauth2:authmap_usage'' \<noteq> Some (- 1)"
    and "fresh_codes hash L redis" and "fresh_tokens hash L redis"
    and valid: "\<And>url. hv_valid (st_headers T) (url_as_str (sl_url L) url)"
      "hv_valid (st_headers T) ''text/plain''" "hv_valid (st_headers T) ''application/json''"
    and calls: "consents c" "\<And>code. redeems (tc code) code" "\<And>token. presents (ic token) token"
    and clocks: "\<And>code. cl_clock (tc code) = tclock" "\<And>token. cl_clock (ic token) = iclock"
    and "ck_now tclock \<le> ck_now (cl_clock c) + days 1" and "ck_now iclock \<le> ck_now (cl_clock c) + days 1"
  shows "\<exists>url pairs code t s1 s2 s3.
    url_parse (sl_url L) ''http://localhost:8021/endpoint'' = Some url \<and>
    post_authorize T (state_generic T L) c s =
      (site_redirect T (url_extend_pairs (sl_url L) url ((''code'', code) # pairs)), s1) \<and>
    token_route T (state_generic T L) (tc code) s1 =
      (Ok (typed_reply T ''application/json'' (wl_token_json (st_wire T)
         (bearer_to_json (ck_reply tclock) (BearerToken t (scope_to_string (st_order T) default_scope))))), s2) \<and>
    index_route T (state_generic T L) (ic (it_token t)) s2 = (Ok (typed_reply T ''text/plain'' ''Hello world!''), s3)"
proof -
  obtain url where url: "url_parse (sl_url L) ''http://localhost:8021/endpoint'' = Some url"
    and s: "s = \<lparr> sv_registrar = \<lparr> cm_clients = [''LocalClient'' \<mapsto>
      \<lparr> ec_client_id = ''LocalClient'', ec_redirect_uri = Semantic url, ec_additional_redirect_uris = [],
        ec_default_scope = default_scope, ec_encoded_client = PublicClient \<rparr>], cm_password_policy = None \<rparr>,
      sv_authorizer = auth_map_new code_generator, sv_issuer = token_map_new token_generator,
      sv_scopes = [default_scope], sv_redis = redis \<rparr>"
    using preconfigured_Ok [OF pre] by blast
  let ?G = "state_generic T L" and ?E = "generic_endpoint (state_generic T L)"
  have parts: "gn_registrar ?G v \<noteq> None" "gn_authorizer ?G v \<noteq> None" "gn_issuer ?G v \<noteq> None"
    "gn_response ?G = site_response T" for v
    by (simp_all add: state_generic_def server_generic_def opt_primitive_def)
  have E: "?E = generic_endpoint (server_generic L vacant_solicitor (site_response T))"
    by (simp add: state_generic_def)
  obtain req where req: "actix_from_request (cl_http c) = Inr req" "cl_mailbox c = None"
      "str_contains (cl_query_string c) ''allow''"
    and q: "aur_valid (wrapped_auth_request (actix_web_request req))"
      "aur_client_id (wrapped_auth_request (actix_web_request req)) = Some ''LocalClient''"
      "aur_redirect_uri (wrapped_auth_request (actix_web_request req)) = None"
      "aur_scope (wrapped_auth_request (actix_web_request req)) = None"
      "aur_response_type (wrapped_auth_request (actix_web_request req)) = Some ''code''"
    by (rule consents_params [OF calls(1)])
  define p where "p = \<lparr> pd_pre_grant = \<lparr> pg_client_id = ''LocalClient'', pg_redirect_uri = Semantic url,
      pg_scope = default_scope \<rparr>, pd_state = aur_state (wrapped_auth_request (actix_web_request req)),
      pd_extensions = extensions_new \<rparr>"
  have asked: "authorization_code (st_url T) (wrapped_authorization ?E) (wrapped_auth_request (actix_web_request req)) s
      = (Ok p, s)"
    unfolding p_def
    by (subst default_code_request [OF q, where U' = "sl_url L" and A = "sl_argon2 L" and m = "sv_registrar s" and url = url
          and c = "\<lparr> ec_client_id = ''LocalClient'', ec_redirect_uri = Semantic url,
            ec_additional_redirect_uris = [], ec_default_scope = default_scope, ec_encoded_client = PublicClient \<rparr>"])
      (simp_all add: s wrapped_authorization_def state_generic_def server_generic_def server_registrar_def)
  have "\<exists>r. actix_from_request (cl_http (tc code)) = Inr r \<and> cl_mailbox (tc code) = None \<and>
      at_check_params (sl_url L) (wrapped_token_request (st_wire T) (actix_web_request r) False)
        = (Ok (''LocalClient'', None, code, url) :: (_, 'u at_error) outcome)" for code
    using redeems_params [OF calls(2) url] by metis
  then obtain tr where tr: "actix_from_request (cl_http (tc code)) = Inr (tr code)" "cl_mailbox (tc code) = None"
      "at_check_params (sl_url L) (wrapped_token_request (st_wire T) (actix_web_request (tr code)) False)
        = (Ok (''LocalClient'', None, code, url) :: (_, 'u at_error) outcome)" for code
    by metis
  have "\<exists>r. actix_resource_from_request (cl_http (ic token)) = Inr r \<and> cl_mailbox (ic token) = None \<and>
      wrapped_resource_request (actix_web_request (actix_into_request r))
        = \<lparr> rq_valid = True, rq_token = Some (''Bearer '' @ token) \<rparr>" for token
    using presents_params [OF calls(3)] by metis
  then obtain ir where ir: "actix_resource_from_request (cl_http (ic token)) = Inr (ir token)" "cl_mailbox (ic token) = None"
      "wrapped_resource_request (actix_web_request (actix_into_request (ir token)))
        = \<lparr> rq_valid = True, rq_token = Some (''Bearer '' @ token) \<rparr>" for token
    by metis
  have pg: "pg_client_id (pd_pre_grant p) = ''LocalClient''" "pg_scope (pd_pre_grant p) = default_scope"
    "pg_redirect_uri (pd_pre_grant p) = Semantic url"
    by (simp_all add: p_def)
  have "\<exists>code t s1 s2 s3.
    pending_authorize (sl_url L) (wrapped_authorization ?E) (ck_now (cl_clock c)) ''dummy user'' p s =
      (Ok (url_extend_pairs (sl_url L) url
         ((''code'', code) # (case pd_state p of Some v \<Rightarrow> [(''state'', v)] | None \<Rightarrow> []))), s1) \<and>
    access_token (sl_url L) (st_order T) (wrapped_token ?E)
      (wrapped_token_request (st_wire T) (actix_web_request (tr code)) False) (ck_now tclock) (ck_issue tclock) s1 =
      (Ok (BearerToken t (scope_to_string (st_order T) (pg_scope (pd_pre_grant p)))), s2) \<and>
    protect (scoped_resource ?E undefined) \<lparr> rq_valid = True, rq_token = Some (''Bearer '' @ it_token t) \<rparr>
      (ck_now iclock) s2 = (Ok \<lparr> g_owner_id = ''dummy user'', g_client_id = pg_client_id (pd_pre_grant p),
        g_scope = pg_scope (pd_pre_grant p), g_redirect_uri = url, g_until = ck_now (cl_clock c) + days 1,
        g_extensions = extensions_new \<rparr>, s3)"
    by (rule server_store.consent_to_access [OF store, where pass = None])
      (use assms tr(3) in \<open>simp_all add: s pg E registered_to_url_def server_registrar_def client_map_registrar_def
         cm_check_def check_authentication_def token_map_new_def\<close>)
  then obtain code t s1 s2 s3 where
    consent: "pending_authorize (sl_url L) (wrapped_authorization ?E) (ck_now (cl_clock c)) ''dummy user'' p s =
      (Ok (url_extend_pairs (sl_url L) url
         ((''code'', code) # (case pd_state p of Some v \<Rightarrow> [(''state'', v)] | None \<Rightarrow> []))), s1)"
    and token: "access_token (sl_url L) (st_order T) (wrapped_token ?E)
      (wrapped_token_request (st_wire T) (actix_web_request (tr code)) False) (ck_now tclock) (ck_issue tclock) s1 =
      (Ok (BearerToken t (scope_to_string (st_order T) default_scope)), s2)"
    and page: "\<exists>g. protect (scoped_resource ?E undefined)
      \<lparr> rq_valid = True, rq_token = Some (''Bearer '' @ it_token t) \<rparr> (ck_now iclock) s2 = (Ok g, s3)"
    unfolding pg by blast
  have same: "scoped_resource ?E q = scoped_resource ?E undefined" for q
    by (simp add: scoped_resource_def state_generic_def server_generic_def)
  have "post_authorize T ?G c s = (site_redirect T (url_extend_pairs (sl_url L) url
      ((''code'', code) # (case pd_state p of Some v \<Rightarrow> [(''state'', v)] | None \<Rightarrow> []))), s1)"
    using post_authorize_runs [where T = T and G = ?G and s = s, OF req(1,2) parts(1,2) q(5) asked] req(3) consent site
    by (simp add: site_converted_def)
  moreover have "token_route T ?G (tc code) s1 = (Ok (typed_reply T ''application/json'' (wl_token_json (st_wire T)
      (bearer_to_json (ck_reply tclock) (BearerToken t (scope_to_string (st_order T) default_scope))))), s2)"
    using token_route_runs [where T = T and G = ?G and s = s1, OF tr(1,2) parts(1-4) valid(3)] token
    by (simp add: clocks site)
  moreover obtain g where "protect (scoped_resource ?E undefined)
      \<lparr> rq_valid = True, rq_token = Some (''Bearer '' @ it_token t) \<rparr> (ck_now iclock) s2 = (Ok g, s3)"
    using page by blast
  then have "index_route T ?G (ic (it_token t)) s2 = (Ok (typed_reply T ''text/plain'' ''Hello world!''), s3)"
    by (intro index_route_runs [OF ir(1,2) parts(3) valid(2), where g = g])
      (simp add: same [of "actix_web_request (actix_into_request (ir (it_token t)))"] ir(3) clocks)
  ultimately show ?thesis using url by blast
qed

section \<open>Asking by GET\<close>

text \<open>Only the solicitor differs between the endpoints of the handler; the implicit flow does not ask.\<close>

lemma solicitor_update:
  "state_with_solicitor T G sol' = (state_with_solicitor T G sol)\<lparr> ep_owner_solicitor := (\<lambda>w. Some sol') \<rparr>"
  by (simp add: state_with_solicitor_def error_into_def generic_endpoint_def)

lemma update_solicitor_ops:
  "ep_response (E\<lparr> ep_owner_solicitor := x \<rparr>) = ep_response E"
  "web_result (E\<lparr> ep_owner_solicitor := x \<rparr>) = web_result E"
  "raise_oauth (E\<lparr> ep_owner_solicitor := x \<rparr>) = raise_oauth E"
  "wrapped_authorization (E\<lparr> ep_owner_solicitor := x \<rparr>) = wrapped_authorization E"
  "authorization_prepare (E\<lparr> ep_owner_solicitor := x \<rparr>) = authorization_prepare E"
  by (simp_all add: fun_eq_iff web_result_def raise_oauth_def wrapped_authorization_def authorization_prepare_def
      split: sum.splits)

lemma update_solicitor_error:
  "token_error_response L R (E\<lparr> ep_owner_solicitor := x \<rparr>) = token_error_response L R E"
  unfolding fun_eq_iff token_error_response_def update_solicitor_ops by (rule allI)+ (rule refl)

lemma implicit_solicitor:
  assumes "aur_response_type (wrapped_auth_request (actix_web_request req)) = Some ''token''"
  shows "actix_authorize_run U it L R f (state_with_solicitor T G sol) req now inow rnow =
    actix_authorize_run U it L R f (state_with_solicitor T G sol') req now inow rnow"
  unfolding solicitor_update [of T G sol sol'] actix_authorize_run_def authorization_execute_def Let_def assms
    option.simps update_solicitor_ops update_solicitor_error by (simp add: assms)

lemma get_execute_reads:
  assumes "aur_response_type (wrapped_auth_request q) \<noteq> Some ''token''"
    and "\<And>w. ep_extension (state_with_solicitor T G (solicit_get T)) w = None"
  shows "keeps I (authorization_execute U it L R (state_with_solicitor T G (solicit_get T)) q now inow rnow)"
proof -
  let ?E = "state_with_solicitor T G (solicit_get T)"
  have "aue_extension (wrapped_authorization ?E) = auth_no_extension"
    by (simp add: wrapped_authorization_def)
  then have code: "keeps I (authorization_code U (wrapped_authorization ?E) (wrapped_auth_request q))"
    by (intro keepsI) (drule authorization_code_reads, auto)
  have finish: "keeps I (pending_finish U R ?E q now p)" for p
    by (auto intro!: keepsI simp: pending_finish_def solicit_get_def fn_solicitor_def
        split: sum.splits outcome.splits)
  show ?thesis
  proof (cases "aur_response_type (wrapped_auth_request q)")
    case (Some t)
    show ?thesis
    proof (cases "t = ''code''")
      case True
      then show ?thesis
        unfolding authorization_execute_def Let_def Some option.simps
        by simp (intro keeps_match_any code finish site_calm.auth_error_keeps)
    next
      case False
      then show ?thesis
        using assms(1) Some unfolding authorization_execute_def Let_def Some option.simps
        by simp (intro site_calm.token_error_keeps)
    qed
  next
    case None
    show ?thesis
      unfolding authorization_execute_def Let_def None option.simps by (rule site_calm.token_error_keeps)
  qed
qed

lemma get_authorize_runs:
  assumes "actix_from_request (cl_http c) = Inr req" and "cl_mailbox c = None"
  shows "get_authorize T G c =
    actix_authorize_run (st_url T) (st_order T) (st_wire T) (actix_response_ops (st_url T) (st_headers T)) (\<lambda>e. e)
      (state_with_solicitor T G (solicit_get T)) req (ck_now (cl_clock c)) (ck_issue (cl_clock c)) (ck_reply (cl_clock c))"
    and "post_authorize T G c =
    actix_authorize_run (st_url T) (st_order T) (st_wire T) (actix_response_ops (st_url T) (st_headers T)) (\<lambda>e. e)
      (state_with_solicitor T G (solicit_post (cl_query_string c))) req
      (ck_now (cl_clock c)) (ck_issue (cl_clock c)) (ck_reply (cl_clock c))"
  by (simp_all add: get_authorize_def post_authorize_def assms ask_actor_def handle_def op_wrap_def
      message_into_inner_def op_authorize_def Let_def)

lemma get_authorize_reads:
  assumes "actix_from_request (cl_http c) = Inr req" and "cl_mailbox c = None"
    and "aur_response_type (wrapped_auth_request (actix_web_request req)) \<noteq> Some ''token''"
  shows "snd (get_authorize T G c s) = s"
proof -
  have prepare: "keeps I (authorization_prepare (state_with_solicitor T G sol))" for I sol
    unfolding authorization_prepare_def
    by (auto intro!: keepsI split: if_splits dest: keepsD [OF site_calm.raise_keeps])
  have "keeps (\<lambda>v. v = s) (get_authorize T G c)"
    unfolding get_authorize_runs [OF assms(1,2)] actix_authorize_run_def
    by (intro keeps_bind keeps_err prepare get_execute_reads assms(3)) simp
  then show ?thesis
    by (simp add: keeps_def)
qed

section \<open>A server in memory\<close>

definition example_wire :: wire_lib where
  "example_wire = \<lparr> wl_token_json = (\<lambda>t. case tr_access_token t of Some a \<Rightarrow> a | None \<Rightarrow> []),
     wl_error_json = (\<lambda>e. ''error''), wl_base64_decode = (\<lambda>s. None) \<rparr>"

text \<open>Headers of any text; the map of the earlier example.\<close>

definition lenient_header_lib :: "(string \<Rightarrow> string option) header_lib" where
  "lenient_header_lib = plain_header_lib\<lparr> hv_valid := (\<lambda>s. True) \<rparr>"

definition example_site_lib :: "(string, string \<Rightarrow> string option) site" where
  "example_site_lib = \<lparr> st_url = url_identity, st_order = example_order, st_wire = example_wire,
     st_headers = lenient_header_lib \<rparr>"

definition example_clock :: clock where
  "example_clock = \<lparr> ck_now = 5, ck_again = 5, ck_issue = 5, ck_reply = 5 \<rparr>"

definition page_call ::
  "string \<Rightarrow> string \<Rightarrow> string \<Rightarrow> (string \<times> string) list \<Rightarrow> (string \<times> string) list \<Rightarrow> string option list \<Rightarrow> call" where
  "page_call method path query_string query form auth = \<lparr> cl_method = method, cl_path = path,
     cl_query_string = query_string,
     cl_http = \<lparr> xh_query = Some (np_from_iter query), xh_form = Some (np_from_iter form), xh_authorization = auth \<rparr>,
     cl_clock = example_clock, cl_mailbox = None \<rparr>"

definition example_consent_call :: call where
  "example_consent_call = page_call ''POST'' ''/authorize'' ''response_type=code&client_id=LocalClient&allow=true''
     [(''response_type'', ''code''), (''client_id'', ''LocalClient''), (''allow'', ''true'')] [] []"

definition example_redeem_call :: "string \<Rightarrow> call" where
  "example_redeem_call code = page_call ''POST'' ''/token'' [] []
     [(''grant_type'', ''authorization_code''), (''code'', code), (''client_id'', ''LocalClient''),
      (''redirect_uri'', ''http://localhost:8021/endpoint'')] []"

definition example_page_call :: "string \<Rightarrow> call" where
  "example_page_call token = page_call ''GET'' ''/'' [] [] [] [Some (''Bearer '' @ token)]"

definition example_state :: "(unit, unit, string, mem_redis) server" where
  "example_state = \<lparr> sv_registrar = \<lparr> cm_clients = [''LocalClient'' \<mapsto>
      \<lparr> ec_client_id = ''LocalClient'', ec_redirect_uri = Semantic ''http://localhost:8021/endpoint'',
        ec_additional_redirect_uris = [], ec_default_scope = default_scope, ec_encoded_client = PublicClient \<rparr>],
        cm_password_policy = None \<rparr>,
      sv_authorizer = auth_map_new (), sv_issuer = token_map_new (), sv_scopes = [default_scope], sv_redis = mem_empty \<rparr>"

lemma example_preconfigured: "preconfigured example_server_lib [] () () mem_empty = Ok example_state"
  by (simp add: preconfigured_def default_scope_parses client_map_from_iter_def register_client_def
      client_encode_def client_public_def bind_ac_def client_map_new_def example_state_def url_identity_def ret_def)

lemma example_requests:
  "consents example_consent_call" "redeems (example_redeem_call code) code" "presents (example_page_call token) token"
  by (simp_all add: consents_def redeems_def presents_def example_consent_call_def example_redeem_call_def
      example_page_call_def page_call_def actix_from_request_def actix_request_new_def np_from_iter_def np_new_def
      insert_or_poison_def np_unique_value_def)

lemma example_clocks:
  "cl_clock example_consent_call = example_clock" "cl_clock (example_redeem_call code) = example_clock"
  "cl_clock (example_page_call token) = example_clock"
  by (simp_all add: example_consent_call_def example_redeem_call_def example_page_call_def page_call_def)

lemma example_server_store: "server_store example_server_lib mr_hash mr_num mem_healthy"
  unfolding example_server_lib_def by (rule mem_server.server_store_axioms)

lemma example_login:
  "\<exists>code token s1 s2 s3 reply.
    post_authorize example_site_lib (state_generic example_site_lib example_server_lib) example_consent_call example_state
      = (Ok reply, s1) \<and>
    token_route example_site_lib (state_generic example_site_lib example_server_lib) (example_redeem_call code) s1
      = (Ok (typed_reply example_site_lib ''application/json'' token), s2) \<and>
    index_route example_site_lib (state_generic example_site_lib example_server_lib) (example_page_call token) s2
      = (Ok (typed_reply example_site_lib ''text/plain'' ''Hello world!''), s3)"
proof -
  have site: "st_url example_site_lib = sl_url example_server_lib" "\<And>v. hv_valid (st_headers example_site_lib) v"
    by (simp_all add: example_site_lib_def lenient_header_lib_def)
  have "0 \<le> days 1" by (simp add: days_def seconds_def)
  then obtain url pairs code t s1 s2 s3 where
    "post_authorize example_site_lib (state_generic example_site_lib example_server_lib) example_consent_call example_state =
      (site_redirect example_site_lib (url_extend_pairs (sl_url example_server_lib) url ((''code'', code) # pairs)), s1)"
    "token_route example_site_lib (state_generic example_site_lib example_server_lib) (example_redeem_call code) s1 =
      (Ok (typed_reply example_site_lib ''application/json'' (wl_token_json (st_wire example_site_lib)
         (bearer_to_json (ck_reply example_clock) (BearerToken t (scope_to_string (st_order example_site_lib) default_scope))))), s2)"
    "index_route example_site_lib (state_generic example_site_lib example_server_lib) (example_page_call (it_token t)) s2 =
      (Ok (typed_reply example_site_lib ''text/plain'' ''Hello world!''), s3)"
    using login_opens_page [OF example_server_store site(1) example_preconfigured _ _ example_fresh site(2,2,2)
        example_requests example_clocks(2,3)]
    by (auto simp: example_clocks mem_empty_def [THEN arg_cong, where f = mr_num])
  then show ?thesis
    by (simp add: site_redirect_def site(2) example_site_lib_def [THEN arg_cong, where f = st_wire] example_wire_def) blast
qed

section \<open>Properties\<close>

lemma server_storeI:
  "redis_store (sl_redis L) hash num healthy \<Longrightarrow> codec_ok (sl_grant_codec L) \<Longrightarrow> codec_ok (sl_token_codec L) \<Longrightarrow>
     server_store L hash num healthy"
  by (simp add: server_store_def server_store_axioms_def)

lemma scope_wf_default: "scope_wf default_scope"
  by (rule scope_from_str_wf [OF default_scope_parses])

lemma preconfigured_clients:
  assumes "preconfigured L salt g h r = Ok s"
  shows "clients_wf (sv_registrar s)" and "sv_scopes s = [default_scope]" and "sv_redis s = r"
    and "typed_grant (sv_registrar s) gr \<longleftrightarrow> g_client_id gr = ''LocalClient'' \<and> scope_wf (g_scope gr) \<and>
      tokens (g_scope gr) |\<subseteq>| tokens default_scope"
proof -
  obtain url where s: "s = \<lparr> sv_registrar = \<lparr> cm_clients = [''LocalClient'' \<mapsto>
      \<lparr> ec_client_id = ''LocalClient'', ec_redirect_uri = Semantic url, ec_additional_redirect_uris = [],
        ec_default_scope = default_scope, ec_encoded_client = PublicClient \<rparr>], cm_password_policy = None \<rparr>,
      sv_authorizer = auth_map_new g, sv_issuer = token_map_new h, sv_scopes = [default_scope], sv_redis = r \<rparr>"
    using preconfigured_Ok [OF assms] by blast
  show "clients_wf (sv_registrar s)" "sv_scopes s = [default_scope]" "sv_redis s = r"
    by (simp_all add: s clients_wf_def scope_wf_default)
  show "typed_grant (sv_registrar s) gr \<longleftrightarrow> g_client_id gr = ''LocalClient'' \<and> scope_wf (g_scope gr) \<and>
      tokens (g_scope gr) |\<subseteq>| tokens default_scope"
    by (simp add: s typed_grant_def)
qed

text \<open>
  C14: the type of the grants. However often and with whatever parameters the routes of the
  preconfigured server are called, and whatever errors the store reports: if every grant in its store
  belongs to the registered client and has a well-formed scope within the client's default scope, then
  so it is afterwards, and the clients and scopes of the server have not changed.
\<close>

theorem server_grants_typed:
  assumes "redis_store (sl_redis L) hash num healthy" and "codec_ok (sl_grant_codec L)"
    and "codec_ok (sl_token_codec L)"
    and "preconfigured L salt code_generator token_generator redis = Ok s"
    and "stored_ok (sl_grant_codec L) (sl_token_codec L) (typed_grant (sv_registrar s)) (hash redis)"
    and "serves T (state_generic T L) s cs s'"
  shows "sv_registrar s' = sv_registrar s \<and> sv_scopes s' = sv_scopes s \<and>
    stored_ok (sl_grant_codec L) (sl_token_codec L)
      (\<lambda>g. g_client_id g = ''LocalClient'' \<and> scope_wf (g_scope g) \<and> tokens (g_scope g) |\<subseteq>| {|''default-scope''|})
      (hash (sv_redis s'))"
proof -
  note pre = preconfigured_clients [OF assms(4)]
  have "server_holds hash L (sv_registrar s) (sv_scopes s) (typed_grant (sv_registrar s)) s'"
    by (rule serves_typed [OF assms(6) server_storeI [OF assms(1-3)] pre(1)])
      (simp add: server_holds_def pre(3) assms(5))
  then show ?thesis
    by (auto simp: server_holds_def pre(4) default_scope_def elim!: stored_ok_mono)
qed

lemma example_history:
  "\<exists>code token s1 s2 reply.
    serves example_site_lib (state_generic example_site_lib example_server_lib) example_state
      [example_redeem_call code, example_consent_call] s1 \<and>
    index_route example_site_lib (state_generic example_site_lib example_server_lib) (example_page_call token) s1
      = (Ok reply, s2) \<and> axp_body reply = Some ''Hello world!''"
proof -
  let ?G = "state_generic example_site_lib example_server_lib"
  obtain code token s1 s2 s3 reply where
    1: "post_authorize example_site_lib ?G example_consent_call example_state = (Ok reply, s1)"
    and 2: "token_route example_site_lib ?G (example_redeem_call code) s1
      = (Ok (typed_reply example_site_lib ''application/json'' token), s2)"
    and 3: "index_route example_site_lib ?G (example_page_call token) s2
      = (Ok (typed_reply example_site_lib ''text/plain'' ''Hello world!''), s3)"
    using example_login by blast
  have routes: "example_route example_site_lib ?G example_consent_call = Some (post_authorize example_site_lib ?G example_consent_call)"
    "example_route example_site_lib ?G (example_redeem_call code) = Some (token_route example_site_lib ?G (example_redeem_call code))"
    by (simp_all add: example_route_def example_consent_call_def example_redeem_call_def page_call_def)
  have "serves example_site_lib ?G example_state [example_redeem_call code, example_consent_call] s2"
    by (rule serves_call [OF serves_call [OF serves_start routes(1) 1] routes(2) 2])
  then show ?thesis
    using 3 by (force simp: typed_reply_def)
qed

theorem server_grants_typed_witness:
  "\<exists>code s. serves example_site_lib (state_generic example_site_lib example_server_lib) example_state
      [example_redeem_call code, example_consent_call] s \<and> sv_scopes s = [default_scope] \<and>
    stored_ok grant_codec token_codec
      (\<lambda>g. g_client_id g = ''LocalClient'' \<and> scope_wf (g_scope g) \<and> tokens (g_scope g) |\<subseteq>| {|''default-scope''|})
      (mr_hash (sv_redis s))"
proof -
  obtain code s where s: "serves example_site_lib (state_generic example_site_lib example_server_lib) example_state
      [example_redeem_call code, example_consent_call] s"
    using example_history by blast
  have "stored_ok grant_codec token_codec (typed_grant (sv_registrar example_state)) (mr_hash mem_empty)"
    by (rule stored_ok_empty) (simp add: mem_empty_def)
  with server_grants_typed [OF _ _ _ example_preconfigured _ s, of mr_hash mr_num mem_healthy] s show ?thesis
    by (auto simp: mem_redis_store grant_codec_ok token_codec_ok example_state_def)
qed

text \<open>
  C13: every access goes back to a consent. Let the preconfigured server start on an empty store and
  serve any calls. If the index page then greets the caller, the caller presented a bearer token behind
  which the store has an unexpired grant of the registered client, within its default scope; and among
  the calls served before there is one that justifies the grant: a \<open>POST\<close> of the authorization page by
  that client with the word \<open>allow\<close> in the query, the owner being the dummy user, or an authorization
  request of that client for the implicit flow, the owner being the one the request names.
\<close>

theorem access_traces_back_to_consent:
  assumes "redis_store (sl_redis L) hash num healthy" and "codec_ok (sl_grant_codec L)"
    and "codec_ok (sl_token_codec L)"
    and "preconfigured L salt code_generator token_generator redis = Ok s" and "\<And>k f. hash redis k f = None"
    and "serves T (state_generic T L) s cs s'"
    and "index_route T (state_generic T L) c s' = (Ok reply, s'')" and "axp_body reply = Some ''Hello world!''"
  shows "\<exists>token g. xh_authorization (cl_http c) = [Some (''Bearer '' @ token)] \<and>
    server_access_grant hash L s' token = Some g \<and> ck_now (cl_clock c) \<le> g_until g \<and>
    g_client_id g = ''LocalClient'' \<and> tokens (g_scope g) |\<subseteq>| {|''default-scope''|} \<and> (\<exists>d\<in>set cs. justifies d g)"
proof -
  note pre = preconfigured_clients [OF assms(4)] and store = server_storeI [OF assms(1-3)]
  have "server_holds hash L (sv_registrar s) (sv_scopes s) (justified (sv_registrar s) cs) s'"
    by (rule serves_justified [OF assms(6) store pre(1)])
      (simp add: server_holds_def pre(3) stored_ok_empty assms(5))
  from server_shows_page [OF store this justified_closed assms(7,8)] show ?thesis
    by (auto simp: justified_def pre(4) default_scope_def)
qed

theorem access_traces_back_to_consent_witness:
  "\<exists>code s token g. serves example_site_lib (state_generic example_site_lib example_server_lib) example_state
      [example_redeem_call code, example_consent_call] s \<and>
    server_access_grant mr_hash example_server_lib s token = Some g \<and>
    (\<exists>d\<in>{example_redeem_call code, example_consent_call}. justifies d g)"
proof -
  obtain code token s s2 reply where s: "serves example_site_lib (state_generic example_site_lib example_server_lib)
      example_state [example_redeem_call code, example_consent_call] s"
    and page: "index_route example_site_lib (state_generic example_site_lib example_server_lib) (example_page_call token) s
      = (Ok reply, s2)" "axp_body reply = Some ''Hello world!''"
    using example_history by blast
  have "mr_hash mem_empty k f = None" for k f
    by (simp add: mem_empty_def)
  with access_traces_back_to_consent [OF _ _ _ example_preconfigured _ s page, of mr_hash mr_num mem_healthy] s show ?thesis
    by (fastforce simp: mem_redis_store grant_codec_ok token_codec_ok)
qed

text \<open>
  C30: consent is a substring. A \<open>POST\<close> of the authorization page whose request the registrar accepts is
  answered with a code for the dummy user exactly when the raw query contains the letters \<open>allow\<close>
  anywhere, and otherwise with the error redirect of a denial, the state being unchanged. Nothing else of
  the request counts as the owner's answer, so a denial whose state or scope contains these letters is a
  consent.
\<close>

theorem post_consents_by_substring:
  assumes "actix_from_request (cl_http c) = Inr req" and "cl_mailbox c = None"
    and "aur_response_type (wrapped_auth_request (actix_web_request req)) = Some ''code''"
    and "authorization_code (st_url T) (wrapped_authorization (generic_endpoint (state_generic T L)))
      (wrapped_auth_request (actix_web_request req)) s = (Ok p, s)"
  shows "post_authorize T (state_generic T L) c s =
    (if str_contains (cl_query_string c) ''allow''
     then case pending_authorize (st_url T) (wrapped_authorization (generic_endpoint (state_generic T L)))
                 (ck_now (cl_clock c)) ''dummy user'' p s of
            (result, s') \<Rightarrow> (site_converted T result, s')
     else (site_converted T (pending_deny (st_url T) p), s))"
  by (rule post_authorize_runs [OF assms(1,2) _ _ assms(3,4)])
    (simp_all add: state_generic_def server_generic_def opt_primitive_def)

text \<open>The deny button of the page, for a request with the state \<open>swallow\<close>.\<close>

definition example_deny_call :: call where
  "example_deny_call = page_call ''POST'' ''/authorize'' ''response_type=code&client_id=LocalClient&state=swallow&deny=true''
     [(''response_type'', ''code''), (''client_id'', ''LocalClient''), (''state'', ''swallow''), (''deny'', ''true'')] [] []"

theorem post_consents_by_substring_witness:
  "\<exists>code s. post_authorize example_site_lib (state_generic example_site_lib example_server_lib) example_deny_call example_state
     = (site_redirect example_site_lib (url_extend_pairs url_identity ''http://localhost:8021/endpoint''
          [(''code'', code), (''state'', ''swallow'')]), s)"
proof -
  let ?E = "wrapped_authorization (generic_endpoint (state_generic example_site_lib example_server_lib))"
  obtain req where req: "actix_from_request (cl_http example_deny_call) = Inr req" "cl_mailbox example_deny_call = None"
      "aur_response_type (wrapped_auth_request (actix_web_request req)) = Some ''code''"
    and q: "aur_valid (wrapped_auth_request (actix_web_request req))"
      "aur_client_id (wrapped_auth_request (actix_web_request req)) = Some ''LocalClient''"
      "aur_redirect_uri (wrapped_auth_request (actix_web_request req)) = None"
      "aur_scope (wrapped_auth_request (actix_web_request req)) = None"
      "aur_state (wrapped_auth_request (actix_web_request req)) = Some ''swallow''"
    by (simp add: example_deny_call_def page_call_def actix_from_request_def actix_request_new_def np_from_iter_def
        np_new_def insert_or_poison_def np_unique_value_def wrapped_auth_request_def actix_web_request_def np_query_def
        wrapped_query_request_def)
  define p where "p = \<lparr> pd_pre_grant = \<lparr> pg_client_id = ''LocalClient'',
      pg_redirect_uri = Semantic ''http://localhost:8021/endpoint'', pg_scope = default_scope \<rparr>,
      pd_state = Some ''swallow'', pd_extensions = extensions_new \<rparr>"
  have url: "st_url example_site_lib = url_identity" by (simp add: example_site_lib_def)
  have asked: "authorization_code (st_url example_site_lib) ?E (wrapped_auth_request (actix_web_request req)) example_state
      = (Ok p, example_state)"
    unfolding p_def
    by (subst default_code_request [OF q(1-4) req(3), where U' = url_identity and A = spell_argon2
          and m = "sv_registrar example_state" and url = "''http://localhost:8021/endpoint''"
          and c = "\<lparr> ec_client_id = ''LocalClient'', ec_redirect_uri = Semantic ''http://localhost:8021/endpoint'',
            ec_additional_redirect_uris = [], ec_default_scope = default_scope, ec_encoded_client = PublicClient \<rparr>"])
      (simp_all add: q(5) example_state_def wrapped_authorization_def state_generic_def server_generic_def server_registrar_def)
  have "str_contains (cl_query_string example_deny_call) ''allow''"
    by (simp add: example_deny_call_def page_call_def)
  moreover obtain code a r v where "az_authorize (server_authorizer example_server_lib)
      (consented_grant ''dummy user'' p ''http://localhost:8021/endpoint'' 5) example_state
      = (Ok code, example_state\<lparr> sv_authorizer := a, sv_redis := r \<rparr>)"
    by (rule server_store.server_authorize_up [OF example_server_store, of example_state])
      (use example_fresh in \<open>auto simp: example_state_def mem_empty_def [THEN arg_cong, where f = mr_num]\<close>)
  then have "pending_authorize url_identity ?E 5 ''dummy user'' p example_state =
      (Ok (url_extend_pairs url_identity ''http://localhost:8021/endpoint'' [(''code'', code), (''state'', ''swallow'')]),
       example_state\<lparr> sv_authorizer := a, sv_redis := r \<rparr>)"
    by (simp add: pending_authorize_def p_def consented_grant_def registered_to_url_def registered_into_url_def
        bind_ac_def err_ac_def wrapped_authorization_def state_generic_def server_generic_def)
  moreover have "ck_now (cl_clock example_deny_call) = 5"
    by (simp add: example_deny_call_def page_call_def example_clock_def)
  ultimately show ?thesis
    using post_consents_by_substring [OF req asked] by (simp add: url site_converted_def) blast
qed

text \<open>
  What asking by \<open>GET\<close> does. A \<open>GET\<close> of the authorization page leaves the state of the server as it
  is, except when it asks for the implicit flow: then it does exactly what the \<open>POST\<close> does, which
  consults no owner and issues a token.
\<close>

lemma get_authorize_effects:
  assumes "actix_from_request (cl_http c) = Inr req" and "cl_mailbox c = None"
  shows "if aur_response_type (wrapped_auth_request (actix_web_request req)) = Some ''token''
    then get_authorize T G c = post_authorize T G c else snd (get_authorize T G c s) = s"
  using get_authorize_reads [OF assms] implicit_solicitor [of req]
  by (auto simp: get_authorize_runs [OF assms])

lemma get_authorize_effects_example:
  "snd (get_authorize example_site_lib (state_generic example_site_lib example_server_lib) example_deny_call example_state)
     = example_state"
proof -
  obtain req where "actix_from_request (cl_http example_deny_call) = Inr req" "cl_mailbox example_deny_call = None"
      "aur_response_type (wrapped_auth_request (actix_web_request req)) = Some ''code''"
    by (simp add: example_deny_call_def page_call_def actix_from_request_def actix_request_new_def np_from_iter_def
        np_new_def insert_or_poison_def np_unique_value_def wrapped_auth_request_def actix_web_request_def np_query_def
        wrapped_query_request_def)
  then show ?thesis
    using get_authorize_effects [of example_deny_call req example_site_lib
        "state_generic example_site_lib example_server_lib" example_state] by simp
qed

end
