(* ===== verification/Renewal.thy ===== *)
theory Renewal
  imports Actix_Server
begin

text \<open>
  Refreshing a token at the example server, from the store up to the routes: on a healthy store the
  \<open>refresh\<close> route answers with a new access token that opens the page, and the page refuses the token it
  replaces.
\<close>

section \<open>The issuer\<close>

text \<open>A refresh token and the access token it is linked to, as the store holds them.\<close>

definition linked_tokens ::
  "(string \<Rightarrow> string \<Rightarrow> string option) \<Rightarrow> 'u token codec \<Rightarrow> string \<Rightarrow> 'u token \<Rightarrow> bool" where
  "linked_tokens h C f old \<longleftrightarrow> tk_refresh old = Some f \<and>
     (\<exists>v. h ''oauth2:tokenmap_refresh'' f = Some v \<and> dec C v = Some old) \<and>
     (\<exists>v. h ''oauth2:tokenmap_access'' (tk_access old) = Some v \<and>
        map_option tk_access (dec C v) = Some (tk_access old))"

context redis_store begin

lemma tm_do_refresh_up:
  assumes "healthy r" and "codec_ok C" and linked: "linked_tokens (hash r) C f old"
    and u: "num r ''oauth2:tokenmap_usage'' = Some u" and g': "g' = set_duration now m g"
    and tag: "tag u g' (tm_generator m) = (Ok a, gt)" and fresh: "hash r ''oauth2:tokenmap_access'' a = None"
  obtains v r' where
    "tm_do_refresh R C tag now f g (m, r) =
       (Ok \<lparr> rt_token = a, rt_refresh = None, rt_until = g_until g', rt_token_type = Bearer \<rparr>,
        (m\<lparr> tm_generator := gt \<rparr>, r'))" "healthy r'"
    "hash r' = hash_upd (hash_upd (hash_upd (hash_upd (hash r) ''oauth2:tokenmap_refresh'' f None)
        ''oauth2:tokenmap_access'' (tk_access old) None) ''oauth2:tokenmap_access'' a (Some v))
        ''oauth2:tokenmap_refresh'' f (Some v)"
    "dec C v = Some (old\<lparr> tk_access := a, tk_grant := g' \<rparr>)"
proof -
  let ?m = "m\<lparr> tm_generator := gt \<rparr>"
  obtain w x at where w: "hash r ''oauth2:tokenmap_refresh'' f = Some w" "dec C w = Some old" "tk_refresh old = Some f"
    and x: "hash r ''oauth2:tokenmap_access'' (tk_access old) = Some x" "dec C x = Some at" "tk_access at = tk_access old"
    using linked unfolding linked_tokens_def by auto
  obtain v where v: "enc C (old\<lparr> tk_access := a, tk_grant := g' \<rparr>) = Some v"
      "dec C v = Some (old\<lparr> tk_access := a, tk_grant := g' \<rparr>)"
    using codec_enc [OF assms(2)] by blast
  obtain r1 where 1: "get_connection R (m, r) = (Ok (), (m, r1))" "healthy r1" "hash r1 = hash r" "num r1 = num r"
    by (rule get_connection_up [OF assms(1)])
  obtain r2 where 2: "redis_do (r_hget R ''oauth2:tokenmap_refresh'' f) (m, r1) =
      (Ok (hash r1 ''oauth2:tokenmap_refresh'' f), (m, r2))" "healthy r2" "hash r2 = hash r1" "num r2 = num r1"
    by (rule hget_up [OF 1(2)])
  have f2: "hash r2 ''oauth2:tokenmap_refresh'' f \<noteq> None" using w 1 2 by simp
  obtain r3 where 3: "hdel_one R ''oauth2:tokenmap_refresh'' f (m, r2) = (Ok (), (m, r3))" "healthy r3"
    "hash r3 = hash_upd (hash r2) ''oauth2:tokenmap_refresh'' f None" "num r3 = num r2"
    by (rule hdel_one_up [OF 2(2) f2])
  obtain r4 where 4: "redis_do (r_get R ''oauth2:tokenmap_usage'') (m, r3)
      = (Ok (num r3 ''oauth2:tokenmap_usage''), (m, r4))" "healthy r4" "hash r4 = hash r3" "num r4 = num r3"
    by (rule get_up [OF 3(2)])
  have t: "tm_tag tag u g' (m, r4) = (Ok a, (?m, r4))" using tag by (simp add: tm_tag_def)
  obtain r5 where 5: "redis_do (r_hget R ''oauth2:tokenmap_access'' (tk_access old)) (?m, r4) =
      (Ok (hash r4 ''oauth2:tokenmap_access'' (tk_access old)), (?m, r5))" "healthy r5" "hash r5 = hash r4" "num r5 = num r4"
    by (rule hget_up [OF 4(2)])
  have h5: "hash r5 = hash_upd (hash r) ''oauth2:tokenmap_refresh'' f None" using 1 2 3 4 5 by simp
  have f5: "hash r5 ''oauth2:tokenmap_access'' (tk_access old) \<noteq> None" using x(1) unfolding h5 by simp
  obtain r6 where 6: "hdel_one R ''oauth2:tokenmap_access'' (tk_access old) (?m, r5) = (Ok (), (?m, r6))" "healthy r6"
    "hash r6 = hash_upd (hash r5) ''oauth2:tokenmap_access'' (tk_access old) None" "num r6 = num r5"
    by (rule hdel_one_up [OF 5(2) f5])
  have f6: "hash r6 ''oauth2:tokenmap_access'' a = None" using fresh unfolding 6(3) h5 by simp
  obtain r7 where 7: "hset_new R ''oauth2:tokenmap_access'' a v (?m, r6) = (Ok (), (?m, r7))" "healthy r7"
    "hash r7 = hash_upd (hash r6) ''oauth2:tokenmap_access'' a (Some v)" "num r7 = num r6"
    by (rule hset_new_up [OF 6(2) f6, of v ?m])
  have f7: "hash r7 ''oauth2:tokenmap_refresh'' f = None" unfolding 7(3) 6(3) h5 by simp
  obtain r8 where 8: "hset_new R ''oauth2:tokenmap_refresh'' f v (?m, r7) = (Ok (), (?m, r8))" "healthy r8"
    "hash r8 = hash_upd (hash r7) ''oauth2:tokenmap_refresh'' f (Some v)" "num r8 = num r7"
    by (rule hset_new_up [OF 7(2) f7, of v ?m])
  obtain r9 where 9: "set_usage R ''oauth2:tokenmap_usage'' (u + 1) (?m, r8) = (Ok (), (?m, r9))" "healthy r9"
    "hash r9 = hash r8"
    by (rule set_usage_up [OF 8(2)])
  have get: "redis_do (r_hget R ''oauth2:tokenmap_refresh'' f) (m, r1) = (Ok (Some w), (m, r2))"
    "redis_do (r_get R ''oauth2:tokenmap_usage'') (m, r3) = (Ok (Some u), (m, r4))"
    "redis_do (r_hget R ''oauth2:tokenmap_access'' (tk_access old)) (?m, r4) = (Ok (Some x), (?m, r5))"
    using 1 2 3 4 5 w(1) x(1) u by simp_all
  have timed: "tm_timed now g (m, r3) = (Ok g', (m, r3))" by (simp add: tm_timed_def g')
  have "tm_do_refresh R C tag now f g (m, r) =
       (Ok \<lparr> rt_token = a, rt_refresh = None, rt_until = g_until g', rt_token_type = Bearer \<rparr>, (?m, r9))"
    using w x v by (simp add: tm_do_refresh_def Let_def bind_ac_step 1(1) 3(1) get timed t 6(1) 7(1) 8(1) 9(1))
  then show thesis
    using that [of r9 v] 7(3) 8(3) 9 6(3) h5 v(2) by simp
qed

end

section \<open>The server\<close>

text \<open>The grant a refresh at \<open>now\<close> (with the clocks of the check and of the issuer) stores.\<close>

definition renewed_grant :: "time \<Rightarrow> time \<Rightarrow> ('h, 'u) token_map \<Rightarrow> 'u grant \<Rightarrow> 'u grant" where
  "renewed_grant again issue m g = set_duration issue m (g\<lparr> g_until := again + days 7 \<rparr>)"

context server_store begin

lemma server_refresh_up:
  assumes "healthy (sv_redis s)" and "linked_tokens (hash (sv_redis s)) (sl_token_codec L) f old"
    and "num (sv_redis s) ''oauth2:tokenmap_usage'' = Some u" and "g' = set_duration now (sv_issuer s) g"
    and "sl_token_tagger L u g' (tm_generator (sv_issuer s)) = (Ok a, gt)"
    and "hash (sv_redis s) ''oauth2:tokenmap_access'' a = None"
  obtains v i r where
    "is_refresh (server_issuer L) now f g s =
       (Ok \<lparr> rt_token = a, rt_refresh = None, rt_until = g_until g', rt_token_type = Bearer \<rparr>,
        s\<lparr> sv_issuer := i, sv_redis := r \<rparr>)" "healthy r"
    "hash r ''oauth2:tokenmap_access'' a = Some v" "map_option tk_grant (dec (sl_token_codec L) v) = Some g'"
    "hash r ''oauth2:tokenmap_access'' (tk_access old) = None"
proof -
  obtain v r where "tm_do_refresh (sl_redis L) (sl_token_codec L) (sl_token_tagger L) now f g (sv_issuer s, sv_redis s) =
      (Ok \<lparr> rt_token = a, rt_refresh = None, rt_until = g_until g', rt_token_type = Bearer \<rparr>,
       ((sv_issuer s)\<lparr> tm_generator := gt \<rparr>, r))" "healthy r"
    "hash r = hash_upd (hash_upd (hash_upd (hash_upd (hash (sv_redis s)) ''oauth2:tokenmap_refresh'' f None)
        ''oauth2:tokenmap_access'' (tk_access old) None) ''oauth2:tokenmap_access'' a (Some v))
        ''oauth2:tokenmap_refresh'' f (Some v)"
    "dec (sl_token_codec L) v = Some (old\<lparr> tk_access := a, tk_grant := g' \<rparr>)"
    by (rule tm_do_refresh_up [where tag = "sl_token_tagger L", OF assms(1) tokens assms(2-6)])
  moreover have "tk_access old \<noteq> a"
    using assms(2,6) by (auto simp: linked_tokens_def)
  ultimately show thesis
    using that [of r "(sv_issuer s)\<lparr> tm_generator := gt \<rparr>" v]
    by (simp add: server_issuer_def Let_def token_map_issuer_def on_issuer_def)
qed

lemma server_recover_refresh_up:
  assumes "healthy (sv_redis s)" and "linked_tokens (hash (sv_redis s)) (sl_token_codec L) f old"
  obtains r where "is_recover_refresh (server_issuer L) f s = (Ok (Some (tk_grant old)), s\<lparr> sv_redis := r \<rparr>)"
    "healthy r" "hash r = hash (sv_redis s)" "num r = num (sv_redis s)"
proof -
  obtain r where "recover_at (sl_redis L) (sl_token_codec L) ''oauth2:tokenmap_refresh'' f (sv_issuer s, sv_redis s)
      = (Ok (stored_grant hash (sl_token_codec L) ''oauth2:tokenmap_refresh'' (sv_issuer s, sv_redis s) f),
         (sv_issuer s, r))" "healthy r" "hash r = hash (sv_redis s)" "num r = num (sv_redis s)"
    by (rule recover_at_up [OF assms(1), of "''oauth2:tokenmap_refresh''" f "sl_token_codec L" "sv_issuer s"])
      (use assms(2) in \<open>auto simp: linked_tokens_def\<close>)
  then show thesis
    using that [of r] assms(2)
    by (auto simp: linked_tokens_def server_issuer_def Let_def token_map_issuer_def on_issuer_def recover_at_eqs
        stored_grant_def)
qed

text \<open>The whole renewal of a client that needs no passphrase.\<close>

lemma server_renewal:
  assumes up: "healthy (sv_redis s)" and linked: "linked_tokens (hash (sv_redis s)) (sl_token_codec L) f old"
    and u: "num (sv_redis s) ''oauth2:tokenmap_usage'' = Some u"
    and g': "g' = renewed_grant again issue (sv_issuer s) (tk_grant old)"
    and tag: "sl_token_tagger L u g' (tm_generator (sv_issuer s)) = (Ok a, gt)"
    and fresh: "hash (sv_redis s) ''oauth2:tokenmap_access'' a = None"
    and q: "rf_params q = Ok (None, f)" "rfr_scope q = None"
    and check: "rg_check (server_registrar L s) (g_client_id (tk_grant old)) None = Ok ()"
    and now: "now < g_until (tk_grant old)"
    and E: "rfe_registrar E = server_registrar L" "rfe_issuer E = server_issuer L"
  obtains v i r where
    "refresh it E q now again issue s =
       (Ok (RfBearerToken \<lparr> rt_token = a, rt_refresh = None, rt_until = g_until g', rt_token_type = Bearer \<rparr>
          (scope_to_string it (g_scope (tk_grant old)))), s\<lparr> sv_issuer := i, sv_redis := r \<rparr>)" "healthy r"
    "hash r ''oauth2:tokenmap_access'' a = Some v" "map_option tk_grant (dec (sl_token_codec L) v) = Some g'"
    "hash r ''oauth2:tokenmap_access'' (tk_access old) = None"
proof -
  obtain r1 where 1: "is_recover_refresh (server_issuer L) f s = (Ok (Some (tk_grant old)), s\<lparr> sv_redis := r1 \<rparr>)"
    "healthy r1" "hash r1 = hash (sv_redis s)" "num r1 = num (sv_redis s)"
    by (rule server_recover_refresh_up [OF up linked])
  let ?s1 = "s\<lparr> sv_redis := r1 \<rparr>" and ?g = "(tk_grant old)\<lparr> g_until := again + days 7 \<rparr>"
  obtain v i r where 2: "is_refresh (server_issuer L) issue f ?g ?s1 =
       (Ok \<lparr> rt_token = a, rt_refresh = None, rt_until = g_until g', rt_token_type = Bearer \<rparr>,
        ?s1\<lparr> sv_issuer := i, sv_redis := r \<rparr>)" "healthy r"
    "hash r ''oauth2:tokenmap_access'' a = Some v" "map_option tk_grant (dec (sl_token_codec L) v) = Some g'"
    "hash r ''oauth2:tokenmap_access'' (tk_access old) = None"
    by (rule server_refresh_up [of ?s1 f old u g' issue ?g a gt])
      (use linked u tag fresh 1 g' in \<open>simp_all add: renewed_grant_def\<close>)
  have "rg_check (server_registrar L ?s1) (g_client_id (tk_grant old)) None = Ok ()"
    using check by (simp add: server_registrar_def)
  then have "refresh it E q now again issue s =
       (Ok (RfBearerToken \<lparr> rt_token = a, rt_refresh = None, rt_until = g_until g', rt_token_type = Bearer \<rparr>
          (scope_to_string it (g_scope (tk_grant old)))), s\<lparr> sv_issuer := i, sv_redis := r \<rparr>)"
    using q now E 1(1) 2(1)
    by (simp add: refresh_renewal token_renewal_def bind_ac_def err_ac_def rf_check_def rf_renewed_def)
  then show thesis using that 2 by blast
qed

end

section \<open>The routes\<close>

definition renews :: "call \<Rightarrow> string \<Rightarrow> bool" where
  "renews c f \<longleftrightarrow> cl_mailbox c = None \<and>
     (\<exists>req body. actix_from_request (cl_http c) = Inr req \<and> axr_auth req = None \<and> axr_body req = Some body \<and>
        np_unique_value body ''grant_type'' = Some ''refresh_token'' \<and>
        np_unique_value body ''refresh_token'' = Some f \<and> np_unique_value body ''scope'' = None)"

lemma renews_params:
  assumes "renews c f"
  obtains req where "actix_from_request (cl_http c) = Inr req" "cl_mailbox c = None"
    "rf_params (wrapped_refresh_request W (actix_web_request req)) = Ok (None, f)"
    "rfr_scope (wrapped_refresh_request W (actix_web_request req)) = None"
proof -
  obtain req body where req: "actix_from_request (cl_http c) = Inr req" "axr_auth req = None" "axr_body req = Some body"
    and body: "np_unique_value body ''grant_type'' = Some ''refresh_token''" "np_unique_value body ''refresh_token'' = Some f"
      "np_unique_value body ''scope'' = None"
    using assms unfolding renews_def by blast
  have "wrapped_refresh_request W (actix_web_request req) = wrapped_refresh_body True None (np_unique_value body)"
    using req by (simp add: wrapped_refresh_request_def refresh_request_parts_def actix_web_request_def np_query_def)
  then show thesis
    using that [OF req(1)] assms body by (simp add: renews_def wrapped_refresh_body_def rf_params_def)
qed

lemma refresh_route_runs:
  assumes "actix_from_request (cl_http c) = Inr req" and "cl_mailbox c = None"
    and "gn_registrar G s \<noteq> None" and "gn_issuer G s \<noteq> None"
    and response: "gn_response G = site_response T" and "hv_valid (st_headers T) ''application/json''"
    and token: "refresh (st_order T) (wrapped_refresh (generic_endpoint G))
      (wrapped_refresh_request (st_wire T) (actix_web_request req)) (ck_now (cl_clock c)) (ck_again (cl_clock c))
      (ck_issue (cl_clock c)) s = (Ok t, s')"
  shows "refresh_route T G c s =
    (Ok (typed_reply T ''application/json'' (wl_token_json (st_wire T) (rf_bearer_to_json (ck_reply (cl_clock c)) t))), s')"
proof -
  have "refresh_prepare (generic_endpoint G) s = (Ok (), s)"
    using assms(3,4) by (auto simp: refresh_prepare_def)
  then show ?thesis
    using assms(1,2,6) token
    by (simp add: refresh_route_def ask_actor_def handle_def op_wrap_def message_into_inner_def op_refresh_def Let_def
        actix_refresh_run_def bind_ac_def err_ac_def refresh_execute_def site_generic_ops [OF response]
        web_result_def actix_response_ops_def actix_insert_def actix_response_ok_def typed_reply_def ret_def)
qed

text \<open>A token without an entry is refused: the page says so with the status of the resource flow.\<close>

definition unknown_token_header :: "('u, 'h) site \<Rightarrow> scope list \<Rightarrow> string" where
  "unknown_token_header T scopes = www_authenticate (st_order T)
     (AccessDenied \<lparr> af_code = Some RcInvalidRequest \<rparr>
        \<lparr> au_realm = None, au_scope = (case scopes of [] \<Rightarrow> None | s # _ \<Rightarrow> Some s) \<rparr>)"

definition denied_reply :: "('u, 'h) site \<Rightarrow> scope list \<Rightarrow> 'h actix_response" where
  "denied_reply T scopes =
     \<lparr> axp_status = 401, axp_headers = hm_insert (st_headers T) ''www-authenticate'' (unknown_token_header T scopes)
         (hm_new (st_headers T)), axp_body = Some deny_text \<rparr>"

lemma server_unknown_token:
  assumes "redis_store (sl_redis L) hash num healthy" and "healthy (sv_redis s)"
    and "hash (sv_redis s) ''oauth2:tokenmap_access'' token = None"
  obtains r where "is_recover_token (server_issuer L) token s = (Ok None, s\<lparr> sv_redis := r \<rparr>)"
proof -
  obtain r where "recover_at (sl_redis L) (sl_token_codec L) ''oauth2:tokenmap_access'' token (sv_issuer s, sv_redis s)
      = (Ok (stored_grant hash (sl_token_codec L) ''oauth2:tokenmap_access'' (sv_issuer s, sv_redis s) token),
         (sv_issuer s, r))"
    by (rule redis_store.recover_at_up [OF assms(1,2), of "''oauth2:tokenmap_access''" token "sl_token_codec L" "sv_issuer s"])
      (use assms(3) in simp)
  then show thesis
    using that [of r] assms(3)
    by (simp add: server_issuer_def Let_def token_map_issuer_def on_issuer_def recover_at_eqs stored_grant_def)
qed

lemma index_refuses:
  assumes "redis_store (sl_redis L) hash num healthy" and "healthy (sv_redis s)" and "presents c token"
    and "hash (sv_redis s) ''oauth2:tokenmap_access'' token = None"
    and "hv_valid (st_headers T) (unknown_token_header T (sv_scopes s))"
  shows "\<exists>s'. index_route T (state_generic T L) c s = (Ok (denied_reply T (sv_scopes s)), s')"
proof -
  let ?E = "generic_endpoint (state_generic T L)"
  obtain req where req: "actix_resource_from_request (cl_http c) = Inr req" "cl_mailbox c = None"
    and q: "wrapped_resource_request (actix_web_request (actix_into_request req))
      = \<lparr> rq_valid = True, rq_token = Some (''Bearer '' @ token) \<rparr>"
    using presents_params [OF assms(3)] by metis
  obtain r where r: "is_recover_token (server_issuer L) token s = (Ok None, s\<lparr> sv_redis := r \<rparr>)"
    using server_unknown_token [OF assms(1,2,4)] by metis
  have parts: "gn_issuer (state_generic T L) s \<noteq> None" "gn_response (state_generic T L) = site_response T"
    by (simp_all add: state_generic_def server_generic_def opt_primitive_def)
  have prepare: "resource_prepare ?E s = (Ok (), s)"
    using parts by (auto simp: resource_prepare_def)
  have "protect (scoped_resource ?E (actix_web_request (actix_into_request req)))
      \<lparr> rq_valid = True, rq_token = Some (''Bearer '' @ token) \<rparr> (ck_now (cl_clock c)) s =
    (Err (AccessDenied \<lparr> af_code = Some RcInvalidRequest \<rparr> \<lparr> au_realm = None,
        au_scope = (case sv_scopes s of [] \<Rightarrow> None | s # _ \<Rightarrow> Some s) \<rparr>), s\<lparr> sv_redis := r \<rparr>)"
    using r by (simp add: protect_guard guard_resource_def bind_ac_def bearer_token_of_def determine_scopes_def
        scoped_resource_def generic_endpoint_def state_generic_def server_generic_def opt_primitive_def err_ac_def
        resource_recovered_def)
  then show ?thesis
    using req q assms(5) prepare
    by (simp add: index_route_def ask_actor_def handle_def op_wrap_def message_into_inner_def op_resource_def Let_def
        actix_resource_run_def bind_ac_def err_ac_def resource_execute_def resource_denied_def
        site_generic_ops [OF parts(2)] web_result_def actix_response_ops_def actix_insert_def actix_response_ok_def
        index_reply_def actix_set_body_def denied_reply_def unknown_token_header_def)
qed

text \<open>The renewal as the routes serve it.\<close>

definition renewed_token :: "string \<Rightarrow> 'u grant \<Rightarrow> refreshed_token" where
  "renewed_token a g = \<lparr> rt_token = a, rt_refresh = None, rt_until = g_until g, rt_token_type = Bearer \<rparr>"

lemma renewal_served:
  fixes L :: "('g, 'h, 'u, 'r) server_lib" and T :: "('u, 'x) site"
  assumes store: "server_store L hash num healthy"
    and up: "healthy (sv_redis s)" "linked_tokens (hash (sv_redis s)) (sl_token_codec L) f old"
      "num (sv_redis s) ''oauth2:tokenmap_usage'' = Some u"
      "g' = renewed_grant (ck_again (cl_clock c)) (ck_issue (cl_clock c)) (sv_issuer s) (tk_grant old)"
      "sl_token_tagger L u g' (tm_generator (sv_issuer s)) = (Ok a, gt)"
      "hash (sv_redis s) ''oauth2:tokenmap_access'' a = None"
    and check: "rg_check (server_registrar L s) (g_client_id (tk_grant old)) None = Ok ()"
    and times: "ck_now (cl_clock c) < g_until (tk_grant old)" "ck_now (cl_clock ic) \<le> g_until g'"
    and scope: "list_ex (\<lambda>sc. allow_access (g_scope (tk_grant old)) sc) (sv_scopes s)"
    and valid: "hv_valid (st_headers T) ''text/plain''" "hv_valid (st_headers T) ''application/json''"
      "hv_valid (st_headers T) (unknown_token_header T (sv_scopes s))"
    and calls: "renews c f" "presents ic a" "presents oc (tk_access old)"
  shows "\<exists>s1 s2 s3.
    refresh_route T (state_generic T L) c s =
      (Ok (typed_reply T ''application/json'' (wl_token_json (st_wire T) (rf_bearer_to_json (ck_reply (cl_clock c))
         (RfBearerToken (renewed_token a g') (scope_to_string (st_order T) (g_scope (tk_grant old))))))), s1) \<and>
    index_route T (state_generic T L) ic s1 = (Ok (typed_reply T ''text/plain'' ''Hello world!''), s2) \<and>
    index_route T (state_generic T L) oc s1 = (Ok (denied_reply T (sv_scopes s)), s3)"
proof -
  let ?G = "state_generic T L" and ?E = "generic_endpoint (state_generic T L)"
  have parts: "gn_registrar ?G v \<noteq> None" "gn_issuer ?G v \<noteq> None" "gn_response ?G = site_response T" for v
    by (simp_all add: state_generic_def server_generic_def opt_primitive_def)
  obtain req where req: "actix_from_request (cl_http c) = Inr req" "cl_mailbox c = None"
    and q: "rf_params (wrapped_refresh_request (st_wire T) (actix_web_request req)) = Ok (None, f)"
      "rfr_scope (wrapped_refresh_request (st_wire T) (actix_web_request req)) = None"
    by (rule renews_params [OF calls(1)])
  have E: "rfe_registrar (wrapped_refresh ?E) = server_registrar L" "rfe_issuer (wrapped_refresh ?E) = server_issuer L"
    by (simp_all add: wrapped_refresh_def state_generic_def server_generic_def)
  obtain v i r where run: "refresh (st_order T) (wrapped_refresh ?E) (wrapped_refresh_request (st_wire T) (actix_web_request req))
      (ck_now (cl_clock c)) (ck_again (cl_clock c)) (ck_issue (cl_clock c)) s =
       (Ok (RfBearerToken \<lparr> rt_token = a, rt_refresh = None, rt_until = g_until g', rt_token_type = Bearer \<rparr>
          (scope_to_string (st_order T) (g_scope (tk_grant old)))), s\<lparr> sv_issuer := i, sv_redis := r \<rparr>)"
    and r: "healthy r" "hash r ''oauth2:tokenmap_access'' a = Some v"
      "map_option tk_grant (dec (sl_token_codec L) v) = Some g'" "hash r ''oauth2:tokenmap_access'' (tk_access old) = None"
    by (rule server_store.server_renewal [OF store up q check times(1) E])
  let ?s1 = "s\<lparr> sv_issuer := i, sv_redis := r \<rparr>"
  obtain r2 where r2: "is_recover_token (server_issuer L) a ?s1 = (Ok (Some g'), ?s1\<lparr> sv_redis := r2 \<rparr>)"
    by (rule server_store.server_recover_up [OF store, of ?s1 a v g']) (use r in simp_all)
  obtain ir where ir: "actix_resource_from_request (cl_http ic) = Inr ir" "cl_mailbox ic = None"
    "wrapped_resource_request (actix_web_request (actix_into_request ir))
      = \<lparr> rq_valid = True, rq_token = Some (''Bearer '' @ a) \<rparr>"
    by (rule presents_params [OF calls(2)])
  have "g_scope g' = g_scope (tk_grant old)"
    by (simp add: up(4) renewed_grant_def set_duration_def split: option.splits)
  then have "protect (scoped_resource ?E (actix_web_request (actix_into_request ir)))
      (wrapped_resource_request (actix_web_request (actix_into_request ir))) (ck_now (cl_clock ic)) ?s1
      = (Ok g', ?s1\<lparr> sv_redis := r2 \<rparr>)"
    unfolding state_generic_def ir(3) by (intro server_store.server_access [OF store r2 times(2)]) (use scope in simp)
  then have "index_route T ?G ic ?s1 = (Ok (typed_reply T ''text/plain'' ''Hello world!''), ?s1\<lparr> sv_redis := r2 \<rparr>)"
    by (intro index_route_runs [OF ir(1,2) parts(2) valid(1)])
  moreover have "\<exists>s3. index_route T ?G oc ?s1 = (Ok (denied_reply T (sv_scopes ?s1)), s3)"
    by (rule index_refuses [OF server_store.axioms(1) [OF store] _ calls(3)]) (use r valid(3) in simp_all)
  moreover have "refresh_route T ?G c s =
      (Ok (typed_reply T ''application/json'' (wl_token_json (st_wire T) (rf_bearer_to_json (ck_reply (cl_clock c))
         (RfBearerToken (renewed_token a g') (scope_to_string (st_order T) (g_scope (tk_grant old))))))), ?s1)"
    using refresh_route_runs [OF req parts valid(2) run] by (simp add: renewed_token_def)
  ultimately show ?thesis by auto
qed

end
