(* ===== verification/Example_Client.thy ===== *)
theory Example_Client
  imports Renewal
begin

text \<open>
  The client of the examples: \<open>examples/support/client.rs\<close>, which keeps a token behind a lock, and the
  pages that \<open>actix-example/src/support.rs\<close> builds on it. The HTTP client (\<open>reqwest\<close>) and the decoder of
  token responses (\<open>serde_json\<close>) are parameters. The properties tell what failures leave of the token and
  compose the client with the example server.
\<close>

section \<open>A lock\<close>

text \<open>\<open>RwLock\<close>: a panic under the write guard poisons the lock, and \<open>unwrap\<close> panics on a poisoned lock.\<close>

record 's rw_lock =
  lk_value :: 's
  lk_poisoned :: bool

definition rw_lock_new :: "'s \<Rightarrow> 's rw_lock" where
  "rw_lock_new s = \<lparr> lk_value = s, lk_poisoned = False \<rparr>"

definition lock_write :: "('w \<times> 's, 'a, 'e) action \<Rightarrow> ('w \<times> 's rw_lock, 'a, 'e) action" where
  "lock_write body = (\<lambda>(w, l).
     if lk_poisoned l then (Panic, (w, l))
     else case body (w, lk_value l) of
            (r, (w', s')) \<Rightarrow> (r, (w', \<lparr> lk_value = s', lk_poisoned = (case r of Panic \<Rightarrow> True | _ \<Rightarrow> False) \<rparr>)))"

definition lock_read :: "('s \<Rightarrow> ('w, 'a, 'e) action) \<Rightarrow> ('w \<times> 's rw_lock, 'a, 'e) action" where
  "lock_read body = (\<lambda>(w, l).
     if lk_poisoned l then (Panic, (w, l))
     else case body (lk_value l) w of (r, w') \<Rightarrow> (r, (w', l)))"

section \<open>The client\<close>

record client_config =
  cc_protected_url :: string
  cc_token_url :: string
  cc_refresh_url :: string
  cc_client_id :: string
  cc_redirect_uri :: string
  cc_client_secret :: "string option"

datatype 'j client_error =
    CeAccessFailed
  | CeNoToken
  | CeAuthorizationFailed
  | CeRefreshFailed
  | CeInvalid 'j
  | CeMissingToken
  | CeResponse string

record client_tokens =
  ct_token :: "string option"
  ct_refresh :: "string option"
  ct_until :: "int option"

definition client_tokens_default :: client_tokens where
  "client_tokens_default = \<lparr> ct_token = None, ct_refresh = None, ct_until = None \<rparr>"

record client_token_map =
  ctm_token_type :: string
  ctm_scope :: string
  ctm_access_token :: "string option"
  ctm_refresh_token :: "string option"
  ctm_expires_in :: "int option"
  ctm_error :: "string option"

definition client_new :: "client_config \<Rightarrow> client_config \<times> client_tokens rw_lock" where
  "client_new config = (config, rw_lock_new client_tokens_default)"

text \<open>
  A request as the client builds it. The transport says which requests can be built, and executes them:
  \<open>None\<close> is an error of the transport, \<open>Some None\<close> a response whose body cannot be read as text. The
  status of a response is not looked at.
\<close>

record http_request =
  hq_method :: string
  hq_url :: string
  hq_form :: "(string \<rightharpoonup> string) option"
  hq_basic_auth :: "(string \<times> string option) option"
  hq_authorization :: "string option"

record 'w transport =
  tp_builds :: "http_request \<Rightarrow> bool"
  tp_execute :: "http_request \<Rightarrow> 'w \<Rightarrow> string option option \<times> 'w"

definition client_send ::
  "'w transport \<Rightarrow> http_request \<Rightarrow> 'e \<Rightarrow> ('w, string option, 'e) action" where
  "client_send X request error = (\<lambda>w.
     if \<not> tp_builds X request then (Panic, w)
     else case tp_execute X request w of
            (None, w') \<Rightarrow> (Err error, w')
          | (Some body, w') \<Rightarrow> (Ok body, w'))"

definition parse_token_response ::
  "(string \<Rightarrow> client_token_map option) \<Rightarrow> string option \<Rightarrow> (client_token_map, 'j client_error) outcome" where
  "parse_token_response J response =
     bind_oc (expect response) (\<lambda>token. case J token of Some v \<Rightarrow> Ok v | None \<Rightarrow> Err (CeResponse token))"

text \<open>The request for a token: the secret in the header, or else the name in the form.\<close>

definition client_request :: "client_config \<Rightarrow> string \<Rightarrow> (string \<rightharpoonup> string) \<Rightarrow> http_request" where
  "client_request config url params =
     (case cc_client_secret config of
        Some client_secret \<Rightarrow>
          \<lparr> hq_method = ''POST'', hq_url = url, hq_form = Some params,
            hq_basic_auth = Some (cc_client_id config, unique_str client_secret), hq_authorization = None \<rparr>
      | None \<Rightarrow>
          \<lparr> hq_method = ''POST'', hq_url = url, hq_form = Some (params(''client_id'' \<mapsto> cc_client_id config)),
            hq_basic_auth = None, hq_authorization = None \<rparr>)"

text \<open>The transport inside the lock: the guarded value stays in place.\<close>

definition on_world :: "('w, 'a, 'e) action \<Rightarrow> ('w \<times> 's, 'a, 'e) action" where
  "on_world m = (\<lambda>(w, s). case m w of (r, w') \<Rightarrow> (r, (w', s)))"

definition set_tokens :: "(client_tokens \<Rightarrow> client_tokens) \<Rightarrow> ('w \<times> client_tokens, unit, 'e) action" where
  "set_tokens f = (\<lambda>(w, s). (Ok (), (w, f s)))"

definition code_request_of :: "client_config \<Rightarrow> string \<Rightarrow> http_request" where
  "code_request_of config code = client_request config (cc_token_url config)
     [''grant_type'' \<mapsto> ''authorization_code'', ''code'' \<mapsto> code, ''redirect_uri'' \<mapsto> cc_redirect_uri config]"

definition client_authorize ::
  "'w transport \<Rightarrow> (string \<Rightarrow> client_token_map option) \<Rightarrow> client_config \<Rightarrow> string
    \<Rightarrow> ('w \<times> client_tokens rw_lock, unit, 'j client_error) action" where
  "client_authorize X J config code = lock_write
     (bind_ac (on_world (client_send X (code_request_of config code) CeAuthorizationFailed)) (\<lambda>token_response.
      bind_ac (lift_oc (parse_token_response J token_response)) (\<lambda>token_map.
      case ctm_error token_map of
        Some err \<Rightarrow> fail (CeResponse err)
      | None \<Rightarrow>
          (case ctm_access_token token_map of
             Some token \<Rightarrow> set_tokens (\<lambda>state. \<lparr> ct_token = Some token,
               ct_refresh = ctm_refresh_token token_map, ct_until = ctm_expires_in token_map \<rparr>)
           | None \<Rightarrow> fail CeMissingToken))))"

definition page_request_of :: "client_config \<Rightarrow> string \<Rightarrow> http_request" where
  "page_request_of config token =
     \<lparr> hq_method = ''GET'', hq_url = cc_protected_url config, hq_form = None, hq_basic_auth = None,
       hq_authorization = Some (''Bearer '' @ token) \<rparr>"

definition retrieve_protected_page ::
  "'w transport \<Rightarrow> client_config \<Rightarrow> ('w \<times> client_tokens rw_lock, string, 'j client_error) action" where
  "retrieve_protected_page X config = lock_read (\<lambda>state.
     case ct_token state of
       None \<Rightarrow> fail CeNoToken
     | Some token \<Rightarrow>
         bind_ac (client_send X (page_request_of config token) CeAccessFailed)
           (\<lambda>page_response. lift_oc (expect page_response)))"

definition refresh_request_of :: "client_config \<Rightarrow> string \<Rightarrow> http_request" where
  "refresh_request_of config token = client_request config (cc_refresh_url config)
     [''grant_type'' \<mapsto> ''refresh_token'', ''refresh_token'' \<mapsto> token]"

definition client_refresh ::
  "'w transport \<Rightarrow> (string \<Rightarrow> client_token_map option) \<Rightarrow> client_config
    \<Rightarrow> ('w \<times> client_tokens rw_lock, unit, 'j client_error) action" where
  "client_refresh X J config = lock_write (\<lambda>(w, state).
     case ct_refresh state of
       None \<Rightarrow> (Err CeNoToken, (w, state))
     | Some held \<Rightarrow>
         bind_ac (on_world (client_send X (refresh_request_of config held) CeRefreshFailed)) (\<lambda>token_response.
         bind_ac (lift_oc (parse_token_response J token_response)) (\<lambda>token_map.
         if ctm_error token_map \<noteq> None \<or> \<not> ctm_access_token token_map \<noteq> None then fail CeMissingToken
         else bind_ac (lift_oc (expect (ctm_access_token token_map))) (\<lambda>token.
           set_tokens (\<lambda>state. \<lparr> ct_token = Some token,
             ct_refresh = (case ctm_refresh_token token_map of Some r \<Rightarrow> Some r | None \<Rightarrow> ct_refresh state),
             ct_until = ctm_expires_in token_map \<rparr>)))) (w, state))"

section \<open>Texts\<close>

text \<open>\<open>{:?}\<close> of strings, for text in ASCII; other characters are left as they are.\<close>

definition hex_digit :: "nat \<Rightarrow> char" where
  "hex_digit n = (if n < 10 then char_of (48 + n) else char_of (87 + n))"

definition escape_debug :: "char \<Rightarrow> string" where
  "escape_debug c =
     (let n = of_char c :: nat in
      if n = 0 then [CHR 0x5C, CHR ''0''] else if n = 9 then [CHR 0x5C, CHR ''t'']
      else if n = 13 then [CHR 0x5C, CHR ''r''] else if n = 10 then [CHR 0x5C, CHR ''n'']
      else if n = 34 \<or> n = 92 then [CHR 0x5C, c]
      else if n < 16 then [CHR 0x5C] @ ''u{'' @ [hex_digit n] @ ''}''
      else if n < 32 \<or> n = 127 then [CHR 0x5C] @ ''u{'' @ [hex_digit (n div 16), hex_digit (n mod 16)] @ ''}''
      else [c])"

definition debug_str :: "string \<Rightarrow> string" where
  "debug_str s = [CHR 0x22] @ concat (map escape_debug s) @ [CHR 0x22]"

definition debug_option :: "('a \<Rightarrow> string) \<Rightarrow> 'a option \<Rightarrow> string" where
  "debug_option sd x = (case x of None \<Rightarrow> ''None'' | Some v \<Rightarrow> ''Some('' @ sd v @ '')'')"

definition client_tokens_display :: "client_tokens \<Rightarrow> string" where
  "client_tokens_display self =
     ''Token {<br>''
     @ ''&nbsp;token: '' @ debug_option debug_str (ct_token self) @ '',<br>''
     @ ''&nbsp;refresh: '' @ debug_option debug_str (ct_refresh self) @ '',<br>''
     @ ''&nbsp;expires_in: '' @ debug_option show_int (ct_until self) @ '',<br>''
     @ ''}''"

definition client_as_html :: "('w \<times> client_tokens rw_lock, string, 'e) action" where
  "client_as_html = lock_read (\<lambda>state. ret (client_tokens_display state))"

fun client_error_display :: "('j \<Rightarrow> string) \<Rightarrow> 'j client_error \<Rightarrow> string" where
  "client_error_display sd CeAuthorizationFailed = ''Could not fetch bearer token''"
| "client_error_display sd CeNoToken = ''No token with which to access protected page''"
| "client_error_display sd CeAccessFailed = ''Access token failed to authorize for protected page''"
| "client_error_display sd CeRefreshFailed = ''Could not refresh bearer token''"
| "client_error_display sd (CeInvalid serde) = ''Bad json response: '' @ sd serde"
| "client_error_display sd CeMissingToken = ''No token nor error in server response''"
| "client_error_display sd (CeResponse err) = ''Server error while fetching token: '' @ err"

definition client_error_from :: "'j \<Rightarrow> 'j client_error" where
  "client_error_from err = CeInvalid err"

section \<open>The pages of the client\<close>

record client_page =
  cp_status :: nat
  cp_location :: "string option"
  cp_content_type :: "string option"
  cp_body :: string

definition body_page :: "nat \<Rightarrow> string \<Rightarrow> client_page" where
  "body_page status body =
     \<lparr> cp_status = status, cp_location = None, cp_content_type = None, cp_body = body \<rparr>"

definition found_page :: "string \<Rightarrow> client_page" where
  "found_page location =
     \<lparr> cp_status = 302, cp_location = Some location, cp_content_type = None, cp_body = [] \<rparr>"

text \<open>An error of the client is answered with its text.\<close>

definition page_of ::
  "('j \<Rightarrow> string) \<Rightarrow> ('s, 'a, 'j client_error) action \<Rightarrow> ('a \<Rightarrow> ('s, client_page, 'e) action)
    \<Rightarrow> ('s, client_page, 'e) action" where
  "page_of sd m f = (\<lambda>s. case m s of
      (Ok x, s') \<Rightarrow> f x s'
    | (Err err, s') \<Rightarrow> (Ok (body_page 500 (client_error_display sd err)), s')
    | (Panic, s') \<Rightarrow> (Panic, s'))"

definition endpoint_impl ::
  "'w transport \<Rightarrow> (string \<Rightarrow> client_token_map option) \<Rightarrow> ('j \<Rightarrow> string) \<Rightarrow> client_config \<Rightarrow> (string \<rightharpoonup> string)
    \<Rightarrow> ('w \<times> client_tokens rw_lock, client_page, 'e) action" where
  "endpoint_impl X J sd config query =
     (case query ''error'' of
        Some cause \<Rightarrow> ret (body_page 400 (''Error during owner authorization: '' @ debug_str cause))
      | None \<Rightarrow>
          (case query ''code'' of
             None \<Rightarrow> ret (body_page 400 ''Missing code'')
           | Some code \<Rightarrow> page_of sd (client_authorize X J config code) (\<lambda>_. ret (found_page ''/''))))"

definition client_refresh_page ::
  "'w transport \<Rightarrow> (string \<Rightarrow> client_token_map option) \<Rightarrow> ('j \<Rightarrow> string) \<Rightarrow> client_config
    \<Rightarrow> ('w \<times> client_tokens rw_lock, client_page, 'e) action" where
  "client_refresh_page X J sd config = page_of sd (client_refresh X J config) (\<lambda>_. ret (found_page ''/''))"

definition display_page :: "string \<Rightarrow> string \<Rightarrow> string" where
  "display_page token page =
     ''<html><style>'' @ newline
     @ ''            aside{overflow: auto; word-break: keep-all; white-space: nowrap}'' @ newline
     @ ''            main{text-align: center}'' @ newline
     @ ''            main>aside,main>article{margin: auto; text-align: left; border: 1px solid black; width: 50%}'' @ newline
     @ ''        </style>'' @ newline
     @ ''        <main>'' @ newline
     @ ''        Used token <aside style>'' @ token @ ''</aside> to access'' @ newline
     @ ''        <a href=\"http://localhost:8020/\">http://localhost:8020/</a>.'' @ newline
     @ ''        Its contents are:'' @ newline
     @ ''        <article>'' @ page @ ''</article>'' @ newline
     @ ''        <form action=\"refresh\" method=\"post\"><button>Refresh token</button></form>'' @ newline
     @ ''        </main></html>''"

definition get_with_token ::
  "'w transport \<Rightarrow> ('j \<Rightarrow> string) \<Rightarrow> client_config \<Rightarrow> ('w \<times> client_tokens rw_lock, client_page, 'e) action" where
  "get_with_token X sd config =
     page_of sd (retrieve_protected_page X config) (\<lambda>protected_page.
     bind_ac client_as_html (\<lambda>token.
     ret \<lparr> cp_status = 200, cp_location = None, cp_content_type = Some ''text/html'',
           cp_body = display_page token protected_page \<rparr>))"

text \<open>The client of the example and its routes.\<close>

definition dummy_client_config :: client_config where
  "dummy_client_config =
     \<lparr> cc_protected_url = ''http://localhost:8020/'', cc_token_url = ''http://localhost:8020/token'',
       cc_refresh_url = ''http://localhost:8020/refresh'', cc_client_id = ''LocalClient'',
       cc_redirect_uri = ''http://localhost:8021/endpoint'', cc_client_secret = None \<rparr>"

definition client_route ::
  "'w transport \<Rightarrow> (string \<Rightarrow> client_token_map option) \<Rightarrow> ('j \<Rightarrow> string) \<Rightarrow> client_config
    \<Rightarrow> string \<Rightarrow> string \<Rightarrow> (string \<rightharpoonup> string) \<Rightarrow> ('w \<times> client_tokens rw_lock, client_page, 'e) action option" where
  "client_route X J sd config verb path query =
     (if path = ''/endpoint'' \<and> verb = ''GET'' then Some (endpoint_impl X J sd config query)
      else if path = ''/refresh'' \<and> verb = ''POST'' then Some (client_refresh_page X J sd config)
      else if path = ''/'' \<and> verb = ''GET'' then Some (get_with_token X sd config)
      else None)"

section \<open>What the operations do to the token\<close>

lemma client_send_iff:
  "client_send X request error w = (Ok body, w') \<longleftrightarrow> tp_builds X request \<and> tp_execute X request w = (Some body, w')"
  by (auto simp: client_send_def split: prod.splits option.splits)

text \<open>
  Under the write lock: a panic poisons the lock and keeps the value, an error keeps both, and a
  success makes the change that is described.
\<close>

definition write_effect ::
  "client_tokens rw_lock \<Rightarrow> (client_tokens \<Rightarrow> bool) \<Rightarrow> (unit, 'e) outcome \<Rightarrow> client_tokens rw_lock \<Rightarrow> bool" where
  "write_effect l P r l' \<longleftrightarrow>
     (if lk_poisoned l then r = Panic \<and> l' = l
      else case r of
             Ok _ \<Rightarrow> P (lk_value l') \<and> \<not> lk_poisoned l'
           | Err _ \<Rightarrow> l' = l
           | Panic \<Rightarrow> l' = \<lparr> lk_value = lk_value l, lk_poisoned = True \<rparr>)"

lemma lock_write_effect:
  assumes "lock_write m (w, l) = (r, (w', l'))"
    and "\<And>v s x v' s'. m (v, s) = (Ok x, (v', s')) \<Longrightarrow> s = lk_value l \<Longrightarrow> P s'"
    and "\<And>v s x v' s'. m (v, s) = (x, (v', s')) \<Longrightarrow> (\<And>y. x \<noteq> Ok y) \<Longrightarrow> s' = s"
  shows "write_effect l P r l'"
proof (cases "lk_poisoned l")
  case False
  obtain w1 s1 where m: "m (w, lk_value l) = (r, (w1, s1))"
    and l': "l' = \<lparr> lk_value = s1, lk_poisoned = (case r of Panic \<Rightarrow> True | _ \<Rightarrow> False) \<rparr>"
    using assms(1) False by (auto simp: lock_write_def split: prod.splits)
  have "s1 = lk_value l" if "\<And>y. r \<noteq> Ok y"
    using assms(3) [OF m that] .
  then show ?thesis
    using assms(2) [of w "lk_value l" _ w1 s1] m l' False
    by (cases r) (auto simp: write_effect_def)
qed (use assms(1) in \<open>auto simp: lock_write_def write_effect_def\<close>)

lemma set_tokens_eq [simp]: "set_tokens f (w, s) = (Ok (), (w, f s))"
  by (simp add: set_tokens_def)

lemma on_world_iff: "on_world m (w, s) = (r, (w', s')) \<longleftrightarrow> m w = (r, w') \<and> s' = s"
  by (auto simp: on_world_def split: prod.splits)

lemma client_authorize_effect:
  assumes "client_authorize X J config code (w, l) = (r, (w', l'))"
  shows "write_effect l (\<lambda>s. ct_token s \<noteq> None) r l'"
  by (rule lock_write_effect [OF assms [unfolded client_authorize_def]])
    (auto simp: bind_ac_def on_world_iff split: prod.splits outcome.splits option.splits)

lemma client_refresh_effect:
  assumes "client_refresh X J config (w, l) = (r, (w', l'))"
  shows "write_effect l (\<lambda>s. ct_token s \<noteq> None \<and> ct_refresh s \<noteq> None) r l'"
  by (rule lock_write_effect [OF assms [unfolded client_refresh_def]])
    (auto simp: bind_ac_def on_world_iff split: prod.splits outcome.splits option.splits if_splits)

lemma lock_read_effect: "lock_read m (w, l) = (r, (w', l')) \<Longrightarrow> l' = l \<and> (lk_poisoned l \<longrightarrow> r = Panic \<and> w' = w)"
  by (auto simp: lock_read_def split: if_splits prod.splits)

text \<open>What a page of the client leaves of the token.\<close>

definition page_effect :: "string \<Rightarrow> client_tokens rw_lock \<Rightarrow> (client_page, 'e) outcome \<Rightarrow> client_tokens rw_lock \<Rightarrow> bool" where
  "page_effect path l r l' \<longleftrightarrow>
     (case r of
        Ok page \<Rightarrow>
          lk_poisoned l' = lk_poisoned l \<and>
          (if cp_status page = 302
           then ct_token (lk_value l') \<noteq> None \<and> (path = ''/refresh'' \<longrightarrow> ct_refresh (lk_value l') \<noteq> None)
           else l' = l)
      | Err _ \<Rightarrow> False
      | Panic \<Rightarrow> lk_value l' = lk_value l \<and> (if path = ''/'' then l' = l else lk_poisoned l')) \<and>
     (lk_poisoned l \<longrightarrow> l' = l \<and> (case r of Ok page \<Rightarrow> cp_status page = 400 | _ \<Rightarrow> True))"

lemma page_of_iff:
  "page_of sd m f s = (r, s') \<longleftrightarrow>
     (\<exists>x s1. m s = (Ok x, s1) \<and> f x s1 = (r, s')) \<or>
     (\<exists>err. m s = (Err err, s') \<and> r = Ok (body_page 500 (client_error_display sd err))) \<or>
     (m s = (Panic, s') \<and> r = Panic)"
  by (auto simp: page_of_def split: prod.splits outcome.splits)

lemma page_of_write_effect:
  assumes "page_of sd m (\<lambda>_. ret (found_page ''/'')) (w, l) = (r, (w', l'))"
    and "\<And>x v l2. m (w, l) = (x, (v, l2)) \<Longrightarrow> write_effect l P x l2"
    and "\<And>s. P s \<Longrightarrow> ct_token s \<noteq> None \<and> (path = ''/refresh'' \<longrightarrow> ct_refresh s \<noteq> None)" and "path \<noteq> ''/''"
  shows "page_effect path l r l'"
  using assms(1) unfolding page_of_iff ret_def
proof (elim disjE exE conjE)
  fix x s1
  assume "m (w, l) = (Ok x, s1)" "(Ok (found_page ''/''), s1) = (r, (w', l'))"
  then show ?thesis
    using assms(2) [of "Ok x" w' l'] assms(3) [of "lk_value l'"]
    by (auto simp: write_effect_def page_effect_def found_page_def split: if_splits)
next
  fix err
  assume "m (w, l) = (Err err, (w', l'))" "r = Ok (body_page 500 (client_error_display sd err))"
  then show ?thesis
    using assms(2) [of "Err err" w' l'] by (simp add: write_effect_def page_effect_def body_page_def split: if_splits)
next
  assume "m (w, l) = (Panic, (w', l'))" "r = Panic"
  then show ?thesis
    using assms(2) [of Panic w' l'] assms(4) by (simp add: write_effect_def page_effect_def split: if_splits)
qed

lemma client_as_html_eq:
  "client_as_html (w, l) =
     (if lk_poisoned l then (Panic, (w, l)) else (Ok (client_tokens_display (lk_value l)), (w, l)))"
  by (simp add: client_as_html_def lock_read_def)

lemma get_with_token_effect:
  assumes "get_with_token X sd config (w, l) = (r, (w', l'))"
  shows "page_effect ''/'' l r l'"
proof -
  have read: "l2 = l \<and> (lk_poisoned l \<longrightarrow> x = Panic)"
    if "retrieve_protected_page X config (w, l) = (x, (v, l2))" for x v l2
    using lock_read_effect [OF that [unfolded retrieve_protected_page_def]] by blast
  show ?thesis
    using assms unfolding get_with_token_def page_of_iff
    by (auto simp: page_effect_def body_page_def bind_ac_def ret_def client_as_html_eq split: if_splits dest!: read)
qed

lemma client_route_effect:
  assumes "client_route X J sd config verb path query = Some act" and "act (w, l) = (r, (w', l'))"
  shows "page_effect path l r l'"
proof -
  consider "path = ''/endpoint''" "act = endpoint_impl X J sd config query"
    | "path = ''/refresh''" "act = client_refresh_page X J sd config"
    | "path = ''/''" "act = get_with_token X sd config"
    using assms(1) by (auto simp: client_route_def split: if_splits)
  then show ?thesis
  proof cases
    case 1
    have authorized: "page_effect ''/endpoint'' l r l'"
      if "page_of sd (client_authorize X J config code) (\<lambda>_. ret (found_page ''/'')) (w, l) = (r, (w', l'))" for code
      by (rule page_of_write_effect [OF that client_authorize_effect]) simp_all
    have refused: "page_effect ''/endpoint'' l r l'" if "ret (body_page 400 body) (w, l) = (r, (w', l'))" for body
      using that by (auto simp: ret_def page_effect_def body_page_def)
    show ?thesis
      using assms(2) unfolding 1 endpoint_impl_def by (cases "query ''error''"; cases "query ''code''")
        (auto simp only: option.case intro: authorized refused)
  next
    case 2
    show ?thesis
      by (rule page_of_write_effect [OF assms(2) [unfolded 2 client_refresh_page_def] client_refresh_effect])
        (simp_all add: 2)
  next
    case 3
    then show ?thesis using get_with_token_effect assms(2) by simp
  qed
qed

section \<open>The client and the server\<close>

text \<open>
  The transport that reaches the server: \<open>D\<close> is what the framework makes of a request. A reply is
  written with its body, an error of a route with its text; a panic leaves no response.
\<close>

definition server_transport ::
  "('u, 'x) site \<Rightarrow> ('w, 'u, 'x actix_response, actix_error) generic \<Rightarrow> string \<Rightarrow> (http_request \<Rightarrow> call option)
    \<Rightarrow> 'w transport" where
  "server_transport T G header_error D = \<lparr>
     tp_builds = (\<lambda>q. D q \<noteq> None),
     tp_execute = (\<lambda>q w.
       case Option.bind (D q) (example_route T G) of
         None \<Rightarrow> (Some (Some []), w)
       | Some act \<Rightarrow>
           (case act w of
              (Ok reply, w') \<Rightarrow> (Some (Some (hr_body (actix_respond_to reply))), w')
            | (Err e, w') \<Rightarrow> (Some (Some (actix_error_display header_error e)), w')
            | (Panic, w') \<Rightarrow> (None, w'))) \<rparr>"

text \<open>
  What is relied on of the HTTP client and the extractors, for a request without a password: method,
  path, form and authorization header arrive as they were sent. And of the decoder: it reads a token
  response as it was written.
\<close>

definition delivers :: "(http_request \<Rightarrow> call option) \<Rightarrow> clock \<Rightarrow> http_request \<Rightarrow> string \<Rightarrow> bool" where
  "delivers D ck q path \<longleftrightarrow>
     (\<exists>c. D q = Some c \<and> cl_method c = hq_method q \<and> cl_path c = path \<and> cl_clock c = ck \<and> cl_mailbox c = None \<and>
        (case hq_form q of
           Some form \<Rightarrow> (\<exists>body. xh_form (cl_http c) = Some body \<and> np_unique_value body = form)
         | None \<Rightarrow> True) \<and>
        xh_authorization (cl_http c) = (case hq_authorization q of Some a \<Rightarrow> [Some a] | None \<Rightarrow> []))"

definition decodes_tokens :: "wire_lib \<Rightarrow> (string \<Rightarrow> client_token_map option) \<Rightarrow> bool" where
  "decodes_tokens W J \<longleftrightarrow>
     (\<forall>t ty sc. tr_token_type t = Some ty \<longrightarrow> tr_scope t = Some sc \<longrightarrow>
        J (wl_token_json W t) = Some \<lparr> ctm_token_type = ty, ctm_scope = sc, ctm_access_token = tr_access_token t,
          ctm_refresh_token = tr_refresh_token t, ctm_expires_in = tr_expires_in t, ctm_error = tr_error t \<rparr>)"

definition delivered :: "(http_request \<Rightarrow> call option) \<Rightarrow> http_request \<Rightarrow> call" where
  "delivered D q = (case D q of Some c \<Rightarrow> c | None \<Rightarrow> undefined)"

lemma deliversE:
  assumes "delivers D ck q path"
  shows "D q = Some (delivered D q)" "cl_method (delivered D q) = hq_method q" "cl_path (delivered D q) = path"
    "cl_clock (delivered D q) = ck" "cl_mailbox (delivered D q) = None"
    "xh_authorization (cl_http (delivered D q)) = (case hq_authorization q of Some a \<Rightarrow> [Some a] | None \<Rightarrow> [])"
    "hq_form q = Some form \<Longrightarrow> \<exists>body. xh_form (cl_http (delivered D q)) = Some body \<and> np_unique_value body = form"
  using assms by (auto simp: delivers_def delivered_def)

lemma send_to_server:
  assumes "delivers D ck q path" and "example_route T G (delivered D q) = Some act" and "act w = (Ok reply, w')"
  shows "client_send (server_transport T G h D) q e w = (Ok (Some (case axp_body reply of Some b \<Rightarrow> b | None \<Rightarrow> [])), w')"
  using assms(2,3) deliversE(1) [OF assms(1)]
  by (simp add: client_send_def server_transport_def actix_respond_to_def)

text \<open>The requests of the example client are those of a login.\<close>

lemma dummy_redeems:
  assumes "delivers D ck (code_request_of dummy_client_config code) ''/token''"
  shows "redeems (delivered D (code_request_of dummy_client_config code)) code"
proof -
  note d = deliversE [OF assms]
  have q: "hq_form (code_request_of dummy_client_config code) = Some ([''grant_type'' \<mapsto> ''authorization_code'', ''code'' \<mapsto> code,
      ''redirect_uri'' \<mapsto> ''http://localhost:8021/endpoint'', ''client_id'' \<mapsto> ''LocalClient''])"
    "hq_authorization (code_request_of dummy_client_config code) = None"
    by (simp_all add: code_request_of_def client_request_def dummy_client_config_def)
  obtain body where "xh_form (cl_http (delivered D (code_request_of dummy_client_config code))) = Some body"
    "np_unique_value body = [''grant_type'' \<mapsto> ''authorization_code'', ''code'' \<mapsto> code,
      ''redirect_uri'' \<mapsto> ''http://localhost:8021/endpoint'', ''client_id'' \<mapsto> ''LocalClient'']"
    using d(7) [OF q(1)] by blast
  then show ?thesis
    using d(5,6) q(2) by (simp add: redeems_def actix_from_request_def actix_request_new_def)
qed

lemma dummy_presents:
  assumes "delivers D ck (page_request_of dummy_client_config token) ''/''"
  shows "presents (delivered D (page_request_of dummy_client_config token)) token"
  using deliversE [OF assms] by (simp add: presents_def page_request_of_def)

text \<open>The client's operations on a good answer.\<close>

lemma client_authorize_runs:
  assumes "client_send X (code_request_of config code) (CeAuthorizationFailed :: 'j client_error) w = (Ok (Some body), w')"
    and "J body = Some m" and "ctm_error m = None" and "ctm_access_token m = Some token" and "\<not> lk_poisoned l"
  shows "client_authorize X J config code (w, l) =
    (Ok () :: (_, 'j client_error) outcome, (w', rw_lock_new \<lparr> ct_token = Some token, ct_refresh = ctm_refresh_token m, ct_until = ctm_expires_in m \<rparr>))"
  using assms
  by (simp add: client_authorize_def lock_write_def bind_ac_def on_world_def parse_token_response_def rw_lock_new_def)

lemma retrieve_runs:
  assumes "ct_token (lk_value l) = Some token" and "\<not> lk_poisoned l"
    and "client_send X (page_request_of config token) (CeAccessFailed :: 'j client_error) w = (Ok (Some body), w')"
  shows "retrieve_protected_page X config (w, l) = (Ok body :: (_, 'j client_error) outcome, (w', l))"
  using assms by (simp add: retrieve_protected_page_def lock_read_def bind_ac_def)

lemma get_with_token_runs:
  fixes sd :: "'j \<Rightarrow> string"
  assumes "retrieve_protected_page X config (w, l) = (Ok body :: (_, 'j client_error) outcome, (w', l))" and "\<not> lk_poisoned l"
  shows "get_with_token X sd config (w, l) =
    (Ok \<lparr> cp_status = 200, cp_location = None, cp_content_type = Some ''text/html'',
          cp_body = display_page (client_tokens_display (lk_value l)) body \<rparr>, (w', l))"
  using assms by (simp add: get_with_token_def page_of_def bind_ac_def client_as_html_eq)

lemma endpoint_impl_runs:
  fixes sd :: "'j \<Rightarrow> string"
  assumes "query ''error'' = None" and "query ''code'' = Some code"
    and "client_authorize X J config code (w, l) = (Ok () :: (_, 'j client_error) outcome, s)"
  shows "endpoint_impl X J sd config query (w, l) = (Ok (found_page ''/''), s)"
  using assms by (simp add: endpoint_impl_def page_of_def)

text \<open>From the consent of the owner to the page at the client.\<close>

lemma client_login:
  fixes L :: "('g, 'h, 'u, 'r) server_lib" and T :: "('u, 'x) site" and sd :: "'j \<Rightarrow> string"
  defines "X \<equiv> \<lambda>h D. server_transport T (state_generic T L) h D"
  assumes store: "server_store L hash num healthy" and site: "st_url T = sl_url L"
    and pre: "preconfigured L salt code_generator token_generator redis = Ok s"
    and up: "healthy redis" "num redis ''oauth2:authmap_usage'' \<noteq> Some (- 1)"
      "fresh_codes hash L redis" "fresh_tokens hash L redis"
    and valid: "\<And>url. hv_valid (st_headers T) (url_as_str (sl_url L) url)"
      "hv_valid (st_headers T) ''text/plain''" "hv_valid (st_headers T) ''application/json''"
    and consent: "consents c"
    and token: "\<And>code. delivers D tclock (code_request_of dummy_client_config code) ''/token''"
    and page: "\<And>token. delivers D iclock (page_request_of dummy_client_config token) ''/''"
    and decode: "decodes_tokens (st_wire T) J"
    and times: "ck_now tclock \<le> ck_now (cl_clock c) + days 1" "ck_now iclock \<le> ck_now (cl_clock c) + days 1"
  shows "\<exists>url pairs code s1 s2 s3 tokens.
    url_parse (sl_url L) ''http://localhost:8021/endpoint'' = Some url \<and>
    post_authorize T (state_generic T L) c s =
      (site_redirect T (url_extend_pairs (sl_url L) url ((''code'', code) # pairs)), s1) \<and>
    (\<forall>query l. query ''error'' = None \<longrightarrow> query ''code'' = Some code \<longrightarrow> \<not> lk_poisoned l \<longrightarrow>
       endpoint_impl (X h D) J sd dummy_client_config query (s1, l) = (Ok (found_page ''/''), (s2, rw_lock_new tokens))) \<and>
    get_with_token (X h D) sd dummy_client_config (s2, rw_lock_new tokens) =
      (Ok \<lparr> cp_status = 200, cp_location = None, cp_content_type = Some ''text/html'',
            cp_body = display_page (client_tokens_display tokens) ''Hello world!'' \<rparr>, (s3, rw_lock_new tokens))"
proof -
  let ?G = "state_generic T L" and ?cfg = dummy_client_config
  let ?tc = "\<lambda>code. delivered D (code_request_of ?cfg code)" and ?ic = "\<lambda>token. delivered D (page_request_of ?cfg token)"
  obtain url pairs code t s1 s2 s3 where url: "url_parse (sl_url L) ''http://localhost:8021/endpoint'' = Some url"
    and 1: "post_authorize T ?G c s = (site_redirect T (url_extend_pairs (sl_url L) url ((''code'', code) # pairs)), s1)"
    and 2: "token_route T ?G (?tc code) s1 = (Ok (typed_reply T ''application/json'' (wl_token_json (st_wire T)
      (bearer_to_json (ck_reply tclock) (BearerToken t (scope_to_string (st_order T) default_scope))))), s2)"
    and 3: "index_route T ?G (?ic (it_token t)) s2 = (Ok (typed_reply T ''text/plain'' ''Hello world!''), s3)"
    using login_opens_page [where tc = ?tc and ic = ?ic and tclock = tclock and iclock = iclock,
        OF store site pre up valid consent dummy_redeems [OF token] dummy_presents [OF page]
          deliversE(4) [OF token] deliversE(4) [OF page] times]
    by blast
  let ?m = "bearer_to_json (ck_reply tclock) (BearerToken t (scope_to_string (st_order T) default_scope))"
  let ?tokens = "\<lparr> ct_token = Some (it_token t), ct_refresh = tr_refresh_token ?m, ct_until = tr_expires_in ?m \<rparr>"
  have routes: "example_route T ?G (?tc code) = Some (token_route T ?G (?tc code))"
    "example_route T ?G (?ic (it_token t)) = Some (index_route T ?G (?ic (it_token t)))"
    using deliversE(2,3) [OF token] deliversE(2,3) [OF page]
    by (simp_all add: example_route_def code_request_of_def client_request_def dummy_client_config_def page_request_of_def)
  have sent: "client_send (X h D) (code_request_of ?cfg code) e s1 = (Ok (Some (wl_token_json (st_wire T) ?m)), s2)"
    for e :: "'j client_error"
    using send_to_server [OF token routes(1) 2] by (simp add: X_def typed_reply_def)
  have decoded: "J (wl_token_json (st_wire T) ?m) = Some \<lparr> ctm_token_type = ''bearer'',
      ctm_scope = scope_to_string (st_order T) default_scope, ctm_access_token = tr_access_token ?m,
      ctm_refresh_token = tr_refresh_token ?m, ctm_expires_in = tr_expires_in ?m, ctm_error = tr_error ?m \<rparr>"
    using decode unfolding decodes_tokens_def by simp
  have authorized: "client_authorize (X h D) J ?cfg code (s1, l) = (Ok () :: (_, 'j client_error) outcome, (s2, rw_lock_new ?tokens))"
    if "\<not> lk_poisoned l" for l
    by (subst client_authorize_runs [where J = J, OF sent decoded _ _ that]) simp_all
  have login: "endpoint_impl (X h D) J sd ?cfg query (s1, l) = (Ok (found_page ''/''), (s2, rw_lock_new ?tokens))"
    if "query ''error'' = None" "query ''code'' = Some code" "\<not> lk_poisoned l" for query l
    by (rule endpoint_impl_runs [OF that(1,2) authorized [OF that(3)]])
  have "client_send (X h D) (page_request_of ?cfg (it_token t)) e s2 = (Ok (Some ''Hello world!''), s3)" for e :: "'j client_error"
    using send_to_server [OF page routes(2) 3] by (simp add: X_def typed_reply_def)
  then have "retrieve_protected_page (X h D) ?cfg (s2, rw_lock_new ?tokens)
      = (Ok ''Hello world!'' :: (_, 'j client_error) outcome, (s3, rw_lock_new ?tokens))"
    by (intro retrieve_runs) (simp_all add: rw_lock_new_def)
  then have "get_with_token (X h D) sd ?cfg (s2, rw_lock_new ?tokens) =
      (Ok \<lparr> cp_status = 200, cp_location = None, cp_content_type = Some ''text/html'',
            cp_body = display_page (client_tokens_display ?tokens) ''Hello world!'' \<rparr>, (s3, rw_lock_new ?tokens))"
    using get_with_token_runs [where l = "rw_lock_new ?tokens" and sd = sd] by (simp add: rw_lock_new_def)
  then show ?thesis using url 1 login by blast
qed

text \<open>A refresh at the client: the answer has no refresh token, so the old one is kept.\<close>

lemma dummy_renews:
  assumes "delivers D ck (refresh_request_of dummy_client_config f) ''/refresh''"
  shows "renews (delivered D (refresh_request_of dummy_client_config f)) f"
proof -
  note d = deliversE [OF assms]
  have q: "hq_form (refresh_request_of dummy_client_config f) = Some ([''grant_type'' \<mapsto> ''refresh_token'',
      ''refresh_token'' \<mapsto> f, ''client_id'' \<mapsto> ''LocalClient''])"
    "hq_authorization (refresh_request_of dummy_client_config f) = None"
    by (simp_all add: refresh_request_of_def client_request_def dummy_client_config_def)
  obtain body where "xh_form (cl_http (delivered D (refresh_request_of dummy_client_config f))) = Some body"
    "np_unique_value body = [''grant_type'' \<mapsto> ''refresh_token'', ''refresh_token'' \<mapsto> f, ''client_id'' \<mapsto> ''LocalClient'']"
    using d(7) [OF q(1)] by blast
  then show ?thesis
    using d(5,6) q(2) by (simp add: renews_def actix_from_request_def actix_request_new_def)
qed

lemma client_refresh_runs:
  assumes "ct_refresh (lk_value l) = Some f" and "\<not> lk_poisoned l"
    and "client_send X (refresh_request_of config f) (CeRefreshFailed :: 'j client_error) w = (Ok (Some body), w')"
    and "J body = Some m" and "ctm_error m = None" and "ctm_access_token m = Some token"
  shows "client_refresh X J config (w, l) =
    (Ok () :: (_, 'j client_error) outcome, (w', rw_lock_new \<lparr> ct_token = Some token,
       ct_refresh = (case ctm_refresh_token m of Some r \<Rightarrow> Some r | None \<Rightarrow> Some f), ct_until = ctm_expires_in m \<rparr>))"
  using assms
  by (simp add: client_refresh_def lock_write_def bind_ac_def on_world_def parse_token_response_def rw_lock_new_def
      split: option.split)

lemma client_renewal:
  fixes L :: "('g, 'h, 'u, 'r) server_lib" and T :: "('u, 'x) site"
  defines "X \<equiv> \<lambda>h D. server_transport T (state_generic T L) h D"
  assumes store: "server_store L hash num healthy"
    and up: "healthy (sv_redis s)" "linked_tokens (hash (sv_redis s)) (sl_token_codec L) f old"
      "num (sv_redis s) ''oauth2:tokenmap_usage'' = Some u"
      "g' = renewed_grant (ck_again ck) (ck_issue ck) (sv_issuer s) (tk_grant old)"
      "sl_token_tagger L u g' (tm_generator (sv_issuer s)) = (Ok a, gt)"
      "hash (sv_redis s) ''oauth2:tokenmap_access'' a = None"
    and check: "rg_check (server_registrar L s) (g_client_id (tk_grant old)) None = Ok ()"
    and times: "ck_now ck < g_until (tk_grant old)" "ck_now pck \<le> g_until g'"
    and scope: "list_ex (\<lambda>sc. allow_access (g_scope (tk_grant old)) sc) (sv_scopes s)"
    and valid: "hv_valid (st_headers T) ''text/plain''" "hv_valid (st_headers T) ''application/json''"
      "hv_valid (st_headers T) (unknown_token_header T (sv_scopes s))"
    and renew: "delivers D ck (refresh_request_of dummy_client_config f) ''/refresh''"
    and page: "\<And>token. delivers D pck (page_request_of dummy_client_config token) ''/''"
    and decode: "decodes_tokens (st_wire T) J"
    and lock: "ct_refresh (lk_value l) = Some f" "\<not> lk_poisoned l"
    and stale: "ct_token (lk_value l') = Some (tk_access old)" "\<not> lk_poisoned l'"
  shows "\<exists>s1 s2 s3 tokens.
    client_refresh (X h D) J dummy_client_config (s, l) = (Ok () :: (_, 'j client_error) outcome, (s1, rw_lock_new tokens)) \<and>
    ct_token tokens = Some a \<and> ct_refresh tokens = Some f \<and>
    retrieve_protected_page (X h D) dummy_client_config (s1, rw_lock_new tokens) =
      (Ok ''Hello world!'' :: (_, 'j client_error) outcome, (s2, rw_lock_new tokens)) \<and>
    retrieve_protected_page (X h D) dummy_client_config (s1, l') =
      (Ok deny_text :: (_, 'j client_error) outcome, (s3, l'))"
proof -
  let ?G = "state_generic T L" and ?cfg = dummy_client_config
  let ?c = "delivered D (refresh_request_of ?cfg f)" and ?ic = "\<lambda>token. delivered D (page_request_of ?cfg token)"
  have clocks: "cl_clock ?c = ck" "cl_clock (?ic token) = pck" for token
    by (rule deliversE(4) [OF renew] deliversE(4) [OF page])+
  let ?m = "rf_bearer_to_json (ck_reply ck) (RfBearerToken (renewed_token a g') (scope_to_string (st_order T) (g_scope (tk_grant old))))"
  obtain s1 s2 s3 where
    1: "refresh_route T ?G ?c s = (Ok (typed_reply T ''application/json'' (wl_token_json (st_wire T) ?m)), s1)"
    and 2: "index_route T ?G (?ic a) s1 = (Ok (typed_reply T ''text/plain'' ''Hello world!''), s2)"
    and 3: "index_route T ?G (?ic (tk_access old)) s1 = (Ok (denied_reply T (sv_scopes s)), s3)"
    using renewal_served [where c = ?c and ic = "?ic a" and oc = "?ic (tk_access old)" and T = T, unfolded clocks,
        OF store up check times scope valid dummy_renews [OF renew] dummy_presents [OF page] dummy_presents [OF page]]
    by blast
  have routes: "example_route T ?G ?c = Some (refresh_route T ?G ?c)"
    "example_route T ?G (?ic token) = Some (index_route T ?G (?ic token))" for token
    using deliversE(2,3) [OF renew] deliversE(2,3) [OF page]
    by (simp_all add: example_route_def refresh_request_of_def client_request_def dummy_client_config_def page_request_of_def)
  let ?tokens = "\<lparr> ct_token = Some a, ct_refresh = Some f, ct_until = tr_expires_in ?m \<rparr>"
  have sent: "client_send (X h D) (refresh_request_of ?cfg f) e s = (Ok (Some (wl_token_json (st_wire T) ?m)), s1)"
    for e :: "'j client_error"
    using send_to_server [OF renew routes(1) 1] by (simp add: X_def typed_reply_def)
  have decoded: "J (wl_token_json (st_wire T) ?m) = Some \<lparr> ctm_token_type = ''bearer'',
      ctm_scope = scope_to_string (st_order T) (g_scope (tk_grant old)), ctm_access_token = tr_access_token ?m,
      ctm_refresh_token = tr_refresh_token ?m, ctm_expires_in = tr_expires_in ?m, ctm_error = tr_error ?m \<rparr>"
    using decode unfolding decodes_tokens_def by simp
  have "client_refresh (X h D) J ?cfg (s, l) = (Ok () :: (_, 'j client_error) outcome, (s1, rw_lock_new ?tokens))"
    by (subst client_refresh_runs [where J = J, OF lock sent decoded]) (simp_all add: renewed_token_def)
  moreover have "client_send (X h D) (page_request_of ?cfg a) e s1 = (Ok (Some ''Hello world!''), s2)" for e :: "'j client_error"
    using send_to_server [OF page routes(2) 2] by (simp add: X_def typed_reply_def)
  then have "retrieve_protected_page (X h D) ?cfg (s1, rw_lock_new ?tokens)
      = (Ok ''Hello world!'' :: (_, 'j client_error) outcome, (s2, rw_lock_new ?tokens))"
    by (intro retrieve_runs) (simp_all add: rw_lock_new_def)
  moreover have "client_send (X h D) (page_request_of ?cfg (tk_access old)) e s1 = (Ok (Some deny_text), s3)"
    for e :: "'j client_error"
    using send_to_server [OF page routes(2) 3] by (simp add: X_def denied_reply_def)
  then have "retrieve_protected_page (X h D) ?cfg (s1, l') = (Ok deny_text :: (_, 'j client_error) outcome, (s3, l'))"
    by (rule retrieve_runs [OF stale])
  ultimately show ?thesis
    by (intro exI [of _ s1] exI [of _ s2] exI [of _ s3] exI [of _ ?tokens]) simp
qed

section \<open>An example\<close>

definition response_text :: "token_response \<Rightarrow> string" where
  "response_text t = quote_list [opt_text (tr_access_token t), opt_text (tr_refresh_token t),
     opt_text (tr_token_type t), opt_text (map_option int_text (tr_expires_in t)), opt_text (tr_scope t),
     opt_text (tr_error t)]"

definition text_response :: "string \<Rightarrow> client_token_map option" where
  "text_response s =
     (case unquoted s of
        Some [acc, ref, typ, expi, scop, err] \<Rightarrow>
          (case (text_opt typ, text_opt scop) of
             (Some ty, Some sc) \<Rightarrow>
               Some \<lparr> ctm_token_type = ty, ctm_scope = sc, ctm_access_token = text_opt acc,
                 ctm_refresh_token = text_opt ref, ctm_expires_in = map_option text_int (text_opt expi),
                 ctm_error = text_opt err \<rparr>
           | _ \<Rightarrow> None)
      | _ \<Rightarrow> None)"

definition client_site_lib :: "(string, string \<Rightarrow> string option) site" where
  "client_site_lib = example_site_lib\<lparr> st_wire := example_wire\<lparr> wl_token_json := response_text \<rparr> \<rparr>"

lemma client_site_parts:
  "st_url client_site_lib = url_identity" "hv_valid (st_headers client_site_lib) v" "st_order client_site_lib = example_order"
  by (simp_all add: client_site_lib_def example_site_lib_def lenient_header_lib_def)

lemma text_response_decodes: "decodes_tokens (st_wire client_site_lib) text_response"
proof -
  have "map_option (text_int \<circ> int_text) x = x" for x :: "int option"
    by (cases x) simp_all
  then show ?thesis
    by (simp add: decodes_tokens_def client_site_lib_def response_text_def text_response_def option.map_comp)
qed

definition example_deliver :: "http_request \<Rightarrow> call option" where
  "example_deliver q = Some \<lparr> cl_method = hq_method q, cl_path = drop 21 (hq_url q), cl_query_string = [],
     cl_http = \<lparr> xh_query = Some (np_from_iter []),
       xh_form = map_option (\<lambda>form. np_from_iter (List.map_filter (\<lambda>k. map_option (Pair k) (form k))
         [''grant_type'', ''code'', ''redirect_uri'', ''client_id'', ''refresh_token''])) (hq_form q),
       xh_authorization = (case hq_authorization q of Some a \<Rightarrow> [Some a] | None \<Rightarrow> []) \<rparr>,
     cl_clock = example_clock, cl_mailbox = None \<rparr>"

lemma example_delivers:
  "delivers example_deliver example_clock (code_request_of dummy_client_config code) ''/token''"
  "delivers example_deliver example_clock (refresh_request_of dummy_client_config f) ''/refresh''"
  "delivers example_deliver example_clock (page_request_of dummy_client_config token) ''/''"
  by (simp_all add: delivers_def example_deliver_def code_request_of_def refresh_request_of_def page_request_of_def
      client_request_def dummy_client_config_def numeral_eq_Suc map_filter_simps fun_eq_iff np_unique_value_def
      np_from_iter_def np_new_def insert_or_poison_def)

section \<open>Properties\<close>

text \<open>
  C31: what the client's pages leave of its token. Whatever the server and the network answer: a page
  that redirects has stored an access token (the refresh page also has a refresh token), any other
  answer leaves the client as it was. A panic keeps the token; while it is being replaced it poisons
  the lock, and a poisoned client only answers requests that carry no code, or panics again.
\<close>

theorem client_pages_keep_token:
  fixes sd :: "'j \<Rightarrow> string"
  assumes "client_route X J sd config verb path query = Some act" and "act (w, l) = (r, (w', l'))"
  shows "(case r of
      Ok page \<Rightarrow>
        lk_poisoned l' = lk_poisoned l \<and>
        (if cp_status page = 302
         then ct_token (lk_value l') \<noteq> None \<and> (path = ''/refresh'' \<longrightarrow> ct_refresh (lk_value l') \<noteq> None)
         else l' = l)
    | Err _ \<Rightarrow> False
    | Panic \<Rightarrow> lk_value l' = lk_value l \<and> (if path = ''/'' then l' = l else lk_poisoned l')) \<and>
    (lk_poisoned l \<longrightarrow> l' = l \<and> (case r of Ok page \<Rightarrow> cp_status page = 400 | _ \<Rightarrow> True))"
  using client_route_effect [OF assms] unfolding page_effect_def .

text \<open>A transport with one answer for everything.\<close>

definition constant_transport :: "string option option \<Rightarrow> unit transport" where
  "constant_transport answer = \<lparr> tp_builds = (\<lambda>q. True), tp_execute = (\<lambda>q w. (answer, w)) \<rparr>"

theorem client_pages_keep_token_witness:
  "\<exists>act page l'. client_route (constant_transport (Some (Some ''denied''))) text_response (\<lambda>e :: unit. []) dummy_client_config
      ''GET'' ''/endpoint'' [''code'' \<mapsto> ''c''] = Some act \<and>
    act ((), rw_lock_new client_tokens_default) = (Ok page :: (_, unit) outcome, ((), l')) \<and>
    cp_status page = 500 \<and> l' = rw_lock_new client_tokens_default"
proof -
  let ?X = "constant_transport (Some (Some ''denied''))" and ?q = "[''code'' \<mapsto> ''c''] :: string \<rightharpoonup> string"
  let ?sd = "\<lambda>e :: unit. []" and ?l = "rw_lock_new client_tokens_default"
  have r: "client_route ?X text_response ?sd dummy_client_config ''GET'' ''/endpoint'' ?q
      = Some (endpoint_impl ?X text_response ?sd dummy_client_config ?q)"
    by (simp add: client_route_def)
  have "text_response ''denied'' = None" by code_simp
  then obtain l' where run: "endpoint_impl ?X text_response ?sd dummy_client_config ?q ((), ?l) =
      (Ok (body_page 500 ''Server error while fetching token: denied'') :: (_, unit) outcome, ((), l'))"
    by (simp add: endpoint_impl_def page_of_def client_authorize_def lock_write_def bind_ac_def on_world_def
        client_send_def constant_transport_def parse_token_response_def rw_lock_new_def)
  show ?thesis
    using client_pages_keep_token [OF r run] r run by (auto simp: body_page_def)
qed

text \<open>
  C15: the client logs in. Let the preconfigured server run on a healthy store with fresh codes and
  tokens, and let the owner's answer arrive with the word \<open>allow\<close>. Then the server redirects to the
  registered URL with a code; the client that is called with this code obtains a token over HTTP and
  redirects to its front page; and the front page shows the protected page of the server.
\<close>

theorem client_logs_in:
  fixes L :: "('g, 'h, 'u, 'r) server_lib" and T :: "('u, 'x) site" and sd :: "'j \<Rightarrow> string"
  assumes "redis_store (sl_redis L) hash num healthy" and "codec_ok (sl_grant_codec L)"
    and "codec_ok (sl_token_codec L)" and "st_url T = sl_url L"
    and "preconfigured L salt code_generator token_generator redis = Ok s"
    and "healthy redis" and "num redis ''oauth2:authmap_usage'' \<noteq> Some (- 1)"
    and "fresh_codes hash L redis" and "fresh_tokens hash L redis"
    and "\<And>url. hv_valid (st_headers T) (url_as_str (sl_url L) url)"
    and "hv_valid (st_headers T) ''text/plain''" and "hv_valid (st_headers T) ''application/json''"
    and "consents c"
    and "\<And>code. delivers D tclock (code_request_of dummy_client_config code) ''/token''"
    and "\<And>token. delivers D pclock (page_request_of dummy_client_config token) ''/''"
    and "decodes_tokens (st_wire T) J"
    and "ck_now tclock \<le> ck_now (cl_clock c) + days 1" and "ck_now pclock \<le> ck_now (cl_clock c) + days 1"
  shows "\<exists>url pairs code s1 s2 s3 tokens.
    url_parse (sl_url L) ''http://localhost:8021/endpoint'' = Some url \<and>
    post_authorize T (state_generic T L) c s =
      (site_redirect T (url_extend_pairs (sl_url L) url ((''code'', code) # pairs)), s1) \<and>
    (\<forall>query l. query ''error'' = None \<longrightarrow> query ''code'' = Some code \<longrightarrow> \<not> lk_poisoned l \<longrightarrow>
       endpoint_impl (server_transport T (state_generic T L) h D) J sd dummy_client_config query (s1, l) =
         (Ok (found_page ''/''), (s2, rw_lock_new tokens))) \<and>
    get_with_token (server_transport T (state_generic T L) h D) sd dummy_client_config (s2, rw_lock_new tokens) =
      (Ok \<lparr> cp_status = 200, cp_location = None, cp_content_type = Some ''text/html'',
            cp_body = display_page (client_tokens_display tokens) ''Hello world!'' \<rparr>, (s3, rw_lock_new tokens))"
  by (rule client_login [OF server_storeI [OF assms(1-3)] assms(4-18)])

theorem client_logs_in_witness:
  "\<exists>code s1 s2 s3 tokens reply.
    post_authorize client_site_lib (state_generic client_site_lib example_server_lib) example_consent_call example_state
      = (Ok reply, s1) \<and>
    endpoint_impl (server_transport client_site_lib (state_generic client_site_lib example_server_lib) [] example_deliver)
      text_response (\<lambda>e :: unit. []) dummy_client_config [''code'' \<mapsto> code] (s1, rw_lock_new client_tokens_default) =
        (Ok (found_page ''/'') :: (_, unit) outcome, (s2, rw_lock_new tokens)) \<and>
    get_with_token (server_transport client_site_lib (state_generic client_site_lib example_server_lib) [] example_deliver)
      (\<lambda>e :: unit. []) dummy_client_config (s2, rw_lock_new tokens) =
        (Ok \<lparr> cp_status = 200, cp_location = None, cp_content_type = Some ''text/html'',
              cp_body = display_page (client_tokens_display tokens) ''Hello world!'' \<rparr> :: (_, unit) outcome,
         (s3, rw_lock_new tokens))"
proof -
  let ?T = client_site_lib and ?L = example_server_lib and ?l = "rw_lock_new client_tokens_default"
  have L: "sl_redis ?L = mem_ops" "sl_url ?L = url_identity" "sl_grant_codec ?L = grant_codec" "sl_token_codec ?L = token_codec"
    by simp_all
  have times: "ck_now example_clock \<le> ck_now (cl_clock example_consent_call) + days 1"
    by (simp add: example_clocks days_def seconds_def)
  have usage: "mr_num mem_empty ''oauth2:authmap_usage'' \<noteq> Some (- 1)" by (simp add: mem_empty_def)
  let ?X = "server_transport ?T (state_generic ?T ?L) [] example_deliver" and ?sd = "\<lambda>e :: unit. []"
  have "\<exists>url pairs code s1 s2 s3 tokens.
      url_parse url_identity ''http://localhost:8021/endpoint'' = Some url \<and>
      post_authorize ?T (state_generic ?T ?L) example_consent_call example_state =
        (site_redirect ?T (url_extend_pairs (url_identity) url ((''code'', code) # pairs)), s1) \<and>
      (\<forall>query l. query ''error'' = None \<longrightarrow> query ''code'' = Some code \<longrightarrow> \<not> lk_poisoned l \<longrightarrow>
         endpoint_impl ?X text_response ?sd dummy_client_config query (s1, l) =
           (Ok (found_page ''/'') :: (_, unit) outcome, (s2, rw_lock_new tokens))) \<and>
      get_with_token ?X ?sd dummy_client_config (s2, rw_lock_new tokens) =
        (Ok \<lparr> cp_status = 200, cp_location = None, cp_content_type = Some ''text/html'',
              cp_body = display_page (client_tokens_display tokens) ''Hello world!'' \<rparr> :: (_, unit) outcome,
         (s3, rw_lock_new tokens))"
    by (rule client_logs_in [where L = ?L and T = ?T and hash = mr_hash and num = mr_num and healthy = mem_healthy
          and tclock = example_clock and pclock = example_clock, unfolded L,
          OF mem_redis_store grant_codec_ok token_codec_ok client_site_parts(1) example_preconfigured mem_healthy_empty
          usage example_fresh client_site_parts(2) client_site_parts(2) client_site_parts(2) example_requests(1)
          example_delivers(1) example_delivers(3) text_response_decodes times times])
  then obtain url pairs code s1 s2 s3 tokens where
    1: "post_authorize ?T (state_generic ?T ?L) example_consent_call example_state =
      (site_redirect ?T (url_extend_pairs (url_identity) url ((''code'', code) # pairs)), s1)"
    and 2: "\<And>query l. query ''error'' = None \<Longrightarrow> query ''code'' = Some code \<Longrightarrow> \<not> lk_poisoned l \<Longrightarrow>
       endpoint_impl ?X text_response ?sd dummy_client_config query (s1, l) =
         (Ok (found_page ''/'') :: (_, unit) outcome, (s2, rw_lock_new tokens))"
    and 3: "get_with_token ?X ?sd dummy_client_config (s2, rw_lock_new tokens) =
        (Ok \<lparr> cp_status = 200, cp_location = None, cp_content_type = Some ''text/html'',
              cp_body = display_page (client_tokens_display tokens) ''Hello world!'' \<rparr> :: (_, unit) outcome,
         (s3, rw_lock_new tokens))"
    by blast
  have "endpoint_impl (server_transport ?T (state_generic ?T ?L) [] example_deliver) text_response (\<lambda>e :: unit. [])
      dummy_client_config [''code'' \<mapsto> code] (s1, ?l) = (Ok (found_page ''/'') :: (_, unit) outcome, (s2, rw_lock_new tokens))"
    using 2 by (simp add: rw_lock_new_def)
  then show ?thesis
    using 1 3 by (auto simp: site_redirect_def client_site_parts(2))
qed

text \<open>
  C16: the client renews its token. Let a healthy server hold the refresh token of the client, linked to
  an access token whose grant has not expired, and let the new token be fresh. Then a refresh at the
  client succeeds: it holds the new access token and still the refresh token, which the answer does
  not repeat, and the new token opens the page. A client that still uses the old token gets the text
  with which the server denies access, as if it were the page: it reports no error.
\<close>

theorem client_renews_token:
  fixes L :: "('g, 'h, 'u, 'r) server_lib" and T :: "('u, 'x) site"
  assumes "redis_store (sl_redis L) hash num healthy" and "codec_ok (sl_grant_codec L)"
    and "codec_ok (sl_token_codec L)"
    and "healthy (sv_redis s)" and "linked_tokens (hash (sv_redis s)) (sl_token_codec L) f old"
    and "num (sv_redis s) ''oauth2:tokenmap_usage'' = Some u"
    and "g' = renewed_grant (ck_again ck) (ck_issue ck) (sv_issuer s) (tk_grant old)"
    and "sl_token_tagger L u g' (tm_generator (sv_issuer s)) = (Ok a, gt)"
    and "hash (sv_redis s) ''oauth2:tokenmap_access'' a = None"
    and "rg_check (server_registrar L s) (g_client_id (tk_grant old)) None = Ok ()"
    and "ck_now ck < g_until (tk_grant old)" and "ck_now pclock \<le> g_until g'"
    and "list_ex (\<lambda>sc. allow_access (g_scope (tk_grant old)) sc) (sv_scopes s)"
    and "hv_valid (st_headers T) ''text/plain''" and "hv_valid (st_headers T) ''application/json''"
    and "hv_valid (st_headers T) (unknown_token_header T (sv_scopes s))"
    and "delivers D ck (refresh_request_of dummy_client_config f) ''/refresh''"
    and "\<And>token. delivers D pclock (page_request_of dummy_client_config token) ''/''"
    and "decodes_tokens (st_wire T) J"
    and "ct_refresh (lk_value l) = Some f" and "\<not> lk_poisoned l"
    and "ct_token (lk_value l') = Some (tk_access old)" and "\<not> lk_poisoned l'"
  shows "\<exists>s1 s2 s3 tokens.
    client_refresh (server_transport T (state_generic T L) h D) J dummy_client_config (s, l) =
      (Ok () :: (_, 'j client_error) outcome, (s1, rw_lock_new tokens)) \<and>
    ct_token tokens = Some a \<and> ct_refresh tokens = Some f \<and>
    retrieve_protected_page (server_transport T (state_generic T L) h D) dummy_client_config (s1, rw_lock_new tokens) =
      (Ok ''Hello world!'' :: (_, 'j client_error) outcome, (s2, rw_lock_new tokens)) \<and>
    retrieve_protected_page (server_transport T (state_generic T L) h D) dummy_client_config (s1, l') =
      (Ok deny_text :: (_, 'j client_error) outcome, (s3, l'))"
  by (rule client_renewal [OF server_storeI [OF assms(1-3)] assms(4-23)])

text \<open>A server that has issued \<open>t\<close> with the refresh token \<open>tI\<close> to the client.\<close>

definition held_token :: "string token" where
  "held_token = token_from_refresh ''t'' ''tI''
     \<lparr> g_owner_id = ''dummy user'', g_client_id = ''LocalClient'', g_scope = default_scope,
       g_redirect_uri = ''http://localhost:8021/endpoint'', g_until = 10, g_extensions = extensions_new \<rparr>"

definition issued_state :: "(unit, unit, string, mem_redis) server" where
  "issued_state = example_state\<lparr> sv_redis :=
     \<lparr> mr_hash = hash_upd (hash_upd (\<lambda>k f. None) ''oauth2:tokenmap_access'' ''t'' (Some (token_text held_token)))
         ''oauth2:tokenmap_refresh'' ''tI'' (Some (token_text held_token)),
       mr_num = [''oauth2:tokenmap_usage'' \<mapsto> 2], mr_faults = [] \<rparr> \<rparr>"

definition held_tokens :: client_tokens where
  "held_tokens = \<lparr> ct_token = Some ''t'', ct_refresh = Some ''tI'', ct_until = Some 5 \<rparr>"

lemma issued_state_linked: "linked_tokens (mr_hash (sv_redis issued_state)) token_codec ''tI'' held_token"
  by (simp add: linked_tokens_def issued_state_def held_token_def token_from_refresh_def token_codec_def)

lemma issued_state_parts:
  "mem_healthy (sv_redis issued_state)" "mr_num (sv_redis issued_state) ''oauth2:tokenmap_usage'' = Some 2"
  "mr_hash (sv_redis issued_state) ''oauth2:tokenmap_access'' ''tII'' = None"
  "rg_check (server_registrar example_server_lib issued_state) (g_client_id (tk_grant held_token)) None = Ok ()"
  "list_ex (\<lambda>sc. allow_access (g_scope (tk_grant held_token)) sc) (sv_scopes issued_state)"
  by (simp_all add: issued_state_def held_token_def token_from_refresh_def mem_healthy_def example_state_def
      server_registrar_def client_map_registrar_def cm_check_def check_authentication_def)

theorem client_renews_token_witness:
  "\<exists>s1 s2 s3 tokens.
    client_refresh (server_transport client_site_lib (state_generic client_site_lib example_server_lib) [] example_deliver)
      text_response dummy_client_config (issued_state, rw_lock_new held_tokens) =
        (Ok () :: (_, unit client_error) outcome, (s1, rw_lock_new tokens)) \<and>
    ct_token tokens = Some ''tII'' \<and> ct_refresh tokens = Some ''tI'' \<and>
    retrieve_protected_page (server_transport client_site_lib (state_generic client_site_lib example_server_lib) []
      example_deliver) dummy_client_config (s1, rw_lock_new tokens) =
        (Ok ''Hello world!'' :: (_, unit client_error) outcome, (s2, rw_lock_new tokens)) \<and>
    retrieve_protected_page (server_transport client_site_lib (state_generic client_site_lib example_server_lib) []
      example_deliver) dummy_client_config (s1, rw_lock_new held_tokens) =
        (Ok deny_text :: (_, unit client_error) outcome, (s3, rw_lock_new held_tokens))"
proof -
  let ?g = "renewed_grant (ck_again example_clock) (ck_issue example_clock) (sv_issuer issued_state) (tk_grant held_token)"
  have tag: "sl_token_tagger example_server_lib 2 ?g (tm_generator (sv_issuer issued_state)) = (Ok ''tII'', ())"
    by (simp add: example_server_lib_def unary_tagger_def) (simp add: numeral_2_eq_2)
  have times: "ck_now example_clock < g_until (tk_grant held_token)" "ck_now example_clock \<le> g_until ?g"
    by (simp_all add: example_clock_def held_token_def token_from_refresh_def renewed_grant_def set_duration_def
        issued_state_def example_state_def token_map_new_def days_def seconds_def)
  have L: "sl_redis example_server_lib = mem_ops" "sl_grant_codec example_server_lib = grant_codec"
    "sl_token_codec example_server_lib = token_codec"
    by simp_all
  show ?thesis
    by (rule client_renews_token [where L = example_server_lib and hash = mr_hash and num = mr_num and healthy = mem_healthy
          and f = "''tI''" and old = held_token, unfolded L, OF mem_redis_store grant_codec_ok token_codec_ok
          issued_state_parts(1) issued_state_linked issued_state_parts(2) refl tag issued_state_parts(3,4) times
          issued_state_parts(5) client_site_parts(2) client_site_parts(2) client_site_parts(2)
          example_delivers(2) example_delivers(3) text_response_decodes])
      (simp_all add: rw_lock_new_def held_tokens_def held_token_def token_from_refresh_def)
qed

end
