(* ===== verification/Db_Example.thy ===== *)
theory Db_Example
  imports Actix_Server Db_Registrar
begin

text \<open>
  The database example (\<open>oxide-auth-db/examples/db-example/src/main.rs\<close>): its state, the handler of its
  messages over any endpoint, and its routes. They repeat those of the actix example and differ where
  they unwrap: a mailbox that refuses the message, or a request with several authorization headers,
  panics. Where neither happens the two servers answer alike, up to the text that denies access.
\<close>

section \<open>The state\<close>

text \<open>The parts of the endpoint; its solicitor is vacant, its responses are fresh ones.\<close>

record ('d, 'u, 'g, 'h) db_state =
  dbs_registrar :: "('d, 'u) db_registrar"
  dbs_authorizer :: "('g, 'u) auth_map"
  dbs_issuer :: "('h, 'u) token_map"
  dbs_scopes :: "scope list"

definition preconf_db_registrar ::
  "('d, 'u) db_registrar \<Rightarrow> 'g \<Rightarrow> 'h \<Rightarrow> (('d, 'u, 'g, 'h) db_state, 'e) outcome" where
  "preconf_db_registrar db_service code_generator token_generator =
     bind_oc (case scope_from_str ''default-scope'' of Ok scope \<Rightarrow> Ok scope | _ \<Rightarrow> Panic) (\<lambda>scope.
     Ok \<lparr> dbs_registrar = db_service, dbs_authorizer = auth_map_new code_generator,
          dbs_issuer = token_map_new token_generator, dbs_scopes = [scope] \<rparr>)"

lemma preconf_db_registrar_Ok:
  "preconf_db_registrar db_service code_generator token_generator =
     Ok \<lparr> dbs_registrar = db_service, dbs_authorizer = auth_map_new code_generator,
          dbs_issuer = token_map_new token_generator, dbs_scopes = [default_scope] \<rparr>"
  by (simp add: preconf_db_registrar_def default_scope_parses)

section \<open>The handler and the routes\<close>

definition db_solicit_get :: "('u, 'h) site \<Rightarrow> ('w, 'u, 'h actix_response, actix_error) solicitor" where
  "db_solicit_get T = fn_solicitor (\<lambda>request pre_grant w.
     (case actix_content_type (st_headers T) ''text/html'' (actix_response_ok (st_headers T)) of
        Inl e \<Rightarrow> None
      | Inr response \<Rightarrow>
          (case consent_page_html (st_url T) (st_order T) ''/authorize'' pre_grant :: (string, unit) outcome of
             Ok page \<Rightarrow> Some (InProgress (actix_set_body page response))
           | _ \<Rightarrow> None), w))"

definition db_solicit_post :: "string \<Rightarrow> ('w, 'u, 'p, 'e) solicitor" where
  "db_solicit_post query_string = fn_solicitor (\<lambda>request pre_grant w.
     (Some (if str_contains query_string ''allow'' then Authorized ''dummy user'' else Denied), w))"

definition db_with_solicitor ::
  "('u, 'h) site \<Rightarrow> ('w, 'u, 'h actix_response, actix_error) generic
    \<Rightarrow> ('w, 'u, 'h actix_response, actix_error) solicitor \<Rightarrow> ('w, 'u, 'h actix_response, actix_error, actix_error) endpoint" where
  "db_with_solicitor T G solicitor = error_into actix_error_of (generic_endpoint
     \<lparr> gn_registrar = gn_registrar G, gn_authorizer = gn_authorizer G, gn_issuer = gn_issuer G,
       gn_solicitor = solicitor, gn_scopes = gn_scopes G, gn_response = site_response T \<rparr>)"

definition db_handle ::
  "('u, 'h) site \<Rightarrow> ('w, 'u, 'h actix_response, actix_error) generic
    \<Rightarrow> ('w, 'u, 'h actix_response, 'a, 'f) oauth_operation \<times> extras \<Rightarrow> ('w, 'a, 'f) action" where
  "db_handle T G msg =
     (case message_into_inner msg of (op, ex) \<Rightarrow>
        (case ex of
           AuthGet \<Rightarrow> op_run op (db_with_solicitor T G (db_solicit_get T))
         | AuthPost query_string \<Rightarrow> op_run op (db_with_solicitor T G (db_solicit_post query_string))
         | _ \<Rightarrow> op_run_generic op (generic_endpoint G)))"

definition db_deny_text :: string where
  "db_deny_text = ''<html>'' @ newline
     @ ''This page should be accessed via an oauth token from the client in the example. Click'' @ newline
     @ ''<a href=\"http://localhost:8020/authorize?response_type=code&client_id=LocalClient&state=12345\">'' @ newline
     @ ''here</a> to begin the authorization process.'' @ newline
     @ ''</html>'' @ newline"

text \<open>\<open>state.send(..).await.unwrap()\<close>\<close>

definition ask_actor_unwrap :: "mailbox_error option \<Rightarrow> ('w, 'a, 'e) action \<Rightarrow> ('w, 'a, 'e) action" where
  "ask_actor_unwrap mailbox m = (case mailbox of Some e \<Rightarrow> lift_oc Panic | None \<Rightarrow> m)"

definition db_get_authorize ::
  "('u, 'h) site \<Rightarrow> ('w, 'u, 'h actix_response, actix_error) generic \<Rightarrow> call
    \<Rightarrow> ('w, 'h actix_response, actix_error) action" where
  "db_get_authorize T G c =
     (case actix_from_request (cl_http c) of Inl e \<Rightarrow> fail e | Inr req \<Rightarrow>
        ask_actor_unwrap (cl_mailbox c) (db_handle T G (op_wrap (op_authorize T (cl_clock c) req) AuthGet)))"

definition db_post_authorize ::
  "('u, 'h) site \<Rightarrow> ('w, 'u, 'h actix_response, actix_error) generic \<Rightarrow> call
    \<Rightarrow> ('w, 'h actix_response, actix_error) action" where
  "db_post_authorize T G c =
     (case actix_from_request (cl_http c) of Inl e \<Rightarrow> fail e | Inr req \<Rightarrow>
        ask_actor actix_error_of_mailbox (cl_mailbox c)
          (db_handle T G (op_wrap (op_authorize T (cl_clock c) req) (AuthPost (cl_query_string c)))))"

definition db_token ::
  "('u, 'h) site \<Rightarrow> ('w, 'u, 'h actix_response, actix_error) generic \<Rightarrow> call
    \<Rightarrow> ('w, 'h actix_response, actix_error) action" where
  "db_token T G c =
     (case actix_from_request (cl_http c) of Inl e \<Rightarrow> fail e | Inr req \<Rightarrow>
        ask_actor actix_error_of_mailbox (cl_mailbox c)
          (db_handle T G (op_wrap (op_token T (cl_clock c) req) ExNothing)))"

definition db_refresh ::
  "('u, 'h) site \<Rightarrow> ('w, 'u, 'h actix_response, actix_error) generic \<Rightarrow> call
    \<Rightarrow> ('w, 'h actix_response, actix_error) action" where
  "db_refresh T G c =
     (case actix_from_request (cl_http c) of Inl e \<Rightarrow> fail e | Inr req \<Rightarrow>
        ask_actor actix_error_of_mailbox (cl_mailbox c)
          (db_handle T G (op_wrap (op_refresh T (cl_clock c) req) ExNothing)))"

definition db_index ::
  "('u, 'h) site \<Rightarrow> ('w, 'u, 'h actix_response, actix_error) generic \<Rightarrow> call
    \<Rightarrow> ('w, 'h actix_response, actix_error) action" where
  "db_index T G c =
     (case actix_resource_new (cl_http c) of Inl e \<Rightarrow> lift_oc Panic | Inr req \<Rightarrow>
        (\<lambda>w. case ask_actor (\<lambda>e. Err (actix_error_of_mailbox e)) (cl_mailbox c)
                (db_handle T G (op_wrap (op_resource T (cl_clock c) (actix_into_request req)) ExNothing)) w of
           (answer, w') \<Rightarrow> (index_reply T db_deny_text answer, w')))"

definition db_route ::
  "('u, 'h) site \<Rightarrow> ('w, 'u, 'h actix_response, actix_error) generic \<Rightarrow> call
    \<Rightarrow> ('w, 'h actix_response, actix_error) action option" where
  "db_route T G c =
     (if cl_path c = ''/authorize'' \<and> cl_method c = ''GET'' then Some (db_get_authorize T G c)
      else if cl_path c = ''/authorize'' \<and> cl_method c = ''POST'' then Some (db_post_authorize T G c)
      else if cl_path c = ''/token'' \<and> cl_method c = ''POST'' then Some (db_token T G c)
      else if cl_path c = ''/refresh'' \<and> cl_method c = ''POST'' then Some (db_refresh T G c)
      else if cl_path c = ''/'' \<and> cl_method c = ''GET'' then Some (db_index T G c)
      else None)"

section \<open>Compared with the actix example\<close>

lemma db_handle_same: "db_handle T G msg = handle T G msg"
  by (simp add: db_handle_def handle_def db_with_solicitor_def state_with_solicitor_def db_solicit_get_def solicit_get_def
      db_solicit_post_def solicit_post_def split: extras.splits prod.splits)

lemma db_handlers_same:
  "db_post_authorize T G c = post_authorize T G c" "db_token T G c = token_route T G c"
  "db_refresh T G c = refresh_route T G c"
  unfolding db_post_authorize_def post_authorize_def db_token_def token_route_def db_refresh_def refresh_route_def
    db_handle_same by (rule refl)+

lemma db_get_authorize_cases:
  "db_get_authorize T G c =
     (if (\<exists>req. actix_from_request (cl_http c) = Inr req) \<and> cl_mailbox c \<noteq> None then lift_oc Panic
      else get_authorize T G c)"
  by (auto simp: db_get_authorize_def get_authorize_def ask_actor_unwrap_def ask_actor_def fun_eq_iff db_handle_same
      split: sum.splits option.splits)

text \<open>The page: several authorization headers panic, and the text that denies access is another.\<close>

definition with_text :: "string \<Rightarrow> string \<Rightarrow> 'h actix_response \<Rightarrow> 'h actix_response" where
  "with_text old new p = (if axp_body p = Some old then actix_set_body new p else p)"

lemma db_index_cases:
  "db_index T G c s =
     (if length (xh_authorization (cl_http c)) > 1 then (Panic, s)
      else case index_route T G c s of (x, s') \<Rightarrow> (map_ok (with_text deny_text db_deny_text) x, s'))"
proof (cases "actix_resource_new (cl_http c)")
  case (Inl e)
  then have "length (xh_authorization (cl_http c)) > 1"
    by (auto simp: actix_resource_new_def split: list.splits)
  then show ?thesis using Inl by (simp add: db_index_def)
next
  case (Inr req)
  then have "\<not> length (xh_authorization (cl_http c)) > 1"
    by (auto simp: actix_resource_new_def split: list.splits)
  moreover have "index_reply T db_deny_text a = map_ok (with_text deny_text db_deny_text) (index_reply T deny_text a)" for a
    using deny_text_differs
    by (auto simp: index_reply_def with_text_def actix_set_body_def actix_content_type_def split: outcome.splits sum.splits)
  ultimately show ?thesis
    using Inr by (simp add: db_index_def index_route_def actix_resource_from_request_def db_handle_same split: prod.splits)
qed

text \<open>
  The two example servers. On every route the handlers of the database example do what those of the
  actix example do, whatever the endpoint below them, except that they panic where they unwrap: on the
  page when the request has more than one authorization header, and on a \<open>GET\<close> of the authorization
  page when the mailbox refuses the message; and that they deny access with another text.
\<close>

lemma db_example_answers_alike:
  assumes "db_route T G c = Some act"
  shows "\<exists>act'. example_route T G c = Some act' \<and>
    (\<forall>s. act s =
       (if cl_path c = ''/'' \<and> length (xh_authorization (cl_http c)) > 1 \<or>
           cl_path c = ''/authorize'' \<and> cl_method c = ''GET'' \<and> length (xh_authorization (cl_http c)) \<le> 1 \<and>
             cl_mailbox c \<noteq> None
        then (Panic, s)
        else case act' s of (x, s') \<Rightarrow>
          (if cl_path c = ''/'' then map_ok (with_text deny_text db_deny_text) x else x, s')))"
proof -
  have extracted: "(\<exists>req. actix_from_request (cl_http c) = Inr req) \<longleftrightarrow> length (xh_authorization (cl_http c)) \<le> 1"
    by (auto simp: actix_from_request_def actix_request_new_def split: list.splits)
  consider "cl_path c = ''/authorize''" "cl_method c = ''GET''" "act = db_get_authorize T G c"
    | "cl_path c = ''/authorize''" "cl_method c = ''POST''" "act = db_post_authorize T G c"
    | "cl_path c = ''/token''" "cl_method c = ''POST''" "act = db_token T G c"
    | "cl_path c = ''/refresh''" "cl_method c = ''POST''" "act = db_refresh T G c"
    | "cl_path c = ''/''" "cl_method c = ''GET''" "act = db_index T G c"
    using assms by (auto simp: db_route_def split: if_splits)
  then show ?thesis
  proof cases
    case 1
    then show ?thesis
      by (cases "length (xh_authorization (cl_http c)) \<le> 1 \<and> cl_mailbox c \<noteq> None")
        (auto simp: example_route_def db_get_authorize_cases extracted lift_oc_def split: prod.splits)
  next
    case 5
    then show ?thesis
      by (simp add: example_route_def db_index_cases)
  qed (simp_all add: example_route_def db_handlers_same)
qed

end
