(* ===== verification/Db_Sources.thy ===== *)
theory Db_Sources
  imports Db_Registrar
begin

text \<open>
  The constructors of the five data sources (\<open>oxide-auth-db/src/db_service\<close>). They open the handles of
  the drivers, which are parameters, and keep the prefix and the names they are given; a handle stands
  for the servers that the operations of \<open>Db_Registrar\<close> work on.
\<close>

text \<open>
  The drivers: connection data parsed from a URL, the password put into it, a client for it; a client for a
  cluster; and a session with the nodes of a database, awaited until it is there or has failed.
\<close>

record ('i, 'c, 's) db_drivers =
  dv_info :: "string \<Rightarrow> 'i option"
  dv_set_password :: "string option \<Rightarrow> 'i \<Rightarrow> 'i"
  dv_open :: "'i \<Rightarrow> 'c option"
  dv_open_cluster :: "string list \<Rightarrow> string option \<Rightarrow> 'c option"
  dv_session :: "string list \<Rightarrow> string \<Rightarrow> string \<Rightarrow> 's option"

definition rds_new ::
  "('i, 'c, 's) db_drivers \<Rightarrow> string \<Rightarrow> string \<Rightarrow> string option \<Rightarrow> ('c \<times> redis_data_source, unit) outcome" where
  "rds_new V url redis_prefix password =
     bind_oc (ok_or () (dv_info V url)) (\<lambda>info.
     bind_oc (ok_or () (dv_open V (dv_set_password V password info))) (\<lambda>redis_client.
     Ok (redis_client, \<lparr> rds_redis_prefix = redis_prefix \<rparr>)))"

definition rcd_new ::
  "('i, 'c, 's) db_drivers \<Rightarrow> string list \<Rightarrow> string option \<Rightarrow> string
    \<Rightarrow> ('c \<times> redis_cluster_data_source, unit) outcome" where
  "rcd_new V nodes password redis_prefix =
     bind_oc (ok_or () (dv_open_cluster V nodes password)) (\<lambda>redis_client.
     Ok (redis_client, \<lparr> rcd_redis_prefix = redis_prefix \<rparr>))"

definition sds_new ::
  "('i, 'c, 's) db_drivers \<Rightarrow> string list \<Rightarrow> string \<Rightarrow> string \<Rightarrow> string \<Rightarrow> string
    \<Rightarrow> ('s \<times> scylla_data_source, unit) outcome" where
  "sds_new V nodes username password db_name table_name =
     bind_oc (expect (dv_session V nodes username password)) (\<lambda>session.
     Ok (session, \<lparr> sds_db_name = db_name, sds_table_name = table_name \<rparr>))"

text \<open>\<open>redis_nodes[0]\<close> panics on an empty list.\<close>

definition ris_new ::
  "('i, 'c, 's) db_drivers \<Rightarrow> string list \<Rightarrow> string \<Rightarrow> string option \<Rightarrow> string list \<Rightarrow> string \<Rightarrow> string \<Rightarrow> string \<Rightarrow> string
    \<Rightarrow> (('c \<times> 's) \<times> redis_scylla_source, unit) outcome" where
  "ris_new V redis_nodes redis_prefix redis_pwd db_nodes db_user db_pwd db_name db_table =
     bind_oc (case redis_nodes of [] \<Rightarrow> Panic | node # _ \<Rightarrow> ok_or () (dv_info V node)) (\<lambda>info.
     let info = (if redis_pwd \<noteq> None then dv_set_password V redis_pwd info else info) in
     bind_oc (ok_or () (dv_open V info)) (\<lambda>client.
     bind_oc (expect (dv_session V db_nodes db_user db_pwd)) (\<lambda>session.
     Ok ((client, session), \<lparr> rs_redis_prefix = redis_prefix, rs_db_name = db_name, rs_db_table = db_table \<rparr>))))"

definition rcs_new ::
  "('i, 'c, 's) db_drivers \<Rightarrow> string list \<Rightarrow> string \<Rightarrow> string option \<Rightarrow> string list \<Rightarrow> string \<Rightarrow> string \<Rightarrow> string \<Rightarrow> string
    \<Rightarrow> (('c \<times> 's) \<times> redis_scylla_source, unit) outcome" where
  "rcs_new V redis_nodes redis_prefix redis_pwd db_nodes db_user db_pwd db_name db_table =
     bind_oc (ok_or () (dv_open_cluster V redis_nodes redis_pwd)) (\<lambda>client.
     bind_oc (expect (dv_session V db_nodes db_user db_pwd)) (\<lambda>session.
     Ok ((client, session), \<lparr> rs_redis_prefix = redis_prefix, rs_db_name = db_name, rs_db_table = db_table \<rparr>)))"

section \<open>When a source opens\<close>

text \<open>An error of Redis is an error of the constructor, one of the database is a panic.\<close>

lemma rcs_new_cases:
  "rcs_new V nodes prefix pwd db_nodes user db_pwd name table =
     (case (dv_open_cluster V nodes pwd, dv_session V db_nodes user db_pwd) of
        (None, _) \<Rightarrow> Err ()
      | (Some c, None) \<Rightarrow> Panic
      | (Some c, Some s) \<Rightarrow>
          Ok ((c, s), \<lparr> rs_redis_prefix = prefix, rs_db_name = name, rs_db_table = table \<rparr>))"
  by (auto simp: rcs_new_def split: option.splits)

lemma ris_new_panics_iff:
  "ris_new V nodes prefix pwd db_nodes user db_pwd name table = Panic \<longleftrightarrow>
     nodes = [] \<or> (\<exists>info. dv_info V (hd nodes) = Some info \<and>
       dv_open V (if pwd = None then info else dv_set_password V pwd info) \<noteq> None \<and>
       dv_session V db_nodes user db_pwd = None)"
  by (cases nodes; cases "dv_session V db_nodes user db_pwd"; cases "dv_info V (hd nodes)")
    (auto simp: ris_new_def Let_def split: option.splits if_splits)

lemma bind_oc_map: "bind_oc m (\<lambda>x. Ok (f x)) = map_ok f m"
  by (cases m) simp_all

text \<open>Without a password for the source, \<open>RedisDataSource\<close> erases the one of its URL; the source with a database
  keeps it.\<close>

lemma password_of_url:
  "rds_new V url prefix None =
     (case dv_info V url of
        None \<Rightarrow> Err ()
      | Some info \<Rightarrow> map_ok (\<lambda>c. (c, \<lparr> rds_redis_prefix = prefix \<rparr>)) (ok_or () (dv_open V (dv_set_password V None info))))"
  "dv_session V db_nodes user db_pwd = Some s \<Longrightarrow>
   ris_new V [url] prefix None db_nodes user db_pwd name table =
     (case dv_info V url of
        None \<Rightarrow> Err ()
      | Some info \<Rightarrow> map_ok (\<lambda>c. ((c, s), \<lparr> rs_redis_prefix = prefix, rs_db_name = name, rs_db_table = table \<rparr>))
          (ok_or () (dv_open V info)))"
  by (auto simp: rds_new_def ris_new_def bind_oc_map split: option.splits)

end
