(* ===== verification/Db_Client.thy ===== *)
theory Db_Client
  imports Example_Client
begin

text \<open>
  The client of the database example (\<open>db-example/src/support.rs\<close>). Its pages are those of the client of
  the actix example, but the client is made inside the closure that the framework runs once for every
  worker: each worker has a client, and a token, of its own, and which worker answers a request is not
  for the user agent to choose.
\<close>

section \<open>The pages\<close>

definition db_client_config :: client_config where
  "db_client_config =
     \<lparr> cc_protected_url = ''http://localhost:8020/'', cc_token_url = ''http://localhost:8020/token'',
       cc_refresh_url = ''http://localhost:8020/refresh'', cc_client_id = ''LocalClient'',
       cc_redirect_uri = ''http://localhost:8021/endpoint'', cc_client_secret = Some ''test'' \<rparr>"

definition db_endpoint_impl ::
  "'w transport \<Rightarrow> (string \<Rightarrow> client_token_map option) \<Rightarrow> ('j \<Rightarrow> string) \<Rightarrow> (string \<rightharpoonup> string)
    \<Rightarrow> ('w \<times> client_tokens rw_lock, client_page, 'e) action" where
  "db_endpoint_impl X J sd query =
     (case query ''error'' of
        Some cause \<Rightarrow> ret (body_page 400 (''Error during owner authorization: '' @ debug_str cause))
      | None \<Rightarrow>
          (case query ''code'' of
             None \<Rightarrow> ret (body_page 400 ''Missing code'')
           | Some code \<Rightarrow> page_of sd (client_authorize X J db_client_config code) (\<lambda>_. ret (found_page ''/''))))"

definition db_refresh_page ::
  "'w transport \<Rightarrow> (string \<Rightarrow> client_token_map option) \<Rightarrow> ('j \<Rightarrow> string)
    \<Rightarrow> ('w \<times> client_tokens rw_lock, client_page, 'e) action" where
  "db_refresh_page X J sd = page_of sd (client_refresh X J db_client_config) (\<lambda>_. ret (found_page ''/''))"

definition db_get_with_token ::
  "'w transport \<Rightarrow> ('j \<Rightarrow> string) \<Rightarrow> ('w \<times> client_tokens rw_lock, client_page, 'e) action" where
  "db_get_with_token X sd =
     page_of sd (retrieve_protected_page X db_client_config) (\<lambda>protected_page.
     bind_ac client_as_html (\<lambda>token.
     ret \<lparr> cp_status = 200, cp_location = None, cp_content_type = Some ''text/html'',
           cp_body = display_page token protected_page \<rparr>))"

definition db_client_route ::
  "'w transport \<Rightarrow> (string \<Rightarrow> client_token_map option) \<Rightarrow> ('j \<Rightarrow> string) \<Rightarrow> string \<Rightarrow> string \<Rightarrow> (string \<rightharpoonup> string)
    \<Rightarrow> ('w \<times> client_tokens rw_lock, client_page, 'e) action option" where
  "db_client_route X J sd verb path query =
     (if path = ''/endpoint'' \<and> verb = ''GET'' then Some (db_endpoint_impl X J sd query)
      else if path = ''/refresh'' \<and> verb = ''POST'' then Some (db_refresh_page X J sd)
      else if path = ''/'' \<and> verb = ''GET'' then Some (db_get_with_token X sd)
      else None)"

lemma db_pages_same:
  "db_endpoint_impl X J sd query = endpoint_impl X J sd db_client_config query"
  "db_refresh_page X J sd = client_refresh_page X J sd db_client_config"
  "db_get_with_token X sd = get_with_token X sd db_client_config"
  "db_client_route X J sd verb path query = client_route X J sd db_client_config verb path query"
  by (simp_all add: db_endpoint_impl_def endpoint_impl_def db_refresh_page_def client_refresh_page_def
      db_get_with_token_def get_with_token_def db_client_route_def client_route_def)

section \<open>The workers\<close>

text \<open>\<open>HttpServer::new\<close> runs its closure, and so \<open>Client::new\<close>, once for each of its \<open>n\<close> workers.\<close>

definition db_workers :: "nat \<Rightarrow> client_tokens rw_lock list" where
  "db_workers n = map (\<lambda>_. snd (client_new db_client_config)) [0..<n]"

definition on_worker ::
  "nat \<Rightarrow> ('w \<times> 's, 'x, 'e) action \<Rightarrow> ('w \<times> 's list, 'x, 'e) action" where
  "on_worker k m = (\<lambda>(w, ls). case m (w, ls ! k) of (x, (w', l)) \<Rightarrow> (x, (w', ls[k := l])))"

text \<open>
  The client as it runs: each request is answered by some worker. A history lists, last first, the
  workers, the paths and the answers.
\<close>

inductive db_client_serves ::
  "'w transport \<Rightarrow> (string \<Rightarrow> client_token_map option) \<Rightarrow> ('j \<Rightarrow> string) \<Rightarrow> 'w \<times> client_tokens rw_lock list
    \<Rightarrow> (nat \<times> string \<times> (client_page, unit) outcome) list \<Rightarrow> 'w \<times> client_tokens rw_lock list \<Rightarrow> bool"
  for X J sd s where
  db_serves_start: "db_client_serves X J sd s [] s"
| db_serves_call: "db_client_serves X J sd s cs v \<Longrightarrow> k < length (snd v) \<Longrightarrow>
     db_client_route X J sd verb path query = Some act \<Longrightarrow> on_worker k act v = (x, v') \<Longrightarrow>
     db_client_serves X J sd s ((k, path, x) # cs) v'"

text \<open>A worker is fresh until it has answered a request by storing a token, or panicked.\<close>

definition worker_used :: "(nat \<times> string \<times> (client_page, unit) outcome) list \<Rightarrow> nat \<Rightarrow> bool" where
  "worker_used cs k \<longleftrightarrow> (\<exists>path x. (k, path, x) \<in> set cs \<and> (x = Panic \<or> (\<exists>page. x = Ok page \<and> cp_status page = 302)))"

lemma on_worker_iff:
  "on_worker k m (w, ls) = (x, (w', ls')) \<longleftrightarrow> (\<exists>l. m (w, ls ! k) = (x, (w', l)) \<and> ls' = ls[k := l])"
  by (auto simp: on_worker_def split: prod.splits)

lemma worker_used_Cons:
  "worker_used ((k, path, x) # cs) j \<longleftrightarrow>
     j = k \<and> (x = Panic \<or> (\<exists>page. x = Ok page \<and> cp_status page = 302)) \<or> worker_used cs j"
  by (auto simp: worker_used_def)

text \<open>Only the worker that answers changes its token, and only by a redirect or a panic.\<close>

lemma fresh_worker_keeps:
  assumes "db_client_route X J sd verb path query = Some act" and "act (w, l) = (x, (w', l'))"
    and "\<not> (x = Panic \<or> (\<exists>page. x = Ok page \<and> cp_status page = 302))"
  shows "l' = l"
proof (cases x)
  case (Ok page)
  then show ?thesis
    using client_route_effect [OF assms(1) [unfolded db_pages_same] assms(2)] assms(3)
    by (simp add: page_effect_def)
next
  case (Err e)
  then show ?thesis
    using client_route_effect [OF assms(1) [unfolded db_pages_same] assms(2)] by (simp add: page_effect_def)
qed (use assms(3) in simp)

lemma unused_workers:
  assumes "db_client_serves X J sd (w, db_workers n) cs v"
  shows "length (snd v) = n \<and> (\<forall>j<n. \<not> worker_used cs j \<longrightarrow> snd v ! j = rw_lock_new client_tokens_default)"
  using assms
proof (induction)
  case db_serves_start
  then show ?case by (simp add: db_workers_def client_new_def)
next
  case (db_serves_call cs v k verb path query act x v')
  obtain w1 ls w2 ls' where v: "v = (w1, ls)" "v' = (w2, ls')" by (metis prod.collapse)
  obtain l where l: "act (w1, ls ! k) = (x, (w2, l))" "ls' = ls[k := l]"
    using db_serves_call.hyps(4) by (auto simp: v on_worker_iff)
  have "ls' ! j = rw_lock_new client_tokens_default" if "j < n" "\<not> worker_used ((k, path, x) # cs) j" for j
  proof (cases "j = k")
    case True
    then have "l = ls ! k"
      using fresh_worker_keeps [OF db_serves_call.hyps(3) l(1)] that(2) by (auto simp: worker_used_Cons)
    then show ?thesis
      using True that db_serves_call.IH l(2) by (simp add: v worker_used_Cons)
  next
    case False
    then show ?thesis
      using that db_serves_call.IH l(2) by (simp add: v worker_used_Cons)
  qed
  then show ?case
    using db_serves_call.IH l(2) by (simp add: v)
qed

text \<open>What a client without a token answers.\<close>

lemma tokenless_pages:
  fixes ls :: "client_tokens rw_lock list"
  assumes "ls ! k = rw_lock_new client_tokens_default" and "k < length ls"
  shows "on_worker k (db_get_with_token X sd) (w, ls) =
      (Ok (body_page 500 ''No token with which to access protected page''), (w, ls))"
    and "on_worker k (db_refresh_page X J sd) (w, ls) =
      (Ok (body_page 500 ''No token with which to access protected page''), (w, ls))"
proof -
  show "on_worker k (db_get_with_token X sd) (w, ls) =
      (Ok (body_page 500 ''No token with which to access protected page''), (w, ls))"
    using assms list_update_id [of ls k]
    by (simp add: on_worker_def db_get_with_token_def page_of_def retrieve_protected_page_def lock_read_def
        rw_lock_new_def client_tokens_default_def fail_def)
  show "on_worker k (db_refresh_page X J sd) (w, ls) =
      (Ok (body_page 500 ''No token with which to access protected page''), (w, ls))"
    using assms list_update_id [of ls k]
    by (simp add: on_worker_def db_refresh_page_def page_of_def client_refresh_def lock_write_def
        rw_lock_new_def client_tokens_default_def)
qed

section \<open>Properties\<close>

text \<open>
  C32: a login stays with its worker. Whatever requests the \<open>n\<close> workers of the client have answered: a
  worker that has not itself redeemed a code or renewed a token, nor panicked, answers the front page and
  a refresh with the error that there is no token, and nothing changes; so the page that another worker
  redirects to after a login shows an error unless the same worker serves it.
\<close>

theorem login_stays_with_worker:
  fixes X :: "'w transport" and sd :: "'j \<Rightarrow> string"
  assumes "db_client_serves X J sd (w, db_workers n) cs (v, ls)" and "k < n"
    and "\<nexists>path x. (k, path, x) \<in> set cs \<and> (x = Panic \<or> (\<exists>page. x = Ok page \<and> cp_status page = 302))"
    and "(verb, path) \<in> {(''GET'', ''/''), (''POST'', ''/refresh'')}"
    and "db_client_route X J sd verb path query = Some (act :: (_, _, unit) action)"
  shows "on_worker k act (v, ls) =
    (Ok (body_page 500 ''No token with which to access protected page''), (v, ls))"
proof -
  have "length ls = n" "ls ! k = rw_lock_new client_tokens_default"
    using unused_workers [OF assms(1)] assms(2,3) by (auto simp: worker_used_def)
  note pages = tokenless_pages [OF this(2), unfolded this(1), OF assms(2)]
  consider "path = ''/''" "act = db_get_with_token X sd" | "path = ''/refresh''" "act = db_refresh_page X J sd"
    using assms(4,5) by (auto simp: db_client_route_def)
  then show ?thesis
    using pages by cases simp_all
qed

text \<open>The first of two workers logs in, the second serves the page it redirects to.\<close>

definition granting :: "string \<Rightarrow> client_token_map option" where
  "granting body = Some \<lparr> ctm_token_type = ''bearer'', ctm_scope = ''default-scope'', ctm_access_token = Some body,
     ctm_refresh_token = None, ctm_expires_in = None, ctm_error = None \<rparr>"

abbreviation db_login_transport :: "unit transport" where
  "db_login_transport \<equiv> constant_transport (Some (Some ''t''))"

lemma db_login_run:
  "on_worker 0 (db_endpoint_impl db_login_transport granting (\<lambda>e :: unit. []) [''code'' \<mapsto> ''c'']) ((), db_workers 2) =
     (Ok (found_page ''/''), ((), [rw_lock_new \<lparr> ct_token = Some ''t'', ct_refresh = None, ct_until = None \<rparr>,
        rw_lock_new client_tokens_default]))"
  by (simp add: on_worker_def db_workers_def client_new_def db_endpoint_impl_def page_of_def client_authorize_def
      lock_write_def bind_ac_def on_world_def client_send_def constant_transport_def parse_token_response_def granting_def
      rw_lock_new_def set_tokens_def lift_oc_def ret_def numeral_2_eq_2)

theorem login_stays_with_worker_witness:
  "\<exists>ls. db_client_serves db_login_transport granting (\<lambda>e :: unit. []) ((), db_workers 2)
      [(0, ''/endpoint'', Ok (found_page ''/''))] ((), ls) \<and>
    ct_token (lk_value (ls ! 0)) = Some ''t'' \<and>
    on_worker 1 (db_get_with_token db_login_transport (\<lambda>e :: unit. [])) ((), ls) =
      (Ok (body_page 500 ''No token with which to access protected page'') :: (_, unit) outcome, ((), ls))"
proof -
  let ?X = db_login_transport and ?sd = "\<lambda>e :: unit. [] :: string"
  let ?ls = "[rw_lock_new \<lparr> ct_token = Some ''t'', ct_refresh = None, ct_until = None \<rparr>, rw_lock_new client_tokens_default]"
  have route: "db_client_route ?X granting ?sd ''GET'' ''/endpoint'' [''code'' \<mapsto> ''c'']
      = Some (db_endpoint_impl ?X granting ?sd [''code'' \<mapsto> ''c''])"
    "db_client_route ?X granting ?sd ''GET'' ''/'' Map.empty = Some (db_get_with_token ?X ?sd)"
    by (simp_all add: db_client_route_def)
  have "db_client_serves ?X granting ?sd ((), db_workers 2) [(0, ''/endpoint'', Ok (found_page ''/''))] ((), ?ls)"
    by (rule db_serves_call [OF db_serves_start _ route(1) db_login_run]) (simp add: db_workers_def)
  moreover from login_stays_with_worker [OF this _ _ _ route(2), of 1]
  have "on_worker 1 (db_get_with_token ?X ?sd) ((), ?ls) =
      (Ok (body_page 500 ''No token with which to access protected page'') :: (_, unit) outcome, ((), ?ls))" by simp
  moreover have "ct_token (lk_value (?ls ! 0)) = Some ''t''" by (simp add: rw_lock_new_def)
  ultimately show ?thesis by blast
qed

end
