(* ===== verification/Rouille_Example.thy ===== *)
theory Rouille_Example
  imports Example_Client
begin

text \<open>
  The example server of the rouille binding (\<open>oxide-auth-rouille/examples/rouille.rs\<close>) and the pages of its
  client (\<open>examples/support/rouille.rs\<close>). The endpoint is behind a mutex, and one solicitor serves \<open>GET\<close>
  and \<open>POST\<close>. The constructors of \<open>rouille::Response\<close>, its header table and the lookup of query
  parameters are parameters.
\<close>

section \<open>The server\<close>

record rouille_site =
  os_order :: "string fset \<Rightarrow> string list"
  os_wire :: wire_lib
  os_form :: urlencoded
  os_param :: "rouille_http \<Rightarrow> string \<Rightarrow> string option"
  os_empty_400 :: rouille_response
  os_empty_404 :: rouille_response
  os_text :: "string \<Rightarrow> rouille_response"
  os_html :: "string \<Rightarrow> rouille_response"
  os_redirect_303 :: "string \<Rightarrow> rouille_response"
  os_unique_header :: "string \<Rightarrow> string \<Rightarrow> rouille_response \<Rightarrow> rouille_response"

record rouille_call =
  ol_method :: string
  ol_url :: string
  ol_http :: rouille_http
  ol_clock :: clock

definition rouille_solicitor ::
  "'u url_lib \<Rightarrow> rouille_site \<Rightarrow> rouille_call \<Rightarrow> ('w, 'u, rouille_response, rouille_error) solicitor" where
  "rouille_solicitor U T c = fn_solicitor (\<lambda>request grant w.
     (if ol_method c = ''GET'' then
        (case consent_page_html U (os_order T) ''/authorize'' grant :: (string, unit) outcome of
           Ok page \<Rightarrow> Some (InProgress (os_html T page))
         | _ \<Rightarrow> None)
      else if ol_method c = ''POST'' then
        (case os_param T (ol_http c) ''allow'' of
           Some _ \<Rightarrow> Some (Authorized ''dummy user'')
         | None \<Rightarrow> Some Denied)
      else None, w))"

definition rouille_generic ::
  "('g, 'h, 'u, 'r) server_lib \<Rightarrow> rouille_site \<Rightarrow> rouille_call
    \<Rightarrow> (('g, 'h, 'u, 'r) server, 'u, rouille_response, rouille_error) generic" where
  "rouille_generic L T c =
     server_generic L (rouille_solicitor (sl_url L) T c) (fn_response (\<lambda>w. (os_empty_404 T, w)))"

definition rouille_preconfigured ::
  "('g, 'h, 'u, 'r) server_lib \<Rightarrow> bytes \<Rightarrow> 'g \<Rightarrow> 'h \<Rightarrow> 'r \<Rightarrow> (('g, 'h, 'u, 'r) server, registrar_error) outcome" where
  "rouille_preconfigured L salt code_generator token_generator redis =
     bind_oc (expect (url_parse (sl_url L) ''http://localhost:8021/endpoint'')) (\<lambda>url.
     bind_oc (case scope_from_str ''default'' of Ok scope \<Rightarrow> Ok scope | _ \<Rightarrow> Panic) (\<lambda>scope.
     case register_client (sl_argon2 L) salt (client_public ''LocalClient'' (Semantic url) scope) client_map_new of
       (x, clients) \<Rightarrow> map_ok (\<lambda>_.
         \<lparr> sv_registrar = clients, sv_authorizer = auth_map_new code_generator,
           sv_issuer = token_map_new token_generator, sv_scopes = [scope], sv_redis = redis \<rparr>) x))"

text \<open>\<open>prepare(..).expect(..)\<close>, and \<open>map(into_inner).unwrap_or_else(|_| empty_400())\<close>.\<close>

definition expect_flow :: "('w, 'a, 'e) action \<Rightarrow> ('w, 'a, 'f) action" where
  "expect_flow m = (\<lambda>w. case m w of (Ok x, w') \<Rightarrow> (Ok x, w') | (_, w') \<Rightarrow> (Panic, w'))"

definition rouille_answer :: "rouille_site \<Rightarrow> (rouille_response, 'e) outcome \<Rightarrow> (rouille_response, 'f) outcome" where
  "rouille_answer T x = (case x of Ok response \<Rightarrow> Ok response | Err _ \<Rightarrow> Ok (os_empty_400 T) | Panic \<Rightarrow> Panic)"

definition rouille_run :: "rouille_site \<Rightarrow> ('w, rouille_response, 'e) action \<Rightarrow> ('w, rouille_response, 'f) action" where
  "rouille_run T m = (\<lambda>w. case m w of (x, w') \<Rightarrow> (rouille_answer T x, w'))"

definition rouille_deny_text :: string where
  "rouille_deny_text = ''<html>'' @ newline
     @ ''This page should be accessed via an oauth token from the client in the example. Click'' @ newline
     @ ''<a href=\"http://localhost:8020/authorize?response_type=code&client_id=LocalClient\">'' @ newline
     @ ''here</a> to begin the authorization process.'' @ newline
     @ ''</html>'' @ newline"

definition rouille_index ::
  "('g, 'h, 'u, 'r) server_lib \<Rightarrow> rouille_site \<Rightarrow> rouille_call
    \<Rightarrow> (('g, 'h, 'u, 'r) server, rouille_response, 'f) action" where
  "rouille_index L T c =
     (let E = generic_endpoint (rouille_generic L T c) in
      bind_ac (expect_flow (resource_prepare E)) (\<lambda>_ w.
        case resource_execute (os_order T) (rouille_response_ops (sl_url L)) E
               (rouille_web_request (os_form T) (ol_http c)) (ck_now (ol_clock c)) w of
          (Ok grant, w') \<Rightarrow> (Ok (os_text T ''Hello world!''), w')
        | (Err err, w') \<Rightarrow>
            (map_ok (\<lambda>response. os_unique_header T ''Content-Type'' ''text/html; charset=utf8''
               (response\<lparr> ro_data := rouille_deny_text \<rparr>)) (rouille_answer T err), w')
        | (Panic, w') \<Rightarrow> (Panic, w')))"

definition rouille_authorize ::
  "('g, 'h, 'u, 'r) server_lib \<Rightarrow> rouille_site \<Rightarrow> rouille_call
    \<Rightarrow> (('g, 'h, 'u, 'r) server, rouille_response, 'f) action" where
  "rouille_authorize L T c =
     (let E = generic_endpoint (rouille_generic L T c) in
      bind_ac (expect_flow (authorization_prepare E)) (\<lambda>_.
        rouille_run T (authorization_execute (sl_url L) (os_order T) (os_wire T) (rouille_response_ops (sl_url L)) E
          (rouille_web_request (os_form T) (ol_http c))
          (ck_now (ol_clock c)) (ck_issue (ol_clock c)) (ck_reply (ol_clock c)))))"

definition rouille_token ::
  "('g, 'h, 'u, 'r) server_lib \<Rightarrow> rouille_site \<Rightarrow> rouille_call
    \<Rightarrow> (('g, 'h, 'u, 'r) server, rouille_response, 'f) action" where
  "rouille_token L T c =
     (let E = generic_endpoint (rouille_generic L T c) in
      bind_ac (expect_flow (access_token_prepare E)) (\<lambda>flow.
        rouille_run T (access_token_execute (sl_url L) (os_order T) (os_wire T) (rouille_response_ops (sl_url L)) flow
          (rouille_web_request (os_form T) (ol_http c))
          (ck_now (ol_clock c)) (ck_issue (ol_clock c)) (ck_reply (ol_clock c)))))"

definition rouille_refresh ::
  "('g, 'h, 'u, 'r) server_lib \<Rightarrow> rouille_site \<Rightarrow> rouille_call
    \<Rightarrow> (('g, 'h, 'u, 'r) server, rouille_response, 'f) action" where
  "rouille_refresh L T c =
     (let E = generic_endpoint (rouille_generic L T c) in
      bind_ac (expect_flow (refresh_prepare E)) (\<lambda>_.
        rouille_run T (refresh_execute (os_order T) (os_wire T) (rouille_response_ops (sl_url L)) E
          (rouille_web_request (os_form T) (ol_http c))
          (ck_now (ol_clock c)) (ck_again (ol_clock c)) (ck_issue (ol_clock c)) (ck_reply (ol_clock c)))))"

text \<open>The router: every arm runs under the lock of the endpoint, which a panic poisons.\<close>

definition rouille_arm ::
  "('g, 'h, 'u, 'r) server_lib \<Rightarrow> rouille_site \<Rightarrow> rouille_call
    \<Rightarrow> (('g, 'h, 'u, 'r) server, rouille_response, 'f) action option" where
  "rouille_arm L T c =
     (if ol_method c = ''GET'' \<and> ol_url c = ''/'' then Some (rouille_index L T c)
      else if ol_method c = ''GET'' \<and> ol_url c = ''/authorize'' then Some (rouille_authorize L T c)
      else if ol_method c = ''POST'' \<and> ol_url c = ''/authorize'' then Some (rouille_authorize L T c)
      else if ol_method c = ''POST'' \<and> ol_url c = ''/token'' then Some (rouille_token L T c)
      else if ol_method c = ''POST'' \<and> ol_url c = ''/refresh'' then Some (rouille_refresh L T c)
      else None)"

definition mutex_run :: "('s, 'a, 'e) action \<Rightarrow> ('s rw_lock, 'a, 'e) action" where
  "mutex_run m = (\<lambda>l.
     if lk_poisoned l then (Panic, l)
     else case m (lk_value l) of
            (x, s') \<Rightarrow> (x, \<lparr> lk_value = s', lk_poisoned = (case x of Panic \<Rightarrow> True | _ \<Rightarrow> False) \<rparr>))"

definition rouille_handle ::
  "('g, 'h, 'u, 'r) server_lib \<Rightarrow> rouille_site \<Rightarrow> rouille_call
    \<Rightarrow> (('g, 'h, 'u, 'r) server rw_lock, rouille_response, 'f) action" where
  "rouille_handle L T c =
     (case rouille_arm L T c of Some m \<Rightarrow> mutex_run m | None \<Rightarrow> ret (os_empty_404 T))"

section \<open>The pages of the client\<close>

definition with_status_code :: "nat \<Rightarrow> rouille_response \<Rightarrow> rouille_response" where
  "with_status_code code response = response\<lparr> ro_status_code := code \<rparr>"

definition rouille_internal_error :: "rouille_site \<Rightarrow> ('j \<Rightarrow> string) \<Rightarrow> 'j client_error \<Rightarrow> rouille_response" where
  "rouille_internal_error T sd error = with_status_code 500 (os_text T (client_error_display sd error))"

definition rouille_display_page :: "string \<Rightarrow> string \<Rightarrow> string" where
  "rouille_display_page token page =
     ''<html><style>'' @ newline
     @ ''            aside{overflow: auto; word-break: keep-all; white-space: nowrap}'' @ newline
     @ ''            main{text-align: center}'' @ newline
     @ ''            main>aside,main>article{margin: auto; text-align: left; border: 1px solid black; width: 50%}'' @ newline
     @ ''        </style>'' @ newline
     @ ''        <main>'' @ newline
     @ ''        Used token <aside style>'' @ token @ ''</aside> to access'' @ newline
     @ ''        <a href=\"http://localhost:8020/\">http://localhost:8020/</a>.'' @ newline
     @ ''        Its contents are:'' @ newline
     @ ''        <article>'' @ debug_str page @ ''</article>'' @ newline
     @ ''        <form action=\"/refresh\" method=\"post\"><button>Refresh token</button></form>'' @ newline
     @ ''        </main></html>''"

text \<open>An operation of the client, and its error as a page.\<close>

definition rouille_page_of ::
  "rouille_site \<Rightarrow> ('j \<Rightarrow> string) \<Rightarrow> ('s, 'a, 'j client_error) action \<Rightarrow> ('a \<Rightarrow> ('s, rouille_response, 'e) action)
    \<Rightarrow> ('s, rouille_response, 'e) action" where
  "rouille_page_of T sd m f = (\<lambda>s. case m s of
      (Ok x, s') \<Rightarrow> f x s'
    | (Err error, s') \<Rightarrow> (Ok (rouille_internal_error T sd error), s')
    | (Panic, s') \<Rightarrow> (Panic, s'))"

definition rouille_client_impl ::
  "rouille_site \<Rightarrow> 'w transport \<Rightarrow> ('j \<Rightarrow> string) \<Rightarrow> client_config
    \<Rightarrow> ('w \<times> client_tokens rw_lock, rouille_response, 'e) action" where
  "rouille_client_impl T X sd client =
     rouille_page_of T sd (retrieve_protected_page X client) (\<lambda>protected_page.
     bind_ac client_as_html (\<lambda>token.
     ret (with_status_code 200 (os_html T (rouille_display_page token protected_page)))))"

definition rouille_endpoint_impl ::
  "rouille_site \<Rightarrow> 'w transport \<Rightarrow> (string \<Rightarrow> client_token_map option) \<Rightarrow> ('j \<Rightarrow> string) \<Rightarrow> client_config
    \<Rightarrow> rouille_http \<Rightarrow> ('w \<times> client_tokens rw_lock, rouille_response, 'e) action" where
  "rouille_endpoint_impl T X J sd client request =
     (case os_param T request ''error'' of
        Some error \<Rightarrow>
          ret (with_status_code 400 (os_text T (''Error during owner authorization: '' @ debug_str error)))
      | None \<Rightarrow>
          (case os_param T request ''code'' of
             None \<Rightarrow> ret (with_status_code 400 (os_text T ''Endpoint hit without an authorization code''))
           | Some code \<Rightarrow>
               rouille_page_of T sd (client_authorize X J client code) (\<lambda>_. ret (os_redirect_303 T ''/''))))"

definition rouille_refresh_impl ::
  "rouille_site \<Rightarrow> 'w transport \<Rightarrow> (string \<Rightarrow> client_token_map option) \<Rightarrow> ('j \<Rightarrow> string) \<Rightarrow> client_config
    \<Rightarrow> ('w \<times> client_tokens rw_lock, rouille_response, 'e) action" where
  "rouille_refresh_impl T X J sd client =
     rouille_page_of T sd (client_refresh X J client) (\<lambda>_. ret (os_redirect_303 T ''/''))"

definition rouille_dummy_client ::
  "rouille_site \<Rightarrow> 'w transport \<Rightarrow> (string \<Rightarrow> client_token_map option) \<Rightarrow> ('j \<Rightarrow> string)
    \<Rightarrow> rouille_call \<Rightarrow> ('w \<times> client_tokens rw_lock, rouille_response, 'e) action" where
  "rouille_dummy_client T X J sd c =
     (if ol_method c = ''GET'' \<and> ol_url c = ''/'' then rouille_client_impl T X sd dummy_client_config
      else if ol_method c = ''GET'' \<and> ol_url c = ''/endpoint''
        then rouille_endpoint_impl T X J sd dummy_client_config (ol_http c)
      else if ol_method c = ''POST'' \<and> ol_url c = ''/refresh'' then rouille_refresh_impl T X J sd dummy_client_config
      else ret (os_empty_404 T))"

section \<open>What the routes keep\<close>

lemma rouille_parts:
  "gn_registrar (rouille_generic L T c) = opt_primitive (server_registrar L)"
  "gn_authorizer (rouille_generic L T c) = opt_primitive (\<lambda>w. server_authorizer L)"
  "gn_issuer (rouille_generic L T c) = opt_primitive (\<lambda>w. server_issuer L)"
  "gn_solicitor (rouille_generic L T c) = rouille_solicitor (sl_url L) T c"
  "gn_scopes (rouille_generic L T c) q s = (sv_scopes s, s)"
  "gn_response (rouille_generic L T c) = fn_response (\<lambda>w. (os_empty_404 T, w))"
  by (simp_all add: rouille_generic_def server_generic_def)

lemma rouille_calm: "calm_endpoint I (generic_endpoint (rouille_generic L T c))"
  by unfold_locales (simp_all add: generic_endpoint_def rouille_parts fn_response_def keeps_def)

lemma rouille_keeper:
  assumes "server_store L hash num healthy" and "grant_closed Q"
  shows "keeper_endpoint (server_holds hash L clients scopes Q) Q (server_authorizer L) (server_issuer L)
    (generic_endpoint (rouille_generic L T c))"
  by (intro keeper_endpoint.intro server_store.server_keeper [OF assms] rouille_calm keeper_endpoint_axioms.intro)
    (simp_all add: rouille_parts)

text \<open>The preparation of the flows: everything is there, so \<open>expect\<close> does not fail.\<close>

lemma rouille_prepared:
  "authorization_prepare (generic_endpoint (rouille_generic L T c)) s = (Ok (), s)"
  "access_token_prepare (generic_endpoint (rouille_generic L T c)) s =
     (Ok \<lparr> atf_endpoint = generic_endpoint (rouille_generic L T c), atf_allow_credentials_in_body = False \<rparr>, s)"
  "refresh_prepare (generic_endpoint (rouille_generic L T c)) s = (Ok (), s)"
  "resource_prepare (generic_endpoint (rouille_generic L T c)) s = (Ok (), s)"
  by (simp_all add: authorization_prepare_def access_token_prepare_def refresh_prepare_def resource_prepare_def
      rouille_parts opt_primitive_def)

lemma rouille_arms:
  "rouille_authorize L T c s = rouille_run T (authorization_execute (sl_url L) (os_order T) (os_wire T)
     (rouille_response_ops (sl_url L)) (generic_endpoint (rouille_generic L T c)) (rouille_web_request (os_form T) (ol_http c))
     (ck_now (ol_clock c)) (ck_issue (ol_clock c)) (ck_reply (ol_clock c))) s"
  "rouille_token L T c s = rouille_run T (access_token_execute (sl_url L) (os_order T) (os_wire T)
     (rouille_response_ops (sl_url L))
     \<lparr> atf_endpoint = generic_endpoint (rouille_generic L T c), atf_allow_credentials_in_body = False \<rparr>
     (rouille_web_request (os_form T) (ol_http c))
     (ck_now (ol_clock c)) (ck_issue (ol_clock c)) (ck_reply (ol_clock c))) s"
  "rouille_refresh L T c s = rouille_run T (refresh_execute (os_order T) (os_wire T) (rouille_response_ops (sl_url L))
     (generic_endpoint (rouille_generic L T c)) (rouille_web_request (os_form T) (ol_http c))
     (ck_now (ol_clock c)) (ck_again (ol_clock c)) (ck_issue (ol_clock c)) (ck_reply (ol_clock c))) s"
  by (simp_all add: rouille_authorize_def rouille_token_def rouille_refresh_def Let_def bind_ac_def expect_flow_def
      rouille_prepared)

lemma rouille_run_keeps: "keeps I m \<Longrightarrow> keeps I (rouille_run T m)"
  by (auto simp: rouille_run_def keeps_def split: prod.splits)

text \<open>
  The requests that authorize a grant here: a \<open>POST\<close> of the authorization page with a parameter named
  \<open>allow\<close>, for the owner the server knows, or a request for the implicit flow, for the owner it names.
\<close>

definition rouille_justifies :: "rouille_site \<Rightarrow> rouille_call \<Rightarrow> 'u grant \<Rightarrow> bool" where
  "rouille_justifies T c g \<longleftrightarrow> ol_url c = ''/authorize'' \<and>
     (let q = wrapped_auth_request (rouille_web_request (os_form T) (ol_http c)) in
      aur_client_id q = Some (g_client_id g) \<and>
      (ol_method c = ''POST'' \<and> aur_response_type q = Some ''code'' \<and>
         os_param T (ol_http c) ''allow'' \<noteq> None \<and> g_owner_id g = ''dummy user'' \<or>
       ol_method c \<in> {''GET'', ''POST''} \<and> aur_response_type q = Some ''token'' \<and>
         g_owner_id g = (case aur_user_id q of Some u \<Rightarrow> u | None \<Rightarrow> [])))"

definition rouille_justified :: "rouille_site \<Rightarrow> 'u client_map \<Rightarrow> rouille_call list \<Rightarrow> 'u grant \<Rightarrow> bool" where
  "rouille_justified T clients cs g \<longleftrightarrow> typed_grant clients g \<and> (\<exists>c\<in>set cs. rouille_justifies T c g)"

lemma rouille_justified_closed: "grant_closed (rouille_justified T clients cs)"
  by (auto simp: grant_closed_def rouille_justified_def typed_grant_def rouille_justifies_def Let_def)

lemma rouille_authorize_keeps:
  assumes store: "server_store L hash num healthy" and wf: "clients_wf clients" and closed: "grant_closed Q"
    and new: "\<And>g. typed_grant clients g \<Longrightarrow> rouille_justifies T c g \<Longrightarrow> Q g"
    and route: "ol_url c = ''/authorize''" "ol_method c \<in> {''GET'', ''POST''}"
  shows "keeps (server_holds hash L clients scopes Q) (rouille_authorize L T c)"
proof -
  let ?E = "generic_endpoint (rouille_generic L T c)" and ?I = "server_holds hash L clients scopes Q"
  let ?q = "rouille_web_request (os_form T) (ol_http c)"
  have registrar: "aue_registrar (wrapped_authorization ?E) w = client_map_registrar (sl_url L) (sl_argon2 L) clients"
    if "?I w" for w
    using that by (simp add: wrapped_authorization_def rouille_parts server_registrar_def server_holds_def)
  have extension: "aue_extension (wrapped_authorization ?E) = auth_no_extension"
    by (simp add: wrapped_authorization_def)
  have "keeps ?I (authorization_execute (sl_url L) (os_order T) (os_wire T) (rouille_response_ops (sl_url L)) ?E ?q
      (ck_now (ol_clock c)) (ck_issue (ol_clock c)) (ck_reply (ol_clock c)))"
  proof (rule keeper_endpoint.authorization_flow_keeps [OF rouille_keeper [OF store closed]], goal_cases)
    case (1 w s sl x w')
    then show ?case
      by (auto simp: rouille_parts rouille_solicitor_def fn_solicitor_def split: if_splits)
  next
    case (2 p w s w' who url)
    then have "ol_method c = ''POST''" "os_param T (ol_http c) ''allow'' \<noteq> None" "who = ''dummy user''"
      by (auto simp: rouille_parts rouille_solicitor_def fn_solicitor_def split: if_splits outcome.splits option.splits)
    then show ?case
      using asked_code_client [OF 2(1) registrar extension] wf route
      by (intro new) (auto simp: typed_grant_def rouille_justifies_def consented_grant_def clients_wf_def)
  next
    case (3 pg url)
    then show ?case
      using asked_token_client [OF 3(2) registrar] wf route
      by (intro new) (auto simp: typed_grant_def rouille_justifies_def implicit_grant_def clients_wf_def)
  qed
  then show ?thesis
    by (intro keepsI) (auto simp: rouille_arms dest: keepsD [OF rouille_run_keeps])
qed

lemma rouille_index_keeps:
  assumes "server_store L hash num healthy" and "grant_closed Q"
  shows "keeps (server_holds hash L clients scopes Q) (rouille_index L T c)"
proof (rule keepsI)
  fix s r s'
  assume I: "server_holds hash L clients scopes Q s" and run: "rouille_index L T c s = (r, s')"
  have "keeps (server_holds hash L clients scopes Q) (resource_execute (os_order T) (rouille_response_ops (sl_url L))
      (generic_endpoint (rouille_generic L T c)) (rouille_web_request (os_form T) (ol_http c)) (ck_now (ol_clock c)))"
    by (rule ensures_keeps [OF keeper_endpoint.resource_flow_ensures [OF rouille_keeper [OF assms]]])
      (auto simp: rouille_parts)
  from keepsD [OF this I] show "server_holds hash L clients scopes Q s'"
    using run by (auto simp: rouille_index_def Let_def bind_ac_def expect_flow_def rouille_prepared
        split: prod.splits outcome.splits)
qed

lemma rouille_arm_keeps:
  assumes store: "server_store L hash num healthy" and wf: "clients_wf clients" and closed: "grant_closed Q"
    and new: "\<And>g. typed_grant clients g \<Longrightarrow> rouille_justifies T c g \<Longrightarrow> Q g"
    and arm: "rouille_arm L T c = Some act"
  shows "keeps (server_holds hash L clients scopes Q) act"
proof -
  note keeper = rouille_keeper [OF store closed]
  have token: "keeps (server_holds hash L clients scopes Q) (rouille_token L T c)"
    by (intro keepsI) (auto simp: rouille_arms dest: keepsD [OF rouille_run_keeps [OF keeper_endpoint.token_flow_keeps [OF keeper]]])
  have refresh: "keeps (server_holds hash L clients scopes Q) (rouille_refresh L T c)"
    by (intro keepsI) (auto simp: rouille_arms dest: keepsD [OF rouille_run_keeps [OF keeper_endpoint.refresh_flow_keeps [OF keeper]]])
  have authorize: "keeps (server_holds hash L clients scopes Q) (rouille_authorize L T c)"
    if "ol_url c = ''/authorize''" "ol_method c \<in> {''GET'', ''POST''}"
    using new that by (rule rouille_authorize_keeps [OF store wf closed])
  show ?thesis
    using arm token refresh rouille_index_keeps [OF store closed] authorize
    by (auto simp: rouille_arm_def split: if_splits)
qed

section \<open>Histories\<close>

text \<open>The calls that were handled, the latest first; a panicking one is answered by the framework.\<close>

inductive rouille_serves ::
  "('g, 'h, 'u, 'r) server_lib \<Rightarrow> rouille_site \<Rightarrow> ('g, 'h, 'u, 'r) server rw_lock \<Rightarrow> rouille_call list
    \<Rightarrow> ('g, 'h, 'u, 'r) server rw_lock \<Rightarrow> bool"
  for L T l where
  rouille_serves_start: "rouille_serves L T l [] l"
| rouille_serves_call: "rouille_serves L T l cs v \<Longrightarrow>
     rouille_handle L T c v = (reply :: (rouille_response, unit) outcome, v') \<Longrightarrow> rouille_serves L T l (c # cs) v'"

lemma mutex_run_keeps:
  assumes "keeps I m" and "mutex_run m l = (x, l')" and "I (lk_value l)"
  shows "I (lk_value l')"
  using assms(2,3) by (auto simp: mutex_run_def split: if_splits prod.splits dest: keepsD [OF assms(1)])

lemma rouille_serves_justified:
  assumes "rouille_serves L T l cs l'" and "server_store L hash num healthy" and "clients_wf clients"
    and "server_holds hash L clients scopes (\<lambda>_. False) (lk_value l)"
  shows "server_holds hash L clients scopes (rouille_justified T clients cs) (lk_value l')"
  using assms(1,4)
proof induction
  case rouille_serves_start
  then show ?case by (rule server_holds_mono) simp
next
  case (rouille_serves_call cs v c reply v')
  let ?Q = "rouille_justified T clients (c # cs)"
  have v: "server_holds hash L clients scopes ?Q (lk_value v)"
    by (rule server_holds_mono [OF rouille_serves_call.IH])
      (use rouille_serves_call.prems in \<open>auto simp: rouille_justified_def\<close>)
  show ?case
  proof (cases "rouille_arm L T c :: (_, _, unit) action option")
    case None
    then show ?thesis
      using rouille_serves_call.hyps(2) v by (simp add: rouille_handle_def ret_def)
  next
    case (Some act)
    have "keeps (server_holds hash L clients scopes ?Q) act"
      by (rule rouille_arm_keeps [OF assms(2,3) rouille_justified_closed _ Some]) (simp add: rouille_justified_def)
    then show ?thesis
      using rouille_serves_call.hyps(2) v Some by (auto simp: rouille_handle_def elim: mutex_run_keeps)
  qed
qed

section \<open>The protected page\<close>

lemma rouille_deny_text_differs: "rouille_deny_text \<noteq> ''Hello world!''"
  by (simp add: rouille_deny_text_def newline_def)

text \<open>What is relied on of the constructors of responses: they carry the given text.\<close>

definition rouille_texts :: "rouille_site \<Rightarrow> bool" where
  "rouille_texts T \<longleftrightarrow> (\<forall>s. ro_data (os_text T s) = s) \<and> (\<forall>n v p. ro_data (os_unique_header T n v p) = ro_data p)"

lemma rouille_shows_page:
  assumes store: "server_store L hash num healthy" and texts: "rouille_texts T"
    and I: "server_holds hash L clients scopes Q s" and closed: "grant_closed Q"
    and run: "rouille_index L T c s = (Ok r, s')" and page: "ro_data r = ''Hello world!''"
  shows "\<exists>token g. oh_header (ol_http c) ''Authorization'' = Some (''Bearer '' @ token) \<and>
    server_access_grant hash L s token = Some g \<and> ck_now (ol_clock c) \<le> g_until g \<and> Q g"
proof -
  let ?E = "generic_endpoint (rouille_generic L T c)" and ?q = "rouille_web_request (os_form T) (ol_http c)"
  obtain g where ex: "resource_execute (os_order T) (rouille_response_ops (sl_url L)) ?E ?q (ck_now (ol_clock c)) s = (Ok g, s')"
    using run page texts rouille_deny_text_differs
    by (auto simp: rouille_index_def Let_def bind_ac_def expect_flow_def rouille_prepared rouille_texts_def
        split: prod.splits outcome.splits)
  obtain w where "protect (scoped_resource ?E ?q) (wrapped_resource_request ?q) (ck_now (ol_clock c)) s = (Ok g, w)"
    using ex by (auto simp: resource_execute_def split: prod.splits outcome.splits)
  from protect_Ok [OF this] obtain token where token: "oh_header (ol_http c) ''Authorization'' = Some (''Bearer '' @ token)"
      "ck_now (ol_clock c) \<le> g_until g" "is_recover_token (server_issuer L) token s = (Ok (Some g), w)"
    by (auto simp: wrapped_resource_request_def rouille_web_request_def scoped_resource_def rouille_parts opt_primitive_def)
  have "server_access_grant hash L s token = Some g"
    using server_store.axioms(1) [OF store] token(3) by (blast intro: server_recover_stored)
  moreover have "ensures (server_holds hash L clients scopes Q) (resource_execute (os_order T)
      (rouille_response_ops (sl_url L)) ?E ?q (ck_now (ol_clock c))) Q"
    by (rule keeper_endpoint.resource_flow_ensures [OF rouille_keeper [OF store closed]]) (auto simp: rouille_parts)
  from ensuresD [OF this I ex] have "Q g" by simp
  ultimately show ?thesis using token by blast
qed

lemma rouille_preconfigured_parts:
  assumes "rouille_preconfigured L salt g h r = Ok s"
  shows "clients_wf (sv_registrar s)" and "sv_scopes s = [\<lparr> tokens = {|''default''|} \<rparr>]" and "sv_redis s = r"
    and "typed_grant (sv_registrar s) gr \<longleftrightarrow> g_client_id gr = ''LocalClient'' \<and> scope_wf (g_scope gr) \<and>
      tokens (g_scope gr) |\<subseteq>| {|''default''|}"
proof -
  have parses: "scope_from_str ''default'' = Ok \<lparr> tokens = {|''default''|} \<rparr>" by code_simp
  have s: "\<exists>url. s = \<lparr> sv_registrar = \<lparr> cm_clients = [''LocalClient'' \<mapsto>
      \<lparr> ec_client_id = ''LocalClient'', ec_redirect_uri = Semantic url, ec_additional_redirect_uris = [],
        ec_default_scope = \<lparr> tokens = {|''default''|} \<rparr>, ec_encoded_client = PublicClient \<rparr>], cm_password_policy = None \<rparr>,
      sv_authorizer = auth_map_new g, sv_issuer = token_map_new h, sv_scopes = [\<lparr> tokens = {|''default''|} \<rparr>], sv_redis = r \<rparr>"
    using assms by (auto simp: rouille_preconfigured_def parses register_client_def client_encode_def client_public_def
        bind_ac_def client_map_new_def bind_oc_Ok_iff)
  show "clients_wf (sv_registrar s)" "sv_scopes s = [\<lparr> tokens = {|''default''|} \<rparr>]" "sv_redis s = r"
    using s scope_from_str_wf [OF parses] by (auto simp: clients_wf_def split: if_splits)
  show "typed_grant (sv_registrar s) gr \<longleftrightarrow> g_client_id gr = ''LocalClient'' \<and> scope_wf (g_scope gr) \<and>
      tokens (g_scope gr) |\<subseteq>| {|''default''|}"
    using s by (elim exE) (simp add: typed_grant_def)
qed

section \<open>An example\<close>

fun text_params :: "string list \<Rightarrow> (unit + string \<times> string) list" where
  "text_params (k # v # xs) = Inr (k, v) # text_params xs"
| "text_params _ = []"

definition quoted_form :: urlencoded where
  "quoted_form s = (case unquoted s of Some xs \<Rightarrow> text_params xs | None \<Rightarrow> [])"

definition example_rouille_site :: rouille_site where
  "example_rouille_site = \<lparr> os_order = example_order, os_wire = example_wire, os_form = quoted_form,
     os_param = (\<lambda>h k. map_of (List.map_filter (\<lambda>x. case x of Inr p \<Rightarrow> Some p | Inl _ \<Rightarrow> None)
       (quoted_form (oh_raw_query_string h))) k),
     os_empty_400 = \<lparr> ro_status_code = 400, ro_headers = [], ro_data = [] \<rparr>,
     os_empty_404 = \<lparr> ro_status_code = 404, ro_headers = [], ro_data = [] \<rparr>,
     os_text = (\<lambda>s. \<lparr> ro_status_code = 200, ro_headers = [(''Content-Type'', ''text/plain'')], ro_data = s \<rparr>),
     os_html = (\<lambda>s. \<lparr> ro_status_code = 200, ro_headers = [(''Content-Type'', ''text/html'')], ro_data = s \<rparr>),
     os_redirect_303 = (\<lambda>u. \<lparr> ro_status_code = 303, ro_headers = [(''Location'', u)], ro_data = [] \<rparr>),
     os_unique_header = (\<lambda>n v. rouille_replace n (n, v)) \<rparr>"

definition rouille_example_call :: "string \<Rightarrow> string \<Rightarrow> string list \<Rightarrow> string list \<Rightarrow> string option \<Rightarrow> rouille_call" where
  "rouille_example_call verb url query form auth = \<lparr> ol_method = verb, ol_url = url,
     ol_http = \<lparr> oh_raw_query_string = quote_list query, oh_header = (\<lambda>n. if n = ''Authorization'' then auth else None),
       oh_data = Some (Some (quote_list form)) \<rparr>,
     ol_clock = example_clock \<rparr>"

definition rouille_consent_call :: rouille_call where
  "rouille_consent_call = rouille_example_call ''POST'' ''/authorize''
     [''response_type'', ''code'', ''client_id'', ''LocalClient'', ''allow'', ''true''] [] None"

definition rouille_redeem_call :: "string \<Rightarrow> rouille_call" where
  "rouille_redeem_call code = rouille_example_call ''POST'' ''/token'' []
     [''grant_type'', ''authorization_code'', ''code'', code, ''client_id'', ''LocalClient'',
      ''redirect_uri'', ''http://localhost:8021/endpoint''] None"

definition rouille_page_call :: "string \<Rightarrow> rouille_call" where
  "rouille_page_call token = rouille_example_call ''GET'' ''/'' [] [] (Some (''Bearer '' @ token))"

definition rouille_state :: "(unit, unit, string, mem_redis) server" where
  "rouille_state = \<lparr> sv_registrar = \<lparr> cm_clients = [''LocalClient'' \<mapsto>
      \<lparr> ec_client_id = ''LocalClient'', ec_redirect_uri = Semantic ''http://localhost:8021/endpoint'',
        ec_additional_redirect_uris = [], ec_default_scope = \<lparr> tokens = {|''default''|} \<rparr>,
        ec_encoded_client = PublicClient \<rparr>], cm_password_policy = None \<rparr>,
      sv_authorizer = auth_map_new (), sv_issuer = token_map_new (), sv_scopes = [\<lparr> tokens = {|''default''|} \<rparr>],
      sv_redis = mem_empty \<rparr>"

lemma rouille_example_preconfigured: "rouille_preconfigured example_server_lib [] () () mem_empty = Ok rouille_state"
proof -
  have "scope_from_str ''default'' = Ok \<lparr> tokens = {|''default''|} \<rparr>" by code_simp
  then show ?thesis
    by (simp add: rouille_preconfigured_def register_client_def client_encode_def client_public_def
        bind_ac_def client_map_new_def rouille_state_def url_identity_def)
qed

lemma rouille_example_texts: "rouille_texts example_rouille_site"
  by (simp add: rouille_texts_def example_rouille_site_def rouille_replace_def)

lemma rouille_call_parts:
  "ol_method rouille_consent_call = ''POST''" "ol_url rouille_consent_call = ''/authorize''"
  "ol_method (rouille_redeem_call code) = ''POST''" "ol_url (rouille_redeem_call code) = ''/token''"
  "ol_method (rouille_page_call token) = ''GET''" "ol_url (rouille_page_call token) = ''/''"
  "ck_now (ol_clock rouille_consent_call) = 5" "ck_now (ol_clock (rouille_redeem_call code)) = 5"
  "ck_issue (ol_clock (rouille_redeem_call code)) = 5" "ck_now (ol_clock (rouille_page_call token)) = 5"
  by (simp_all add: rouille_consent_call_def rouille_redeem_call_def rouille_page_call_def rouille_example_call_def
      example_clock_def)

lemmas form_simps = example_rouille_site_def rouille_example_call_def quoted_form_def
  rouille_web_request_def urlencoded_from_str_def urlencoded_from_reader_def np_deserialize_def np_new_def
  insert_or_poison_def np_unique_value_def np_query_def

lemma rouille_consent_request:
  "wrapped_auth_request (rouille_web_request (os_form example_rouille_site) (ol_http rouille_consent_call)) = q \<Longrightarrow>
     aur_valid q \<and> aur_client_id q = Some ''LocalClient'' \<and> aur_redirect_uri q = None \<and> aur_scope q = None \<and>
     aur_response_type q = Some ''code''"
  "os_param example_rouille_site (ol_http rouille_consent_call) ''allow'' = Some ''true''"
  by (auto simp: rouille_consent_call_def form_simps wrapped_auth_request_def wrapped_query_request_def map_filter_simps)

lemma rouille_redeem_request:
  "at_check_params url_identity (wrapped_token_request W (rouille_web_request (os_form example_rouille_site)
     (ol_http (rouille_redeem_call code))) False)
   = (Ok (''LocalClient'', None, code, ''http://localhost:8021/endpoint'') :: (_, string at_error) outcome)"
  by (simp add: rouille_redeem_call_def form_simps wrapped_token_request_def token_request_parts_def
      at_check_params_def at_params_def at_credentials_def wrapped_body_request_def cred_unauthenticated_def cred_add_def
      url_identity_def)

lemma rouille_page_request:
  "wrapped_resource_request (rouille_web_request P (ol_http (rouille_page_call token))) =
     \<lparr> rq_valid = True, rq_token = Some (''Bearer '' @ token) \<rparr>"
  by (simp add: rouille_page_call_def rouille_example_call_def rouille_web_request_def wrapped_resource_request_def)

text \<open>The owner consents, the code is redeemed, and the page opens.\<close>

lemma rouille_login:
  "\<exists>code t s1 s2 l3 reply1 reply2 reply3.
    rouille_handle example_server_lib example_rouille_site rouille_consent_call (rw_lock_new rouille_state)
      = (Ok reply1 :: (_, unit) outcome, rw_lock_new s1) \<and>
    access_token url_identity example_order
      (wrapped_token (generic_endpoint (rouille_generic example_server_lib example_rouille_site (rouille_redeem_call code))))
      (wrapped_token_request example_wire (rouille_web_request quoted_form (ol_http (rouille_redeem_call code))) False)
      5 5 s1 = (Ok t, s2) \<and>
    rouille_handle example_server_lib example_rouille_site (rouille_redeem_call code) (rw_lock_new s1)
      = (Ok reply2 :: (_, unit) outcome, rw_lock_new s2) \<and>
    rouille_handle example_server_lib example_rouille_site (rouille_page_call (it_token (case t of BearerToken i _ \<Rightarrow> i)))
      (rw_lock_new s2) = (Ok reply3 :: (_, unit) outcome, l3) \<and>
    ro_data reply3 = ''Hello world!''"
proof -
  let ?L = example_server_lib and ?T = example_rouille_site and ?sc = "\<lparr> tokens = {|''default''|} \<rparr>"
  let ?E = "\<lambda>c. generic_endpoint (rouille_generic ?L ?T c)" and ?s = rouille_state
  have lib: "sl_url ?L = url_identity" "os_order ?T = example_order" "os_wire ?T = example_wire" "os_form ?T = quoted_form"
    by (simp_all add: example_rouille_site_def)
  define q where "q = wrapped_auth_request (rouille_web_request (os_form ?T) (ol_http rouille_consent_call))"
  note asks = rouille_consent_request(1) [OF q_def [symmetric]]
  define p where "p = \<lparr> pd_pre_grant = \<lparr> pg_client_id = ''LocalClient'',
      pg_redirect_uri = Semantic ''http://localhost:8021/endpoint'', pg_scope = ?sc \<rparr>,
      pd_state = aur_state q, pd_extensions = extensions_new \<rparr>"
  have asked: "authorization_code url_identity (wrapped_authorization (?E c)) q ?s = (Ok p, ?s)" for c
    unfolding p_def
    by (subst default_code_request [where client = "''LocalClient''" and U' = url_identity and A = spell_argon2
          and m = "sv_registrar ?s" and url = "''http://localhost:8021/endpoint''"
          and c = "\<lparr> ec_client_id = ''LocalClient'', ec_redirect_uri = Semantic ''http://localhost:8021/endpoint'',
            ec_additional_redirect_uris = [], ec_default_scope = ?sc, ec_encoded_client = PublicClient \<rparr>"])
      (simp_all add: asks rouille_state_def wrapped_authorization_def rouille_parts server_registrar_def)
  have "\<exists>code t s1 s2 s3.
    pending_authorize url_identity (wrapped_authorization (?E rouille_consent_call)) 5 ''dummy user'' p ?s =
      (Ok (url_extend_pairs url_identity ''http://localhost:8021/endpoint''
         ((''code'', code) # (case pd_state p of Some v \<Rightarrow> [(''state'', v)] | None \<Rightarrow> []))), s1) \<and>
    access_token url_identity example_order (wrapped_token (?E rouille_consent_call))
      (wrapped_token_request example_wire (rouille_web_request quoted_form (ol_http (rouille_redeem_call code))) False) 5 5 s1 =
      (Ok (BearerToken t (scope_to_string example_order (pg_scope (pd_pre_grant p)))), s2) \<and>
    protect (scoped_resource (?E rouille_consent_call) undefined) \<lparr> rq_valid = True, rq_token = Some (''Bearer '' @ it_token t) \<rparr>
      5 s2 = (Ok \<lparr> g_owner_id = ''dummy user'', g_client_id = pg_client_id (pd_pre_grant p),
        g_scope = pg_scope (pd_pre_grant p), g_redirect_uri = ''http://localhost:8021/endpoint'', g_until = 5 + days 1,
        g_extensions = extensions_new \<rparr>, s3)"
    by (rule server_store.consent_to_access [OF example_server_store, where pass = None, unfolded lib])
      (use example_fresh rouille_redeem_request [unfolded lib] in \<open>simp_all add: p_def rouille_state_def
         registered_to_url_def server_registrar_def client_map_registrar_def cm_check_def check_authentication_def
         mem_empty_def [THEN arg_cong, where f = mr_num] token_map_new_def days_def seconds_def rouille_generic_def lib\<close>)
  then obtain code t s1 s2 s3 x g where
    consent: "pending_authorize url_identity (wrapped_authorization (?E rouille_consent_call)) 5 ''dummy user'' p ?s = (Ok x, s1)"
    and token: "access_token url_identity example_order (wrapped_token (?E rouille_consent_call))
      (wrapped_token_request example_wire (rouille_web_request quoted_form (ol_http (rouille_redeem_call code))) False) 5 5 s1 =
      (Ok (BearerToken t (scope_to_string example_order (pg_scope (pd_pre_grant p)))), s2)"
    and page: "protect (scoped_resource (?E rouille_consent_call) undefined)
      \<lparr> rq_valid = True, rq_token = Some (''Bearer '' @ it_token t) \<rparr> 5 s2 = (Ok g, s3)"
    by blast
  have same: "wrapped_token (?E c) = wrapped_token (?E rouille_consent_call)"
    "scoped_resource (?E c) r = scoped_resource (?E rouille_consent_call) undefined"
    "wrapped_authorization (?E c) = wrapped_authorization (?E rouille_consent_call)" for c r
    by (simp_all add: wrapped_token_def scoped_resource_def wrapped_authorization_def rouille_parts)
  have ops: "ep_response (?E c) r k w = (Ok (os_empty_404 ?T, k), w)" for c r k w
    by (simp add: generic_endpoint_def rouille_parts fn_response_def)
  have asks': "wrapped_auth_request (rouille_web_request quoted_form (ol_http rouille_consent_call)) = q"
    by (simp add: q_def lib)
  note handle = rouille_handle_def rouille_arm_def rouille_call_parts mutex_run_def rouille_arms rouille_run_def
    rouille_answer_def rw_lock_new_def lib bind_ac_def ops web_result_def rouille_response_ops_def
  have answer: "rouille_solicitor url_identity ?T rouille_consent_call r sl w = (Some (Authorized ''dummy user''), w)" for r sl w
    using rouille_consent_request(2) by (simp add: rouille_solicitor_def fn_solicitor_def rouille_call_parts)
  obtain reply1 where 1: "rouille_handle ?L ?T rouille_consent_call (rw_lock_new ?s) = (Ok reply1 :: (_, unit) outcome, rw_lock_new s1)"
    using asked [of rouille_consent_call] consent asks
    by (simp add: handle authorization_execute_def Let_def asks' pending_finish_def rouille_parts(4) answer convert_result_def)
  obtain reply2 where 2: "rouille_handle ?L ?T (rouille_redeem_call code) (rw_lock_new s1)
      = (Ok reply2 :: (_, unit) outcome, rw_lock_new s2)"
    using token by (simp add: handle access_token_execute_def same(1) [of "rouille_redeem_call code"])
  obtain l3 where 3: "rouille_handle ?L ?T (rouille_page_call (it_token t)) (rw_lock_new s2)
      = (Ok (os_text ?T ''Hello world!'') :: (_, unit) outcome, l3)"
    using page by (simp add: handle rouille_index_def Let_def expect_flow_def rouille_prepared resource_execute_def rouille_page_request
        same(2) [of "rouille_page_call (it_token t)"])
  have page_text: "ro_data (os_text ?T ''Hello world!'') = ''Hello world!''"
    by (simp add: example_rouille_site_def)
  let ?t = "BearerToken t (scope_to_string example_order (pg_scope (pd_pre_grant p)))"
  have "rouille_handle ?L ?T (rouille_page_call (it_token (case ?t of BearerToken i _ \<Rightarrow> i))) (rw_lock_new s2)
      = (Ok (os_text ?T ''Hello world!'') :: (_, unit) outcome, l3)"
    using 3 by simp
  then show ?thesis
    using 1 2 token [folded same(1) [of "rouille_redeem_call code"]] page_text by blast
qed

section \<open>Properties\<close>

text \<open>
  Access at the rouille server. Whatever calls it handles, starting on an empty store, and whether
  or not some of them panic: the page greets only a bearer of a token behind which the store has an
  unexpired grant of the registered client within its scope; and that grant was authorized by an
  earlier \<open>POST\<close> of the authorization page with a parameter named \<open>allow\<close>, or by a request for the implicit
  flow.
\<close>

lemma rouille_access_needs_consent:
  assumes "redis_store (sl_redis L) hash num healthy" and "codec_ok (sl_grant_codec L)"
    and "codec_ok (sl_token_codec L)" and "rouille_texts T"
    and "rouille_preconfigured L salt code_generator token_generator redis = Ok s" and "\<And>k f. hash redis k f = None"
    and "rouille_serves L T (rw_lock_new s) cs l" and "ol_method c = ''GET''" and "ol_url c = ''/''"
    and "rouille_handle L T c l = (Ok reply :: (_, unit) outcome, l')" and "ro_data reply = ''Hello world!''"
  shows "\<exists>token g. oh_header (ol_http c) ''Authorization'' = Some (''Bearer '' @ token) \<and>
    server_access_grant hash L (lk_value l) token = Some g \<and> ck_now (ol_clock c) \<le> g_until g \<and>
    g_client_id g = ''LocalClient'' \<and> tokens (g_scope g) |\<subseteq>| {|''default''|} \<and>
    (\<exists>d\<in>set cs. rouille_justifies T d g)"
proof -
  note pre = rouille_preconfigured_parts [OF assms(5)] and store = server_storeI [OF assms(1-3)]
  have start: "server_holds hash L (sv_registrar s) (sv_scopes s) (\<lambda>_. False) (lk_value (rw_lock_new s))"
    by (simp add: server_holds_def pre(3) stored_ok_empty assms(6) rw_lock_new_def)
  have holds: "server_holds hash L (sv_registrar s) (sv_scopes s) (rouille_justified T (sv_registrar s) cs) (lk_value l)"
    by (rule rouille_serves_justified [OF assms(7) store pre(1) start])
  have "mutex_run (rouille_index L T c) l = (Ok reply :: (_, unit) outcome, l')"
    using assms(8-10) by (simp add: rouille_handle_def rouille_arm_def)
  then obtain s' where run: "rouille_index L T c (lk_value l) = (Ok reply :: (_, unit) outcome, s')"
    by (auto simp: mutex_run_def split: if_splits prod.splits)
  from rouille_shows_page [OF store assms(4) holds rouille_justified_closed run assms(11)] show ?thesis
    by (auto simp: rouille_justified_def pre(4))
qed

lemma rouille_access_example:
  "\<exists>cs l token g. rouille_serves example_server_lib example_rouille_site (rw_lock_new rouille_state) cs l \<and>
    server_access_grant mr_hash example_server_lib (lk_value l) token = Some g \<and>
    (\<exists>d\<in>set cs. rouille_justifies example_rouille_site d g)"
proof -
  obtain code t s1 s2 l3 reply1 reply2 reply3 where
    1: "rouille_handle example_server_lib example_rouille_site rouille_consent_call (rw_lock_new rouille_state)
      = (Ok reply1 :: (_, unit) outcome, rw_lock_new s1)"
    and 2: "rouille_handle example_server_lib example_rouille_site (rouille_redeem_call code) (rw_lock_new s1)
      = (Ok reply2 :: (_, unit) outcome, rw_lock_new s2)"
    and 3: "rouille_handle example_server_lib example_rouille_site
        (rouille_page_call (it_token (case t of BearerToken i _ \<Rightarrow> i))) (rw_lock_new s2)
      = (Ok reply3 :: (_, unit) outcome, l3)" "ro_data reply3 = ''Hello world!''"
    using rouille_login by blast
  have serves: "rouille_serves example_server_lib example_rouille_site (rw_lock_new rouille_state)
      [rouille_redeem_call code, rouille_consent_call] (rw_lock_new s2)"
    by (rule rouille_serves_call [OF rouille_serves_call [OF rouille_serves_start 1] 2])
  have empty: "mr_hash mem_empty k f = None" for k f
    by (simp add: mem_empty_def)
  have lib: "sl_redis example_server_lib = mem_ops" "sl_grant_codec example_server_lib = grant_codec"
    "sl_token_codec example_server_lib = token_codec"
    by simp_all
  from rouille_access_needs_consent [where L = example_server_lib and hash = mr_hash and num = mr_num and
      healthy = mem_healthy, unfolded lib, OF mem_redis_store grant_codec_ok token_codec_ok rouille_example_texts
      rouille_example_preconfigured empty serves rouille_call_parts(5,6) 3]
  show ?thesis using serves by blast
qed

text \<open>
  The status of token responses. A request for which the protocol issues a token is answered with
  the status the response was created with: this server creates every response as \<open>404\<close>, and the
  access token flow only sets the body, so the token comes with the status \<open>404\<close>.
\<close>

lemma rouille_tokens_not_found:
  assumes "access_token (sl_url L) (os_order T) (wrapped_token (generic_endpoint (rouille_generic L T c)))
      (wrapped_token_request (os_wire T) (rouille_web_request (os_form T) (ol_http c)) False)
      (ck_now (ol_clock c)) (ck_issue (ol_clock c)) (lk_value l) = (Ok t, s')"
    and "ol_method c = ''POST''" and "ol_url c = ''/token''" and "\<not> lk_poisoned l"
    and "ro_status_code (os_empty_404 T) = 404"
  shows "\<exists>reply. rouille_handle L T c l = (Ok reply :: (_, unit) outcome, \<lparr> lk_value = s', lk_poisoned = False \<rparr>) \<and>
    ro_status_code reply = 404 \<and> ro_data reply = wl_token_json (os_wire T) (bearer_to_json (ck_reply (ol_clock c)) t)"
proof -
  have ops: "ep_response (generic_endpoint (rouille_generic L T c)) q k w = (Ok (os_empty_404 T, k), w)" for q k w
    by (simp add: generic_endpoint_def rouille_parts fn_response_def)
  show ?thesis
    using assms
    by (simp add: rouille_handle_def rouille_arm_def mutex_run_def rouille_arms rouille_run_def rouille_answer_def
        access_token_execute_def bind_ac_def ops web_result_def rouille_response_ops_def rouille_replace_def ret_def)
qed

lemma rouille_tokens_not_found_example:
  "\<exists>code t s1 s2 reply. rouille_handle example_server_lib example_rouille_site (rouille_redeem_call code) (rw_lock_new s1)
      = (Ok reply :: (_, unit) outcome, rw_lock_new s2) \<and> ro_status_code reply = 404 \<and>
    ro_data reply = wl_token_json example_wire (bearer_to_json 5 t)"
proof -
  have lib: "sl_url example_server_lib = url_identity" "os_order example_rouille_site = example_order"
    "os_wire example_rouille_site = example_wire" "os_form example_rouille_site = quoted_form"
    "ck_reply (ol_clock (rouille_redeem_call code)) = 5" for code
    by (simp_all add: example_rouille_site_def rouille_redeem_call_def rouille_example_call_def example_clock_def)
  obtain code t s1 s2 where token: "access_token url_identity example_order
      (wrapped_token (generic_endpoint (rouille_generic example_server_lib example_rouille_site (rouille_redeem_call code))))
      (wrapped_token_request example_wire (rouille_web_request quoted_form (ol_http (rouille_redeem_call code))) False)
      5 5 s1 = (Ok t, s2)"
    using rouille_login by blast
  have "\<exists>reply. rouille_handle example_server_lib example_rouille_site (rouille_redeem_call code) (rw_lock_new s1)
      = (Ok reply :: (_, unit) outcome, \<lparr> lk_value = s2, lk_poisoned = False \<rparr>) \<and> ro_status_code reply = 404 \<and>
    ro_data reply = wl_token_json (os_wire example_rouille_site)
      (bearer_to_json (ck_reply (ol_clock (rouille_redeem_call code))) t)"
    by (rule rouille_tokens_not_found)
      (use token in \<open>simp_all add: lib rouille_call_parts rw_lock_new_def\<close>, simp add: example_rouille_site_def)
  then show ?thesis
    unfolding lib rw_lock_new_def by blast
qed

end
