(* ===== verification/Guards.thy ===== *)
theory Guards
  imports Rouille_Example
begin

text \<open>
  The state of the iron and rocket examples: registrar, authorizer and issuer, each behind a mutex of its
  own. Every request locks the three in this order and holds them until it is answered; a panic poisons
  those it holds. So the three are poisoned together, and a server of which one request has panicked
  answers no other.
\<close>

section \<open>Three mutexes\<close>

record ('c, 'a, 'i, 'r) guarded =
  gd_registrar :: "'c rw_lock"
  gd_authorizer :: "'a rw_lock"
  gd_issuer :: "'i rw_lock"
  gd_redis :: 'r

definition guarded_new :: "'c \<Rightarrow> 'a \<Rightarrow> 'i \<Rightarrow> 'r \<Rightarrow> ('c, 'a, 'i, 'r) guarded" where
  "guarded_new registrar authz issuer redis =
     \<lparr> gd_registrar = rw_lock_new registrar, gd_authorizer = rw_lock_new authz, gd_issuer = rw_lock_new issuer,
       gd_redis = redis \<rparr>"

definition poison :: "'s rw_lock \<Rightarrow> 's rw_lock" where
  "poison l = l\<lparr> lk_poisoned := True \<rparr>"

text \<open>\<open>self.registrar.lock().unwrap()\<close> and so on in the fields of a \<open>Generic\<close>: the guards taken so far are
  dropped by a panic and poisoned.\<close>

definition guarded_run ::
  "('c \<times> 'a \<times> 'i \<times> 'r, 'x, 'e) action \<Rightarrow> (('c, 'a, 'i, 'r) guarded, 'x, 'e) action" where
  "guarded_run m = (\<lambda>g.
     if lk_poisoned (gd_registrar g) then (Panic, g)
     else if lk_poisoned (gd_authorizer g) then (Panic, g\<lparr> gd_registrar := poison (gd_registrar g) \<rparr>)
     else if lk_poisoned (gd_issuer g)
       then (Panic, g\<lparr> gd_registrar := poison (gd_registrar g), gd_authorizer := poison (gd_authorizer g) \<rparr>)
     else case m (lk_value (gd_registrar g), lk_value (gd_authorizer g), lk_value (gd_issuer g), gd_redis g) of
            (x, (c, a, i, r)) \<Rightarrow>
              (let panicked = (case x of Panic \<Rightarrow> True | _ \<Rightarrow> False) in
               (x, \<lparr> gd_registrar = \<lparr> lk_value = c, lk_poisoned = panicked \<rparr>,
                     gd_authorizer = \<lparr> lk_value = a, lk_poisoned = panicked \<rparr>,
                     gd_issuer = \<lparr> lk_value = i, lk_poisoned = panicked \<rparr>, gd_redis = r \<rparr>)))"

definition guarded_values :: "('c, 'a, 'i, 'r) guarded \<Rightarrow> 'c \<times> 'a \<times> 'i \<times> 'r" where
  "guarded_values g = (lk_value (gd_registrar g), lk_value (gd_authorizer g), lk_value (gd_issuer g), gd_redis g)"

section \<open>They fall together\<close>

definition guards_agree :: "('c, 'a, 'i, 'r) guarded \<Rightarrow> bool" where
  "guards_agree g \<longleftrightarrow> lk_poisoned (gd_authorizer g) = lk_poisoned (gd_registrar g) \<and>
     lk_poisoned (gd_issuer g) = lk_poisoned (gd_registrar g)"

definition guards_down :: "('c, 'a, 'i, 'r) guarded \<Rightarrow> bool" where
  "guards_down g \<longleftrightarrow> lk_poisoned (gd_registrar g) \<and> lk_poisoned (gd_authorizer g) \<and> lk_poisoned (gd_issuer g)"

lemma guarded_new_up: "guards_agree (guarded_new c a i r)" "\<not> guards_down (guarded_new c a i r)"
  "guarded_values (guarded_new c a i r) = (c, a, i, r)"
  by (simp_all add: guards_agree_def guards_down_def guarded_new_def rw_lock_new_def guarded_values_def)

lemma guarded_run_agrees:
  assumes "guarded_run m g = (x, g')" and "guards_agree g"
  shows "guards_agree g'" and "guards_down g' \<longleftrightarrow> x = Panic" and "guards_down g \<Longrightarrow> x = Panic \<and> g' = g"
  using assms
  by (auto simp: guarded_run_def guards_agree_def guards_down_def Let_def split: prod.splits if_splits outcome.splits)

lemma guarded_run_up:
  assumes "guards_agree g" and "\<not> guards_down g" and "m (guarded_values g) = (x, v)"
  shows "\<exists>g'. guarded_run m g = (x, g') \<and> guarded_values g' = v"
proof -
  obtain c a i r where v: "v = (c, a, i, r)" by (metis prod.collapse)
  have up: "\<not> lk_poisoned (gd_registrar g)" "\<not> lk_poisoned (gd_authorizer g)" "\<not> lk_poisoned (gd_issuer g)"
    using assms(1,2) by (auto simp: guards_agree_def guards_down_def)
  have "fst (guarded_run m g) = x \<and> guarded_values (snd (guarded_run m g)) = v"
    using assms(3) by (simp add: guarded_run_def up v guarded_values_def Let_def)
  then show ?thesis by (metis prod.collapse)
qed

text \<open>What an action under the guards keeps of the values.\<close>

lemma guarded_run_values:
  "guarded_run m g = (x, g') \<Longrightarrow>
     m (guarded_values g) = (x, guarded_values g') \<or> guarded_values g' = guarded_values g \<and> x = Panic"
  by (auto simp: guarded_run_def guarded_values_def poison_def Let_def split: if_splits prod.splits)

lemma guarded_run_keeps:
  assumes "keeps I m" and "guarded_run m g = (x, g')" and "I (guarded_values g)"
  shows "I (guarded_values g')"
  using guarded_run_values [OF assms(2)] keepsD [OF assms(1,3), of x "guarded_values g'"] assms(3) by auto

text \<open>The answer to a request for the page without a token, the same text in both examples.\<close>

definition relative_deny_text :: string where
  "relative_deny_text = ''<html>'' @ newline
     @ ''This page should be accessed via an oauth token from the client in the example. Click'' @ newline
     @ ''<a href=\"/authorize?response_type=code&client_id=LocalClient\">'' @ newline
     @ ''here</a> to begin the authorization process.'' @ newline
     @ ''</html>'' @ newline"

section \<open>A login over given primitives\<close>

text \<open>
  Consent, redemption and access at an endpoint without extensions, from what its primitives do: the
  authorizer stores and returns the grant, the issuer makes a token of it and recovers it.
\<close>

lemma endpoint_parts:
  assumes "ep_registrar E = opt_primitive R" and "ep_authorizer E = opt_primitive (\<lambda>w. A)"
    and "ep_issuer E = opt_primitive (\<lambda>w. S)" and "ep_extension E = (\<lambda>w. None)"
  shows "wrapped_authorization E = \<lparr> aue_registrar = R, aue_authorizer = A, aue_extension = auth_no_extension, aue_issuer = S \<rparr>"
    and "wrapped_token E = \<lparr> ate_registrar = R, ate_authorizer = A, ate_issuer = S, ate_extension = at_no_extension \<rparr>"
  by (simp_all add: wrapped_authorization_def wrapped_token_def assms fun_eq_iff)

lemma consent_over:
  assumes "aue_authorizer E = A" and "registered_to_url U (pg_redirect_uri (pd_pre_grant p)) = (Ok uri :: ('u, 'u auth_error) outcome)"
    and "az_authorize A (consented_grant owner p uri now) s = (Ok c, s1)"
  shows "pending_authorize U E now owner p s =
    (Ok (url_extend_pairs U uri ((''code'', c) # (case pd_state p of Some v \<Rightarrow> [(''state'', v)] | None \<Rightarrow> []))), s1)"
  using assms by (simp add: pending_authorize_def consented_grant_def registered_into_url_eq bind_ac_def err_ac_def)

lemma redeem_over:
  assumes "ate_registrar E = R" "ate_authorizer E = A" "ate_issuer E = S" "ate_extension E = at_no_extension"
    and "at_check_params U q = Ok (client, pass, c, uri)" and "rg_check (R s1) client pass = Ok ()"
    and "az_extract A c s1 = (Ok (Some g), s2)"
    and "g_client_id g = client" "g_redirect_uri g = uri" "rnow \<le> g_until g"
    and "is_issue S inow (g\<lparr> g_extensions := extensions_new \<rparr>) s2 = (Ok t, s3)"
  shows "access_token U it E q rnow inow s1 = (Ok (BearerToken t (scope_to_string it (g_scope g))), s3)"
  using assms
  by (simp add: access_token_exchange code_exchange_def bind_ac_def err_ac_def redeemable_def at_no_extension_def)

lemma access_over:
  assumes "ep_scopes E = (\<lambda>w. Some (slice_scopes [sc]))" and "ep_issuer E = opt_primitive (\<lambda>w. S)"
    and "is_recover_token S token s = (Ok (Some g), s')" and "now \<le> g_until g" and "allow_access (g_scope g) sc"
  shows "protect (scoped_resource E request) \<lparr> rq_valid = True, rq_token = Some (''Bearer '' @ token) \<rparr> now s = (Ok g, s')"
  using assms
  by (simp add: protect_guard guard_resource_def bind_ac_def bearer_token_of_def determine_scopes_def
      scoped_resource_def err_ac_def resource_recovered_def slice_scopes_def opt_primitive_def)

end
