(* ===== verification/Rocket_Example.thy ===== *)
theory Rocket_Example
  imports Guards
begin

text \<open>
  The rocket example (\<open>oxide-auth-rocket/examples/rocket.rs\<close>) and its client
  (\<open>examples/support/rocket.rs\<close>), which the same process serves. The state is that of \<open>Guards\<close> with a token
  map as its issuer; each request builds an endpoint over the guards. The setters of \<open>rocket::Response\<close>,
  the content types and the typed query parameters of the routes are parameters.
\<close>

section \<open>The server\<close>

record 'p rocket_site =
  kt_order :: "string fset \<Rightarrow> string list"
  kt_wire :: wire_lib
  kt_form :: urlencoded
  kt_response :: "'p response_lib"
  kt_html :: string

text \<open>A request: what the binding sees of it, the parameter \<open>allow\<close> if it is a boolean, and the body.\<close>

record rocket_call =
  kc_method :: string
  kc_path :: string
  kc_http :: rocket_http
  kc_allow :: "bool option"
  kc_body :: "string option"
  kc_clock :: clock

type_synonym ('g, 'h, 'u, 'r) rocket_state = "('u client_map, ('g, 'u) auth_map, ('h, 'u) token_map, 'r) guarded"

text \<open>The server behind the guards; the scopes of an endpoint are given with it, not with the state.\<close>

definition guarded_server :: "('g, 'h, 'u, 'r) rocket_state \<Rightarrow> ('g, 'h, 'u, 'r) server" where
  "guarded_server g = (case guarded_values g of (c, a, i, r) \<Rightarrow>
     \<lparr> sv_registrar = c, sv_authorizer = a, sv_issuer = i, sv_scopes = [], sv_redis = r \<rparr>)"

definition on_server ::
  "(('g, 'h, 'u, 'r) server, 'x, 'e) action
    \<Rightarrow> ('u client_map \<times> ('g, 'u) auth_map \<times> ('h, 'u) token_map \<times> 'r, 'x, 'e) action" where
  "on_server m = (\<lambda>(c, a, i, r).
     case m \<lparr> sv_registrar = c, sv_authorizer = a, sv_issuer = i, sv_scopes = [], sv_redis = r \<rparr> of
       (x, s) \<Rightarrow> (x, (sv_registrar s, sv_authorizer s, sv_issuer s, sv_redis s)))"

text \<open>\<open>MyState::endpoint\<close>: everything but the three primitives is vacant, and a response is the default one.\<close>

definition rocket_generic ::
  "('g, 'h, 'u, 'r) server_lib \<Rightarrow> 'p rocket_site \<Rightarrow> (('g, 'h, 'u, 'r) server, 'u, 'p, rocket_error) generic" where
  "rocket_generic L T =
     \<lparr> gn_registrar = opt_primitive (server_registrar L), gn_authorizer = opt_primitive (\<lambda>s. server_authorizer L),
       gn_issuer = opt_primitive (\<lambda>s. server_issuer L), gn_solicitor = vacant_solicitor, gn_scopes = vacant_scopes,
       gn_response = fn_response (\<lambda>s. (hl_default (kt_response T), s)) \<rparr>"

definition rocket_preconfigured ::
  "('g, 'h, 'u, 'r) server_lib \<Rightarrow> bytes \<Rightarrow> 'g \<Rightarrow> 'h \<Rightarrow> 'r \<Rightarrow> (('g, 'h, 'u, 'r) rocket_state, registrar_error) outcome" where
  "rocket_preconfigured L salt code_generator token_generator redis =
     bind_oc (expect (url_parse (sl_url L) ''http://localhost:8000/clientside/endpoint'')) (\<lambda>url.
     bind_oc (case scope_from_str ''default-scope'' of Ok scope \<Rightarrow> Ok scope | _ \<Rightarrow> Panic) (\<lambda>scope.
     case client_map_from_iter (sl_argon2 L)
            [(salt, client_public ''LocalClient'' (Semantic url) scope)] of
       (x, registrar) \<Rightarrow> map_ok (\<lambda>_.
         guarded_new registrar (auth_map_new code_generator) (token_map_new token_generator) redis) x))"

definition rocket_consent_form ::
  "'u url_lib \<Rightarrow> 'p rocket_site \<Rightarrow> ('w, 'u, 'p, rocket_error) solicitor" where
  "rocket_consent_form U T = fn_solicitor (\<lambda>request solicitation w.
     (case consent_page_html U (kt_order T) ''/authorize'' solicitation :: (string, unit) outcome of
        Ok page \<Rightarrow> Some (InProgress
          (hl_set_body (kt_response T) page (hl_set_header (kt_response T) ''Content-Type'' (kt_html T)
            (hl_set_status (kt_response T) 200 (hl_default (kt_response T))))))
      | _ \<Rightarrow> None, w))"

definition rocket_consent_decision :: "bool \<Rightarrow> ('w, 'u, 'p, rocket_error) solicitor" where
  "rocket_consent_decision allowed = fn_solicitor (\<lambda>request solicitation w.
     (Some (if allowed then Authorized ''dummy user'' else Denied), w))"

text \<open>\<open>err.pack::<OAuthFailure>()\<close>\<close>

definition rocket_pack :: "rocket_error simple_error \<Rightarrow> rocket_failure" where
  "rocket_pack err = error_pack RkfWeb RkfOAuth err"

definition rocket_authorization ::
  "('g, 'h, 'u, 'r) server_lib \<Rightarrow> 'p rocket_site \<Rightarrow> (('g, 'h, 'u, 'r) server, 'u, 'p, rocket_error) solicitor
    \<Rightarrow> rocket_call \<Rightarrow> (('g, 'h, 'u, 'r) server, 'p, rocket_failure) action" where
  "rocket_authorization L T solicitor c =
     bind_ac (generic_authorization_flow (with_solicitor (rocket_generic L T) solicitor)) (\<lambda>flow.
     err_ac rocket_pack (authorization_execute (sl_url L) (kt_order T) (kt_wire T)
       (rocket_response_ops (sl_url L) (kt_response T)) flow (rocket_web_request (rocket_new (kt_form T) (kc_http c)))
       (ck_now (kc_clock c)) (ck_issue (kc_clock c)) (ck_reply (kc_clock c))))"

definition rocket_authorize ::
  "('g, 'h, 'u, 'r) server_lib \<Rightarrow> 'p rocket_site \<Rightarrow> rocket_call \<Rightarrow> (('g, 'h, 'u, 'r) server, 'p, rocket_failure) action" where
  "rocket_authorize L T c = rocket_authorization L T (rocket_consent_form (sl_url L) T) c"

definition rocket_authorize_consent ::
  "('g, 'h, 'u, 'r) server_lib \<Rightarrow> 'p rocket_site \<Rightarrow> rocket_call \<Rightarrow> (('g, 'h, 'u, 'r) server, 'p, rocket_failure) action" where
  "rocket_authorize_consent L T c =
     (let allowed = (case kc_allow c of Some b \<Rightarrow> b | None \<Rightarrow> False)
      in rocket_authorization L T (rocket_consent_decision allowed) c)"

definition rocket_token ::
  "('g, 'h, 'u, 'r) server_lib \<Rightarrow> 'p rocket_site \<Rightarrow> rocket_call \<Rightarrow> (('g, 'h, 'u, 'r) server, 'p, rocket_failure) action" where
  "rocket_token L T c =
     (let oauth = rocket_add_body (kt_form T) (rocket_new (kt_form T) (kc_http c)) (kc_body c) in
      bind_ac (generic_access_token_flow (rocket_generic L T)) (\<lambda>flow.
      err_ac rocket_pack (access_token_execute (sl_url L) (kt_order T) (kt_wire T)
        (rocket_response_ops (sl_url L) (kt_response T)) flow (rocket_web_request oauth)
        (ck_now (kc_clock c)) (ck_issue (kc_clock c)) (ck_reply (kc_clock c)))))"

definition rocket_refresh ::
  "('g, 'h, 'u, 'r) server_lib \<Rightarrow> 'p rocket_site \<Rightarrow> rocket_call \<Rightarrow> (('g, 'h, 'u, 'r) server, 'p, rocket_failure) action" where
  "rocket_refresh L T c =
     (let oauth = rocket_add_body (kt_form T) (rocket_new (kt_form T) (kc_http c)) (kc_body c) in
      bind_ac (generic_refresh_flow (rocket_generic L T)) (\<lambda>flow.
      err_ac rocket_pack (refresh_execute (kt_order T) (kt_wire T)
        (rocket_response_ops (sl_url L) (kt_response T)) flow (rocket_web_request oauth)
        (ck_now (kc_clock c)) (ck_again (kc_clock c)) (ck_issue (kc_clock c)) (ck_reply (kc_clock c)))))"

definition rocket_protected_resource ::
  "('g, 'h, 'u, 'r) server_lib \<Rightarrow> 'p rocket_site \<Rightarrow> rocket_call
    \<Rightarrow> (('g, 'h, 'u, 'r) server, string, 'p + rocket_failure) action" where
  "rocket_protected_resource L T c =
     bind_ac (lift_oc (case scope_from_str ''default-scope'' of Ok scope \<Rightarrow> Ok scope | _ \<Rightarrow> Panic)) (\<lambda>scope.
     bind_ac (generic_resource_flow (with_scopes (rocket_generic L T) (slice_scopes [scope]))) (\<lambda>flow s.
     case resource_execute (kt_order T) (rocket_response_ops (sl_url L) (kt_response T)) flow
            (rocket_web_request (rocket_new (kt_form T) (kc_http c))) (ck_now (kc_clock c)) s of
       (Ok grant, s') \<Rightarrow> (Ok ''Hello, world'', s')
     | (Err (Ok response), s') \<Rightarrow>
         (Err (Inl (hl_set_body (kt_response T) relative_deny_text
           (hl_set_header (kt_response T) ''Content-Type'' (kt_html T) response))), s')
     | (Err (Err err), s') \<Rightarrow> (Err (Inr (rocket_pack err)), s')
     | (Err Panic, s') \<Rightarrow> (Panic, s')
     | (Panic, s') \<Rightarrow> (Panic, s')))"

text \<open>
  The routes. What is answered: a response, a text, or the status of an error.
\<close>

datatype 'p rocket_reply = RkResponse 'p | RkText string | RkStatus nat

definition rocket_respond :: "('w, 'p, rocket_failure) action \<Rightarrow> ('w, 'p rocket_reply, unit) action" where
  "rocket_respond m = (\<lambda>s. case m s of
      (Ok response, s') \<Rightarrow> (Ok (RkResponse response), s')
    | (Err failure, s') \<Rightarrow> (Ok (RkStatus (rocket_failure_respond failure)), s')
    | (Panic, s') \<Rightarrow> (Panic, s'))"

definition rocket_respond_page :: "('w, string, 'p + rocket_failure) action \<Rightarrow> ('w, 'p rocket_reply, unit) action" where
  "rocket_respond_page m = (\<lambda>s. case m s of
      (Ok page, s') \<Rightarrow> (Ok (RkText page), s')
    | (Err (Inl response), s') \<Rightarrow> (Ok (RkResponse response), s')
    | (Err (Inr failure), s') \<Rightarrow> (Ok (RkStatus (rocket_failure_respond failure)), s')
    | (Panic, s') \<Rightarrow> (Panic, s'))"

definition rocket_handler ::
  "('g, 'h, 'u, 'r) server_lib \<Rightarrow> 'p rocket_site \<Rightarrow> rocket_call
    \<Rightarrow> (('g, 'h, 'u, 'r) server, 'p rocket_reply, unit) action option" where
  "rocket_handler L T c =
     (if kc_method c = ''GET'' \<and> kc_path c = ''/authorize'' then Some (rocket_respond (rocket_authorize L T c))
      else if kc_method c = ''POST'' \<and> kc_path c = ''/authorize''
        then Some (rocket_respond (rocket_authorize_consent L T c))
      else if kc_method c = ''POST'' \<and> kc_path c = ''/token'' then Some (rocket_respond (rocket_token L T c))
      else if kc_method c = ''POST'' \<and> kc_path c = ''/refresh'' then Some (rocket_respond (rocket_refresh L T c))
      else if kc_method c = ''GET'' \<and> kc_path c = ''/'' then Some (rocket_respond_page (rocket_protected_resource L T c))
      else None)"

definition rocket_route ::
  "('g, 'h, 'u, 'r) server_lib \<Rightarrow> 'p rocket_site \<Rightarrow> rocket_call
    \<Rightarrow> (('g, 'h, 'u, 'r) rocket_state, 'p rocket_reply, unit) action option" where
  "rocket_route L T c = map_option (\<lambda>m. guarded_run (on_server m)) (rocket_handler L T c)"

section \<open>The client\<close>

definition rocket_client_config :: client_config where
  "rocket_client_config =
     \<lparr> cc_protected_url = ''http://localhost:8000/'', cc_token_url = ''http://localhost:8000/token'',
       cc_refresh_url = ''http://localhost:8000/refresh'', cc_client_id = ''LocalClient'',
       cc_redirect_uri = ''http://localhost:8000/clientside/endpoint'', cc_client_secret = None \<rparr>"

text \<open>\<open>Redirect::found\<close> and \<open>Html\<close>; an error is a \<open>Custom\<close> status with a text.\<close>

datatype rocket_page = RkFound string | RkHtml string

type_synonym 'w rocket_client_action = "('w \<times> client_tokens rw_lock, rocket_page, nat \<times> string) action"

definition rocket_internal_error :: "('j \<Rightarrow> string) \<Rightarrow> 'j client_error \<Rightarrow> nat \<times> string" where
  "rocket_internal_error sd err = (500, client_error_display sd err)"

definition rocket_oauth_endpoint ::
  "'w transport \<Rightarrow> (string \<Rightarrow> client_token_map option) \<Rightarrow> ('j \<Rightarrow> string) \<Rightarrow> client_config
    \<Rightarrow> string option \<Rightarrow> string option \<Rightarrow> 'w rocket_client_action" where
  "rocket_oauth_endpoint X J sd config code error =
     (case error of
        Some error \<Rightarrow> fail (500, ''Error during owner authorization: '' @ debug_str error)
      | None \<Rightarrow>
          bind_ac (lift_oc (ok_or (400, ''Endpoint hit without an authorization code'') code)) (\<lambda>code.
          bind_ac (err_ac (rocket_internal_error sd) (client_authorize X J config code)) (\<lambda>_.
          ret (RkFound ''/clientside''))))"

definition rocket_display_page :: "string \<Rightarrow> string \<Rightarrow> string" where
  "rocket_display_page token page =
     ''<html><style>'' @ newline
     @ ''            aside{overflow: auto; word-break: keep-all; white-space: nowrap}'' @ newline
     @ ''            main{text-align: center}'' @ newline
     @ ''            main>aside,main>article{margin: auto; text-align: left; border: 1px solid black; width: 50%}'' @ newline
     @ ''        </style>'' @ newline
     @ ''        <main>'' @ newline
     @ ''        Used token <aside style>'' @ token @ ''</aside> to access'' @ newline
     @ ''        <a href=\"http://localhost:8000/\">http://localhost:8000/</a>.'' @ newline
     @ ''        Its contents are:'' @ newline
     @ ''        <article>'' @ debug_str page @ ''</article>'' @ newline
     @ ''        <form action=\"/clientside/refresh\" method=\"post\"><button>Refresh token</button></form>'' @ newline
     @ ''        </main></html>''"

definition rocket_client_view ::
  "'w transport \<Rightarrow> ('j \<Rightarrow> string) \<Rightarrow> client_config \<Rightarrow> 'w rocket_client_action" where
  "rocket_client_view X sd config =
     bind_ac (err_ac (rocket_internal_error sd) (retrieve_protected_page X config)) (\<lambda>protected_page.
     bind_ac client_as_html (\<lambda>token.
     ret (RkHtml (rocket_display_page token protected_page))))"

definition rocket_client_refresh ::
  "'w transport \<Rightarrow> (string \<Rightarrow> client_token_map option) \<Rightarrow> ('j \<Rightarrow> string) \<Rightarrow> client_config \<Rightarrow> 'w rocket_client_action" where
  "rocket_client_refresh X J sd config =
     bind_ac (err_ac (rocket_internal_error sd) (client_refresh X J config)) (\<lambda>_. ret (RkFound ''/clientside''))"

definition rocket_client_debug :: "'w rocket_client_action" where
  "rocket_client_debug = bind_ac client_as_html (\<lambda>token. ret (RkHtml token))"

text \<open>The routes mounted at \<open>/clientside\<close>; the query parameters \<open>code\<close> and \<open>error\<close> are given.\<close>

definition rocket_clientside ::
  "'w transport \<Rightarrow> (string \<Rightarrow> client_token_map option) \<Rightarrow> ('j \<Rightarrow> string) \<Rightarrow> string \<Rightarrow> string
    \<Rightarrow> string option \<Rightarrow> string option \<Rightarrow> 'w rocket_client_action option" where
  "rocket_clientside X J sd verb path code error =
     (if verb = ''GET'' \<and> path = ''/clientside/endpoint''
        then Some (rocket_oauth_endpoint X J sd rocket_client_config code error)
      else if verb = ''GET'' \<and> path = ''/clientside'' then Some (rocket_client_view X sd rocket_client_config)
      else if verb = ''GET'' \<and> path = ''/clientside/debug'' then Some rocket_client_debug
      else if verb = ''POST'' \<and> path = ''/clientside/refresh''
        then Some (rocket_client_refresh X J sd rocket_client_config)
      else None)"

section \<open>What the routes keep\<close>

lemma rocket_parts:
  "gn_registrar (rocket_generic L T) = opt_primitive (server_registrar L)"
  "gn_authorizer (rocket_generic L T) = opt_primitive (\<lambda>s. server_authorizer L)"
  "gn_issuer (rocket_generic L T) = opt_primitive (\<lambda>s. server_issuer L)"
  "gn_response (rocket_generic L T) = fn_response (\<lambda>s. (hl_default (kt_response T), s))"
  by (simp_all add: rocket_generic_def)

lemma rocket_flows:
  "generic_authorization_flow (with_solicitor (rocket_generic L T) sol) s =
     (Ok (generic_endpoint (with_solicitor (rocket_generic L T) sol)), s)"
  "generic_access_token_flow (rocket_generic L T) s =
     (Ok \<lparr> atf_endpoint = generic_endpoint (rocket_generic L T), atf_allow_credentials_in_body = False \<rparr>, s)"
  "generic_refresh_flow (rocket_generic L T) s = (Ok (generic_endpoint (rocket_generic L T)), s)"
  "generic_resource_flow (with_scopes (rocket_generic L T) scopes) s =
     (Ok (generic_endpoint (with_scopes (rocket_generic L T) scopes)), s)"
  by (rule generic_flows_constructed; simp add: rocket_parts with_solicitor_def with_scopes_def; fail)+

lemma rocket_keeper:
  assumes "server_store L hash num healthy" and "grant_closed Q"
    and "gn_authorizer G = gn_authorizer (rocket_generic L T)" and "gn_issuer G = gn_issuer (rocket_generic L T)"
    and "gn_response G = gn_response (rocket_generic L T)"
  shows "keeper_endpoint (server_holds hash L clients scopes Q) Q (server_authorizer L) (server_issuer L)
    (generic_endpoint G)"
proof (intro keeper_endpoint.intro server_store.server_keeper [OF assms(1,2)] keeper_endpoint_axioms.intro)
  show "calm_endpoint I (generic_endpoint G)" for I
    by unfold_locales (simp_all add: generic_endpoint_def assms(5) rocket_parts fn_response_def keeps_def)
qed (simp_all add: generic_endpoint_def assms(3,4) rocket_parts)

text \<open>
  The requests that authorize a grant: a \<open>POST\<close> of the authorization page whose parameter \<open>allow\<close> is true,
  for the owner the server knows, or a request for the implicit flow, for the owner it names.
\<close>

definition rocket_justifies :: "'p rocket_site \<Rightarrow> rocket_call \<Rightarrow> 'u grant \<Rightarrow> bool" where
  "rocket_justifies T c g \<longleftrightarrow> kc_path c = ''/authorize'' \<and>
     (let q = wrapped_auth_request (rocket_web_request (rocket_new (kt_form T) (kc_http c))) in
      aur_client_id q = Some (g_client_id g) \<and>
      (kc_method c = ''POST'' \<and> aur_response_type q = Some ''code'' \<and> kc_allow c = Some True \<and>
         g_owner_id g = ''dummy user'' \<or>
       kc_method c \<in> {''GET'', ''POST''} \<and> aur_response_type q = Some ''token'' \<and>
         g_owner_id g = (case aur_user_id q of Some u \<Rightarrow> u | None \<Rightarrow> [])))"

definition rocket_justified :: "'p rocket_site \<Rightarrow> 'u client_map \<Rightarrow> rocket_call list \<Rightarrow> 'u grant \<Rightarrow> bool" where
  "rocket_justified T clients cs g \<longleftrightarrow> typed_grant clients g \<and> (\<exists>c\<in>set cs. rocket_justifies T c g)"

lemma rocket_justified_closed: "grant_closed (rocket_justified T clients cs)"
  by (auto simp: grant_closed_def rocket_justified_def typed_grant_def rocket_justifies_def Let_def)

lemma rocket_authorization_keeps:
  assumes store: "server_store L hash num healthy" and wf: "clients_wf clients" and closed: "grant_closed Q"
    and new: "\<And>g. typed_grant clients g \<Longrightarrow> rocket_justifies T c g \<Longrightarrow> Q g"
    and route: "kc_path c = ''/authorize''" "kc_method c \<in> {''GET'', ''POST''}"
    and reads: "\<And>q sl s x s'. sol q sl s = (x, s') \<Longrightarrow> s' = s"
    and consents: "\<And>q sl s who s'. sol q sl s = (Some (Authorized who), s') \<Longrightarrow>
      kc_method c = ''POST'' \<and> kc_allow c = Some True \<and> who = ''dummy user''"
  shows "keeps (server_holds hash L clients scopes Q) (rocket_authorization L T sol c)"
proof -
  let ?G = "with_solicitor (rocket_generic L T) sol" and ?I = "server_holds hash L clients scopes Q"
  let ?E = "generic_endpoint ?G" and ?q = "rocket_web_request (rocket_new (kt_form T) (kc_http c))"
  have G: "gn_registrar ?G = opt_primitive (server_registrar L)" "gn_solicitor ?G = sol"
    by (simp_all add: with_solicitor_def rocket_parts)
  have registrar: "aue_registrar (wrapped_authorization ?E) w = client_map_registrar (sl_url L) (sl_argon2 L) clients"
    if "?I w" for w
    using that by (simp add: wrapped_authorization_def G server_registrar_def server_holds_def)
  have extension: "aue_extension (wrapped_authorization ?E) = auth_no_extension"
    by (simp add: wrapped_authorization_def)
  have keeper: "keeper_endpoint ?I Q (server_authorizer L) (server_issuer L) ?E"
    by (rule rocket_keeper [OF store closed, where T = T]) (simp_all add: with_solicitor_def)
  have "keeps ?I (authorization_execute (sl_url L) (kt_order T) (kt_wire T)
      (rocket_response_ops (sl_url L) (kt_response T)) ?E ?q
      (ck_now (kc_clock c)) (ck_issue (kc_clock c)) (ck_reply (kc_clock c)))"
  proof (rule keeper_endpoint.authorization_flow_keeps [OF keeper], goal_cases)
    case (1 w s sl x w')
    then show ?case
      using reads by (fastforce simp: G)
  next
    case (2 p w s w' who url)
    then show ?case
      using asked_code_client [OF 2(1) registrar extension] consents [of ?q "as_solicitation p" w who w'] wf route
      by (intro new) (auto simp: G typed_grant_def rocket_justifies_def consented_grant_def clients_wf_def)
  next
    case (3 pg url)
    then show ?case
      using asked_token_client [OF 3(2) registrar] wf route
      by (intro new) (auto simp: typed_grant_def rocket_justifies_def implicit_grant_def clients_wf_def)
  qed
  then show ?thesis
    unfolding rocket_authorization_def
    by (intro keepsI) (auto simp: bind_ac_def rocket_flows dest: keepsD [OF keeps_err])
qed

lemma rocket_respond_keeps: "keeps I m \<Longrightarrow> keeps I (rocket_respond m)"
  by (rule keepsI) (auto simp: rocket_respond_def split: prod.splits outcome.splits dest: keepsD)

lemma rocket_respond_page_keeps: "keeps I m \<Longrightarrow> keeps I (rocket_respond_page m)"
  by (rule keepsI) (auto simp: rocket_respond_page_def split: prod.splits outcome.splits sum.splits dest: keepsD)

lemma rocket_protected_run:
  "rocket_protected_resource L T c s =
     (case resource_execute (kt_order T) (rocket_response_ops (sl_url L) (kt_response T))
            (generic_endpoint (with_scopes (rocket_generic L T) (slice_scopes [default_scope])))
            (rocket_web_request (rocket_new (kt_form T) (kc_http c))) (ck_now (kc_clock c)) s of
        (Ok grant, s') \<Rightarrow> (Ok ''Hello, world'', s')
      | (Err (Ok response), s') \<Rightarrow>
          (Err (Inl (hl_set_body (kt_response T) relative_deny_text
            (hl_set_header (kt_response T) ''Content-Type'' (kt_html T) response))), s')
      | (Err (Err err), s') \<Rightarrow> (Err (Inr (rocket_pack err)), s')
      | (Err Panic, s') \<Rightarrow> (Panic, s')
      | (Panic, s') \<Rightarrow> (Panic, s'))"
  by (simp add: rocket_protected_resource_def default_scope_parses bind_ac_def rocket_flows)

lemma rocket_resource_ensures:
  assumes "server_store L hash num healthy" and "grant_closed Q"
  shows "ensures (server_holds hash L clients scopes Q) (resource_execute (kt_order T)
    (rocket_response_ops (sl_url L) (kt_response T))
    (generic_endpoint (with_scopes (rocket_generic L T) (slice_scopes [default_scope]))) q now) Q"
proof -
  have "keeper_endpoint (server_holds hash L clients scopes Q) Q (server_authorizer L) (server_issuer L)
      (generic_endpoint (with_scopes (rocket_generic L T) (slice_scopes [default_scope])))"
    by (rule rocket_keeper [OF assms, where T = T]) (simp_all add: with_scopes_def)
  then show ?thesis
    by (rule keeper_endpoint.resource_flow_ensures) (auto simp: generic_endpoint_def with_scopes_def slice_scopes_def)
qed

lemma rocket_handler_keeps:
  assumes store: "server_store L hash num healthy" and wf: "clients_wf clients" and closed: "grant_closed Q"
    and new: "\<And>g. typed_grant clients g \<Longrightarrow> rocket_justifies T c g \<Longrightarrow> Q g"
    and handler: "rocket_handler L T c = Some act"
  shows "keeps (server_holds hash L clients scopes Q) act"
proof -
  let ?I = "server_holds hash L clients scopes Q"
  have keeper: "keeper_endpoint ?I Q (server_authorizer L) (server_issuer L) (generic_endpoint (rocket_generic L T))"
    by (rule rocket_keeper [OF store closed, where T = T]) simp_all
  have token: "keeps ?I (rocket_token L T c)"
    unfolding rocket_token_def Let_def
    by (intro keepsI) (auto simp: bind_ac_def rocket_flows
        dest: keepsD [OF keeps_err [OF keeper_endpoint.token_flow_keeps [OF keeper]]])
  have refresh: "keeps ?I (rocket_refresh L T c)"
    unfolding rocket_refresh_def Let_def
    by (intro keepsI) (auto simp: bind_ac_def rocket_flows
        dest: keepsD [OF keeps_err [OF keeper_endpoint.refresh_flow_keeps [OF keeper]]])
  have page: "keeps ?I (rocket_protected_resource L T c)"
    by (intro keepsI) (auto simp: rocket_protected_run split: prod.splits outcome.splits
        dest: keepsD [OF ensures_keeps [OF rocket_resource_ensures [OF store closed]]])
  have form: "keeps ?I (rocket_authorize L T c)" if "kc_path c = ''/authorize''" "kc_method c = ''GET''"
    unfolding rocket_authorize_def using that
    by (intro rocket_authorization_keeps [OF store wf closed new])
      (auto simp: rocket_consent_form_def fn_solicitor_def split: outcome.splits)
  have decision: "keeps ?I (rocket_authorize_consent L T c)" if "kc_path c = ''/authorize''" "kc_method c = ''POST''"
    unfolding rocket_authorize_consent_def Let_def using that
    by (intro rocket_authorization_keeps [OF store wf closed new])
      (auto simp: rocket_consent_decision_def fn_solicitor_def split: option.splits if_splits)
  show ?thesis
    using handler token refresh page form decision
    by (auto simp: rocket_handler_def split: if_splits intro: rocket_respond_keeps rocket_respond_page_keeps)
qed

section \<open>Under the guards\<close>

text \<open>The calls that were handled with their outcomes, the latest first.\<close>

inductive rocket_serves ::
  "('g, 'h, 'u, 'r) server_lib \<Rightarrow> 'p rocket_site \<Rightarrow> ('g, 'h, 'u, 'r) rocket_state
    \<Rightarrow> (rocket_call \<times> ('p rocket_reply, unit) outcome) list \<Rightarrow> ('g, 'h, 'u, 'r) rocket_state \<Rightarrow> bool"
  for L T g where
  rocket_serves_start: "rocket_serves L T g [] g"
| rocket_serves_call: "rocket_serves L T g cs v \<Longrightarrow> rocket_route L T c = Some m \<Longrightarrow> m v = (x, v') \<Longrightarrow>
     rocket_serves L T g ((c, x) # cs) v'"

lemma guarded_server_iff:
  "guarded_server g = s\<lparr> sv_scopes := [] \<rparr> \<longleftrightarrow>
     guarded_values g = (sv_registrar s, sv_authorizer s, sv_issuer s, sv_redis s)"
  by (cases s) (auto simp: guarded_server_def split: prod.splits)

lemma guarded_server_scopes: "sv_scopes (guarded_server g) = []"
  by (simp add: guarded_server_def split: prod.splits)

lemma on_server_values:
  "on_server m (guarded_values g) = (x, guarded_values g') \<longleftrightarrow>
     (\<exists>s. m (guarded_server g) = (x, s) \<and> guarded_server g' = s\<lparr> sv_scopes := [] \<rparr>)"
  unfolding guarded_server_iff
  by (cases "guarded_values g") (auto simp: on_server_def guarded_server_def split: prod.splits)

lemma on_server_keeps:
  assumes "keeps I m" and "\<And>s. I s \<Longrightarrow> sv_scopes s = []"
    and "guarded_run (on_server m) g = (x, g')" and "I (guarded_server g)"
  shows "I (guarded_server g')"
proof -
  have "I (guarded_server g')" if run: "on_server m (guarded_values g) = (x, guarded_values g')"
  proof -
    obtain s where s: "m (guarded_server g) = (x, s)" "guarded_server g' = s\<lparr> sv_scopes := [] \<rparr>"
      using run by (auto simp: on_server_values)
    have "I s" by (rule keepsD [OF assms(1,4) s(1)])
    then show ?thesis using s(2) assms(2) by (metis server.surjective server.update_convs(4))
  qed
  moreover have "guarded_server g' = guarded_server g" if "guarded_values g' = guarded_values g"
    by (simp add: guarded_server_def that)
  ultimately show ?thesis
    using guarded_run_values [OF assms(3)] assms(4) by auto
qed

lemma rocket_serves_justified:
  assumes "rocket_serves L T g cs g'" and "server_store L hash num healthy" and "clients_wf clients"
    and "server_holds hash L clients [] (\<lambda>_. False) (guarded_server g)"
  shows "server_holds hash L clients [] (rocket_justified T clients (map fst cs)) (guarded_server g')"
  using assms(1,4)
proof induction
  case rocket_serves_start
  then show ?case by (rule server_holds_mono) simp
next
  case (rocket_serves_call cs v c m x v')
  let ?Q = "rocket_justified T clients (map fst ((c, x) # cs))"
  have v: "server_holds hash L clients [] ?Q (guarded_server v)"
    by (rule server_holds_mono [OF rocket_serves_call.IH])
      (use rocket_serves_call.prems in \<open>auto simp: rocket_justified_def\<close>)
  obtain act where act: "rocket_handler L T c = Some act" and m: "m = guarded_run (on_server act)"
    using rocket_serves_call.hyps(2) by (auto simp: rocket_route_def)
  have "keeps (server_holds hash L clients [] ?Q) act"
    by (rule rocket_handler_keeps [OF assms(2,3) rocket_justified_closed _ act]) (simp add: rocket_justified_def)
  then show ?case
    by (rule on_server_keeps [where I = "server_holds hash L clients [] ?Q",
          OF _ _ rocket_serves_call.hyps(3) [unfolded m] v]) (simp add: server_holds_def)
qed

lemma rocket_serves_agree:
  "rocket_serves L T g cs g' \<Longrightarrow> guards_agree g \<Longrightarrow> \<not> guards_down g \<Longrightarrow>
     guards_agree g' \<and> (guards_down g' \<longleftrightarrow> Panic \<in> snd ` set cs)"
proof (induction rule: rocket_serves.induct)
  case (rocket_serves_call cs v c m x v')
  obtain act where m: "m = guarded_run act"
    using rocket_serves_call.hyps(2) by (auto simp: rocket_route_def)
  note run = guarded_run_agrees [OF rocket_serves_call.hyps(3) [unfolded m]]
  have v: "guards_agree v" "guards_down v \<longleftrightarrow> Panic \<in> snd ` set cs"
    using rocket_serves_call.IH rocket_serves_call.prems by simp_all
  show ?case
    using run(1) [OF v(1)] run(2) [OF v(1)] run(3) [OF v(1)] v(2) by auto
qed simp

lemma rocket_shows_page:
  assumes store: "server_store L hash num healthy" and closed: "grant_closed Q"
    and I: "server_holds hash L clients [] Q (guarded_server g)"
    and run: "rocket_route L T c = Some m" "m g = (Ok (RkText greeting), g')"
  shows "greeting = ''Hello, world'' \<and> (\<exists>token gr. rh_authorization (kc_http c) = [''Bearer '' @ token] \<and>
    server_access_grant hash L (guarded_server g) token = Some gr \<and> ck_now (kc_clock c) \<le> g_until gr \<and> Q gr)"
proof -
  let ?E = "generic_endpoint (with_scopes (rocket_generic L T) (slice_scopes [default_scope]))"
  let ?q = "rocket_web_request (rocket_new (kt_form T) (kc_http c))" and ?s = "guarded_server g"
  obtain act where act: "rocket_handler L T c = Some act" "m = guarded_run (on_server act)"
    using run(1) by (auto simp: rocket_route_def)
  obtain s where "act ?s = (Ok (RkText greeting), s)"
    using guarded_run_values [OF run(2) [unfolded act(2)]] by (auto simp: on_server_values)
  then have "rocket_protected_resource L T c ?s = (Ok greeting, s)"
    using act(1) by (auto simp: rocket_handler_def rocket_respond_def rocket_respond_page_def
        split: if_splits prod.splits outcome.splits sum.splits)
  then obtain gr where greeting: "greeting = ''Hello, world''"
    and ex: "resource_execute (kt_order T) (rocket_response_ops (sl_url L) (kt_response T)) ?E ?q (ck_now (kc_clock c)) ?s
      = (Ok gr, s)"
    by (auto simp: rocket_protected_run split: prod.splits outcome.splits)
  obtain w where "protect (scoped_resource ?E ?q) (wrapped_resource_request ?q) (ck_now (kc_clock c)) ?s = (Ok gr, w)"
    using ex by (auto simp: resource_execute_def split: prod.splits outcome.splits)
  from protect_Ok [OF this] obtain token where token: "rkr_auth (rocket_new (kt_form T) (kc_http c)) = Some (''Bearer '' @ token)"
      "ck_now (kc_clock c) \<le> g_until gr" "is_recover_token (server_issuer L) token ?s = (Ok (Some gr), w)"
    by (auto simp: wrapped_resource_request_def rocket_web_request_def scoped_resource_def generic_endpoint_def
        with_scopes_def slice_scopes_def rocket_parts opt_primitive_def)
  have "rh_authorization (kc_http c) = [''Bearer '' @ token]"
    using token(1) by (auto simp: rocket_new_def Let_def split: list.splits)
  moreover have "server_access_grant hash L ?s token = Some gr"
    using server_store.axioms(1) [OF store] token(3) by (blast intro: server_recover_stored)
  moreover have "Q gr"
    using ensuresD [OF rocket_resource_ensures [OF store closed] I ex] by simp
  ultimately show ?thesis using greeting token(2) by blast
qed

lemma rocket_preconfigured_parts:
  assumes "rocket_preconfigured L salt cg tg r = Ok g"
  shows "guards_agree g" and "\<not> guards_down g" and "clients_wf (sv_registrar (guarded_server g))"
    and "sv_redis (guarded_server g) = r"
    and "typed_grant (sv_registrar (guarded_server g)) gr \<longleftrightarrow> g_client_id gr = ''LocalClient'' \<and>
      scope_wf (g_scope gr) \<and> tokens (g_scope gr) |\<subseteq>| tokens default_scope"
proof -
  obtain url where g: "g = guarded_new \<lparr> cm_clients = [''LocalClient'' \<mapsto>
      \<lparr> ec_client_id = ''LocalClient'', ec_redirect_uri = Semantic url, ec_additional_redirect_uris = [],
        ec_default_scope = default_scope, ec_encoded_client = PublicClient \<rparr>], cm_password_policy = None \<rparr>
      (auth_map_new cg) (token_map_new tg) r"
    using assms by (auto simp: rocket_preconfigured_def default_scope_parses client_map_from_iter_def
        register_client_def client_encode_def client_public_def bind_ac_def client_map_new_def bind_oc_Ok_iff)
  show "guards_agree g" "\<not> guards_down g"
    unfolding g by (rule guarded_new_up)+
  show "clients_wf (sv_registrar (guarded_server g))" "sv_redis (guarded_server g) = r"
    "typed_grant (sv_registrar (guarded_server g)) gr \<longleftrightarrow> g_client_id gr = ''LocalClient'' \<and>
      scope_wf (g_scope gr) \<and> tokens (g_scope gr) |\<subseteq>| tokens default_scope"
    by (simp_all add: g guarded_server_def guarded_new_up(3) clients_wf_def scope_wf_default typed_grant_def)
qed

section \<open>An example\<close>

definition example_rocket_site :: "reply_view rocket_site" where
  "example_rocket_site = \<lparr> kt_order = example_order, kt_wire = example_wire, kt_form = quoted_form,
     kt_response = plain_response_lib, kt_html = ''text/html; charset=utf-8'' \<rparr>"

definition rocket_example_call ::
  "string \<Rightarrow> string \<Rightarrow> string list \<Rightarrow> bool option \<Rightarrow> string list \<Rightarrow> string list \<Rightarrow> rocket_call" where
  "rocket_example_call verb path query allow form auth = \<lparr> kc_method = verb, kc_path = path,
     kc_http = \<lparr> rh_query = Some (quote_list query), rh_content_type_form = Some True, rh_authorization = auth \<rparr>,
     kc_allow = allow, kc_body = Some (quote_list form), kc_clock = example_clock \<rparr>"

definition rocket_consent_call :: rocket_call where
  "rocket_consent_call = rocket_example_call ''POST'' ''/authorize''
     [''response_type'', ''code'', ''client_id'', ''LocalClient'', ''allow'', ''true''] (Some True) [] []"

definition rocket_redeem_call :: "string \<Rightarrow> rocket_call" where
  "rocket_redeem_call code = rocket_example_call ''POST'' ''/token'' [] None
     [''grant_type'', ''authorization_code'', ''code'', code, ''client_id'', ''LocalClient'',
      ''redirect_uri'', ''http://localhost:8000/clientside/endpoint''] []"

definition rocket_page_call :: "string \<Rightarrow> rocket_call" where
  "rocket_page_call token = rocket_example_call ''GET'' ''/'' [] None [] [''Bearer '' @ token]"

definition rocket_clients :: "string client_map" where
  "rocket_clients = \<lparr> cm_clients = [''LocalClient'' \<mapsto>
      \<lparr> ec_client_id = ''LocalClient'', ec_redirect_uri = Semantic ''http://localhost:8000/clientside/endpoint'',
        ec_additional_redirect_uris = [], ec_default_scope = default_scope,
        ec_encoded_client = PublicClient \<rparr>], cm_password_policy = None \<rparr>"

definition rocket_start :: "(unit, unit, string, mem_redis) rocket_state" where
  "rocket_start = guarded_new rocket_clients (auth_map_new ()) (token_map_new ()) mem_empty"

lemma rocket_example_preconfigured: "rocket_preconfigured example_server_lib [] () () mem_empty = Ok rocket_start"
  by (simp add: rocket_preconfigured_def default_scope_parses client_map_from_iter_def register_client_def
      client_encode_def client_public_def bind_ac_def client_map_new_def rocket_start_def rocket_clients_def
      url_identity_def)

lemmas rocket_call_defs = rocket_consent_call_def rocket_redeem_call_def rocket_page_call_def rocket_example_call_def
  example_clock_def

lemma rocket_call_parts:
  "kc_method rocket_consent_call = ''POST''" "kc_path rocket_consent_call = ''/authorize''"
  "kc_allow rocket_consent_call = Some True"
  "kc_method (rocket_redeem_call code) = ''POST''" "kc_path (rocket_redeem_call code) = ''/token''"
  "kc_method (rocket_page_call token) = ''GET''" "kc_path (rocket_page_call token) = ''/''"
  "kc_clock rocket_consent_call = example_clock" "kc_clock (rocket_redeem_call code) = example_clock"
  "kc_clock (rocket_page_call token) = example_clock" "ck_now example_clock = 5" "ck_issue example_clock = 5"
  by (simp_all add: rocket_call_defs)

lemmas rocket_form_simps = rocket_call_defs example_rocket_site_def quoted_form_def rocket_new_def rocket_add_body_def
  rocket_web_request_def urlencoded_from_str_def urlencoded_from_reader_def np_deserialize_def np_new_def
  insert_or_poison_def np_unique_value_def np_query_def Let_def

lemma rocket_consent_request:
  "wrapped_auth_request (rocket_web_request (rocket_new quoted_form (kc_http rocket_consent_call))) = q \<Longrightarrow>
     aur_valid q \<and> aur_client_id q = Some ''LocalClient'' \<and> aur_redirect_uri q = None \<and> aur_scope q = None \<and>
     aur_response_type q = Some ''code''"
  by (auto simp: rocket_form_simps wrapped_auth_request_def wrapped_query_request_def)

lemma rocket_redeem_request:
  "at_check_params url_identity (wrapped_token_request W (rocket_web_request
     (rocket_add_body quoted_form (rocket_new quoted_form (kc_http (rocket_redeem_call code)))
       (kc_body (rocket_redeem_call code)))) False)
   = (Ok (''LocalClient'', None, code, ''http://localhost:8000/clientside/endpoint'') :: (_, string at_error) outcome)"
  by (simp add: rocket_form_simps wrapped_token_request_def token_request_parts_def
      at_check_params_def at_params_def at_credentials_def wrapped_body_request_def cred_unauthenticated_def cred_add_def
      url_identity_def)

lemma rocket_page_request:
  "wrapped_resource_request (rocket_web_request (rocket_new P (kc_http (rocket_page_call token)))) =
     \<lparr> rq_valid = True, rq_token = Some (''Bearer '' @ token) \<rparr>"
  by (simp add: rocket_call_defs rocket_new_def rocket_web_request_def wrapped_resource_request_def Let_def)

text \<open>An action that succeeds on the values runs under the guards.\<close>

lemma rocket_route_runs:
  assumes "rocket_handler L T c = Some act" and "act (guarded_server g) = (Ok reply, s)"
    and "guards_agree g" and "\<not> guards_down g"
  shows "\<exists>m g'. rocket_route L T c = Some m \<and> m g = (Ok reply, g') \<and> guarded_server g' = s\<lparr> sv_scopes := [] \<rparr> \<and>
    guards_agree g' \<and> \<not> guards_down g'"
proof -
  have "on_server act (guarded_values g) = (Ok reply, (sv_registrar s, sv_authorizer s, sv_issuer s, sv_redis s))"
    using assms(2) by (auto simp: on_server_def guarded_server_def split: prod.splits)
  from guarded_run_up [where m = "on_server act", OF assms(3,4) this] obtain g' where
    run: "guarded_run (on_server act) g = (Ok reply, g')"
    and vals: "guarded_values g' = (sv_registrar s, sv_authorizer s, sv_issuer s, sv_redis s)" by blast
  show ?thesis
    using guarded_run_agrees(1,2) [OF run assms(3)] run vals assms(1)
    by (auto simp: rocket_route_def guarded_server_iff)
qed

text \<open>The owner consents, the code is redeemed, and the page opens.\<close>

abbreviation rocket_example_route where
  "rocket_example_route \<equiv> rocket_route example_server_lib example_rocket_site"

lemma rocket_primitives:
  "\<exists>c t s1 s2 s3 s4 gr.
    az_authorize (server_authorizer example_server_lib) g (guarded_server rocket_start) = (Ok c, s1) \<and>
    az_extract (server_authorizer example_server_lib) c s1 = (Ok (Some g), s2) \<and>
    is_issue (server_issuer example_server_lib) 5 (g\<lparr> g_extensions := extensions_new \<rparr>) s2 = (Ok t, s3) \<and>
    is_recover_token (server_issuer example_server_lib) (it_token t) s3 = (Ok (Some gr), s4) \<and>
    g_until gr = g_until g \<and> g_scope gr = g_scope g \<and> sv_registrar s1 = rocket_clients \<and>
    sv_scopes s1 = [] \<and> sv_scopes s3 = []"
proof -
  let ?s = "guarded_server rocket_start" and ?L = example_server_lib
  have s: "?s = \<lparr> sv_registrar = rocket_clients, sv_authorizer = auth_map_new (), sv_issuer = token_map_new (),
      sv_scopes = [], sv_redis = mem_empty \<rparr>"
    by (simp add: rocket_start_def guarded_server_def guarded_new_up(3))
  have start: "mem_healthy (sv_redis ?s)" "mr_num (sv_redis ?s) ''oauth2:authmap_usage'' \<noteq> Some (- 1)"
    "fresh_codes mr_hash ?L (sv_redis ?s)"
    using example_fresh by (simp_all add: s mem_healthy_def, simp_all add: mem_empty_def)
  obtain c a r v where 1: "az_authorize (server_authorizer ?L) g ?s = (Ok c, ?s\<lparr> sv_authorizer := a, sv_redis := r \<rparr>)"
    "mem_healthy r" "mr_hash r = hash_upd (mr_hash (sv_redis ?s)) ''oauth2:authmap'' c (Some v)"
    "dec (sl_grant_codec ?L) v = Some g"
    by (rule server_store.server_authorize_up [OF example_server_store start, of g])
  let ?s1 = "?s\<lparr> sv_authorizer := a, sv_redis := r \<rparr>" and ?g = "g\<lparr> g_extensions := extensions_new \<rparr>"
  obtain r2 where 2: "az_extract (server_authorizer ?L) c ?s1 = (Ok (Some g), ?s1\<lparr> sv_redis := r2 \<rparr>)" "mem_healthy r2"
    "mr_hash r2 = hash_upd (mr_hash (sv_redis ?s1)) ''oauth2:authmap'' c None"
    by (rule server_store.server_extract_up [OF example_server_store, of ?s1 c v g]) (use 1 in simp_all)
  let ?s2 = "?s1\<lparr> sv_redis := r2 \<rparr>"
  have tokens: "fresh_tokens mr_hash ?L (sv_redis ?s2)"
    using example_fresh(2) 1(3) 2(3) by (simp add: fresh_tokens_def s)
  obtain t i r3 w where 3: "is_issue (server_issuer ?L) 5 ?g ?s2 = (Ok t, ?s2\<lparr> sv_issuer := i, sv_redis := r3 \<rparr>)"
    "mem_healthy r3" "mr_hash r3 ''oauth2:tokenmap_access'' (it_token t) = Some w"
    "map_option tk_grant (dec (sl_token_codec ?L) w) = Some (set_duration 5 (sv_issuer ?s2) ?g)"
    by (rule server_store.server_issue_up [OF example_server_store, of ?s2 5 ?g, OF _ tokens]) (use 2(2) in simp_all)
  let ?s3 = "?s2\<lparr> sv_issuer := i, sv_redis := r3 \<rparr>"
  obtain r4 where 4: "is_recover_token (server_issuer ?L) (it_token t) ?s3
      = (Ok (Some (set_duration 5 (sv_issuer ?s2) ?g)), ?s3\<lparr> sv_redis := r4 \<rparr>)"
    by (rule server_store.server_recover_up [OF example_server_store, of ?s3 "it_token t" w]) (use 3 in simp_all)
  have "g_until (set_duration 5 (sv_issuer ?s2) ?g) = g_until g \<and> g_scope (set_duration 5 (sv_issuer ?s2) ?g) = g_scope g"
    by (simp add: s set_duration_def token_map_new_def)
  moreover have "sv_registrar ?s1 = rocket_clients" "sv_scopes ?s1 = []" "sv_scopes ?s3 = []"
    by (simp_all add: s)
  ultimately show ?thesis
    using 1(1) 2(1) 3(1) 4 by blast
qed

lemma rocket_site_parts:
  "kt_order example_rocket_site = example_order" "kt_wire example_rocket_site = example_wire"
  "kt_form example_rocket_site = quoted_form" "kt_response example_rocket_site = plain_response_lib"
  "sv_registrar (guarded_server rocket_start) = rocket_clients"
  by (simp_all add: example_rocket_site_def rocket_start_def guarded_server_def guarded_new_up(3))

lemma rocket_endpoint_parts:
  "ep_registrar (generic_endpoint (with_solicitor (rocket_generic L T) sol)) = opt_primitive (server_registrar L)"
  "ep_authorizer (generic_endpoint (with_solicitor (rocket_generic L T) sol)) = opt_primitive (\<lambda>s. server_authorizer L)"
  "ep_issuer (generic_endpoint (with_solicitor (rocket_generic L T) sol)) = opt_primitive (\<lambda>s. server_issuer L)"
  "ep_extension (generic_endpoint (with_solicitor (rocket_generic L T) sol)) = (\<lambda>w. None)"
  "ep_response (generic_endpoint (with_solicitor (rocket_generic L T) sol)) r k w =
     (Ok (hl_default (kt_response T), k), w)"
  "gn_solicitor (with_solicitor (rocket_generic L T) sol) = sol"
  "ep_registrar (generic_endpoint (rocket_generic L T)) = opt_primitive (server_registrar L)"
  "ep_authorizer (generic_endpoint (rocket_generic L T)) = opt_primitive (\<lambda>s. server_authorizer L)"
  "ep_issuer (generic_endpoint (rocket_generic L T)) = opt_primitive (\<lambda>s. server_issuer L)"
  "ep_extension (generic_endpoint (rocket_generic L T)) = (\<lambda>w. None)"
  "ep_response (generic_endpoint (rocket_generic L T)) r k w = (Ok (hl_default (kt_response T), k), w)"
  "ep_issuer (generic_endpoint (with_scopes (rocket_generic L T) scopes)) = opt_primitive (\<lambda>s. server_issuer L)"
  by (simp_all add: generic_endpoint_def with_solicitor_def with_scopes_def rocket_parts fn_response_def)

lemmas rocket_step_simps = rocket_handler_def rocket_call_parts rocket_respond_def rocket_respond_page_def bind_ac_def
  rocket_flows rocket_site_parts(1-4) rocket_endpoint_parts rocket_response_ops_def err_ac_def web_result_def Let_def

text \<open>The grant that the owner of the example authorizes.\<close>

definition rocket_example_pending :: "string option \<Rightarrow> string pending" where
  "rocket_example_pending state = \<lparr> pd_pre_grant = \<lparr> pg_client_id = ''LocalClient'',
     pg_redirect_uri = Semantic ''http://localhost:8000/clientside/endpoint'', pg_scope = default_scope \<rparr>,
     pd_state = state, pd_extensions = extensions_new \<rparr>"

definition rocket_example_grant :: "string grant" where
  "rocket_example_grant = consented_grant ''dummy user'' (rocket_example_pending (aur_state
     (wrapped_auth_request (rocket_web_request (rocket_new quoted_form (kc_http rocket_consent_call))))))
     ''http://localhost:8000/clientside/endpoint'' 5"

lemma rocket_example_grant:
  "g_client_id rocket_example_grant = ''LocalClient''"
  "g_redirect_uri rocket_example_grant = ''http://localhost:8000/clientside/endpoint''"
  "5 \<le> g_until rocket_example_grant" "g_scope rocket_example_grant = default_scope"
  by (simp_all add: rocket_example_grant_def consented_grant_def rocket_example_pending_def days_def seconds_def)

lemma rocket_consent_runs:
  assumes "az_authorize (server_authorizer example_server_lib) rocket_example_grant (guarded_server rocket_start) = (Ok c, s1)"
  shows "\<exists>act r1. rocket_handler example_server_lib example_rocket_site rocket_consent_call = Some act \<and>
    act (guarded_server rocket_start) = (Ok (RkResponse r1), s1)"
proof -
  let ?s = "guarded_server rocket_start" and ?uri = "''http://localhost:8000/clientside/endpoint''"
  let ?E = "generic_endpoint (with_solicitor (rocket_generic example_server_lib example_rocket_site)
      (rocket_consent_decision True))"
  define q where "q = wrapped_auth_request (rocket_web_request (rocket_new quoted_form (kc_http rocket_consent_call)))"
  note asks = rocket_consent_request [OF q_def [symmetric]]
  have answer: "rocket_consent_decision True r sl w = (Some (Authorized ''dummy user''), w)" for r sl w
    by (simp add: rocket_consent_decision_def fn_solicitor_def)
  have asked: "authorization_code url_identity (wrapped_authorization ?E) q ?s
      = (Ok (rocket_example_pending (aur_state q)), ?s)"
    unfolding rocket_example_pending_def
    by (subst default_code_request [where client = "''LocalClient''" and U' = url_identity and A = spell_argon2
          and m = rocket_clients and url = ?uri
          and c = "\<lparr> ec_client_id = ''LocalClient'', ec_redirect_uri = Semantic ?uri,
            ec_additional_redirect_uris = [], ec_default_scope = default_scope, ec_encoded_client = PublicClient \<rparr>"])
      (simp_all add: asks endpoint_parts [OF rocket_endpoint_parts(1-4)] server_registrar_def rocket_site_parts(5)
        rocket_clients_def)
  obtain url where consent: "pending_authorize url_identity (wrapped_authorization ?E) 5 ''dummy user''
      (rocket_example_pending (aur_state q)) ?s = (Ok url, s1)"
    using consent_over [where E = "wrapped_authorization ?E" and U = url_identity and uri = ?uri
        and p = "rocket_example_pending (aur_state q)"] assms
    by (simp add: endpoint_parts [OF rocket_endpoint_parts(1-4)] rocket_example_grant_def q_def registered_to_url_def)
      (simp add: rocket_example_pending_def registered_to_url_def)
  show ?thesis
    using asked consent asks
    by (simp add: rocket_step_simps rocket_authorize_consent_def rocket_authorization_def authorization_execute_def
        q_def [symmetric] pending_finish_def answer convert_result_def)
qed

lemma rocket_redeem_runs:
  assumes "az_extract (server_authorizer example_server_lib) c s1 = (Ok (Some rocket_example_grant), s2)"
    and "is_issue (server_issuer example_server_lib) 5 (rocket_example_grant\<lparr> g_extensions := extensions_new \<rparr>) s2 = (Ok t, s3)"
    and "sv_registrar s1 = rocket_clients"
  shows "\<exists>act r2. rocket_handler example_server_lib example_rocket_site (rocket_redeem_call c) = Some act \<and>
    act s1 = (Ok (RkResponse r2), s3)"
proof -
  let ?L = example_server_lib and ?E = "generic_endpoint (rocket_generic example_server_lib example_rocket_site)"
  have "access_token url_identity example_order (wrapped_token ?E)
      (wrapped_token_request example_wire (rocket_web_request (rocket_add_body quoted_form
        (rocket_new quoted_form (kc_http (rocket_redeem_call c))) (kc_body (rocket_redeem_call c)))) False) 5 5 s1
      = (Ok (BearerToken t (scope_to_string example_order (g_scope rocket_example_grant))), s3)"
    by (rule redeem_over [where R = "server_registrar ?L", OF _ _ _ _ rocket_redeem_request _ assms(1) _ _ _ assms(2)])
      (simp_all add: endpoint_parts [OF rocket_endpoint_parts(7-10)] rocket_example_grant server_registrar_def
        client_map_registrar_def cm_check_def check_authentication_def assms(3) rocket_clients_def)
  then show ?thesis
    by (simp add: rocket_step_simps rocket_token_def access_token_execute_def)
qed

lemma rocket_page_runs:
  assumes "is_recover_token (server_issuer example_server_lib) token s3 = (Ok (Some h), s4)"
    and "5 \<le> g_until h" and "g_scope h = default_scope"
  shows "\<exists>act. rocket_handler example_server_lib example_rocket_site (rocket_page_call token) = Some act \<and>
    act s3 = (Ok (RkText ''Hello, world''), s4)"
proof -
  let ?E = "generic_endpoint (with_scopes (rocket_generic example_server_lib example_rocket_site)
      (slice_scopes [default_scope]))"
  have "protect (scoped_resource ?E r) \<lparr> rq_valid = True, rq_token = Some (''Bearer '' @ token) \<rparr> 5 s3 = (Ok h, s4)" for r
    by (rule access_over [OF _ rocket_endpoint_parts(12) assms(1)])
      (simp_all add: assms generic_endpoint_def with_scopes_def rocket_parts, simp add: fsubset_eq)
  then show ?thesis
    by (simp add: rocket_step_simps rocket_protected_run resource_execute_def rocket_page_request)
qed

lemma rocket_login:
  "\<exists>c (t :: issued_token) x1 x2 g2 m g3.
    rocket_serves example_server_lib example_rocket_site rocket_start
      [(rocket_redeem_call c, x2), (rocket_consent_call, x1)] g2 \<and>
    rocket_example_route (rocket_page_call (it_token t)) = Some m \<and> m g2 = (Ok (RkText ''Hello, world''), g3)"
proof -
  let ?L = example_server_lib and ?T = example_rocket_site and ?s = "guarded_server rocket_start"
  let ?gr = rocket_example_grant
  obtain c t s1 s2 s3 s4 h where
    prims: "az_authorize (server_authorizer ?L) ?gr ?s = (Ok c, s1)"
    "az_extract (server_authorizer ?L) c s1 = (Ok (Some ?gr), s2)"
    "is_issue (server_issuer ?L) 5 (?gr\<lparr> g_extensions := extensions_new \<rparr>) s2 = (Ok t, s3)"
    "is_recover_token (server_issuer ?L) (it_token t) s3 = (Ok (Some h), s4)"
    and h: "g_until h = g_until ?gr" "g_scope h = g_scope ?gr"
    and s1: "sv_registrar s1 = rocket_clients" "sv_scopes s1 = []" "sv_scopes s3 = []"
    using rocket_primitives [of ?gr] by blast
  have valid: "5 \<le> g_until h" "g_scope h = default_scope"
    by (simp_all add: h rocket_example_grant)
  have up: "guards_agree rocket_start" "\<not> guards_down rocket_start"
    using rocket_preconfigured_parts [OF rocket_example_preconfigured] by simp_all
  have same: "s1\<lparr> sv_scopes := [] \<rparr> = s1" "s3\<lparr> sv_scopes := [] \<rparr> = s3"
    using s1(2,3) by (cases s1, simp, cases s3, simp)
  obtain act1 r1 where act1: "rocket_handler ?L ?T rocket_consent_call = Some act1" "act1 ?s = (Ok (RkResponse r1), s1)"
    using rocket_consent_runs [OF prims(1)] by blast
  obtain m1 g1 where g1: "rocket_example_route rocket_consent_call = Some m1" "m1 rocket_start = (Ok (RkResponse r1), g1)"
    "guarded_server g1 = s1" "guards_agree g1" "\<not> guards_down g1"
    using rocket_route_runs [OF act1 up] same(1) by auto
  obtain act2 r2 where act2: "rocket_handler ?L ?T (rocket_redeem_call c) = Some act2"
    "act2 (guarded_server g1) = (Ok (RkResponse r2), s3)"
    using rocket_redeem_runs [OF prims(2,3) s1(1)] g1(3) by blast
  obtain m2 g2 where g2: "rocket_example_route (rocket_redeem_call c) = Some m2" "m2 g1 = (Ok (RkResponse r2), g2)"
    "guarded_server g2 = s3" "guards_agree g2" "\<not> guards_down g2"
    using rocket_route_runs [OF act2 g1(4,5)] same(2) by auto
  obtain act3 where act3: "rocket_handler ?L ?T (rocket_page_call (it_token t)) = Some act3"
    "act3 (guarded_server g2) = (Ok (RkText ''Hello, world''), s4)"
    using rocket_page_runs [OF prims(4) valid] g2(3) by blast
  obtain m3 g3 where g3: "rocket_example_route (rocket_page_call (it_token t)) = Some m3"
    "m3 g2 = (Ok (RkText ''Hello, world''), g3)"
    using rocket_route_runs [OF act3 g2(4,5)] by auto
  have "rocket_serves ?L ?T rocket_start [(rocket_redeem_call c, Ok (RkResponse r2)), (rocket_consent_call, Ok (RkResponse r1))] g2"
    by (intro rocket_serves_call [OF rocket_serves_call [OF rocket_serves_start g1(1,2)] g2(1,2)])
  then show ?thesis
    using g3 by blast
qed

section \<open>Properties\<close>

text \<open>
  Access at the rocket server. Whatever calls it handles, starting on an empty store, and whether or
  not some of them panic: a text is only shown to a bearer of a token behind which the store has an
  unexpired grant of the registered client within its scope; and that grant was authorized by an
  earlier \<open>POST\<close> of the authorization page whose parameter \<open>allow\<close> was true, or by a request for the
  implicit flow.
\<close>

lemma rocket_access_needs_consent:
  assumes "redis_store (sl_redis L) hash num healthy" and "codec_ok (sl_grant_codec L)"
    and "codec_ok (sl_token_codec L)"
    and "rocket_preconfigured L salt code_generator token_generator redis = Ok g" and "\<And>k f. hash redis k f = None"
    and "rocket_serves L T g cs g'" and "rocket_route L T c = Some act" and "act g' = (Ok (RkText greeting), g'')"
  shows "\<exists>token gr. rh_authorization (kc_http c) = [''Bearer '' @ token] \<and>
    server_access_grant hash L (guarded_server g') token = Some gr \<and> ck_now (kc_clock c) \<le> g_until gr \<and>
    g_client_id gr = ''LocalClient'' \<and> tokens (g_scope gr) |\<subseteq>| tokens default_scope \<and>
    (\<exists>(d, x)\<in>set cs. rocket_justifies T d gr)"
proof -
  note pre = rocket_preconfigured_parts [OF assms(4)] and store = server_storeI [OF assms(1-3)]
  let ?clients = "sv_registrar (guarded_server g)"
  have "server_holds hash L ?clients [] (\<lambda>_. False) (guarded_server g)"
    using stored_ok_empty [of "hash redis", OF assms(5)]
    by (simp add: server_holds_def pre(4) guarded_server_scopes)
  from rocket_serves_justified [OF assms(6) store pre(3) this]
  have holds: "server_holds hash L ?clients [] (rocket_justified T ?clients (map fst cs)) (guarded_server g')" .
  from rocket_shows_page [OF store rocket_justified_closed holds assms(7,8)] show ?thesis
    by (fastforce simp: rocket_justified_def pre(5))
qed

lemma rocket_access_example:
  "\<exists>cs g' token gr. rocket_serves example_server_lib example_rocket_site rocket_start cs g' \<and>
    server_access_grant mr_hash example_server_lib (guarded_server g') token = Some gr \<and>
    (\<exists>(d, x)\<in>set cs. rocket_justifies example_rocket_site d gr)"
proof -
  obtain c x1 x2 g2 m g3 and t :: issued_token where serves: "rocket_serves example_server_lib example_rocket_site rocket_start
      [(rocket_redeem_call c, x2), (rocket_consent_call, x1)] g2"
    and page: "rocket_example_route (rocket_page_call (it_token t)) = Some m" "m g2 = (Ok (RkText ''Hello, world''), g3)"
    using rocket_login by blast
  have empty: "mr_hash mem_empty k f = None" for k f
    by (simp add: mem_empty_def)
  have lib: "sl_redis example_server_lib = mem_ops" "sl_grant_codec example_server_lib = grant_codec"
    "sl_token_codec example_server_lib = token_codec"
    by simp_all
  from rocket_access_needs_consent [where L = example_server_lib and hash = mr_hash and num = mr_num and
      healthy = mem_healthy, unfolded lib, OF mem_redis_store grant_codec_ok token_codec_ok
      rocket_example_preconfigured empty serves page]
  show ?thesis using serves by blast
qed

text \<open>
  C34: the mutexes fall together. In every history of the preconfigured server the three mutexes are
  poisoned or not as one, and they are poisoned exactly if some request of the history has panicked;
  from then on every request panics too, and the state stays as it is.
\<close>

theorem rocket_falls_as_one:
  assumes "rocket_preconfigured L salt code_generator token_generator redis = Ok g" and "rocket_serves L T g cs g'"
  shows "lk_poisoned (gd_authorizer g') = lk_poisoned (gd_registrar g') \<and>
    lk_poisoned (gd_issuer g') = lk_poisoned (gd_registrar g') \<and>
    (lk_poisoned (gd_registrar g') \<longleftrightarrow> (\<exists>c. (c, Panic) \<in> set cs)) \<and>
    (lk_poisoned (gd_registrar g') \<longrightarrow> (\<forall>c act. rocket_route L T c = Some act \<longrightarrow> act g' = (Panic, g')))"
proof -
  have agree: "guards_agree g'" "guards_down g' \<longleftrightarrow> Panic \<in> snd ` set cs"
    using rocket_serves_agree [OF assms(2)] rocket_preconfigured_parts(1,2) [OF assms(1)] by simp_all
  then have down: "guards_down g' \<longleftrightarrow> lk_poisoned (gd_registrar g')"
    by (auto simp: guards_agree_def guards_down_def)
  have "act g' = (Panic, g')" if "lk_poisoned (gd_registrar g')" "rocket_route L T c = Some act" for c act
    using that by (auto simp: rocket_route_def guarded_run_def)
  moreover have "Panic \<in> snd ` set cs \<longleftrightarrow> (\<exists>c. (c, Panic) \<in> set cs)"
    by force
  ultimately show ?thesis
    using agree down by (auto simp: guards_agree_def)
qed

theorem rocket_falls_as_one_witness:
  "\<exists>cs g'. rocket_serves example_server_lib example_rocket_site rocket_start cs g' \<and> length cs = 2 \<and>
    (lk_poisoned (gd_registrar g') \<longleftrightarrow> (\<exists>c. (c, Panic) \<in> set cs))"
proof -
  obtain c x1 x2 g2 where serves: "rocket_serves example_server_lib example_rocket_site rocket_start
      [(rocket_redeem_call c, x2), (rocket_consent_call, x1)] g2"
    using rocket_login by blast
  from rocket_falls_as_one [OF rocket_example_preconfigured this] have
    "lk_poisoned (gd_registrar g2) \<longleftrightarrow>
      (\<exists>d. (d, Panic) \<in> set [(rocket_redeem_call c, x2), (rocket_consent_call, x1)])"
    by blast
  moreover have "length [(rocket_redeem_call c, x2), (rocket_consent_call, x1)] = 2"
    by simp
  ultimately show ?thesis
    using serves by blast
qed

end
