(* ===== verification/Iron_Client.thy ===== *)
theory Iron_Client
  imports Example_Client
begin

text \<open>
  The client of the iron example (\<open>examples/support/iron.rs\<close>). Its requests are served in parallel, and it
  keeps the token and the text of the token response behind two locks. A request is a task that stops
  wherever it asks for a lock; the system is a list of tasks over the two locks and the world the
  transport talks to. What the pages show belongs together; and the two handlers take the locks in
  opposite orders, so that they can block each other for ever.
\<close>

section \<open>The handlers\<close>

text \<open>\<open>serde_json\<close> on maps of strings: decoding, the text of a decoding error, and pretty printing;
  and the name of the HTML content type.\<close>

record 'j json_maps =
  jm_from_str :: "string \<Rightarrow> 'j + (string, string) fmap"
  jm_debug :: "'j \<Rightarrow> string"
  jm_pretty :: "(string, string) fmap \<Rightarrow> string option"
  jm_html :: string

text \<open>The query of a request as a \<open>HashMap\<close>: the last of several values counts.\<close>

definition iron_query_map :: "(string \<times> string) list \<Rightarrow> string \<rightharpoonup> string" where
  "iron_query_map pairs = map_of (rev pairs)"

definition iron_token_request :: "string \<Rightarrow> http_request" where
  "iron_token_request code =
     \<lparr> hq_method = ''POST'', hq_url = ''http://localhost:8020/token'',
       hq_form = Some [''grant_type'' \<mapsto> ''authorization_code'', ''client_id'' \<mapsto> ''LocalClient'', ''code'' \<mapsto> code,
         ''redirect_uri'' \<mapsto> ''http://localhost:8021/endpoint''],
       hq_basic_auth = None, hq_authorization = None \<rparr>"

definition iron_page_request :: "string \<Rightarrow> http_request" where
  "iron_page_request token =
     \<lparr> hq_method = ''GET'', hq_url = ''http://localhost:8020/'', hq_form = None, hq_basic_auth = None,
       hq_authorization = Some (''Bearer '' @ token) \<rparr>"

text \<open>\<open>token_map.replace(",", ",</br>")\<close>\<close>

definition break_commas :: "string \<Rightarrow> string" where
  "break_commas s = concat (map (\<lambda>c. if c = CHR '','' then '',</br>'' else [c]) s)"

text \<open>\<open>endpoint\<close> up to its locks: an answer, or the token and the text to be stored.\<close>

definition iron_decode ::
  "'j json_maps \<Rightarrow> string \<Rightarrow> (client_page + string \<times> string, 'e) outcome" where
  "iron_decode J token =
     (case jm_from_str J token of
        Inl err \<Rightarrow> Ok (Inl (body_page 400 (''Could not parse token response '' @ jm_debug J err)))
      | Inr token_map \<Rightarrow>
          if fmlookup token_map ''error'' \<noteq> None then Ok (Inl (body_page 400 token))
          else case fmlookup token_map ''access_token'' of
                 None \<Rightarrow> Ok (Inl (body_page 400 token))
               | Some access \<Rightarrow>
                   map_ok (\<lambda>pretty. Inr (access, break_commas pretty)) (expect (jm_pretty J token_map)))"

definition iron_fetch ::
  "'w transport \<Rightarrow> 'j json_maps \<Rightarrow> (string \<times> string) list
    \<Rightarrow> ('w, client_page + string \<times> string, 'e) action" where
  "iron_fetch X J pairs =
     (let query = iron_query_map pairs in
      case query ''error'' of
        Some error \<Rightarrow> ret (Inl (body_page 200 (''Error during owner authorization: '' @ error)))
      | None \<Rightarrow>
          (case query ''code'' of
             None \<Rightarrow> ret (Inl (body_page 400 ''Missing code''))
           | Some code \<Rightarrow> (\<lambda>w. case client_send X (iron_token_request code) () w of
               (Ok token_response, w') \<Rightarrow> (bind_oc (expect token_response) (iron_decode J), w')
             | (Err _, w') \<Rightarrow> (Ok (Inl (body_page 500 ''Could not fetch bearer token'')), w')
             | (Panic, w') \<Rightarrow> (Panic, w'))))"

definition iron_display_page :: "string \<Rightarrow> string \<Rightarrow> string" where
  "iron_display_page token_map page =
     ''<html><style>'' @ newline
     @ ''            aside{overflow: auto; word-break: keep-all; white-space: nowrap}'' @ newline
     @ ''            main{text-align: center}'' @ newline
     @ ''            main>aside,main>article{margin: auto; text-align: left; border: 1px solid black; width: 50%}'' @ newline
     @ ''        </style>'' @ newline
     @ ''        <main>'' @ newline
     @ ''        Used token <aside style>'' @ token_map @ ''</aside> to access'' @ newline
     @ ''        <a href=\"http://localhost:8020/\">http://localhost:8020/</a>.'' @ newline
     @ ''        Its contents are:'' @ newline
     @ ''        <article>'' @ page @ ''</article>'' @ newline
     @ ''        </main></html>''"

text \<open>\<open>view\<close> once it has both locks.\<close>

definition iron_view_page ::
  "'w transport \<Rightarrow> 'j json_maps \<Rightarrow> string \<Rightarrow> string \<Rightarrow> ('w, client_page, 'e) action" where
  "iron_view_page X J token token_map = (\<lambda>w.
     case client_send X (iron_page_request token) () w of
       (Ok page_response, w') \<Rightarrow>
         (map_ok (\<lambda>protected_page. \<lparr> cp_status = 200, cp_location = None, cp_content_type = Some (jm_html J),
             cp_body = iron_display_page token_map protected_page \<rparr>) (expect page_response), w')
     | (Err _, w') \<Rightarrow> (Ok (body_page 400 ''Could not access protected resource''), w')
     | (Panic, w') \<Rightarrow> (Panic, w'))"

section \<open>Tasks and locks\<close>

record iron_locks =
  il_token :: "string option rw_lock"
  il_map :: "string option rw_lock"

definition iron_locks_default :: iron_locks where
  "iron_locks_default = \<lparr> il_token = rw_lock_new None, il_map = rw_lock_new None \<rparr>"

text \<open>
  Where a request is: before its work, with the token response and waiting for the lock of the text,
  holding that lock and waiting for the lock of the token; for the page, before the lock of the token,
  holding it (for reading) and waiting for that of the text, and holding both; or done.
\<close>

datatype iron_task =
    IkEndpoint "(string \<times> string) list"
  | IkFetched string string
  | IkMapHeld string string
  | IkView
  | IkTokenHeld string
  | IkBothHeld string string
  | IkDone "(client_page, unit) outcome"

fun reads_token :: "iron_task \<Rightarrow> bool" where
  "reads_token (IkTokenHeld _) = True"
| "reads_token (IkBothHeld _ _) = True"
| "reads_token _ = False"

fun reads_map :: "iron_task \<Rightarrow> bool" where
  "reads_map (IkBothHeld _ _) = True"
| "reads_map _ = False"

fun writes_map :: "iron_task \<Rightarrow> bool" where
  "writes_map (IkMapHeld _ _) = True"
| "writes_map _ = False"

text \<open>The next step of a task beside the others, or \<open>None\<close> while it waits for a lock.\<close>

fun iron_advance ::
  "'w transport \<Rightarrow> 'j json_maps \<Rightarrow> iron_task list \<Rightarrow> iron_task \<Rightarrow> 'w \<times> iron_locks
    \<Rightarrow> (iron_task \<times> 'w \<times> iron_locks) option" where
  "iron_advance X J ts (IkEndpoint pairs) (w, l) =
     (case iron_fetch X J pairs w of
        (Ok (Inl page), w') \<Rightarrow> Some (IkDone (Ok page), w', l)
      | (Ok (Inr (token, token_map)), w') \<Rightarrow> Some (IkFetched token token_map, w', l)
      | (Err e, w') \<Rightarrow> Some (IkDone (Err e), w', l)
      | (Panic, w') \<Rightarrow> Some (IkDone Panic, w', l))"
| "iron_advance X J ts (IkFetched token token_map) (w, l) =
     (if list_ex reads_map ts \<or> list_ex writes_map ts then None
      else if lk_poisoned (il_map l) then Some (IkDone Panic, w, l)
      else Some (IkMapHeld token token_map, w, l\<lparr> il_map := (il_map l)\<lparr> lk_value := Some token_map \<rparr> \<rparr>))"
| "iron_advance X J ts (IkMapHeld token token_map) (w, l) =
     (if list_ex reads_token ts then None
      else if lk_poisoned (il_token l)
        then Some (IkDone Panic, w, l\<lparr> il_map := (il_map l)\<lparr> lk_poisoned := True \<rparr> \<rparr>)
      else Some (IkDone (Ok (found_page ''/'')), w, l\<lparr> il_token := (il_token l)\<lparr> lk_value := Some token \<rparr> \<rparr>))"
| "iron_advance X J ts IkView (w, l) =
     (if lk_poisoned (il_token l) then Some (IkDone Panic, w, l)
      else case lk_value (il_token l) of
             None \<Rightarrow> Some (IkDone (Ok (body_page 200 ''No token granted yet'')), w, l)
           | Some token \<Rightarrow> Some (IkTokenHeld token, w, l))"
| "iron_advance X J ts (IkTokenHeld token) (w, l) =
     (if list_ex writes_map ts then None
      else if lk_poisoned (il_map l) then Some (IkDone Panic, w, l)
      else case lk_value (il_map l) of
             None \<Rightarrow> Some (IkDone Panic, w, l)
           | Some token_map \<Rightarrow> Some (IkBothHeld token token_map, w, l))"
| "iron_advance X J ts (IkBothHeld token token_map) (w, l) =
     (case iron_view_page X J token token_map w of (x, w') \<Rightarrow> Some (IkDone x, w', l))"
| "iron_advance X J ts (IkDone x) s = None"

text \<open>The routes of \<open>dummy_client\<close>; the router answers the others.\<close>

definition iron_client_task :: "string \<Rightarrow> string \<Rightarrow> (string \<times> string) list \<Rightarrow> iron_task option" where
  "iron_client_task verb path pairs =
     (if verb = ''GET'' \<and> path = ''/endpoint'' then Some (IkEndpoint pairs)
      else if verb = ''GET'' \<and> path = ''/'' then Some IkView
      else None)"

text \<open>The system: a request arrives, or one of the tasks takes its next step.\<close>

inductive iron_conc ::
  "'w transport \<Rightarrow> 'j json_maps \<Rightarrow> iron_task list \<times> 'w \<times> iron_locks \<Rightarrow> iron_task list \<times> 'w \<times> iron_locks \<Rightarrow> bool"
  for X J where
  iron_arrives: "iron_client_task verb path pairs = Some t \<Longrightarrow> iron_conc X J (ts, s) (ts @ [t], s)"
| iron_steps: "i < length ts \<Longrightarrow> iron_advance X J ts (ts ! i) s = Some (t, s') \<Longrightarrow>
     iron_conc X J (ts, s) (ts[i := t], s')"

inductive_cases iron_concE: "iron_conc X J (ts, s) (us, s')"

section \<open>What a task knows\<close>

text \<open>A token and a text that come out of the same response.\<close>

definition iron_pair :: "'j json_maps \<Rightarrow> string \<Rightarrow> string \<Rightarrow> bool" where
  "iron_pair J token text' \<longleftrightarrow> (\<exists>body token_map pretty. jm_from_str J body = Inr token_map \<and>
     fmlookup token_map ''error'' = None \<and> fmlookup token_map ''access_token'' = Some token \<and>
     jm_pretty J token_map = Some pretty \<and> text' = break_commas pretty)"

fun iron_knows :: "'j json_maps \<Rightarrow> iron_locks \<Rightarrow> iron_task \<Rightarrow> bool" where
  "iron_knows J l (IkFetched token text') = iron_pair J token text'"
| "iron_knows J l (IkMapHeld token text') = (iron_pair J token text' \<and> lk_value (il_map l) = Some text')"
| "iron_knows J l (IkTokenHeld token) = (lk_value (il_token l) = Some token)"
| "iron_knows J l (IkBothHeld token text') =
     (lk_value (il_token l) = Some token \<and> lk_value (il_map l) = Some text' \<and> iron_pair J token text')"
| "iron_knows J l t = True"

text \<open>What the locks hold while nobody writes: nothing yet, or a token with its text.\<close>

definition iron_settled :: "'j json_maps \<Rightarrow> iron_locks \<Rightarrow> bool" where
  "iron_settled J l \<longleftrightarrow>
     (case lk_value (il_token l) of
        None \<Rightarrow> True
      | Some token \<Rightarrow> \<exists>text'. lk_value (il_map l) = Some text' \<and> iron_pair J token text')"

definition iron_healthy :: "'j json_maps \<Rightarrow> iron_task list \<Rightarrow> iron_locks \<Rightarrow> bool" where
  "iron_healthy J ts l \<longleftrightarrow>
     \<not> lk_poisoned (il_token l) \<and> \<not> lk_poisoned (il_map l) \<and>
     list_all (iron_knows J l) ts \<and>
     length (filter writes_map ts) \<le> 1 \<and> (list_ex writes_map ts \<longrightarrow> \<not> list_ex reads_map ts) \<and>
     (if list_ex writes_map ts then lk_value (il_map l) \<noteq> None else iron_settled J l)"

lemma iron_decode_pair:
  "iron_decode J body = Ok (Inr (token, text')) \<Longrightarrow> iron_pair J token text'"
  by (auto simp: iron_decode_def iron_pair_def split: sum.splits if_splits option.splits)

lemma iron_fetch_pair:
  "iron_fetch X J pairs w = (Ok (Inr (token, text')), w') \<Longrightarrow> iron_pair J token text'"
  by (auto simp: iron_fetch_def Let_def ret_def split: option.splits prod.splits outcome.splits
      dest: iron_decode_pair)

lemma knows_other_map:
  assumes "list_all (iron_knows J l) ts" and "\<not> list_ex reads_map ts" and "\<not> list_ex writes_map ts"
    and "il_token l' = il_token l"
  shows "list_all (iron_knows J l') ts"
  using assms(1-3)
proof (induction ts)
  case (Cons t ts)
  then show ?case using assms(4) by (cases t) auto
qed simp

lemma knows_other_token:
  assumes "list_all (iron_knows J l) ts" and "\<not> list_ex reads_token ts" and "il_map l' = il_map l"
  shows "list_all (iron_knows J l') ts"
  using assms(1,2)
proof (induction ts)
  case (Cons t ts)
  then show ?case using assms(3) by (cases t) auto
qed simp

lemma no_writers: "\<not> list_ex writes_map ts \<Longrightarrow> filter writes_map ts = []"
  by (simp add: list_ex_iff filter_empty_conv)

lemma one_writer: "length (filter writes_map (t # ts)) \<le> 1 \<Longrightarrow> writes_map t \<Longrightarrow> \<not> list_ex writes_map ts"
  by (simp add: list_ex_iff filter_empty_conv)

text \<open>The order of the tasks does not matter.\<close>

lemma healthy_front: "iron_healthy J (xs @ t # ys) l = iron_healthy J (t # xs @ ys) l"
  unfolding iron_healthy_def by simp blast

lemma advance_front: "iron_advance X J (xs @ t # ys) u s = iron_advance X J (t # xs @ ys) u s"
  by (cases u; cases s) (simp_all add: disj_left_commute)

lemma iron_healthy_unpoisoned:
  "iron_healthy J ts l \<Longrightarrow> \<not> lk_poisoned (il_token l) \<and> \<not> lk_poisoned (il_map l)"
  by (simp add: iron_healthy_def)

lemma iron_writes_text:
  assumes "iron_healthy J (IkFetched token text' # zs) l" and "\<not> list_ex reads_map zs" and "\<not> list_ex writes_map zs"
    and "l' = l\<lparr> il_map := (il_map l)\<lparr> lk_value := Some text' \<rparr> \<rparr>"
  shows "iron_healthy J (IkMapHeld token text' # zs) l'"
proof -
  have "list_all (iron_knows J l') zs"
    by (rule knows_other_map [where l = l]) (use assms in \<open>simp_all add: iron_healthy_def\<close>)
  moreover have "iron_knows J l' (IkMapHeld token text')" "\<not> lk_poisoned (il_token l')" "\<not> lk_poisoned (il_map l')"
    "lk_value (il_map l') \<noteq> None"
    using assms(1,4) by (simp_all add: iron_healthy_def)
  ultimately show ?thesis
    unfolding iron_healthy_def using assms(2,3) no_writers by simp
qed

lemma iron_writes_token:
  assumes "iron_healthy J (IkMapHeld token text' # zs) l" and "\<not> list_ex reads_token zs"
    and "l' = l\<lparr> il_token := (il_token l)\<lparr> lk_value := Some token \<rparr> \<rparr>"
  shows "iron_healthy J (IkDone x # zs) l'"
proof -
  have "list_all (iron_knows J l') zs"
    by (rule knows_other_token [where l = l]) (use assms in \<open>simp_all add: iron_healthy_def\<close>)
  moreover have "\<not> list_ex writes_map zs"
    using assms(1) one_writer [of "IkMapHeld token text'" zs] by (simp add: iron_healthy_def del: filter.simps)
  moreover have "iron_settled J l'" "\<not> lk_poisoned (il_token l')" "\<not> lk_poisoned (il_map l')"
    using assms(1,3) by (simp_all add: iron_healthy_def iron_settled_def)
  ultimately show ?thesis
    unfolding iron_healthy_def using no_writers by simp
qed

lemma iron_advance_healthy:
  assumes "iron_advance X J (t # zs) t (w, l) = Some (t', (w', l'))" and "iron_healthy J (t # zs) l"
  shows "iron_healthy J (t' # zs) l'"
proof (cases t)
  case (IkEndpoint pairs)
  then show ?thesis
    using assms by (auto simp: iron_healthy_def split: prod.splits outcome.splits sum.splits dest: iron_fetch_pair)
next
  case (IkFetched token text')
  then show ?thesis
    using assms(1) iron_writes_text [OF assms(2) [unfolded IkFetched], of l'] iron_healthy_unpoisoned [OF assms(2)]
    by (auto split: if_splits)
next
  case (IkMapHeld token text')
  then show ?thesis
    using assms(1) iron_writes_token [OF assms(2) [unfolded IkMapHeld], of l'] iron_healthy_unpoisoned [OF assms(2)]
    by (auto split: if_splits)
next
  case IkView
  then show ?thesis
    using assms by (auto simp: iron_healthy_def split: if_splits option.splits)
next
  case (IkTokenHeld token)
  then show ?thesis
    using assms by (auto simp: iron_healthy_def iron_settled_def split: if_splits option.splits)
next
  case (IkBothHeld token text')
  then show ?thesis
    using assms by (auto simp: iron_healthy_def split: prod.splits)
qed (use assms(1) in simp)

lemma iron_conc_healthy:
  assumes "iron_conc X J (ts, s) (us, s')" and "iron_healthy J ts (snd s)"
  shows "iron_healthy J us (snd s')"
  using assms(1)
proof (elim iron_concE)
  fix verb path pairs t
  assume "us = ts @ [t]" "s' = s" "iron_client_task verb path pairs = Some t"
  then show ?thesis
    using assms(2) by (auto simp: iron_healthy_def iron_client_task_def split: if_splits)
next
  fix i t
  assume i: "i < length ts" and us: "us = ts[i := t]" and step: "iron_advance X J ts (ts ! i) s = Some (t, s')"
  define zs where "zs = take i ts @ drop (Suc i) ts"
  have ts: "ts = take i ts @ ts ! i # drop (Suc i) ts" and us': "us = take i ts @ t # drop (Suc i) ts"
    using i us by (simp_all add: id_take_nth_drop upd_conv_take_nth_drop)
  have "iron_advance X J (ts ! i # zs) (ts ! i) (fst s, snd s) = Some (t, (fst s', snd s'))"
    using step advance_front [of X J "take i ts" "ts ! i" "drop (Suc i) ts"] ts by (simp add: zs_def)
  moreover have "iron_healthy J (ts ! i # zs) (snd s)"
    using assms(2) healthy_front [of J "take i ts" "ts ! i" "drop (Suc i) ts"] ts by (simp add: zs_def)
  ultimately have "iron_healthy J (t # zs) (snd s')"
    by (rule iron_advance_healthy)
  then show ?thesis
    unfolding us' by (simp add: healthy_front zs_def)
qed

lemma iron_reachable_healthy:
  "(iron_conc X J)\<^sup>*\<^sup>* (ts, s) (us, s') \<Longrightarrow> iron_healthy J ts (snd s) \<Longrightarrow> iron_healthy J us (snd s')"
proof (induction "(us, s')" arbitrary: us s' rule: rtranclp_induct)
  case (step y)
  then show ?case by (metis iron_conc_healthy prod.collapse)
qed simp

lemma iron_start_healthy: "iron_healthy J [] iron_locks_default"
  by (simp add: iron_healthy_def iron_locks_default_def rw_lock_new_def iron_settled_def)

lemma iron_reachable:
  assumes "(iron_conc X J)\<^sup>*\<^sup>* ([], (w, iron_locks_default)) (ts, s)"
  shows "iron_healthy J ts (snd s)"
  by (rule iron_reachable_healthy [OF assms]) (simp add: iron_start_healthy)

text \<open>
  Where a request can still panic: it cannot be built, the body of a response cannot be read, or a decoded
  map cannot be printed. Where none of this happens, no task panics.
\<close>

definition iron_undisturbed :: "'w transport \<Rightarrow> 'j json_maps \<Rightarrow> bool" where
  "iron_undisturbed X J \<longleftrightarrow> (\<forall>q. tp_builds X q) \<and> (\<forall>q w. fst (tp_execute X q w) \<noteq> Some None) \<and>
     (\<forall>body m. jm_from_str J body = Inr m \<longrightarrow> jm_pretty J m \<noteq> None)"

lemma client_send_undisturbed:
  assumes "iron_undisturbed X J" and "client_send X q e w = (x, w')"
  shows "x \<noteq> Panic \<and> x \<noteq> Ok None"
proof -
  have "fst (tp_execute X q w) \<noteq> Some None" "tp_builds X q"
    using assms(1) by (auto simp: iron_undisturbed_def)
  then show ?thesis
    using assms(2) by (auto simp: client_send_def split: prod.splits option.splits)
qed

lemma iron_decode_no_panic: "iron_undisturbed X J \<Longrightarrow> iron_decode J body \<noteq> Panic"
  by (auto simp: iron_undisturbed_def iron_decode_def split: sum.splits option.splits)

lemma iron_fetch_no_panic:
  assumes "iron_undisturbed X J" and "iron_fetch X J pairs w = (x, w')"
  shows "x \<noteq> Panic"
proof (cases "iron_query_map pairs ''error'' = None \<and> iron_query_map pairs ''code'' \<noteq> None")
  case True
  then obtain code where code: "iron_query_map pairs ''error'' = None" "iron_query_map pairs ''code'' = Some code"
    by auto
  obtain y v where sent: "client_send X (iron_token_request code) () w = (y, v)"
    by (meson surj_pair)
  show ?thesis
    using assms(2) client_send_undisturbed [OF assms(1) sent]
    by (auto simp: iron_fetch_def Let_def code sent iron_decode_no_panic [OF assms(1)] split: outcome.splits)
next
  case False
  then show ?thesis
    using assms(2) by (auto simp: iron_fetch_def Let_def ret_def split: option.splits)
qed

lemma iron_view_page_no_panic:
  assumes "iron_undisturbed X J" and "iron_view_page X J token text' w = (x, w')"
  shows "x \<noteq> Panic"
  using assms(2)
  by (auto simp: iron_view_page_def split: prod.splits outcome.splits dest: client_send_undisturbed [OF assms(1)])

lemma iron_advance_no_panic:
  assumes "iron_undisturbed X J" and "iron_healthy J ts l" and "t \<in> set ts"
    and "iron_advance X J ts t (w, l) = Some (t', s')"
  shows "t' \<noteq> IkDone Panic"
proof -
  note calm = iron_fetch_no_panic [OF assms(1)] iron_view_page_no_panic [OF assms(1)]
  have knows: "iron_knows J l t" and up: "\<not> lk_poisoned (il_token l)" "\<not> lk_poisoned (il_map l)"
    and settled: "\<not> list_ex writes_map ts \<Longrightarrow> iron_settled J l"
    using assms(2,3) by (simp_all add: iron_healthy_def list_all_iff)
  show ?thesis
    using assms(4) knows up settled
    by (cases t) (auto simp: iron_settled_def split: prod.splits outcome.splits sum.splits if_splits option.splits
        dest: calm)
qed

lemma iron_conc_no_panic:
  assumes "iron_undisturbed X J" and "iron_healthy J ts (snd s)" and "IkDone Panic \<notin> set ts"
    and "iron_conc X J (ts, s) (us, s')"
  shows "IkDone Panic \<notin> set us"
  using assms(4)
proof (elim iron_concE)
  fix verb path pairs t
  assume "us = ts @ [t]" "s' = s" "iron_client_task verb path pairs = Some t"
  then show ?thesis
    using assms(3) by (auto simp: iron_client_task_def split: if_splits)
next
  fix i t
  assume i: "i < length ts" and us: "us = ts[i := t]" and step: "iron_advance X J ts (ts ! i) s = Some (t, s')"
  have "t \<noteq> IkDone Panic"
    using iron_advance_no_panic [OF assms(1,2) nth_mem [OF i], of "fst s" t s'] step by simp
  then show ?thesis
    using assms(3) us set_update_subset_insert [of ts i t] by auto
qed

lemma iron_reachable_no_panic:
  assumes "iron_undisturbed X J"
  shows "(iron_conc X J)\<^sup>*\<^sup>* ([], (w, iron_locks_default)) (ts, s) \<Longrightarrow> IkDone Panic \<notin> set ts"
proof (induction "(ts, s)" arbitrary: ts s rule: rtranclp_induct)
  case (step y)
  obtain us v where y: "y = (us, v)" by (cases y)
  show ?case
    using iron_conc_no_panic [OF assms iron_reachable [OF step.hyps(1) [unfolded y]] step.hyps(3) [OF y]] step.hyps(2)
    unfolding y by blast
qed simp

section \<open>Blocked requests\<close>

definition iron_frozen :: "nat \<Rightarrow> nat \<Rightarrow> iron_task list \<Rightarrow> bool" where
  "iron_frozen i j ts \<longleftrightarrow> i < length ts \<and> j < length ts \<and>
     (\<exists>token text'. ts ! i = IkMapHeld token text') \<and> (\<exists>held. ts ! j = IkTokenHeld held)"

lemma iron_frozen_holds:
  assumes "iron_frozen i j ts"
  shows "list_ex writes_map ts" "list_ex reads_token ts"
proof -
  obtain token text' held where "i < length ts" "ts ! i = IkMapHeld token text'"
    "j < length ts" "ts ! j = IkTokenHeld held"
    using assms by (auto simp: iron_frozen_def)
  then show "list_ex writes_map ts" "list_ex reads_token ts"
    unfolding list_ex_length by (metis writes_map.simps(1), metis reads_token.simps(1))
qed

lemma iron_frozen_step:
  assumes "iron_frozen i j ts" and "iron_conc X J (ts, s) (us, s')"
  shows "iron_frozen i j us \<and> us ! i = ts ! i \<and> us ! j = ts ! j \<and> snd s' = snd s"
  using assms(2)
proof (elim iron_concE)
  fix verb path pairs t
  assume "us = ts @ [t]" "s' = s"
  then show ?thesis using assms(1) by (auto simp: iron_frozen_def nth_append)
next
  fix k t
  assume k: "k < length ts" and us: "us = ts[k := t]" and step: "iron_advance X J ts (ts ! k) s = Some (t, s')"
  note held = iron_frozen_holds [OF assms(1)]
  have "snd s' = snd s \<and> k \<noteq> i \<and> k \<noteq> j"
  proof (cases "ts ! k")
    case (IkBothHeld token text')
    then show ?thesis
      using step assms(1) by (cases s) (auto simp: iron_frozen_def split: prod.splits)
  qed (use step assms(1) held in \<open>cases s; auto simp: iron_frozen_def split: prod.splits outcome.splits sum.splits
      if_splits option.splits\<close>)+
  then show ?thesis
    using assms(1) us k by (simp add: iron_frozen_def)
qed

lemma iron_frozen_forever:
  "(iron_conc X J)\<^sup>*\<^sup>* (ts, s) (us, s') \<Longrightarrow> iron_frozen i j ts \<Longrightarrow>
     iron_frozen i j us \<and> us ! i = ts ! i \<and> us ! j = ts ! j \<and> snd s' = snd s"
proof (induction "(us, s')" arbitrary: us s' rule: rtranclp_induct)
  case (step y)
  then show ?case
    using iron_frozen_step [of i j "fst y" X J "snd y" us s'] by (metis prod.collapse)
qed simp

text \<open>Only these two can block each other: if nothing moves, all requests are done, or both are there.\<close>

lemma iron_stuck:
  assumes "\<And>t. t \<in> set ts \<Longrightarrow> iron_advance X J ts t s = None" and "t \<in> set ts" and "\<And>x. t \<noteq> IkDone x"
  shows "\<exists>i j. iron_frozen i j ts"
proof -
  have moves: "(\<exists>token text'. u = IkFetched token text') \<or> (\<exists>token text'. u = IkMapHeld token text') \<or>
      (\<exists>held. u = IkTokenHeld held) \<or> (\<exists>x. u = IkDone x)" if "u \<in> set ts" for u
    using assms(1) [OF that]
    by (cases u; cases s) (auto split: prod.splits outcome.splits sum.splits if_splits option.splits)
  then have no_reader: "\<not> list_ex reads_map ts"
    by (fastforce simp: list_ex_iff)
  have writer: "list_ex writes_map ts" if "u \<in> set ts" "(\<exists>a b. u = IkFetched a b) \<or> (\<exists>a. u = IkTokenHeld a)" for u
    using assms(1) [OF that(1)] that(2) no_reader by (cases s) (auto split: if_splits option.splits)
  have reader: "list_ex reads_token ts" if "u \<in> set ts" "u = IkMapHeld a b" for u a b
    using assms(1) [OF that(1)] that(2) by (cases s) (auto split: if_splits)
  obtain u where u: "u \<in> set ts" "writes_map u"
    using writer [OF assms(2)] moves [OF assms(2)] assms(2,3) by (fastforce simp: list_ex_iff)
  obtain a b where "u = IkMapHeld a b" using u(2) by (cases u) auto
  then obtain v where v: "v \<in> set ts" "reads_token v"
    using reader [OF u(1)] by (auto simp: list_ex_iff)
  then have "\<exists>held. v = IkTokenHeld held"
    using moves [of v] by auto
  then show ?thesis
    using u v \<open>u = IkMapHeld a b\<close> by (auto simp: iron_frozen_def in_set_conv_nth)
qed

section \<open>Schedules\<close>

text \<open>A run in which requests arrive and tasks step in the given order.\<close>

fun iron_run ::
  "'w transport \<Rightarrow> 'j json_maps \<Rightarrow> ((string \<times> string \<times> (string \<times> string) list) + nat) list
    \<Rightarrow> iron_task list \<times> 'w \<times> iron_locks \<Rightarrow> iron_task list \<times> 'w \<times> iron_locks" where
  "iron_run X J [] c = c"
| "iron_run X J (Inl (verb, path, pairs) # es) (ts, s) =
     iron_run X J es (case iron_client_task verb path pairs of Some t \<Rightarrow> (ts @ [t], s) | None \<Rightarrow> (ts, s))"
| "iron_run X J (Inr i # es) (ts, s) =
     iron_run X J es
       (if i < length ts
        then case iron_advance X J ts (ts ! i) s of Some (t, s') \<Rightarrow> (ts[i := t], s') | None \<Rightarrow> (ts, s)
        else (ts, s))"

lemma iron_run_conc: "(iron_conc X J)\<^sup>*\<^sup>* c (iron_run X J es c)"
proof (induction X J es c rule: iron_run.induct)
  case (2 X J verb path pairs es ts s)
  show ?case
  proof (cases "iron_client_task verb path pairs")
    case (Some t)
    from converse_rtranclp_into_rtranclp [of "iron_conc X J", OF iron_arrives [OF Some]] 2 show ?thesis
      by (simp add: Some)
  qed (use 2 in simp)
next
  case (3 X J i es ts s)
  show ?case
  proof (cases "i < length ts \<and> iron_advance X J ts (ts ! i) s \<noteq> None")
    case True
    then obtain t s' where step: "iron_advance X J ts (ts ! i) s = Some (t, s')" by auto
    from converse_rtranclp_into_rtranclp [of "iron_conc X J", OF iron_steps [OF _ step]] 3 show ?thesis
      using True step by simp
  qed (use 3 in \<open>auto split: option.splits\<close>)
qed simp

text \<open>An HTTP client that always receives the same text, and a decoder that takes it as the token.\<close>

definition example_transport :: "unit transport" where
  "example_transport = \<lparr> tp_builds = (\<lambda>request. True), tp_execute = (\<lambda>request w. (Some (Some ''t''), w)) \<rparr>"

definition example_json_maps :: "unit json_maps" where
  "example_json_maps =
     \<lparr> jm_from_str = (\<lambda>body. Inr (fmap_of_list [(''access_token'', body)])), jm_debug = (\<lambda>e. []),
       jm_pretty = (\<lambda>m. fmlookup m ''access_token''), jm_html = ''text/html'' \<rparr>"

text \<open>The owner consents twice, and looks at the page while the second code is redeemed.\<close>

definition example_iron_run :: "iron_task list \<times> unit \<times> iron_locks" where
  "example_iron_run = iron_run example_transport example_json_maps
     [Inl (''GET'', ''/endpoint'', [(''code'', ''c'')]), Inr 0, Inr 0, Inr 0,
      Inl (''GET'', ''/endpoint'', [(''code'', ''d'')]), Inl (''GET'', ''/'', []), Inr 1, Inr 2, Inr 1]
     ([], ((), iron_locks_default))"

lemma example_iron_run_eq:
  "example_iron_run =
     ([IkDone (Ok (found_page ''/'')), IkMapHeld ''t'' ''t'', IkTokenHeld ''t''],
      ((), \<lparr> il_token = rw_lock_new (Some ''t''), il_map = rw_lock_new (Some ''t'') \<rparr>))"
  by (simp add: example_iron_run_def iron_client_task_def iron_locks_default_def rw_lock_new_def iron_fetch_def
      iron_query_map_def client_send_def example_transport_def example_json_maps_def iron_decode_def break_commas_def)

section \<open>Properties\<close>

text \<open>
  C35: what the client shows. Whatever requests arrive and however their tasks interleave: at most one
  task writes the text, and none reads it then; no lock is poisoned; a task that has read the token will
  find a text, so the page never panics for want of one; and a page that is shown pairs the token it
  uses with the text of the very response the token came in. A task panics only on account of the
  libraries: if every request can be built, every body read and every decoded map printed, none does.
\<close>

theorem iron_pages_belong_together:
  assumes "(iron_conc X J)\<^sup>*\<^sup>* ([], (w, iron_locks_default)) (ts, (v, l))"
  shows "length (filter writes_map ts) \<le> 1 \<and> \<not> (list_ex writes_map ts \<and> list_ex reads_map ts) \<and>
    \<not> lk_poisoned (il_token l) \<and> \<not> lk_poisoned (il_map l) \<and>
    (\<forall>t\<in>set ts. case t of
        IkTokenHeld token \<Rightarrow> lk_value (il_map l) \<noteq> None
      | IkBothHeld token text' \<Rightarrow> iron_pair J token text'
      | _ \<Rightarrow> True) \<and>
    (iron_undisturbed X J \<longrightarrow> IkDone Panic \<notin> set ts)"
proof -
  have healthy: "iron_healthy J ts l"
    using iron_reachable [OF assms] by simp
  have "case t of IkTokenHeld token \<Rightarrow> lk_value (il_map l) \<noteq> None
      | IkBothHeld token text' \<Rightarrow> iron_pair J token text' | _ \<Rightarrow> True" if "t \<in> set ts" for t
  proof -
    have "iron_knows J l t"
      using healthy that by (simp add: iron_healthy_def list_all_iff)
    then show ?thesis
      using healthy by (cases t) (auto simp: iron_healthy_def iron_settled_def split: if_splits)
  qed
  then show ?thesis
    using healthy iron_reachable_no_panic [OF _ assms] by (auto simp: iron_healthy_def)
qed

theorem iron_pages_belong_together_witness:
  "\<exists>ts l. (iron_conc example_transport example_json_maps)\<^sup>*\<^sup>* ([], ((), iron_locks_default)) (ts, ((), l)) \<and>
    IkBothHeld ''t'' ''t'' \<in> set ts \<and> iron_pair example_json_maps ''t'' ''t'' \<and> IkDone Panic \<notin> set ts"
proof -
  let ?c = "iron_run example_transport example_json_maps
     [Inl (''GET'', ''/endpoint'', [(''code'', ''c'')]), Inr 0, Inr 0, Inr 0, Inl (''GET'', ''/'', []), Inr 1, Inr 1]
     ([], ((), iron_locks_default))"
  have run: "?c = ([IkDone (Ok (found_page ''/'')), IkBothHeld ''t'' ''t''],
      ((), \<lparr> il_token = rw_lock_new (Some ''t''), il_map = rw_lock_new (Some ''t'') \<rparr>))"
    by (simp add: iron_client_task_def iron_locks_default_def rw_lock_new_def iron_fetch_def
      iron_query_map_def client_send_def example_transport_def example_json_maps_def iron_decode_def break_commas_def)
  note reach = iron_run_conc [of example_transport example_json_maps "([], ((), iron_locks_default))"
      "[Inl (''GET'', ''/endpoint'', [(''code'', ''c'')]), Inr 0, Inr 0, Inr 0, Inl (''GET'', ''/'', []), Inr 1, Inr 1]",
      unfolded run]
  have calm: "iron_undisturbed example_transport example_json_maps"
    by (auto simp: iron_undisturbed_def example_transport_def example_json_maps_def)
  from iron_pages_belong_together [OF reach] calm reach show ?thesis
    by (intro exI conjI) (assumption, simp_all)
qed

text \<open>
  C36: the deadlock of the client. The page takes the lock of the token and then that of the text, the
  redemption of a code takes them the other way round. Once one of each holds its first lock, both are
  blocked for ever, whatever else arrives, and the token and its text never change again. Nothing else
  blocks the client: if no task can move, all are done or two such tasks are among them.
\<close>

theorem iron_client_deadlocks:
  "(iron_frozen i j ts \<and> (iron_conc X J)\<^sup>*\<^sup>* (ts, (w, l)) (us, (v, l')) \<longrightarrow>
      us ! i = ts ! i \<and> us ! j = ts ! j \<and> l' = l \<and>
      iron_advance X J us (us ! i) (v, l') = None \<and> iron_advance X J us (us ! j) (v, l') = None) \<and>
   ((\<forall>t\<in>set ts. iron_advance X J ts t (w, l) = None) \<longrightarrow>
      (\<forall>t\<in>set ts. \<exists>x. t = IkDone x) \<or> (\<exists>i j. iron_frozen i j ts))"
proof (intro conjI impI)
  assume "iron_frozen i j ts \<and> (iron_conc X J)\<^sup>*\<^sup>* (ts, (w, l)) (us, (v, l'))"
  then have later: "iron_frozen i j us" "us ! i = ts ! i" "us ! j = ts ! j" "l' = l"
    using iron_frozen_forever [of X J ts "(w, l)" us "(v, l')" i j] by simp_all
  then show "us ! i = ts ! i" "us ! j = ts ! j" "l' = l"
    "iron_advance X J us (us ! i) (v, l') = None" "iron_advance X J us (us ! j) (v, l') = None"
    using iron_frozen_holds [OF later(1)] later(1) by (auto simp: iron_frozen_def)
next
  assume "\<forall>t\<in>set ts. iron_advance X J ts t (w, l) = None"
  then show "(\<forall>t\<in>set ts. \<exists>x. t = IkDone x) \<or> (\<exists>i j. iron_frozen i j ts)"
    using iron_stuck [of ts X J "(w, l)"] by blast
qed

theorem iron_client_deadlocks_witness:
  "(iron_conc example_transport example_json_maps)\<^sup>*\<^sup>* ([], ((), iron_locks_default)) example_iron_run \<and>
   (iron_conc example_transport example_json_maps)\<^sup>*\<^sup>* example_iron_run
     (fst example_iron_run @ [IkView], snd example_iron_run) \<and>
   fst example_iron_run ! 1 = IkMapHeld ''t'' ''t'' \<and> fst example_iron_run ! 2 = IkTokenHeld ''t'' \<and>
   iron_advance example_transport example_json_maps (fst example_iron_run @ [IkView])
     ((fst example_iron_run @ [IkView]) ! 1) (snd example_iron_run) = None \<and>
   iron_advance example_transport example_json_maps (fst example_iron_run @ [IkView])
     ((fst example_iron_run @ [IkView]) ! 2) (snd example_iron_run) = None"
proof -
  let ?ts = "fst example_iron_run" and ?l = "snd (snd example_iron_run)"
  have reach: "(iron_conc example_transport example_json_maps)\<^sup>*\<^sup>* ([], ((), iron_locks_default)) example_iron_run"
    unfolding example_iron_run_def by (rule iron_run_conc)
  have "iron_client_task ''GET'' ''/'' [] = Some IkView"
    by (simp add: iron_client_task_def)
  from iron_arrives [OF this, of example_transport example_json_maps ?ts "snd example_iron_run"]
  have arrives: "(iron_conc example_transport example_json_maps)\<^sup>*\<^sup>* example_iron_run (?ts @ [IkView], snd example_iron_run)"
    by simp
  have "iron_frozen 1 2 ?ts"
    by (simp add: example_iron_run_eq iron_frozen_def)
  with arrives have blocked:
    "iron_advance example_transport example_json_maps (?ts @ [IkView]) ((?ts @ [IkView]) ! 1) ((), ?l) = None"
    "iron_advance example_transport example_json_maps (?ts @ [IkView]) ((?ts @ [IkView]) ! 2) ((), ?l) = None"
    using iron_client_deadlocks [of 1 2 ?ts example_transport example_json_maps "()" ?l "?ts @ [IkView]" "()" ?l]
    by (simp_all add: example_iron_run_eq)
  have "?ts ! 1 = IkMapHeld ''t'' ''t''" "?ts ! 2 = IkTokenHeld ''t''"
    by (simp_all add: example_iron_run_eq)
  moreover have "snd example_iron_run = ((), ?l)"
    by (simp add: example_iron_run_eq)
  ultimately show ?thesis
    using reach arrives blocked by metis
qed

end
