(* ===== verification/Iron_Example.thy ===== *)
theory Iron_Example
  imports Guards Iron_Client
begin

text \<open>
  The iron example (\<open>oxide-auth-iron/examples/iron.rs\<close>). The state is that of \<open>Guards\<close> with a
  \<open>TokenSigner\<close> as its issuer: codes are kept in the store, tokens are signed and kept nowhere. So whether
  a token opens the page depends on the token and the key alone, whatever the server has served.
\<close>

section \<open>The server\<close>

record ('g, 'k, 'u, 'r) iron_lib =
  fe_url :: "'u url_lib"
  fe_argon2 :: argon2_lib
  fe_redis :: "'r redis_ops"
  fe_grant_codec :: "'u grant codec"
  fe_code_tagger :: "('g, 'u) tagger"
  fe_checks :: bool
  fe_crypto :: "'k crypto_lib"
  fe_order :: "string fset \<Rightarrow> string list"

record 'p iron_site =
  ir_wire :: wire_lib
  ir_form :: urlencoded
  ir_response :: "'p response_lib"
  ir_html :: string

text \<open>A request: what the binding sees of it, the decoded pairs of the query, and the clock.\<close>

record iron_call =
  iq_method :: string
  iq_path :: string
  iq_http :: iron_http
  iq_pairs :: "(string \<times> string) list"
  iq_clock :: clock

type_synonym ('g, 'k, 'u, 'r) iron_world = "'u client_map \<times> ('g, 'u) auth_map \<times> 'k token_signer \<times> 'r"
type_synonym ('g, 'k, 'u, 'r) iron_state = "('u client_map, ('g, 'u) auth_map, 'k token_signer, 'r) guarded"

definition on_iron_authorizer ::
  "(('g, 'u) auth_map \<times> 'r, 'x, 'e) action \<Rightarrow> (('g, 'k, 'u, 'r) iron_world, 'x, 'e) action" where
  "on_iron_authorizer m = (\<lambda>(c, a, i, r). case m (a, r) of (x, (a', r')) \<Rightarrow> (x, (c, a', i, r')))"

definition on_iron_issuer ::
  "('k token_signer, 'x, 'e) action \<Rightarrow> (('g, 'k, 'u, 'r) iron_world, 'x, 'e) action" where
  "on_iron_issuer m = (\<lambda>(c, a, i, r). case m i of (x, i') \<Rightarrow> (x, (c, a, i', r)))"

definition iron_registrar ::
  "('g, 'k, 'u, 'r) iron_lib \<Rightarrow> ('g, 'k, 'u, 'r) iron_world \<Rightarrow> 'u registrar" where
  "iron_registrar L = (\<lambda>(c, a, i, r). client_map_registrar (fe_url L) (fe_argon2 L) c)"

definition iron_authorizer ::
  "('g, 'k, 'u, 'r) iron_lib \<Rightarrow> (('g, 'k, 'u, 'r) iron_world, 'u) authorizer_ops" where
  "iron_authorizer L =
     (let A = auth_map_authorizer (fe_redis L) (fe_grant_codec L) (fe_code_tagger L) (fe_checks L) in
      \<lparr> az_authorize = (\<lambda>g. on_iron_authorizer (az_authorize A g)),
        az_extract = (\<lambda>c. on_iron_authorizer (az_extract A c)) \<rparr>)"

definition iron_issuer :: "('g, 'k, 'u, 'r) iron_lib \<Rightarrow> (('g, 'k, 'u, 'r) iron_world, 'u) issuer_ops" where
  "iron_issuer L =
     (let S = token_signer_issuer (fe_crypto L) (fe_url L) (fe_order L) in
      \<lparr> is_issue = (\<lambda>now g. on_iron_issuer (is_issue S now g)),
        is_refresh = (\<lambda>now t g. on_iron_issuer (is_refresh S now t g)),
        is_recover_token = (\<lambda>t. on_iron_issuer (is_recover_token S t)),
        is_recover_refresh = (\<lambda>t. on_iron_issuer (is_recover_refresh S t)) \<rparr>)"

text \<open>\<open>EndpointState::endpoint\<close>: solicitor and scopes are configured later, a response is a new one.\<close>

definition iron_generic ::
  "('g, 'k, 'u, 'r) iron_lib \<Rightarrow> 'p iron_site \<Rightarrow> (('g, 'k, 'u, 'r) iron_world, 'u, 'p, iron_error) generic" where
  "iron_generic L T =
     \<lparr> gn_registrar = opt_primitive (iron_registrar L), gn_authorizer = opt_primitive (\<lambda>w. iron_authorizer L),
       gn_issuer = opt_primitive (\<lambda>w. iron_issuer L), gn_solicitor = vacant_solicitor, gn_scopes = vacant_scopes,
       gn_response = fn_response (\<lambda>w. (hl_default (ir_response T), w)) \<rparr>"

definition iron_preconfigured ::
  "('g, 'k, 'u, 'r) iron_lib \<Rightarrow> bytes \<Rightarrow> 'g \<Rightarrow> bytes \<Rightarrow> 'r \<Rightarrow> (('g, 'k, 'u, 'r) iron_state, registrar_error) outcome" where
  "iron_preconfigured L salt code_generator rand_bytes redis =
     bind_oc (expect (url_parse (fe_url L) ''http://localhost:8021/endpoint'')) (\<lambda>url.
     bind_oc (case scope_from_str ''default-scope'' of Ok scope \<Rightarrow> Ok scope | _ \<Rightarrow> Panic) (\<lambda>scope.
     case client_map_from_iter (fe_argon2 L)
            [(salt, client_public ''LocalClient'' (Semantic url) scope)] of
       (x, registrar) \<Rightarrow> bind_oc x (\<lambda>_.
         bind_oc (case token_signer_ephemeral (fe_crypto L) rand_bytes of Ok issuer \<Rightarrow> Ok issuer | _ \<Rightarrow> Panic) (\<lambda>issuer.
         Ok (guarded_new registrar (auth_map_new code_generator) issuer redis)))))"

definition iron_consent_form ::
  "('g, 'k, 'u, 'r) iron_lib \<Rightarrow> 'p iron_site \<Rightarrow> ('w, 'u, 'p, iron_error) solicitor" where
  "iron_consent_form L T = fn_solicitor (\<lambda>request solication w.
     (let response = hl_set_header (ir_response T) ''Content-Type'' (ir_html T)
            (hl_set_status (ir_response T) 200 (hl_default (ir_response T))) in
      case consent_page_html (fe_url L) (fe_order L) ''/authorize'' solication :: (string, unit) outcome of
        Ok page \<Rightarrow> Some (InProgress (hl_set_body (ir_response T) page response))
      | _ \<Rightarrow> None, w))"

definition iron_consent_decision :: "(string \<times> string) list \<Rightarrow> ('w, 'u, 'p, iron_error) solicitor" where
  "iron_consent_decision pairs = fn_solicitor (\<lambda>request solicitation w.
     (let allowed = list_ex (\<lambda>(key, _). key = ''allow'') pairs in
      Some (if allowed then Authorized ''dummy user'' else Denied), w))"

section \<open>The routes\<close>

text \<open>An error of a flow becomes an \<open>IronError\<close> with its status.\<close>

definition iron_authorization ::
  "('g, 'k, 'u, 'r) iron_lib \<Rightarrow> 'p iron_site \<Rightarrow> (('g, 'k, 'u, 'r) iron_world, 'u, 'p, iron_error) solicitor
    \<Rightarrow> iron_call \<Rightarrow> (('g, 'k, 'u, 'r) iron_world, 'p, oauth_error \<times> nat) action" where
  "iron_authorization L T solicitor c =
     bind_ac (generic_authorization_flow (with_solicitor (iron_generic L T) solicitor)) (\<lambda>flow.
     err_ac iron_oauth_error (authorization_execute (fe_url L) (fe_order L) (ir_wire T)
       (iron_response_ops (fe_url L) (ir_response T)) flow (iron_web_request (ir_form T) (iq_http c))
       (ck_now (iq_clock c)) (ck_issue (iq_clock c)) (ck_reply (iq_clock c))))"

definition iron_authorization_get ::
  "('g, 'k, 'u, 'r) iron_lib \<Rightarrow> 'p iron_site \<Rightarrow> iron_call
    \<Rightarrow> (('g, 'k, 'u, 'r) iron_world, 'p, oauth_error \<times> nat) action" where
  "iron_authorization_get L T c = iron_authorization L T (iron_consent_form L T) c"

definition iron_authorization_post ::
  "('g, 'k, 'u, 'r) iron_lib \<Rightarrow> 'p iron_site \<Rightarrow> iron_call
    \<Rightarrow> (('g, 'k, 'u, 'r) iron_world, 'p, oauth_error \<times> nat) action" where
  "iron_authorization_post L T c = iron_authorization L T (iron_consent_decision (iq_pairs c)) c"

definition iron_token ::
  "('g, 'k, 'u, 'r) iron_lib \<Rightarrow> 'p iron_site \<Rightarrow> iron_call
    \<Rightarrow> (('g, 'k, 'u, 'r) iron_world, 'p, oauth_error \<times> nat) action" where
  "iron_token L T c =
     bind_ac (generic_access_token_flow (iron_generic L T)) (\<lambda>flow.
     err_ac iron_oauth_error (access_token_execute (fe_url L) (fe_order L) (ir_wire T)
       (iron_response_ops (fe_url L) (ir_response T)) flow (iron_web_request (ir_form T) (iq_http c))
       (ck_now (iq_clock c)) (ck_issue (iq_clock c)) (ck_reply (iq_clock c))))"

text \<open>What is answered: a response, or the text of the protected page with its status; an error with its
  status.\<close>

datatype 'p iron_reply = IrResponse 'p | IrText nat string

definition iron_protected ::
  "('g, 'k, 'u, 'r) iron_lib \<Rightarrow> 'p iron_site \<Rightarrow> iron_call
    \<Rightarrow> (('g, 'k, 'u, 'r) iron_world, 'p iron_reply, oauth_error \<times> nat) action" where
  "iron_protected L T c =
     bind_ac (lift_oc (case scope_from_str ''default-scope'' of Ok scope \<Rightarrow> Ok scope | _ \<Rightarrow> Panic)) (\<lambda>scope.
     bind_ac (generic_resource_flow (with_scopes (iron_generic L T) (slice_scopes [scope]))) (\<lambda>flow w.
     case resource_execute (fe_order L) (iron_response_ops (fe_url L) (ir_response T)) flow
            (iron_web_request (ir_form T) (iq_http c)) (ck_now (iq_clock c)) w of
       (Ok grant, w') \<Rightarrow> (Ok (IrText 200 ''Hello, world!''), w')
     | (Err (Ok response), w') \<Rightarrow>
         (Ok (IrResponse (hl_set_body (ir_response T) relative_deny_text
           (hl_set_header (ir_response T) ''Content-Type'' (ir_html T) response))), w')
     | (Err (Err error), w') \<Rightarrow> (Err (iron_oauth_error error), w')
     | (Err Panic, w') \<Rightarrow> (Panic, w')
     | (Panic, w') \<Rightarrow> (Panic, w')))"

definition iron_replies :: "('w, 'p, 'e) action \<Rightarrow> ('w, 'p iron_reply, 'e) action" where
  "iron_replies m = bind_ac m (\<lambda>response. ret (IrResponse response))"

definition iron_handler ::
  "('g, 'k, 'u, 'r) iron_lib \<Rightarrow> 'p iron_site \<Rightarrow> iron_call
    \<Rightarrow> (('g, 'k, 'u, 'r) iron_world, 'p iron_reply, oauth_error \<times> nat) action option" where
  "iron_handler L T c =
     (if iq_method c = ''GET'' \<and> iq_path c = ''/authorize'' then Some (iron_replies (iron_authorization_get L T c))
      else if iq_method c = ''POST'' \<and> iq_path c = ''/authorize''
        then Some (iron_replies (iron_authorization_post L T c))
      else if iq_method c = ''POST'' \<and> iq_path c = ''/token'' then Some (iron_replies (iron_token L T c))
      else if iq_method c = ''GET'' \<and> iq_path c = ''/'' then Some (iron_protected L T c)
      else None)"

definition iron_route ::
  "('g, 'k, 'u, 'r) iron_lib \<Rightarrow> 'p iron_site \<Rightarrow> iron_call
    \<Rightarrow> (('g, 'k, 'u, 'r) iron_state, 'p iron_reply, oauth_error \<times> nat) action option" where
  "iron_route L T c = map_option guarded_run (iron_handler L T c)"

section \<open>What the requests keep\<close>

text \<open>The key, and that no refresh tokens are signed; only the counter of the signer moves.\<close>

definition iron_signs :: "'k assertion \<Rightarrow> ('g, 'k, 'u, 'r) iron_world \<Rightarrow> bool" where
  "iron_signs key = (\<lambda>(c, a, i, r). ts_signer i = key \<and> \<not> ts_have_refresh i)"

lemma iron_parts:
  "gn_registrar (iron_generic L T) = opt_primitive (iron_registrar L)"
  "gn_authorizer (iron_generic L T) = opt_primitive (\<lambda>w. iron_authorizer L)"
  "gn_issuer (iron_generic L T) = opt_primitive (\<lambda>w. iron_issuer L)"
  "gn_response (iron_generic L T) = fn_response (\<lambda>w. (hl_default (ir_response T), w))"
  by (simp_all add: iron_generic_def)

lemma iron_flows:
  "generic_authorization_flow (with_solicitor (iron_generic L T) sol) w =
     (Ok (generic_endpoint (with_solicitor (iron_generic L T) sol)), w)"
  "generic_access_token_flow (iron_generic L T) w =
     (Ok \<lparr> atf_endpoint = generic_endpoint (iron_generic L T), atf_allow_credentials_in_body = False \<rparr>, w)"
  "generic_resource_flow (with_scopes (iron_generic L T) scopes) w =
     (Ok (generic_endpoint (with_scopes (iron_generic L T) scopes)), w)"
  by (rule generic_flows_constructed; simp add: iron_parts with_solicitor_def with_scopes_def; fail)+

lemma on_iron_authorizer_signs: "keeps (iron_signs key) (on_iron_authorizer m)"
  by (rule keepsI) (auto simp: on_iron_authorizer_def iron_signs_def split: prod.splits)

lemma on_iron_issuer_signs:
  assumes "keeps (\<lambda>i. ts_signer i = key \<and> \<not> ts_have_refresh i) m"
  shows "keeps (iron_signs key) (on_iron_issuer m)"
proof (rule keepsI)
  fix w x w'
  assume I: "iron_signs key w" and run: "on_iron_issuer m w = (x, w')"
  obtain c a i r where w: "w = (c, a, i, r)" by (metis prod.collapse)
  obtain i' where m: "m i = (x, i')" and w': "w' = (c, a, i', r)"
    using run by (auto simp: on_iron_issuer_def w split: prod.splits)
  show "iron_signs key w'"
    using keepsD [OF assms _ m] I by (simp add: iron_signs_def w w')
qed

lemma ts_issue_signs: "keeps (\<lambda>i. ts_signer i = key \<and> \<not> ts_have_refresh i) (ts_issue L U it now g)"
  by (rule keepsI)
    (auto simp: ts_issue_def Let_def unrefreshable_token_def bind_ac_def next_counter_def ret_def
      split: prod.splits outcome.splits)

lemma pred_option_True: "pred_option (\<lambda>g. True) = (\<lambda>x. True)"
  by (rule ext) (auto simp: option.pred_set)

lemma iron_grant_keeper:
  "grant_keeper (iron_signs key) (\<lambda>g. True) (iron_authorizer L) (iron_issuer L)"
proof
  note ops = iron_authorizer_def iron_issuer_def Let_def token_signer_issuer_def authorizer_ops.simps issuer_ops.simps
  have read: "keeps (\<lambda>i. ts_signer i = key \<and> \<not> ts_have_refresh i) m" if "\<And>i. snd (m i) = i" for m
    using that by (simp add: keeps_def)
  have true: "ensures I m (pred_option (\<lambda>g. True))" if "keeps I m" for I m
    using that by (simp add: pred_option_True ensures_True)
  show "grant_closed (\<lambda>g. True)" by (simp add: grant_closed_def)
  show "keeps (iron_signs key) (az_authorize (iron_authorizer L) g)" for g
    unfolding ops by (rule on_iron_authorizer_signs)
  show "ensures (iron_signs key) (az_extract (iron_authorizer L) c) (pred_option (\<lambda>g. True))" for c
    unfolding ops by (intro true on_iron_authorizer_signs)
  show "keeps (iron_signs key) (is_issue (iron_issuer L) now g)" for now g
    unfolding ops by (intro on_iron_issuer_signs ts_issue_signs)
  show "keeps (iron_signs key) (is_refresh (iron_issuer L) now t g)" for now t g
    unfolding ops by (intro on_iron_issuer_signs read) (simp add: ts_refresh_def fail_def)
  show "ensures (iron_signs key) (is_recover_token (iron_issuer L) t) (pred_option (\<lambda>g. True))" for t
    unfolding ops by (intro true on_iron_issuer_signs read) (simp add: ts_recover_token_def)
  show "ensures (iron_signs key) (is_recover_refresh (iron_issuer L) t) (pred_option (\<lambda>g. True))" for t
    unfolding ops by (intro true on_iron_issuer_signs read) (simp add: ts_recover_refresh_def)
qed

lemma iron_keeper:
  assumes "gn_authorizer G = gn_authorizer (iron_generic L T)" and "gn_issuer G = gn_issuer (iron_generic L T)"
    and "gn_response G = gn_response (iron_generic L T)"
  shows "keeper_endpoint (iron_signs key) (\<lambda>g. True) (iron_authorizer L) (iron_issuer L) (generic_endpoint G)"
proof (intro keeper_endpoint.intro iron_grant_keeper keeper_endpoint_axioms.intro)
  show "calm_endpoint I (generic_endpoint G)" for I
    by unfold_locales (simp_all add: generic_endpoint_def assms(3) iron_parts fn_response_def keeps_def)
qed (simp_all add: generic_endpoint_def assms(1,2) iron_parts)

lemma iron_authorization_signs:
  assumes reads: "\<And>q sl w x w'. sol q sl w = (x, w') \<Longrightarrow> w' = w"
  shows "keeps (iron_signs key) (iron_authorization L T sol c)"
proof -
  let ?E = "generic_endpoint (with_solicitor (iron_generic L T) sol)"
  have "keeper_endpoint (iron_signs key) (\<lambda>g. True) (iron_authorizer L) (iron_issuer L) ?E"
    by (rule iron_keeper [where T = T]) (simp_all add: with_solicitor_def)
  from keeper_endpoint.authorization_flow_keeps [OF this]
  have "keeps (iron_signs key) (authorization_execute (fe_url L) (fe_order L) (ir_wire T)
      (iron_response_ops (fe_url L) (ir_response T)) ?E (iron_web_request (ir_form T) (iq_http c))
      (ck_now (iq_clock c)) (ck_issue (iq_clock c)) (ck_reply (iq_clock c)))"
    using reads by (fastforce simp: generic_endpoint_def with_solicitor_def)
  then show ?thesis
    unfolding iron_authorization_def
    by (intro keepsI) (auto simp: bind_ac_def iron_flows dest: keepsD [OF keeps_err])
qed

lemma iron_token_signs: "keeps (iron_signs key) (iron_token L T c)"
proof -
  have keeper: "keeper_endpoint (iron_signs key) (\<lambda>g. True) (iron_authorizer L) (iron_issuer L)
      (generic_endpoint (iron_generic L T))"
    by (rule iron_keeper [where T = T]) simp_all
  show ?thesis
    unfolding iron_token_def
    by (intro keepsI) (auto simp: bind_ac_def iron_flows
        dest: keepsD [OF keeps_err [OF keeper_endpoint.token_flow_keeps [OF keeper]]])
qed

abbreviation iron_page_endpoint where
  "iron_page_endpoint L T \<equiv> generic_endpoint (with_scopes (iron_generic L T) (slice_scopes [default_scope]))"

lemma iron_protected_run:
  "iron_protected L T c w =
     (case resource_execute (fe_order L) (iron_response_ops (fe_url L) (ir_response T)) (iron_page_endpoint L T)
            (iron_web_request (ir_form T) (iq_http c)) (ck_now (iq_clock c)) w of
        (Ok grant, w') \<Rightarrow> (Ok (IrText 200 ''Hello, world!''), w')
      | (Err (Ok response), w') \<Rightarrow>
          (Ok (IrResponse (hl_set_body (ir_response T) relative_deny_text
            (hl_set_header (ir_response T) ''Content-Type'' (ir_html T) response))), w')
      | (Err (Err error), w') \<Rightarrow> (Err (iron_oauth_error error), w')
      | (Err Panic, w') \<Rightarrow> (Panic, w')
      | (Panic, w') \<Rightarrow> (Panic, w'))"
  by (simp add: iron_protected_def default_scope_parses bind_ac_def iron_flows)

lemma iron_protected_signs: "keeps (iron_signs key) (iron_protected L T c)"
proof -
  have "keeper_endpoint (iron_signs key) (\<lambda>g. True) (iron_authorizer L) (iron_issuer L) (iron_page_endpoint L T)"
    by (rule iron_keeper [where T = T]) (simp_all add: with_scopes_def)
  then have "ensures (iron_signs key) (resource_execute (fe_order L) (iron_response_ops (fe_url L) (ir_response T))
      (iron_page_endpoint L T) q now) (\<lambda>g. True)" for q now
    by (rule keeper_endpoint.resource_flow_ensures) (auto simp: generic_endpoint_def with_scopes_def slice_scopes_def)
  then show ?thesis
    by (intro keepsI) (auto simp: iron_protected_run split: prod.splits outcome.splits dest: keepsD [OF ensures_keeps])
qed

lemma iron_handler_signs:
  assumes "iron_handler L T c = Some act"
  shows "keeps (iron_signs key) act"
proof -
  have replies: "keeps (iron_signs key) (iron_replies m)" if "keeps (iron_signs key) m"
    for m :: "(_, _, oauth_error \<times> nat) action"
    unfolding iron_replies_def by (intro keeps_bind that keeps_ret)
  have form: "keeps (iron_signs key) (iron_authorization_get L T c)"
    unfolding iron_authorization_get_def
    by (rule iron_authorization_signs) (auto simp: iron_consent_form_def fn_solicitor_def Let_def)
  have decision: "keeps (iron_signs key) (iron_authorization_post L T c)"
    unfolding iron_authorization_post_def
    by (rule iron_authorization_signs) (auto simp: iron_consent_decision_def fn_solicitor_def Let_def)
  show ?thesis
    using assms replies [OF form] replies [OF decision] replies [OF iron_token_signs] iron_protected_signs
    by (auto simp: iron_handler_def split: if_splits)
qed

section \<open>The page\<close>

text \<open>What a token stands for under a key.\<close>

definition iron_grant_of :: "('g, 'k, 'u, 'r) iron_lib \<Rightarrow> 'k assertion \<Rightarrow> string \<rightharpoonup> 'u grant" where
  "iron_grant_of L key token =
     (case tagged_extract (fe_crypto L) (fe_url L) (fe_order L) (assertion_tag key ''token'') token of
        Ok gr \<Rightarrow> Some gr | _ \<Rightarrow> None)"

lemma iron_recover:
  assumes "iron_signs key w"
  shows "is_recover_token (iron_issuer L) token w = (Ok (Some gr), w') \<longleftrightarrow>
    iron_grant_of L key token = Some gr \<and> w' = w"
  using assms
  by (cases w; cases "tagged_extract (fe_crypto L) (fe_url L) (fe_order L) (assertion_tag key ''token'') token")
    (auto simp: iron_issuer_def Let_def token_signer_issuer_def on_iron_issuer_def ts_recover_token_def ok_option_def
      ts_as_token_def iron_signs_def iron_grant_of_def)

lemma iron_protect_iff:
  assumes "iron_signs key w" and "wrapped_resource_request q = \<lparr> rq_valid = True, rq_token = auth \<rparr>"
  shows "protect (scoped_resource (iron_page_endpoint L T) q) (wrapped_resource_request q) now w = (Ok gr, w') \<longleftrightarrow>
    (\<exists>token. auth = Some (''Bearer '' @ token) \<and> iron_grant_of L key token = Some gr \<and>
      now \<le> g_until gr \<and> tokens (g_scope gr) |\<subseteq>| tokens default_scope \<and> w' = w)"
proof -
  have E: "re_issuer (scoped_resource (iron_page_endpoint L T) q) = iron_issuer L"
    "re_scopes (scoped_resource (iron_page_endpoint L T) q) v = (Some [default_scope], v)" for v
    by (simp_all add: scoped_resource_def generic_endpoint_def with_scopes_def slice_scopes_def iron_parts
        opt_primitive_def)
  obtain c a i r where w: "w = (c, a, i, r)" by (metis prod.collapse)
  show ?thesis
    unfolding protect_guard guard_resource_def assms(2) w
    by (auto simp: bind_ac_Ok_iff bearer_token_of_Ok resource_recovered_Ok determine_scopes_def E
        iron_recover [OF assms(1) [unfolded w]])
qed

lemma iron_page_iff:
  assumes "iron_signs key w"
  shows "fst (iron_protected L T c w) = Ok (IrText 200 ''Hello, world!'') \<longleftrightarrow>
    (\<exists>token gr. ih_authorization (iq_http c) = Some (''Bearer '' @ token) \<and> iron_grant_of L key token = Some gr \<and>
      ck_now (iq_clock c) \<le> g_until gr \<and> tokens (g_scope gr) |\<subseteq>| tokens default_scope)"
proof -
  let ?q = "iron_web_request (ir_form T) (iq_http c)"
  have "wrapped_resource_request ?q = \<lparr> rq_valid = True, rq_token = ih_authorization (iq_http c) \<rparr>"
    by (simp add: wrapped_resource_request_def iron_web_request_def iron_authorization_header_def)
  note iff = iron_protect_iff [OF assms this, of L T "ck_now (iq_clock c)"]
  have "fst (iron_protected L T c w) = Ok (IrText 200 ''Hello, world!'') \<longleftrightarrow>
      (\<exists>gr w'. protect (scoped_resource (iron_page_endpoint L T) ?q) (wrapped_resource_request ?q)
        (ck_now (iq_clock c)) w = (Ok gr, w'))"
    by (auto simp: iron_protected_run resource_execute_def split: prod.splits outcome.splits)
  then show ?thesis unfolding iff by blast
qed

section \<open>Histories\<close>

inductive iron_serves ::
  "('g, 'k, 'u, 'r) iron_lib \<Rightarrow> 'p iron_site \<Rightarrow> ('g, 'k, 'u, 'r) iron_state
    \<Rightarrow> (iron_call \<times> ('p iron_reply, oauth_error \<times> nat) outcome) list \<Rightarrow> ('g, 'k, 'u, 'r) iron_state \<Rightarrow> bool"
  for L T g where
  iron_serves_start: "iron_serves L T g [] g"
| iron_serves_call: "iron_serves L T g cs v \<Longrightarrow> iron_route L T c = Some m \<Longrightarrow> m v = (x, v') \<Longrightarrow>
     iron_serves L T g ((c, x) # cs) v'"

lemma iron_serves_keeps:
  "iron_serves L T g cs g' \<Longrightarrow> iron_signs key (guarded_values g) \<Longrightarrow> guards_agree g \<Longrightarrow>
     iron_signs key (guarded_values g') \<and> guards_agree g'"
proof (induction rule: iron_serves.induct)
  case (iron_serves_call cs v c m x v')
  obtain act where act: "iron_handler L T c = Some act" "m = guarded_run act"
    using iron_serves_call.hyps(2) by (auto simp: iron_route_def)
  show ?case
    using guarded_run_keeps [OF iron_handler_signs [OF act(1)] iron_serves_call.hyps(3) [unfolded act(2)]]
      guarded_run_agrees(1) [OF iron_serves_call.hyps(3) [unfolded act(2)]] iron_serves_call.IH iron_serves_call.prems
    by blast
qed simp

lemma iron_preconfigured_parts:
  assumes "iron_preconfigured L salt cg rand_bytes redis = Ok g"
  shows "\<exists>hasher. cr_new_varkey (fe_crypto L) rand_bytes = Some hasher \<and>
    iron_signs \<lparr> as_hasher = hasher \<rparr> (guarded_values g) \<and> guards_agree g"
proof -
  obtain hasher clients where h: "cr_new_varkey (fe_crypto L) rand_bytes = Some hasher"
    and g: "g = guarded_new clients (auth_map_new cg) (token_signer_new \<lparr> as_hasher = hasher \<rparr>) redis"
    using assms
    by (auto simp: iron_preconfigured_def default_scope_parses client_map_from_iter_def register_client_def
        client_encode_def client_public_def bind_ac_def client_map_new_def token_signer_ephemeral_def
        assertion_ephemeral_def bind_oc_Ok_iff split: outcome.splits)
  show ?thesis
    using h unfolding g by (auto simp: guarded_new_up iron_signs_def token_signer_new_def)
qed

section \<open>An example\<close>

definition example_iron_lib :: "(unit, bytes, string, mem_redis) iron_lib" where
  "example_iron_lib =
     \<lparr> fe_url = url_identity, fe_argon2 = spell_argon2, fe_redis = mem_ops, fe_grant_codec = grant_codec,
       fe_code_tagger = unary_tagger, fe_checks = True, fe_crypto = plain_crypto, fe_order = example_order \<rparr>"

definition example_iron_site :: "reply_view iron_site" where
  "example_iron_site = \<lparr> ir_wire = example_wire, ir_form = quoted_form, ir_response = plain_response_lib,
     ir_html = ''text/html; charset=utf-8'' \<rparr>"

definition iron_example_call ::
  "string \<Rightarrow> string \<Rightarrow> string list \<Rightarrow> (string \<times> string) list \<Rightarrow> string list \<Rightarrow> string option \<Rightarrow> iron_call" where
  "iron_example_call verb path query pairs form auth = \<lparr> iq_method = verb, iq_path = path,
     iq_http = \<lparr> ih_query = Some (quote_list query), ih_content_type_form = Some True, ih_authorization = auth,
       ih_body = Some (quote_list form) \<rparr>,
     iq_pairs = pairs, iq_clock = example_clock \<rparr>"

definition iron_consent_call :: iron_call where
  "iron_consent_call = iron_example_call ''POST'' ''/authorize''
     [''response_type'', ''code'', ''client_id'', ''LocalClient'', ''allow'', ''true'']
     [(''response_type'', ''code''), (''client_id'', ''LocalClient''), (''allow'', ''true'')] [] None"

definition iron_redeem_call :: "string \<Rightarrow> iron_call" where
  "iron_redeem_call code = iron_example_call ''POST'' ''/token'' [] []
     [''grant_type'', ''authorization_code'', ''code'', code, ''client_id'', ''LocalClient'',
      ''redirect_uri'', ''http://localhost:8021/endpoint''] None"

definition iron_page_call :: "string \<Rightarrow> iron_call" where
  "iron_page_call token = iron_example_call ''GET'' ''/'' [] [] [] (Some (''Bearer '' @ token))"

definition iron_clients :: "string client_map" where
  "iron_clients = \<lparr> cm_clients = [''LocalClient'' \<mapsto>
      \<lparr> ec_client_id = ''LocalClient'', ec_redirect_uri = Semantic ''http://localhost:8021/endpoint'',
        ec_additional_redirect_uris = [], ec_default_scope = default_scope,
        ec_encoded_client = PublicClient \<rparr>], cm_password_policy = None \<rparr>"

definition iron_start :: "(unit, bytes, string, mem_redis) iron_state" where
  "iron_start = guarded_new iron_clients (auth_map_new ()) (token_signer_new \<lparr> as_hasher = [7] \<rparr>) mem_empty"

lemma iron_example_preconfigured: "iron_preconfigured example_iron_lib [] () [7] mem_empty = Ok iron_start"
  by (simp add: iron_preconfigured_def default_scope_parses client_map_from_iter_def register_client_def
      client_encode_def client_public_def bind_ac_def client_map_new_def iron_start_def iron_clients_def
      url_identity_def example_iron_lib_def token_signer_ephemeral_def assertion_ephemeral_def plain_crypto_def)

lemmas iron_call_defs = iron_consent_call_def iron_redeem_call_def iron_page_call_def iron_example_call_def
  example_clock_def

lemma iron_call_parts:
  "iq_method iron_consent_call = ''POST''" "iq_path iron_consent_call = ''/authorize''"
  "list_ex (\<lambda>(key, _). key = ''allow'') (iq_pairs iron_consent_call)"
  "iq_method (iron_redeem_call code) = ''POST''" "iq_path (iron_redeem_call code) = ''/token''"
  "iq_method (iron_page_call token) = ''GET''" "iq_path (iron_page_call token) = ''/''"
  "ih_authorization (iq_http (iron_page_call token)) = Some (''Bearer '' @ token)"
  "iq_clock iron_consent_call = example_clock" "iq_clock (iron_redeem_call code) = example_clock"
  "iq_clock (iron_page_call token) = example_clock" "ck_now example_clock = 5" "ck_issue example_clock = 5"
  by (simp_all add: iron_call_defs)

lemmas iron_form_simps = iron_call_defs quoted_form_def iron_web_request_def iron_query_string_def
  iron_is_form_url_encoded_def iron_authorization_header_def urlencoded_from_str_def urlencoded_from_reader_def
  np_deserialize_def np_new_def insert_or_poison_def np_unique_value_def np_query_def

lemma iron_consent_request:
  "wrapped_auth_request (iron_web_request quoted_form (iq_http iron_consent_call)) = q \<Longrightarrow>
     aur_valid q \<and> aur_client_id q = Some ''LocalClient'' \<and> aur_redirect_uri q = None \<and> aur_scope q = None \<and>
     aur_response_type q = Some ''code''"
  by (auto simp: iron_form_simps wrapped_auth_request_def wrapped_query_request_def)

lemma iron_redeem_request:
  "at_check_params url_identity (wrapped_token_request W
     (iron_web_request quoted_form (iq_http (iron_redeem_call code))) False)
   = (Ok (''LocalClient'', None, code, ''http://localhost:8021/endpoint'') :: (_, string at_error) outcome)"
  by (simp add: iron_form_simps wrapped_token_request_def token_request_parts_def
      at_check_params_def at_params_def at_credentials_def wrapped_body_request_def cred_unauthenticated_def cred_add_def
      url_identity_def)

lemma iron_route_runs:
  assumes "iron_handler L T c = Some act" and "act (guarded_values g) = (Ok reply, w)"
    and "guards_agree g" and "\<not> guards_down g"
  shows "\<exists>m g'. iron_route L T c = Some m \<and> m g = (Ok reply, g') \<and> guarded_values g' = w \<and>
    guards_agree g' \<and> \<not> guards_down g'"
proof -
  obtain g' where run: "guarded_run act g = (Ok reply, g')" "guarded_values g' = w"
    using guarded_run_up [where m = act, OF assms(3,4,2)] by blast
  then show ?thesis
    using guarded_run_agrees(1,2) [OF run(1) assms(3)] assms(1) by (auto simp: iron_route_def)
qed

text \<open>The signer of the example signs every grant without private extensions.\<close>

lemma iron_signs_token:
  fixes g :: "string grant"
  assumes "signable url_identity g" and "g_extensions g = extensions_new" and "\<not> ts_have_refresh i" and "ts_duration i = None"
  shows "\<exists>t h i'. ts_issue plain_crypto url_identity example_order now g i = (Ok t, i') \<and>
    tagged_extract plain_crypto url_identity example_order (assertion_tag (ts_signer i) ''token'') (it_token t) = Ok h \<and>
    g_scope h = g_scope g \<and> g_until g < g_until h + seconds 1"
proof -
  have "sa_try_from example_order g \<noteq> Err () \<and> sa_try_from example_order g \<noteq> Panic"
    using assms(2) by (simp add: sa_try_from_def extensions_new_def) code_simp
  then obtain sa where sa: "sa_try_from example_order g = Ok sa"
    by (cases "sa_try_from example_order g") auto
  obtain token where token: "tagged_sign plain_crypto url_identity example_order (ts_as_token i) (ts_counter i) g = Ok token"
    by (simp add: ts_as_token_def assertion_tag_def generate_tagged_def sa plain_crypto_def)
  let ?t = "without_refresh token (g_until g)" and ?i = "i\<lparr> ts_counter := ts_counter i + 1 \<rparr>"
  have issue: "ts_issue plain_crypto url_identity example_order now g i = (Ok ?t, ?i)"
    using token assms(3,4)
    by (simp add: ts_issue_def unrefreshable_token_def bind_ac_def next_counter_def ts_as_token_def)
  obtain h where "fst (ts_recover_token plain_crypto url_identity example_order (it_token ?t) ?i) = Ok (Some h)"
    "token_for g (it_until ?t) (Some h)"
    using signer_issue_recover [OF plain_crypto_ok example_order_ok assms(1) issue] by blast
  then show ?thesis
    using issue by (auto simp: ts_recover_token_def ok_option_def ts_as_token_def token_for_def without_refresh_def
        split: outcome.splits)
qed

text \<open>The owner consents and the code is redeemed: the signed token opens the page.\<close>

lemma iron_primitives:
  fixes g :: "string grant"
  assumes "signable url_identity g"
  shows "\<exists>c t s1 s2 s3 gr.
    az_authorize (iron_authorizer example_iron_lib) g (guarded_values iron_start) = (Ok c, s1) \<and>
    az_extract (iron_authorizer example_iron_lib) c s1 = (Ok (Some g), s2) \<and>
    is_issue (iron_issuer example_iron_lib) 5 (g\<lparr> g_extensions := extensions_new \<rparr>) s2 = (Ok t, s3) \<and>
    iron_grant_of example_iron_lib \<lparr> as_hasher = [7] \<rparr> (it_token t) = Some gr \<and>
    g_scope gr = g_scope g \<and> g_until g < g_until gr + seconds 1 \<and> fst s1 = iron_clients"
proof -
  let ?L = example_iron_lib and ?m = "auth_map_new () :: (unit, string) auth_map" and ?i = "token_signer_new \<lparr> as_hasher = [7 :: 8 word] \<rparr>"
  let ?a = "?m\<lparr> am_tagger := () \<rparr>"
  have s: "guarded_values iron_start = (iron_clients, ?m, ?i, mem_empty)"
    by (simp add: iron_start_def guarded_new_up(3))
  have empty: "mem_healthy mem_empty" "mr_num mem_empty k = None" "mr_hash mem_empty k f = None" for k f
    by (simp_all add: mem_healthy_def) (simp_all add: mem_empty_def)
  have tag: "unary_tagger 0 g () = (Ok ''t'', ())"
    by (simp add: unary_tagger_def)
  obtain v r where 1: "authorize mem_ops grant_codec unary_tagger True g (?m, mem_empty)
      = (Ok ''t'', (?a, r))" "mem_healthy r"
    "mr_hash r = hash_upd (mr_hash mem_empty) ''oauth2:authmap'' ''t'' (Some v)" "dec grant_codec v = Some g"
    by (rule redis_store.authorize_up [OF mem_redis_store empty(1) grant_codec_ok refl _ _ empty(3), where tag = unary_tagger
          and m = "?m" and checks = True and g = g and c = "''t''"]) (simp_all add: empty(2) tag)
  obtain r2 where 2: "extract_code mem_ops grant_codec ''t'' (?a, r)
      = (Ok (Some g), (?a, r2))"
    by (rule redis_store.extract_up [OF mem_redis_store 1(2) _ 1(4), of "''t''"]) (simp_all add: 1(3) hash_upd_def)
  let ?g = "g\<lparr> g_extensions := extensions_new \<rparr>"
  have "signable url_identity ?g" "g_extensions ?g = extensions_new" "\<not> ts_have_refresh ?i" "ts_duration ?i = None"
    using assms by (simp_all add: signable_def token_signer_new_def)
  from iron_signs_token [OF this] obtain t h i' where 3: "ts_issue plain_crypto url_identity example_order 5 ?g ?i = (Ok t, i')"
    "tagged_extract plain_crypto url_identity example_order (assertion_tag (ts_signer ?i) ''token'') (it_token t) = Ok h"
    "g_scope h = g_scope g" "g_until g < g_until h + seconds 1" by (simp, blast)
  note ops = iron_authorizer_def iron_issuer_def auth_map_authorizer_def token_signer_issuer_def on_iron_authorizer_def
    on_iron_issuer_def example_iron_lib_def Let_def
  have "az_authorize (iron_authorizer ?L) g (guarded_values iron_start)
      = (Ok ''t'', (iron_clients, ?a, ?i, r))"
    using 1(1) by (simp add: s ops)
  moreover have "az_extract (iron_authorizer ?L) ''t'' (iron_clients, ?a, ?i, r)
      = (Ok (Some g), (iron_clients, ?a, ?i, r2))"
    using 2 by (simp add: ops)
  moreover have "is_issue (iron_issuer ?L) 5 ?g (iron_clients, ?a, ?i, r2)
      = (Ok t, (iron_clients, ?a, i', r2))"
    using 3(1) by (simp add: ops)
  moreover have "iron_grant_of ?L \<lparr> as_hasher = [7] \<rparr> (it_token t) = Some h"
    using 3(2) by (simp add: iron_grant_of_def example_iron_lib_def token_signer_new_def)
  moreover have "fst (iron_clients, ?a, ?i, r) = iron_clients" by simp
  ultimately show ?thesis using 3(3,4) by blast
qed

abbreviation iron_example_handler where
  "iron_example_handler \<equiv> iron_handler example_iron_lib example_iron_site"

lemma iron_example_parts:
  "fe_url example_iron_lib = url_identity" "fe_order example_iron_lib = example_order"
  "ir_wire example_iron_site = example_wire" "ir_form example_iron_site = quoted_form"
  "ir_response example_iron_site = plain_response_lib" "fe_argon2 example_iron_lib = spell_argon2"
  "guarded_values iron_start = (iron_clients, auth_map_new (), token_signer_new \<lparr> as_hasher = [7] \<rparr>, mem_empty)"
  by (simp_all add: example_iron_site_def example_iron_lib_def iron_start_def guarded_new_up(3))

lemma iron_endpoint_parts:
  "ep_registrar (generic_endpoint (with_solicitor (iron_generic L T) sol)) = opt_primitive (iron_registrar L)"
  "ep_authorizer (generic_endpoint (with_solicitor (iron_generic L T) sol)) = opt_primitive (\<lambda>w. iron_authorizer L)"
  "ep_issuer (generic_endpoint (with_solicitor (iron_generic L T) sol)) = opt_primitive (\<lambda>w. iron_issuer L)"
  "ep_extension (generic_endpoint (with_solicitor (iron_generic L T) sol)) = (\<lambda>w. None)"
  "ep_response (generic_endpoint (with_solicitor (iron_generic L T) sol)) r k w =
     (Ok (hl_default (ir_response T), k), w)"
  "gn_solicitor (with_solicitor (iron_generic L T) sol) = sol"
  "ep_registrar (generic_endpoint (iron_generic L T)) = opt_primitive (iron_registrar L)"
  "ep_authorizer (generic_endpoint (iron_generic L T)) = opt_primitive (\<lambda>w. iron_authorizer L)"
  "ep_issuer (generic_endpoint (iron_generic L T)) = opt_primitive (\<lambda>w. iron_issuer L)"
  "ep_extension (generic_endpoint (iron_generic L T)) = (\<lambda>w. None)"
  "ep_response (generic_endpoint (iron_generic L T)) r k w = (Ok (hl_default (ir_response T), k), w)"
  by (simp_all add: generic_endpoint_def with_solicitor_def iron_parts fn_response_def)

text \<open>The grant that the owner of the example authorizes.\<close>

definition iron_example_pending :: "string option \<Rightarrow> string pending" where
  "iron_example_pending state = \<lparr> pd_pre_grant = \<lparr> pg_client_id = ''LocalClient'',
     pg_redirect_uri = Semantic ''http://localhost:8021/endpoint'', pg_scope = default_scope \<rparr>, pd_state = state,
     pd_extensions = extensions_new \<rparr>"

definition iron_example_grant :: "string grant" where
  "iron_example_grant = consented_grant ''dummy user''
     (iron_example_pending (aur_state (wrapped_auth_request (iron_web_request quoted_form (iq_http iron_consent_call)))))
     ''http://localhost:8021/endpoint'' 5"

lemma iron_example_grant:
  "g_client_id iron_example_grant = ''LocalClient''" "g_redirect_uri iron_example_grant = ''http://localhost:8021/endpoint''"
  "5 + seconds 1 \<le> g_until iron_example_grant" "g_scope iron_example_grant = default_scope"
  "signable url_identity iron_example_grant"
proof -
  show "g_client_id iron_example_grant = ''LocalClient''"
    "g_redirect_uri iron_example_grant = ''http://localhost:8021/endpoint''"
    "5 + seconds 1 \<le> g_until iron_example_grant" and scope: "g_scope iron_example_grant = default_scope"
    by (simp_all add: iron_example_grant_def consented_grant_def iron_example_pending_def days_def seconds_def)
  show "signable url_identity iron_example_grant"
    by (simp add: signable_def scope url_ok_def url_identity_def default_scope_def) code_simp
qed

lemma iron_consent_runs:
  assumes "az_authorize (iron_authorizer example_iron_lib) iron_example_grant (guarded_values iron_start) = (Ok c, s1)"
  shows "\<exists>act r1. iron_example_handler iron_consent_call = Some act \<and>
    act (guarded_values iron_start) = (Ok (IrResponse r1), s1)"
proof -
  let ?sol = "iron_consent_decision (iq_pairs iron_consent_call)" and ?s = "guarded_values iron_start"
  let ?E = "generic_endpoint (with_solicitor (iron_generic example_iron_lib example_iron_site) ?sol)"
  let ?uri = "''http://localhost:8021/endpoint''"
  define q where "q = wrapped_auth_request (iron_web_request quoted_form (iq_http iron_consent_call))"
  note asks = iron_consent_request [OF q_def [symmetric]]
  have answer: "?sol r sl w = (Some (Authorized ''dummy user''), w)" for r sl w
    by (simp add: iron_consent_decision_def fn_solicitor_def iron_call_parts)
  have asked: "authorization_code url_identity (wrapped_authorization ?E) q ?s
      = (Ok (iron_example_pending (aur_state q)), ?s)"
    unfolding iron_example_pending_def
    by (subst default_code_request [where client = "''LocalClient''" and U' = url_identity and A = spell_argon2
          and m = iron_clients and url = ?uri
          and c = "\<lparr> ec_client_id = ''LocalClient'', ec_redirect_uri = Semantic ?uri,
            ec_additional_redirect_uris = [], ec_default_scope = default_scope, ec_encoded_client = PublicClient \<rparr>"])
      (simp_all add: asks endpoint_parts [OF iron_endpoint_parts(1-4)] iron_registrar_def iron_example_parts iron_clients_def)
  obtain url where consent: "pending_authorize url_identity (wrapped_authorization ?E) 5 ''dummy user''
      (iron_example_pending (aur_state q)) ?s = (Ok url, s1)"
    using consent_over [where E = "wrapped_authorization ?E" and U = url_identity and uri = ?uri
        and p = "iron_example_pending (aur_state q)"] assms
    by (simp add: endpoint_parts [OF iron_endpoint_parts(1-4)] iron_example_grant_def q_def registered_to_url_def)
      (simp add: iron_example_pending_def registered_to_url_def)
  show ?thesis
    using asked consent asks
    by (simp add: iron_handler_def iron_call_parts iron_replies_def bind_ac_def ret_def iron_flows iron_example_parts(1-5)
        err_ac_def web_result_def Let_def iron_authorization_post_def iron_authorization_def authorization_execute_def
        q_def [symmetric] pending_finish_def iron_endpoint_parts answer convert_result_def iron_response_ops_def)
qed

lemma iron_redeem_runs:
  assumes "az_extract (iron_authorizer example_iron_lib) c s1 = (Ok (Some iron_example_grant), s2)"
    and "is_issue (iron_issuer example_iron_lib) 5 (iron_example_grant\<lparr> g_extensions := extensions_new \<rparr>) s2 = (Ok t, s3)"
    and "fst s1 = iron_clients"
  shows "\<exists>act r2. iron_example_handler (iron_redeem_call c) = Some act \<and> act s1 = (Ok (IrResponse r2), s3)"
proof -
  let ?E = "generic_endpoint (iron_generic example_iron_lib example_iron_site)"
  have "access_token url_identity example_order (wrapped_token ?E)
      (wrapped_token_request example_wire (iron_web_request quoted_form (iq_http (iron_redeem_call c))) False) 5 5 s1
      = (Ok (BearerToken t (scope_to_string example_order (g_scope iron_example_grant))), s3)"
    by (rule redeem_over [where R = "iron_registrar example_iron_lib", OF _ _ _ _ iron_redeem_request _ assms(1) _ _ _ assms(2)])
      (use iron_example_grant(3) assms(3) in \<open>auto simp: endpoint_parts [OF iron_endpoint_parts(7-10)] iron_example_grant(1,2)
        iron_registrar_def client_map_registrar_def cm_check_def check_authentication_def iron_clients_def seconds_def
        split: prod.splits\<close>)
  then show ?thesis
    by (simp add: iron_handler_def iron_call_parts iron_replies_def bind_ac_def ret_def iron_flows iron_example_parts(1-5)
        err_ac_def web_result_def iron_token_def access_token_execute_def iron_endpoint_parts iron_response_ops_def)
qed

lemma iron_login:
  "\<exists>c (t :: issued_token) gr x1 x2 g2.
    iron_serves example_iron_lib example_iron_site iron_start [(iron_redeem_call c, x2), (iron_consent_call, x1)] g2 \<and>
    \<not> guards_down g2 \<and> iron_grant_of example_iron_lib \<lparr> as_hasher = [7] \<rparr> (it_token t) = Some gr \<and>
    5 \<le> g_until gr \<and> g_scope gr = default_scope"
proof -
  let ?L = example_iron_lib and ?T = example_iron_site and ?s = "guarded_values iron_start"
  from iron_primitives [OF iron_example_grant(5)] obtain c t s1 s2 s3 h where
    prims: "az_authorize (iron_authorizer ?L) iron_example_grant ?s = (Ok c, s1)"
      "az_extract (iron_authorizer ?L) c s1 = (Ok (Some iron_example_grant), s2)"
      "is_issue (iron_issuer ?L) 5 (iron_example_grant\<lparr> g_extensions := extensions_new \<rparr>) s2 = (Ok t, s3)"
      "fst s1 = iron_clients"
    and h: "iron_grant_of ?L \<lparr> as_hasher = [7] \<rparr> (it_token t) = Some h" "g_scope h = g_scope iron_example_grant"
      "g_until iron_example_grant < g_until h + seconds 1"
    by blast
  obtain act1 r1 where act1: "iron_handler ?L ?T iron_consent_call = Some act1" "act1 ?s = (Ok (IrResponse r1), s1)"
    using iron_consent_runs [OF prims(1)] by blast
  have up: "guards_agree iron_start" "\<not> guards_down iron_start"
    by (simp_all add: iron_start_def guarded_new_up(1,2))
  obtain m1 g1 where g1: "iron_route ?L ?T iron_consent_call = Some m1" "m1 iron_start = (Ok (IrResponse r1), g1)"
    "guarded_values g1 = s1" "guards_agree g1" "\<not> guards_down g1"
    using iron_route_runs [OF act1 up] by blast
  obtain act2 r2 where act2: "iron_handler ?L ?T (iron_redeem_call c) = Some act2"
    "act2 (guarded_values g1) = (Ok (IrResponse r2), s3)"
    using iron_redeem_runs [OF prims(2-4)] g1(3) by blast
  obtain m2 g2 where g2: "iron_route ?L ?T (iron_redeem_call c) = Some m2" "m2 g1 = (Ok (IrResponse r2), g2)"
    "\<not> guards_down g2"
    using iron_route_runs [OF act2 g1(4,5)] by blast
  have "iron_serves ?L ?T iron_start [(iron_redeem_call c, Ok (IrResponse r2)), (iron_consent_call, Ok (IrResponse r1))] g2"
    by (intro iron_serves_call [OF iron_serves_call [OF iron_serves_start g1(1,2)] g2(1,2)])
  moreover have "5 \<le> g_until h" "g_scope h = default_scope"
    using h(2,3) iron_example_grant(3,4) by simp_all
  ultimately show ?thesis
    using g2(3) h(1) by blast
qed

section \<open>Properties\<close>

text \<open>
  C33: access at the iron server. Whatever requests it has served since it was started, unless one of them
  has poisoned its locks: the page is shown if and only if the bearer token is one that the key of the
  server signs for an unexpired grant within the scope. What was served does not matter: a token is
  neither recorded nor ever withdrawn.
\<close>

theorem iron_access_by_key:
  assumes "iron_preconfigured L salt code_generator rand_bytes redis = Ok g" and "iron_serves L T g cs g'"
    and "\<not> lk_poisoned (gd_registrar g')" and "iron_route L T c = Some act"
    and "iq_method c = ''GET''" and "iq_path c = ''/''"
  shows "fst (act g') = Ok (IrText 200 ''Hello, world!'') \<longleftrightarrow>
    (\<exists>hasher token gr. cr_new_varkey (fe_crypto L) rand_bytes = Some hasher \<and>
      ih_authorization (iq_http c) = Some (''Bearer '' @ token) \<and>
      iron_grant_of L \<lparr> as_hasher = hasher \<rparr> token = Some gr \<and>
      ck_now (iq_clock c) \<le> g_until gr \<and> tokens (g_scope gr) |\<subseteq>| tokens default_scope)"
proof -
  obtain hasher where h: "cr_new_varkey (fe_crypto L) rand_bytes = Some hasher"
    and start: "iron_signs \<lparr> as_hasher = hasher \<rparr> (guarded_values g)" "guards_agree g"
    using iron_preconfigured_parts [OF assms(1)] by blast
  have signs: "iron_signs \<lparr> as_hasher = hasher \<rparr> (guarded_values g')" and agree: "guards_agree g'"
    using iron_serves_keeps [OF assms(2) start] by simp_all
  have up: "\<not> guards_down g'"
    using assms(3) by (simp add: guards_down_def)
  have act: "act = guarded_run (iron_protected L T c)"
    using assms(4) by (simp add: iron_route_def iron_handler_def assms(5,6))
  have "fst (act g') = fst (iron_protected L T c (guarded_values g'))"
    using guarded_run_up [OF agree up, of "iron_protected L T c"] unfolding act by (metis prod.collapse fst_conv)
  then show ?thesis
    using iron_page_iff [OF signs, of L T c] h by auto
qed

theorem iron_access_by_key_witness:
  "\<exists>c (t :: issued_token) x1 x2 g2 act.
    iron_serves example_iron_lib example_iron_site iron_start [(iron_redeem_call c, x2), (iron_consent_call, x1)] g2 \<and>
    iron_route example_iron_lib example_iron_site (iron_page_call (it_token t)) = Some act \<and>
    fst (act g2) = Ok (IrText 200 ''Hello, world!'')"
proof -
  obtain c x1 x2 g2 gr and t :: issued_token where
    serves: "iron_serves example_iron_lib example_iron_site iron_start [(iron_redeem_call c, x2), (iron_consent_call, x1)] g2"
    and up: "\<not> guards_down g2" and gr: "iron_grant_of example_iron_lib \<lparr> as_hasher = [7] \<rparr> (it_token t) = Some gr"
    "5 \<le> g_until gr" "g_scope gr = default_scope"
    using iron_login by blast
  have "guards_agree g2"
    using iron_serves_keeps [OF serves] iron_preconfigured_parts [OF iron_example_preconfigured] by blast
  then have free: "\<not> lk_poisoned (gd_registrar g2)"
    using up by (simp add: guards_agree_def guards_down_def)
  have route: "iron_route example_iron_lib example_iron_site (iron_page_call (it_token t))
      = Some (guarded_run (iron_protected example_iron_lib example_iron_site (iron_page_call (it_token t))))"
    by (simp add: iron_route_def iron_handler_def iron_call_parts)
  have key: "cr_new_varkey (fe_crypto example_iron_lib) [7] = Some [7]"
    by (simp add: example_iron_lib_def plain_crypto_def)
  note page = iron_access_by_key [OF iron_example_preconfigured serves free route iron_call_parts(6,7)]
  have "fst (guarded_run (iron_protected example_iron_lib example_iron_site (iron_page_call (it_token t))) g2)
      = Ok (IrText 200 ''Hello, world!'')"
    unfolding page using key gr by (auto simp: iron_call_parts)
  then show ?thesis using serves route by blast
qed

end
