(* ===== verification/Spec2Isabelle.thy ===== *)
theory Spec2Isabelle
  imports Refresh Resource Token_Grant Server Db_Registrar Frontends Example_Client Db_Example
    Db_Sources Db_Client Rocket_Example Iron_Example
begin

text \<open>
  Verification of the OAuth 2.0 server library \<open>oxide-auth\<close>, in the version that keeps its
  authorization codes and tokens in Redis and adds an implicit flow and a database registrar.

  \<^bold>\<open>The program.\<close> The crate \<open>oxide-auth\<close> has three layers. \<^emph>\<open>Primitives\<close> keep state: a registrar knows
  the clients and their redirect URLs, an authorizer hands out and redeems authorization codes, an
  issuer hands out and recovers access and refresh tokens. \<^emph>\<open>Protocol machines\<close>
  (\<open>code_grant\<close>, \<open>token_grant\<close>) decide requests: a machine is advanced with the answers of the
  primitives and asks the next question, an executor loop carries questions and answers between the
  machine and an endpoint. \<^emph>\<open>Flows\<close> (\<open>endpoint\<close>) parse web requests, run an executor and turn its
  result into a web response; \<open>frontends/simple\<close> provides endpoints made of exchangeable parts. The
  crate \<open>oxide-auth-async\<close> repeats executors and flows with awaited primitives, \<open>oxide-auth-db\<close> is a
  registrar over Redis and a Scylla database, and four crates bind the flows to web frameworks. The
  example server of the actix binding puts all of it behind five routes, and the example client uses
  them over HTTP.

  \<^bold>\<open>How code is modelled.\<close> A fallible function returns an \<open>outcome\<close>: \<open>Ok\<close>, \<open>Err\<close> or \<open>Panic\<close> (a
  failed \<open>unwrap\<close>, \<open>expect\<close> or assertion, or an overflow where overflow checks are on). A callback
  that may panic, as a solicitor, answers with an option. Code with
  effects is an \<open>action\<close> that threads its state, also through errors and panics. A struct is a record,
  an enum a datatype, a trait object a record of operations. Times are integers counting
  nanoseconds (the panics of \<open>chrono\<close> beyond the year 262143 are left out), the usage counter is a
  64-bit word, hash sets are finite sets with an arbitrary iteration order \<open>it\<close>. Third-party crates (\<open>redis\<close>, \<open>scylla\<close>, \<open>serde_json\<close>, \<open>url\<close>, \<open>argon2\<close>,
  \<open>hmac\<close>, \<open>sha2\<close>, \<open>base64\<close>, \<open>rmp_serde\<close>, the system randomness) are parameters; what is relied on of
  them is stated in locales and predicates (\<open>redis_store\<close>, \<open>client_db\<close>, \<open>codec_ok\<close>, \<open>argon2_ok\<close>,
  \<open>crypto_ok\<close> and others) that are shown to hold of executable instances.

  \<^bold>\<open>Theories\<close>, with the files they model (below \<open>oxide-auth/src\<close> if not said otherwise).
  \<^item> \<open>Prelude\<close>: outcomes, actions, the invariant rules \<open>keeps\<close>, strings, UTF-8, 64-bit arithmetic.
  \<^item> \<open>Scope\<close> (\<open>primitives/scope.rs\<close>), \<open>Grant\<close> (\<open>primitives/grant.rs\<close>), \<open>Errors\<close>
    (\<open>code_grant/error.rs\<close>): the data. Scopes are compared by inclusion, parsing is characterised and
    inverts printing; private extension data is never yielded as public.
  \<^item> \<open>Registrar\<close> (\<open>primitives/registrar.rs\<close>): clients, redirect URLs, password policies, the client
    map. Bound URLs are registered; registered credentials and no others authenticate.
  \<^item> \<open>Redis\<close>, \<open>Codec\<close>: the store as a parameter, and an executable store and serialisation.
  \<^item> \<open>Authorizer\<close> (\<open>primitives/authorizer.rs\<close>): \<open>AuthMap\<close>. A code is redeemed at most once, over every
    sequence of calls, every pattern of store errors and every interleaving of store commands.
  \<^item> \<open>Generator\<close> (\<open>primitives/generator.rs\<close>): random and signed tokens. Extraction inverts signing.
  \<^item> \<open>Issuer\<close> (\<open>primitives/issuer.rs\<close>): \<open>TokenMap\<close> and \<open>TokenSigner\<close>. The entries stay linked, issued
    tokens recover their grant, a refresh replaces exactly the linked access token; revocation does
    not reach the store.
  \<^item> \<open>Access_Token\<close>, \<open>Refresh\<close>, \<open>Resource\<close>, \<open>Authorization\<close> (\<open>code_grant/accesstoken.rs\<close>,
    \<open>refresh.rs\<close>, \<open>resource.rs\<close>, \<open>authorization.rs\<close>): machines and executors. Every loop is shown equal
    to a straight-line specification, from which follow what success implies, what errors leave
    unchanged and where the user agent is sent.
  \<^item> \<open>Pkce\<close> (\<open>code_grant/extensions/pkce.rs\<close>, \<open>frontends/simple/extensions\<close>): addon lists and proof keys.
  \<^item> \<open>Token_Grant\<close> (\<open>token_grant/authorization.rs\<close>): the implicit flow.
  \<^item> \<open>Query\<close> (\<open>endpoint/query.rs\<close>): parameters; one that is given twice counts as absent.
  \<^item> \<open>Endpoint\<close> (the rest of \<open>endpoint\<close>): web requests and responses, the four flows and their replies.
  \<^item> \<open>Simple\<close> (\<open>frontends/simple\<close>): the generic endpoint and its ad-hoc flows.
  \<^item> \<open>Async\<close>, \<open>Async_Endpoint\<close> (\<open>oxide-auth-async/src\<close>): the executors as tasks that yield at every
    await, and the flows. Undisturbed they agree with the synchronous ones; under every schedule
    they finish.
  \<^item> \<open>Server\<close>: client map, \<open>AuthMap\<close> and \<open>TokenMap\<close> behind one endpoint (\<open>State\<close> of the actix example).
    Parallel token requests redeem a code once; consent leads to a code, a token and access.
  \<^item> \<open>Db_Registrar\<close> (\<open>oxide-auth-db/src\<close>): stored clients, the five data sources and the registrar. The
    cache agrees with the database, the registrar is the client map of the database; what is
    registered through the crate's data source is not found.
  \<^item> \<open>Frontends\<close> (\<open>oxide-auth-rocket\<close>, \<open>-iron\<close>, \<open>-rouille\<close>, \<open>-actix\<close>): the bindings to web frameworks. They
    answer alike, and like the simple frontend; an authorization header counts only if it is single.

  \<^item> \<open>Stored\<close>: which grants the store holds. What every flow of an endpoint can add to it: a grant the
    owner consented to, or one of the implicit flow; everything else is taken from it.
  \<^item> \<open>Actix_Server\<close> (\<open>actix-example/src/main.rs\<close>, \<open>examples/support/generic.rs\<close>, messages and replies of
    \<open>oxide-auth-actix/src/lib.rs\<close>): the actor, its handler, the routes and the preconfigured state. Over
    every sequence of calls the stored grants keep their type, and an access goes back to a request
    that authorized it; what counts as consent, and what a \<open>GET\<close> can change.
  \<^item> \<open>Renewal\<close>: a refresh at that server, from the store to the routes.
  \<^item> \<open>Example_Client\<close> (\<open>examples/support/client.rs\<close>, \<open>actix-example/src/support.rs\<close>): the client with its
    tokens behind a lock, and its pages. What failures leave of the tokens; with the server as its
    transport it logs in, and renews its token.
  \<^item> \<open>Db_Sources\<close> (\<open>oxide-auth-db/src/db_service\<close>): the constructors of the data sources, and when they panic.
  \<^item> \<open>Db_Example\<close> (\<open>db-example/src/main.rs\<close>): state, message handler and routes of the database example,
    compared with those of the actix example.
  \<^item> \<open>Db_Client\<close> (\<open>db-example/src/support.rs\<close>): its client, one per worker; a login is only seen by the worker
    that served it.
  \<^item> \<open>Rouille_Example\<close> (\<open>oxide-auth-rouille/examples/rouille.rs\<close>, \<open>examples/support/rouille.rs\<close>): a server
    behind one mutex, with one solicitor for both methods, and the pages of its client. An access goes
    back to a request that authorized it; tokens are sent with the status \<open>404\<close>.
  \<^item> \<open>Guards\<close>: three mutexes that every request locks in one order and a panic poisons together; the
    state of the next two, and what a login over given primitives comes to.
  \<^item> \<open>Rocket_Example\<close> (\<open>oxide-auth-rocket/examples/rocket.rs\<close>, \<open>examples/support/rocket.rs\<close>): the server and
    the pages of its client. An access goes back to a request that authorized it; after the first panic
    the server answers nothing any more.
  \<^item> \<open>Iron_Client\<close> (\<open>examples/support/iron.rs\<close>): a client whose requests run in parallel over two locks, as
    tasks that stop at each lock. Token and text on a page come from one response; the handlers take
    the locks in opposite orders and can block each other for ever.
  \<^item> \<open>Iron_Example\<close> (\<open>oxide-auth-iron/examples/iron.rs\<close>): the server that signs its tokens. Whether the
    page is shown depends on the key and the token, not on what has been served.

  \<^bold>\<open>Interfaces.\<close> Where a component relies on another, the contract is a locale and the provider is
  shown to be an instance: \<open>redis_store\<close> (the executable store), \<open>redirect_registrar\<close> (the client map),
  \<open>authorizer\<close> (\<open>AuthMap\<close>), \<open>token_issuer\<close> (both issuers), \<open>code_addon\<close> (proof keys), \<open>query_parameter\<close>
  (every parameter type), \<open>authorization_server\<close>, \<open>progressing\<close> and \<open>looping\<close> (the asynchronous
  executors), \<open>code_server\<close> and \<open>server_store\<close> (the server), \<open>client_lookup\<close> (every data source),
  \<open>reply_binding\<close> (every frontend). For invariants of the store: \<open>grant_keeper\<close> (authorizer and issuer
  write only what they are given or hold), \<open>calm_endpoint\<close> (replies and errors have no effect),
  \<open>keeper_endpoint\<close> (both, which makes every flow keep the invariant) and \<open>example_site\<close> (the routes);
  the preconfigured server is an instance of each, with the executable store.

  \<^bold>\<open>Loops and bounds.\<close> The executor loops of the synchronous crate are total functions with a measure
  on the state of the machine. The asynchronous ones are driven by a partial function into options,
  and shown to return; ten polls are enough because every turn lowers a measure below ten. The
  number of attempts or the size of any table is not bounded.

  \<^bold>\<open>Not modelled.\<close> Conversions to and from the types of the web frameworks other than actix;
  \<open>frontends/gotham.rs\<close>, which no module of the crate declares, and the client of its example; the
  endpoint of the database example over its own state, because the registrar of the generic endpoint is a
  function of the state and the lookups of the database registrar change its cache; binding sockets,
  starting threads and workers, and opening a browser; logging.
  Expiry of keys in Redis is not modelled: the store keeps what was set for as long as it is looked at.
  A request of the actix server is what the extractors of the framework see of it, and is handled as
  one step, as the actor does; the times of a step are parameters.
\<close>

end
